(* ===== verification/Prelude.thy ===== *)
theory Prelude
  imports Main "HOL-Library.Word" "HOL-Library.Multiset"
begin

text \<open>
  Shared ground of the development: the names of the machine types, the text and byte
  conversions of the C++ standard library the program relies on (\<open>std::to_string\<close> on
  integers, byte/character views of \<open>std::string\<close>), \<open>std::map\<close> as a key-sorted
  association list, and \<open>std::stable_sort\<close> with the contract of its comparator as a locale.
\<close>

unbundle bit_operations_syntax

section \<open>Machine types\<close>

type_synonym byte = "8 word"
type_synonym bytes = "byte list"
type_synonym u32 = "32 word"
type_synonym u64 = "64 word"

text \<open>Signed integers are words too; \<open>sint\<close> reads them in two's complement.\<close>

type_synonym i32 = "32 word"
type_synonym i64 = "64 word"

named_theorems enum_codes "the numeric codes of the enumerations and their decoders"
named_theorems codec_defs "definitions of the binary writers and readers"
named_theorems codec_intros "introduction rules that build a round trip field by field"
named_theorems wf_defs "well-formedness of serialisable values"

section \<open>Little-endian integers\<close>

text \<open>
  The byte loops of the writers (\<open>(v >> (8 * i)) & 0xff\<close> for \<open>i < k\<close>) and of the readers
  (\<open>v |= p[i] << (8 * i)\<close>). They are inverse to each other on the bytes an integer has.
\<close>

definition le_bytes :: "nat \<Rightarrow> 'a::len word \<Rightarrow> bytes" where
  "le_bytes k v = map (\<lambda>i. ucast (drop_bit (8 * i) v AND 0xff)) [0..<k]"

definition le_word :: "bytes \<Rightarrow> 'a::len word" where
  "le_word bs = foldl (\<lambda>v (i, b). v OR push_bit (8 * i) (ucast b)) 0 (enumerate 0 bs)"

lemma mask_8_word: "(0xff::'a::len word) = mask 8"
  by (simp add: mask_eq_exp_minus_1)

fun le_horner :: "bytes \<Rightarrow> 'a::len word" where
  "le_horner [] = 0"
| "le_horner (b # bs) = ucast b OR push_bit 8 (le_horner bs)"

lemma le_fold_horner:
  "foldl (\<lambda>v (i, b). v OR push_bit (8 * i) (ucast b)) a (enumerate k bs) = a OR push_bit (8 * k) (le_horner bs)"
  for a :: "'a::len word"
  by (induction bs arbitrary: a k) (simp_all add: push_bit_or ac_simps)

lemma le_word_horner: "le_word bs = le_horner bs"
  by (simp add: le_word_def le_fold_horner)

lemma le_bytes_Suc: "le_bytes (Suc k) v = ucast (v AND 0xff) # le_bytes k (drop_bit 8 v)"
proof -
  have "[0..<Suc k] = 0 # map Suc [0..<k]" by (simp add: map_Suc_upt upt_conv_Cons del: upt_Suc)
  then show ?thesis by (simp add: le_bytes_def comp_def add.commute del: upt_Suc)
qed

lemma low_byte_or: "ucast (ucast (v AND 0xff) :: byte) OR push_bit 8 (take_bit k (drop_bit 8 v)) = take_bit (8 + k) v"
  for v :: "'a::len word"
proof (rule bit_word_eqI)
  fix n assume "n < LENGTH('a)"
  then show "bit (ucast (ucast (v AND 0xff) :: byte) OR push_bit 8 (take_bit k (drop_bit 8 v))) n = bit (take_bit (8 + k) v) n"
    unfolding mask_8_word by (cases "n < 8") (auto simp: bit_simps)
qed

lemma le_word_bytes: "le_word (le_bytes k v) = take_bit (8 * k) v"
  unfolding le_word_horner
proof (induction k arbitrary: v)
  case 0 then show ?case by (simp add: le_bytes_def)
next
  case (Suc k) then show ?case by (simp add: le_bytes_Suc low_byte_or)
qed

lemma length_le_bytes [simp]: "length (le_bytes k v) = k"
  by (simp add: le_bytes_def)

lemma low_byte: "(ucast ((ucast b OR push_bit 8 w) AND 0xff) :: byte) = b" if "8 \<le> LENGTH('a)" for w :: "'a::len word"
  unfolding mask_8_word by (rule bit_word_eqI) (use that in \<open>auto simp: bit_simps\<close>)
lemma high_bytes:
  "drop_bit 8 (ucast (b::byte) OR push_bit 8 (take_bit (LENGTH('a) - 8) w)) = take_bit (LENGTH('a) - 8) w"
  for w :: "'a::len word"
  by (rule bit_word_eqI) (auto simp: bit_simps dest: bit_imp_le_length)

lemma le_bytes_word: "8 * length bs \<le> LENGTH('a) \<Longrightarrow> le_bytes (length bs) (le_word bs :: 'a::len word) = bs"
  unfolding le_word_horner
proof (induction bs)
  case Nil then show ?case by (simp add: le_bytes_def)
next
  case (Cons b bs) 
  have t: "(le_horner bs :: 'a word) = take_bit (8 * length bs) (le_horner bs)" 
    using Cons le_word_bytes [of "length bs" "le_horner bs :: 'a word"] by (simp add: le_word_horner)
  then have t': "(le_horner bs :: 'a word) = take_bit (LENGTH('a) - 8) (le_horner bs)" using Cons.prems
    by (metis (no_types) take_bit_take_bit min.absorb2 length_Cons mult_Suc_right add_le_imp_le_diff add.commute)
  show ?case using Cons low_byte[of b "le_horner bs :: 'a word"] high_bytes [of b "le_horner bs :: 'a word"] t' by (simp add: le_bytes_Suc)
qed
section \<open>Strings as bytes\<close>

definition byte_of_char :: "char \<Rightarrow> byte" where
  "byte_of_char c = word_of_nat (of_char c)"

definition char_of_byte :: "byte \<Rightarrow> char" where
  "char_of_byte b = char_of (unat b)"

lemma char_of_byte_of_char [simp]: "char_of_byte (byte_of_char c) = c"
proof -
  have "(of_char c :: nat) < 256" by simp
  then have "unat (word_of_nat (of_char c) :: byte) = of_char c"
    by (simp add: unsigned_of_nat take_bit_nat_eq_self_iff)
  then show ?thesis by (simp add: char_of_byte_def byte_of_char_def)
qed

lemma byte_of_char_of_byte [simp]: "byte_of_char (char_of_byte b) = b"
proof -
  have "unat b < 256" using unsigned_less [of b, where ?'a = nat] by simp
  then show ?thesis by (simp add: char_of_byte_def byte_of_char_def)
qed

definition bytes_of_string :: "string \<Rightarrow> bytes" where
  "bytes_of_string s = map byte_of_char s"

definition string_of_bytes :: "bytes \<Rightarrow> string" where
  "string_of_bytes bs = map char_of_byte bs"

lemma string_of_bytes_of_string [simp]: "string_of_bytes (bytes_of_string s) = s"
  by (simp add: string_of_bytes_def bytes_of_string_def comp_def)

lemma bytes_of_string_of_bytes [simp]: "bytes_of_string (string_of_bytes bs) = bs"
  by (simp add: string_of_bytes_def bytes_of_string_def comp_def)

lemma length_bytes_of_string [simp]: "length (bytes_of_string s) = length s"
  by (simp add: bytes_of_string_def)

lemma length_string_of_bytes [simp]: "length (string_of_bytes bs) = length bs"
  by (simp add: string_of_bytes_def)

section \<open>Decimal numbers\<close>

text \<open>\<open>std::to_string\<close> on unsigned and signed integers.\<close>

definition digit_char :: "nat \<Rightarrow> char" where
  "digit_char d = char_of (48 + d)"

fun dec_nat :: "nat \<Rightarrow> string" where
  "dec_nat n = (if n < 10 then [digit_char n] else dec_nat (n div 10) @ [digit_char (n mod 10)])"

declare dec_nat.simps [simp del]

definition dec_int :: "int \<Rightarrow> string" where
  "dec_int i = (if i < 0 then CHR ''-'' # dec_nat (nat (- i)) else dec_nat (nat i))"

definition digit_val :: "char \<Rightarrow> nat" where
  "digit_val c = of_char c - 48"

definition is_digit :: "char \<Rightarrow> bool" where
  "is_digit c \<longleftrightarrow> 48 \<le> (of_char c :: nat) \<and> (of_char c :: nat) \<le> 57"

text \<open>The value of a run of digits, as \<open>std::stoull\<close> and \<open>std::from_chars\<close> read it.\<close>

definition digits_value :: "string \<Rightarrow> nat" where
  "digits_value s = foldl (\<lambda>n c. 10 * n + digit_val c) 0 s"

lemma of_char_digit_char: "d < 10 \<Longrightarrow> (of_char (digit_char d) :: nat) = 48 + d"
  by (simp add: digit_char_def)

lemma digit_val_digit_char [simp]: "d < 10 \<Longrightarrow> digit_val (digit_char d) = d"
  by (simp add: digit_val_def of_char_digit_char)

lemma is_digit_digit_char [simp]: "d < 10 \<Longrightarrow> is_digit (digit_char d)"
  by (simp add: is_digit_def of_char_digit_char)

lemma digits_value_snoc [simp]: "digits_value (s @ [c]) = 10 * digits_value s + digit_val c"
  by (simp add: digits_value_def)

lemma digits_value_dec_nat [simp]: "digits_value (dec_nat n) = n"
proof (induction n rule: dec_nat.induct)
  case (1 n)
  show ?case
  proof (cases "n < 10")
    case True
    then show ?thesis by (simp add: dec_nat.simps [of n] digits_value_def)
  next
    case False
    with 1 show ?thesis by (simp add: dec_nat.simps [of n])
  qed
qed

lemma dec_nat_digits: "\<forall>c \<in> set (dec_nat n). is_digit c"
proof (induction n rule: dec_nat.induct)
  case (1 n)
  then show ?case by (cases "n < 10") (auto simp: dec_nat.simps [of n])
qed

lemma dec_nat_nonempty [simp]: "dec_nat n \<noteq> []"
  by (subst dec_nat.simps) simp

lemma dec_nat_inj [simp]: "dec_nat m = dec_nat n \<longleftrightarrow> m = n"
  by (metis digits_value_dec_nat)

section \<open>\<open>std::map\<close>: key-sorted association lists\<close>

fun smap_put :: "'k::linorder \<Rightarrow> 'v \<Rightarrow> ('k \<times> 'v) list \<Rightarrow> ('k \<times> 'v) list" where
  "smap_put k v [] = [(k, v)]"
| "smap_put k v ((k', v') # xs) =
     (if k < k' then (k, v) # (k', v') # xs
      else if k = k' then (k, v) # xs
      else (k', v') # smap_put k v xs)"

definition smap_ok :: "('k::linorder \<times> 'v) list \<Rightarrow> bool" where
  "smap_ok xs \<longleftrightarrow> sorted_wrt (<) (map fst xs)"

lemma smap_put_keys: "fst ` set (smap_put k v xs) = insert k (fst ` set xs)"
  by (induction k v xs rule: smap_put.induct) auto

lemma smap_put_ok: "smap_ok xs \<Longrightarrow> smap_ok (smap_put k v xs)"
proof (induction k v xs rule: smap_put.induct)
  case (2 k v k' v' xs)
  have "\<forall>x \<in> set (smap_put k v xs). fst x = k \<or> fst x \<in> fst ` set xs"
    using smap_put_keys [of k v xs] by (metis image_eqI insert_iff)
  with 2 show ?case by (force simp: smap_ok_def)
qed (simp add: smap_ok_def)

lemma smap_lookup_put:
  "smap_ok xs \<Longrightarrow> map_of (smap_put k v xs) = (map_of xs)(k \<mapsto> v)"
  by (induction k v xs rule: smap_put.induct) (auto simp: smap_ok_def fun_eq_iff)

lemma smap_put_append:
  "(\<And>k'. k' \<in> fst ` set xs \<Longrightarrow> k' < k) \<Longrightarrow> smap_put k v xs = xs @ [(k, v)]"
  by (induction k v xs rule: smap_put.induct) force+

section \<open>\<open>std::stable_sort\<close>\<close>

text \<open>
  The library promises a stable, sorted permutation when the comparator is a strict weak
  order on the elements. Insertion keeps that promise; \<open>stable_sort_unique\<close> below shows that
  the promise determines the result, so the choice of algorithm does not matter.
\<close>

fun insert_by :: "('a \<Rightarrow> 'a \<Rightarrow> bool) \<Rightarrow> 'a \<Rightarrow> 'a list \<Rightarrow> 'a list" where
  "insert_by lt x [] = [x]"
| "insert_by lt x (y # ys) = (if lt y x then y # insert_by lt x ys else x # y # ys)"

fun stable_sort :: "('a \<Rightarrow> 'a \<Rightarrow> bool) \<Rightarrow> 'a list \<Rightarrow> 'a list" where
  "stable_sort lt [] = []"
| "stable_sort lt (x # xs) = insert_by lt x (stable_sort lt xs)"

lemma mset_insert_by [simp]: "mset (insert_by lt x ys) = add_mset x (mset ys)"
  by (induction ys) auto

lemma mset_stable_sort [simp]: "mset (stable_sort lt xs) = mset xs"
  by (induction xs) auto

lemma set_stable_sort [simp]: "set (stable_sort lt xs) = set xs"
  by (metis mset_stable_sort set_mset_mset)

lemma length_stable_sort [simp]: "length (stable_sort lt xs) = length xs"
  by (metis mset_stable_sort size_mset)

lemma set_insert_by [simp]: "set (insert_by lt x ys) = insert x (set ys)"
  by (metis mset_insert_by set_mset_mset set_mset_add_mset_insert)

definition sorted_by :: "('a \<Rightarrow> 'a \<Rightarrow> bool) \<Rightarrow> 'a list \<Rightarrow> bool" where
  "sorted_by lt xs \<longleftrightarrow> sorted_wrt (\<lambda>a b. \<not> lt b a) xs"

text \<open>The requirements the C++ standard puts on a comparator, on the elements of \<open>dom\<close>.\<close>

locale strict_weak_order =
  fixes dom :: "'a \<Rightarrow> bool"
    and lt :: "'a \<Rightarrow> 'a \<Rightarrow> bool"
  assumes lt_irrefl: "dom a \<Longrightarrow> \<not> lt a a"
    and lt_trans: "dom a \<Longrightarrow> dom b \<Longrightarrow> dom c \<Longrightarrow> lt a b \<Longrightarrow> lt b c \<Longrightarrow> lt a c"
    and incomp_trans:
      "dom a \<Longrightarrow> dom b \<Longrightarrow> dom c \<Longrightarrow> \<not> lt a b \<Longrightarrow> \<not> lt b a \<Longrightarrow> \<not> lt b c \<Longrightarrow> \<not> lt c b \<Longrightarrow>
       \<not> lt a c \<and> \<not> lt c a"
begin

lemma lt_asym: "dom a \<Longrightarrow> dom b \<Longrightarrow> lt a b \<Longrightarrow> \<not> lt b a"
  using lt_irrefl lt_trans by blast

lemma ge_trans:
  "dom a \<Longrightarrow> dom b \<Longrightarrow> dom c \<Longrightarrow> \<not> lt b a \<Longrightarrow> \<not> lt c b \<Longrightarrow> \<not> lt c a"
  by (metis incomp_trans lt_trans lt_irrefl)

lemma insert_by_sorted:
  assumes "dom x" "\<forall>y \<in> set ys. dom y" "sorted_by lt ys"
  shows "sorted_by lt (insert_by lt x ys)"
  using assms
proof (induction ys)
  case Nil
  then show ?case by (simp add: sorted_by_def)
next
  case (Cons y ys)
  show ?case
  proof (cases "lt y x")
    case True
    with Cons show ?thesis
      by (auto simp: sorted_by_def dest: lt_asym)
  next
    case False
    with Cons.prems have "\<forall>z \<in> set ys. \<not> lt z x"
      by (auto simp: sorted_by_def dest: ge_trans [of x y])
    with False Cons.prems show ?thesis by (simp add: sorted_by_def)
  qed
qed

lemma sort_sorted: "\<forall>x \<in> set xs. dom x \<Longrightarrow> sorted_by lt (stable_sort lt xs)"
  by (induction xs) (auto simp: sorted_by_def insert_by_sorted [unfolded sorted_by_def])

text \<open>Stability: elements the comparator cannot tell apart keep their order.\<close>

abbreviation equiv_to :: "'a \<Rightarrow> 'a \<Rightarrow> bool" where
  "equiv_to a b \<equiv> \<not> lt a b \<and> \<not> lt b a"

lemma insert_by_stable:
  assumes "dom a" "dom x" "\<forall>y \<in> set ys. dom y"
  shows "filter (equiv_to a) (insert_by lt x ys) = filter (equiv_to a) (x # ys)"
  using assms
proof (induction ys)
  case (Cons y ys)
  have "\<not> (equiv_to a x \<and> equiv_to a y)" if "lt y x"
    using that Cons.prems by (metis incomp_trans list.set_intros(1))
  with Cons show ?case by auto
qed simp

lemma sort_stable:
  assumes "dom a" "\<forall>x \<in> set xs. dom x"
  shows "filter (equiv_to a) (stable_sort lt xs) = filter (equiv_to a) xs"
  using assms(2)
proof (induction xs)
  case (Cons x xs)
  then show ?case using assms(1) by (simp add: insert_by_stable)
qed simp

text \<open>Sorted and stable determines the list.\<close>

lemma sorted_hd_equiv:
  assumes "\<forall>z \<in> set (x # xs). dom z" "\<forall>z \<in> set (y # ys). dom z"
    and "sorted_by lt (x # xs)" "sorted_by lt (y # ys)" "mset (x # xs) = mset (y # ys)"
  shows "equiv_to x y"
proof -
  have "x \<in> set (y # ys)" "y \<in> set (x # xs)"
    using assms(5) by (metis list.set_intros(1) set_mset_mset)+
  then show ?thesis using assms by (auto simp: sorted_by_def lt_irrefl)
qed

lemma sort_unique:
  assumes "\<forall>x \<in> set xs. dom x" "mset xs = mset ys" "sorted_by lt xs" "sorted_by lt ys"
    and "\<And>a. dom a \<Longrightarrow> filter (equiv_to a) xs = filter (equiv_to a) ys"
  shows "xs = ys"
  using assms
proof (induction xs arbitrary: ys)
  case (Cons x xs)
  from Cons.prems(2) obtain y ys' where ys: "ys = y # ys'" by (cases ys) auto
  have dys: "\<forall>z \<in> set ys. dom z" using Cons.prems(1,2) by (metis set_mset_mset)
  have "equiv_to x y"
    by (rule sorted_hd_equiv [of x xs y ys']) (use Cons.prems dys ys in auto)
  moreover have "dom x" using Cons.prems(1) by simp
  ultimately have "x = y"
    using Cons.prems(5) [of x] ys lt_irrefl [of x] by simp
  moreover have "xs = ys'"
  proof (rule Cons.IH)
    show "filter (equiv_to a) xs = filter (equiv_to a) ys'" if "dom a" for a
      using Cons.prems(5) [OF that] ys \<open>x = y\<close> by (auto split: if_splits)
  qed (use Cons.prems ys \<open>x = y\<close> in \<open>auto simp: sorted_by_def\<close>)
  ultimately show ?case using ys by simp
qed simp

lemma stable_sort_determined:
  assumes "\<forall>x \<in> set xs. dom x" "mset ys = mset xs" "sorted_by lt ys"
    and "\<And>a. dom a \<Longrightarrow> filter (equiv_to a) ys = filter (equiv_to a) xs"
  shows "ys = stable_sort lt xs"
proof (rule sort_unique)
  show "\<forall>x \<in> set ys. dom x" using assms(1,2) by (metis set_mset_mset)
qed (use assms in \<open>auto simp: sort_sorted sort_stable\<close>)

text \<open>Where distinct elements are always comparable, the order of the input is irrelevant.\<close>

lemma sort_permutation_invariant:
  assumes "\<forall>x \<in> set xs. dom x" "mset xs = mset ys"
    and total: "\<And>a b. a \<in> set xs \<Longrightarrow> b \<in> set xs \<Longrightarrow> equiv_to a b \<Longrightarrow> a = b"
  shows "stable_sort lt xs = stable_sort lt ys"
  using assms
proof -
  have *: "us = vs" if "mset us = mset vs" "sorted_by lt us" "sorted_by lt vs"
    "set us \<subseteq> set xs" for us vs
    using that
  proof (induction us arbitrary: vs)
    case (Cons u us)
    from Cons.prems(1) obtain v vs' where vs: "vs = v # vs'" by (cases vs) auto
    have sub: "set vs \<subseteq> set xs" using Cons.prems(1,4) by (metis set_mset_mset)
    have "equiv_to u v"
      by (rule sorted_hd_equiv [of u us v vs']) (use Cons.prems vs assms(1) sub in auto)
    then have "u = v" using total Cons.prems(4) sub vs by auto
    moreover have "us = vs'"
      by (rule Cons.IH) (use Cons.prems vs \<open>u = v\<close> in \<open>auto simp: sorted_by_def\<close>)
    ultimately show ?case using vs by simp
  qed simp
  have "set xs = set ys" using assms(2) by (metis set_mset_mset)
  then show ?thesis
    by (intro *) (use assms in \<open>auto simp: sort_sorted\<close>)
qed

end

text \<open>Comparators that compare keys of a linear order. For them \<open>std::stable_sort\<close> is the sorting function of the library.\<close>

lemma insert_by_insort: "insert_by (\<lambda>a b. k a < k b) x ys = insort_key k x ys"
  for k :: "'a \<Rightarrow> 'b::linorder"
  by (induction ys) (auto simp: not_less)

lemma stable_sort_sort_key: "stable_sort (\<lambda>a b. k a < k b) xs = sort_key k xs"
  for k :: "'a \<Rightarrow> 'b::linorder"
  by (induction xs) (simp_all add: insert_by_insort)

lemma insert_by_cong:
  "(\<And>y. y \<in> set ys \<Longrightarrow> lt y x = lt' y x) \<Longrightarrow> insert_by lt x ys = insert_by lt' x ys"
  by (induction ys) auto

lemma stable_sort_cong:
  "(\<And>x y. x \<in> set xs \<Longrightarrow> y \<in> set xs \<Longrightarrow> lt x y = lt' x y) \<Longrightarrow> stable_sort lt xs = stable_sort lt' xs"
  by (induction xs) (auto intro!: insert_by_cong)

locale keyed_comparator =
  fixes dom :: "'a \<Rightarrow> bool"
    and lt :: "'a \<Rightarrow> 'a \<Rightarrow> bool"
    and key :: "'a \<Rightarrow> 'b::linorder"
  assumes lt_key: "dom a \<Longrightarrow> dom b \<Longrightarrow> lt a b \<longleftrightarrow> key a < key b"
begin

lemma sorts_by_key: "\<forall>x \<in> set xs. dom x \<Longrightarrow> stable_sort lt xs = sort_key key xs"
  using stable_sort_sort_key [of key xs] stable_sort_cong [of xs lt "\<lambda>a b. key a < key b"] by (simp add: lt_key)

text \<open>The order of the elements does not matter when no two have the same key.\<close>

lemma sorted_once:
  assumes "\<forall>x \<in> set xs. dom x" "mset xs = mset ys" "distinct (map key xs)"
  shows "stable_sort lt xs = stable_sort lt ys"
proof -
  have s: "set xs = set ys" "distinct (map key ys)"
    using assms(2,3) mset_eq_setD mset_eq_imp_distinct_iff [of "map key xs" "map key ys"] by auto
  have "inj_on key (set xs)" using assms(3) by (simp add: distinct_map)
  moreover have "distinct (map key (sort_key key zs)) = distinct (map key zs)" for zs
    by (rule mset_eq_imp_distinct_iff) simp
  ultimately have "sort_key key xs = sort_key key ys"
    using s assms(3) by (intro map_sorted_distinct_set_unique [of key]) simp_all
  then show ?thesis using sorts_by_key assms(1) s(1) by simp
qed

end

sublocale keyed_comparator \<subseteq> strict_weak_order dom lt
  by unfold_locales (auto simp: lt_key)

end
