(* ===== verification/Sha256.thy ===== *)
theory Sha256
  imports Prelude
begin

text \<open>
  \<open>util/hash.hpp\<close>: the streaming SHA-256 of the digests and record checksums. The object keeps
  the eight chaining words, the bytes of the block being filled (\<open>block_[0 .. len_)\<close>) and the
  number of bytes seen; \<open>sha_update\<close> compresses each full block, \<open>sha_finish\<close> pads. The lemmas
  show that the streaming object computes the textbook function: pad the whole message, cut
  it into 64-byte blocks and fold the compression function over them.
\<close>

unbundle bit_operations_syntax

section \<open>The object\<close>

record Sha256 =
  sha_h :: "u32 list"
  sha_block :: bytes
  sha_total :: u64

definition sha_initial :: "u32 list" where
  "sha_initial =
     [0x6a09e667, 0xbb67ae85, 0x3c6ef372, 0xa54ff53a,
      0x510e527f, 0x9b05688c, 0x1f83d9ab, 0x5be0cd19]"

definition sha_reset :: Sha256 where
  "sha_reset = \<lparr>sha_h = sha_initial, sha_block = [], sha_total = 0\<rparr>"

definition sha_K :: "u32 list" where
  "sha_K =
     [0x428A2F98,0x71374491,0xB5C0FBCF,0xE9B5DBA5,0x3956C25B,0x59F111F1,0x923F82A4,0xAB1C5ED5,
      0xD807AA98,0x12835B01,0x243185BE,0x550C7DC3,0x72BE5D74,0x80DEB1FE,0x9BDC06A7,0xC19BF174,
      0xE49B69C1,0xEFBE4786,0x0FC19DC6,0x240CA1CC,0x2DE92C6F,0x4A7484AA,0x5CB0A9DC,0x76F988DA,
      0x983E5152,0xA831C66D,0xB00327C8,0xBF597FC7,0xC6E00BF3,0xD5A79147,0x06CA6351,0x14292967,
      0x27B70A85,0x2E1B2138,0x4D2C6DFC,0x53380D13,0x650A7354,0x766A0ABB,0x81C2C92E,0x92722C85,
      0xA2BFE8A1,0xA81A664B,0xC24B8B70,0xC76C51A3,0xD192E819,0xD6990624,0xF40E3585,0x106AA070,
      0x19A4C116,0x1E376C08,0x2748774C,0x34B0BCB5,0x391C0CB3,0x4ED8AA4A,0x5B9CCA4F,0x682E6FF3,
      0x748F82EE,0x78A5636F,0x84C87814,0x8CC70208,0x90BEFFFA,0xA4506CEB,0xBEF9A3F7,0xC67178F2]"

section \<open>The compression function\<close>

definition rotr :: "u32 \<Rightarrow> nat \<Rightarrow> u32" where
  "rotr x n = drop_bit n x OR push_bit (32 - n) x"

definition sha_load :: "bytes \<Rightarrow> u32 list" where
  "sha_load blk =
     map (\<lambda>i. push_bit 24 (ucast (blk ! (i * 4))) OR push_bit 16 (ucast (blk ! (i * 4 + 1))) OR
              push_bit 8 (ucast (blk ! (i * 4 + 2))) OR ucast (blk ! (i * 4 + 3))) [0..<16]"

definition sha_extend :: "u32 list \<Rightarrow> nat \<Rightarrow> u32 list" where
  "sha_extend w i =
     (let x = w ! (i - 15); y = w ! (i - 2);
          s0 = rotr x 7 XOR rotr x 18 XOR drop_bit 3 x;
          s1 = rotr y 17 XOR rotr y 19 XOR drop_bit 10 y
      in w @ [w ! (i - 16) + s0 + w ! (i - 7) + s1])"

definition sha_schedule :: "bytes \<Rightarrow> u32 list" where
  "sha_schedule blk = foldl sha_extend (sha_load blk) [16..<64]"

type_synonym sha_vars = "u32 \<times> u32 \<times> u32 \<times> u32 \<times> u32 \<times> u32 \<times> u32 \<times> u32"

fun sha_round :: "sha_vars \<Rightarrow> u32 \<times> u32 \<Rightarrow> sha_vars" where
  "sha_round (a, b, c, d, e, f, g, h) (k, w) =
     (let S1 = rotr e 6 XOR rotr e 11 XOR rotr e 25;
          ch = (e AND f) XOR (NOT e AND g);
          t1 = h + S1 + ch + k + w;
          S0 = rotr a 2 XOR rotr a 13 XOR rotr a 22;
          maj = (a AND b) XOR (a AND c) XOR (b AND c);
          t2 = S0 + maj
      in (t1 + t2, a, b, c, d + t1, e, f, g))"

definition sha_process :: "u32 list \<Rightarrow> bytes \<Rightarrow> u32 list" where
  "sha_process H blk =
     (case foldl sha_round (H ! 0, H ! 1, H ! 2, H ! 3, H ! 4, H ! 5, H ! 6, H ! 7)
             (zip sha_K (sha_schedule blk)) of
        (a, b, c, d, e, f, g, h) \<Rightarrow>
          [H ! 0 + a, H ! 1 + b, H ! 2 + c, H ! 3 + d, H ! 4 + e, H ! 5 + f, H ! 6 + g, H ! 7 + h])"

section \<open>Streaming\<close>

definition sha_push :: "u32 list \<times> bytes \<Rightarrow> byte \<Rightarrow> u32 list \<times> bytes" where
  "sha_push s b =
     (let blk = snd s @ [b]
      in if length blk = 64 then (sha_process (fst s) blk, []) else (fst s, blk))"

definition sha_update :: "Sha256 \<Rightarrow> bytes \<Rightarrow> Sha256" where
  "sha_update s data =
     (let (h, blk) = foldl sha_push (sha_h s, sha_block s) data
      in \<lparr>sha_h = h, sha_block = blk, sha_total = sha_total s + of_nat (length data)\<rparr>)"

text \<open>
  The padding loop of \<open>finish\<close>: \<open>while (len_ != 56)\<close>, flushing a full block before the next
  zero. The buffer never holds more than 64 bytes, so the last branch is not reached.
\<close>

function sha_pad :: "u32 list \<Rightarrow> bytes \<Rightarrow> u32 list \<times> bytes" where
  "sha_pad h blk =
     (if length blk = 56 then (h, blk)
      else if length blk = 64 then sha_pad (sha_process h blk) [0]
      else if length blk < 64 then sha_pad h (blk @ [0])
      else (h, blk))"
  by pat_completeness auto
termination
  by (relation "measure (\<lambda>(h, blk). if length blk \<le> 56 then 56 - length blk else 121 - length blk)") auto

declare sha_pad.simps [simp del]

definition be64 :: "u64 \<Rightarrow> bytes" where
  "be64 n = map (\<lambda>i. ucast (drop_bit (56 - 8 * i) n AND 0xff)) [0..<8]"

definition be32 :: "u32 \<Rightarrow> bytes" where
  "be32 x = [ucast (drop_bit 24 x AND 0xff), ucast (drop_bit 16 x AND 0xff),
             ucast (drop_bit 8 x AND 0xff), ucast (x AND 0xff)]"

definition sha_finish :: "Sha256 \<Rightarrow> bytes" where
  "sha_finish s =
     (let bitlen = sha_total s * 8;
          (h, blk) = sha_pad (sha_h s) (sha_block s @ [0x80])
      in concat (map be32 (sha_process h (blk @ be64 bitlen))))"

definition sha256_digest :: "bytes \<Rightarrow> bytes" where
  "sha256_digest data = sha_finish (sha_update sha_reset data)"

definition hex_digit :: "nat \<Rightarrow> char" where
  "hex_digit n = ''0123456789abcdef'' ! n"

definition hex :: "bytes \<Rightarrow> string" where
  "hex d = concat (map (\<lambda>b. [hex_digit (unat (drop_bit 4 b)), hex_digit (unat (b AND 0xf))]) d)"

section \<open>The textbook function\<close>

function blocks64 :: "bytes \<Rightarrow> bytes list" where
  "blocks64 m = (if length m < 64 then [] else take 64 m # blocks64 (drop 64 m))"
  by pat_completeness auto
termination
  by (relation "measure length") auto

function tail64 :: "bytes \<Rightarrow> bytes" where
  "tail64 m = (if length m < 64 then m else tail64 (drop 64 m))"
  by pat_completeness auto
termination
  by (relation "measure length") auto

declare blocks64.simps [simp del] tail64.simps [simp del]

definition sha_padding :: "nat \<Rightarrow> bytes" where
  "sha_padding len = [0x80] @ replicate ((119 - len mod 64) mod 64) 0 @ be64 (of_nat (8 * len))"

definition sha256_spec :: "bytes \<Rightarrow> bytes" where
  "sha256_spec m =
     concat (map be32 (foldl sha_process sha_initial (blocks64 (m @ sha_padding (length m)))))"

section \<open>The streaming object computes it\<close>

lemma blocks64_short [simp]: "length m < 64 \<Longrightarrow> blocks64 m = []"
  by (simp add: blocks64.simps [of m])

lemma tail64_short [simp]: "length m < 64 \<Longrightarrow> tail64 m = m"
  by (simp add: tail64.simps [of m])

lemma blocks64_full: "length b = 64 \<Longrightarrow> blocks64 (b @ m) = b # blocks64 m"
  by (simp add: blocks64.simps [of "b @ m"])

lemma tail64_full: "length b = 64 \<Longrightarrow> tail64 (b @ m) = tail64 m"
  by (simp add: tail64.simps [of "b @ m"])

lemma length_tail64: "length (tail64 m) = length m mod 64"
proof (induction m rule: tail64.induct)
  case (1 m)
  show ?case
  proof (cases "length m < 64")
    case False
    then have "length (drop 64 m) mod 64 = length m mod 64" by (simp add: le_mod_geq)
    with False 1 show ?thesis by (simp add: tail64.simps [of m])
  qed simp
qed

lemma feed_eq:
  "length blk < 64 \<Longrightarrow>
   foldl sha_push (h, blk) bs = (foldl sha_process h (blocks64 (blk @ bs)), tail64 (blk @ bs))"
proof (induction bs arbitrary: h blk)
  case Nil
  then show ?case by simp
next
  case (Cons b bs)
  show ?case
  proof (cases "length blk = 63")
    case True
    then have "foldl sha_push (h, blk) (b # bs) = foldl sha_push (sha_process h (blk @ [b]), []) bs"
      by (simp add: sha_push_def)
    also have "\<dots> = (foldl sha_process (sha_process h (blk @ [b])) (blocks64 bs), tail64 bs)"
      using Cons.IH [of "[]"] by simp
    finally show ?thesis
      using True blocks64_full [of "blk @ [b]" bs] tail64_full [of "blk @ [b]" bs] by simp
  next
    case False
    with Cons.prems have "length (blk @ [b]) < 64" by simp
    then have "foldl sha_push (h, blk @ [b]) bs =
        (foldl sha_process h (blocks64 ((blk @ [b]) @ bs)), tail64 ((blk @ [b]) @ bs))"
      by (rule Cons.IH)
    moreover have "sha_push (h, blk) b = (h, blk @ [b])" using False by (simp add: sha_push_def)
    ultimately show ?thesis by simp
  qed
qed

text \<open>The padding loop feeds zeros until 56 bytes stand in the block.\<close>

definition flushed :: "u32 list \<times> bytes \<Rightarrow> u32 list \<times> bytes" where
  "flushed s = (if length (snd s) = 64 then (sha_process (fst s) (snd s), []) else s)"

lemma mod64_minus: "l < 56 \<Longrightarrow> (64 + k - l) mod 64 = k - l" if "56 \<le> k + 1" "k < 64" for k l :: nat
  using that by (simp add: mod_if)

lemma pad_count:
  assumes "l < 64" "l \<noteq> 56"
  shows "(120 - l) mod 64 = Suc ((119 - l) mod (64::nat))"
proof (cases "l < 56")
  case True
  then show ?thesis using mod64_minus [of 56 l] mod64_minus [of 55 l] by simp
next
  case False
  with assms show ?thesis by simp
qed

lemma pad_total: "(l + (1 + (119 - l) mod 64)) mod 64 = (56::nat)" if "l < 64"
proof (cases "l < 56")
  case True
  then show ?thesis using mod64_minus [of 55 l] by simp
next
  case False
  with that show ?thesis by simp
qed

lemma padded_long: "64 \<le> l + (1 + ((119 - l mod 64) mod 64 + 8 :: nat))"
proof (cases "l < 64")
  case True
  then show ?thesis using pad_total [OF True] by (simp; presburger)
qed simp

lemma sha_pad_feed:
  "length blk \<le> 64 \<Longrightarrow>
   sha_pad h blk = foldl sha_push (flushed (h, blk)) (replicate ((120 - length blk) mod 64) 0)"
proof (induction h blk rule: sha_pad.induct)
  case (1 h blk)
  consider (fin) "length blk = 56" | (full) "length blk = 64" | (more) "length blk < 64" "length blk \<noteq> 56"
    using "1.prems" by linarith
  then show ?case
  proof cases
    case fin
    then show ?thesis by (simp add: sha_pad.simps [of h blk] flushed_def)
  next
    case full
    then have "sha_pad h blk = foldl sha_push (sha_process h blk, [0]) (replicate 55 0)"
      using "1.IH"(1) by (simp add: sha_pad.simps [of h blk] flushed_def)
    also have "\<dots> = foldl sha_push (sha_process h blk, []) (0 # replicate 55 0)"
      by (simp add: sha_push_def)
    also have "0 # replicate 55 0 = replicate 56 (0::byte)" by (simp add: numeral_eq_Suc)
    finally show ?thesis using full by (simp add: flushed_def)
  next
    case more
    let ?k = "(120 - length (blk @ [0])) mod 64"
    have k: "(120 - length blk) mod 64 = Suc ?k"
      using more pad_count [of "length blk"] by simp
    have "sha_pad h blk = foldl sha_push (flushed (h, blk @ [0])) (replicate ?k 0)"
      using more "1.IH"(2) by (simp add: sha_pad.simps [of h blk])
    also have "flushed (h, blk @ [0]) = sha_push (h, blk) 0"
      using more by (simp add: flushed_def sha_push_def)
    finally show ?thesis using more k by (simp add: flushed_def)
  qed
qed

lemma length_be64 [simp]: "length (be64 n) = 8"
  by (simp add: be64_def)

lemma length_be32 [simp]: "length (be32 n) = 4"
  by (simp add: be32_def)

lemma length_sha_process [simp]: "length (sha_process H blk) = 8"
  by (auto simp: sha_process_def split: prod.splits)

lemma feed_length: "length blk < 64 \<Longrightarrow> length (snd (foldl sha_push (h, blk) bs)) < 64"
  by (simp add: feed_eq length_tail64)

lemma finish_feed:
  assumes "length blk < 64"
  shows "sha_process (fst (sha_pad h (blk @ [0x80]))) (snd (sha_pad h (blk @ [0x80])) @ be64 n) =
         fst (foldl sha_push (h, blk)
               ([0x80] @ replicate ((119 - length blk) mod 64) 0 @ be64 n))"
proof -
  let ?r = "replicate ((119 - length blk) mod 64) 0"
  have p: "sha_pad h (blk @ [0x80]) = foldl sha_push (h, blk) ([0x80] @ ?r)"
    using assms sha_pad_feed [of "blk @ [0x80]" h] by (simp add: flushed_def sha_push_def)
  obtain h' blk' where hb: "foldl sha_push (h, blk) ([0x80] @ ?r) = (h', blk')"
    by (metis surj_pair)
  have "length (blk @ [0x80] @ ?r) mod 64 = 56"
    using pad_total [OF assms] by simp
  then have l: "length blk' = 56"
    using hb feed_eq [OF assms, of h "[0x80] @ ?r"] length_tail64 by simp
  have "foldl sha_push (h', blk') (be64 n) = (foldl sha_process h' (blocks64 (blk' @ be64 n)), tail64 (blk' @ be64 n))"
    using l by (intro feed_eq) simp
  also have "blocks64 (blk' @ be64 n) = [blk' @ be64 n]"
    using l blocks64_full [of "blk' @ be64 n" "[]"] by simp
  finally have "fst (foldl sha_push (h', blk') (be64 n)) = sha_process h' (blk' @ be64 n)" by simp
  moreover have "foldl sha_push (h, blk) (([0x80] @ ?r) @ be64 n) = foldl sha_push (h', blk') (be64 n)"
    by (simp only: foldl_append [of _ _ "[0x80] @ ?r"] hb)
  ultimately show ?thesis using p hb by simp
qed

lemma sha_update_append: "sha_update (sha_update s a) b = sha_update s (a @ b)"
  by (simp add: sha_update_def split: prod.split)

lemma sha256_digest_spec: "sha256_digest m = sha256_spec m"
proof -
  let ?h = "foldl sha_process sha_initial (blocks64 m)" and ?b = "tail64 m"
  have st: "sha_update sha_reset m = \<lparr>sha_h = ?h, sha_block = ?b, sha_total = of_nat (length m)\<rparr>"
    using feed_eq [of "[]" sha_initial m] by (simp add: sha_update_def sha_reset_def)
  have pad: "[0x80] @ replicate ((119 - length ?b) mod 64) 0 @ be64 (of_nat (length m) * 8) =
             sha_padding (length m)"
    by (simp add: sha_padding_def length_tail64 mult.commute)
  have "foldl sha_push (?h, ?b) (sha_padding (length m)) =
        foldl sha_push (sha_initial, []) (m @ sha_padding (length m))"
    using feed_eq [of "[]" sha_initial m] by simp
  then have "fst (foldl sha_push (?h, ?b) (sha_padding (length m))) =
             foldl sha_process sha_initial (blocks64 (m @ sha_padding (length m)))"
    using feed_eq [of "[]" sha_initial "m @ sha_padding (length m)"] by simp
  moreover have "sha_process (fst (sha_pad ?h (?b @ [0x80])))
        (snd (sha_pad ?h (?b @ [0x80])) @ be64 (of_nat (length m) * 8)) =
      fst (foldl sha_push (?h, ?b) (sha_padding (length m)))"
    unfolding pad [symmetric] by (rule finish_feed) (simp add: length_tail64)
  moreover have "sha256_digest m = concat (map be32 (sha_process (fst (sha_pad ?h (?b @ [0x80])))
        (snd (sha_pad ?h (?b @ [0x80])) @ be64 (of_nat (length m) * 8))))"
    by (simp add: sha256_digest_def sha_finish_def st case_prod_beta)
  ultimately show ?thesis by (simp only: sha256_spec_def)
qed

lemma length_sha256_spec [simp]: "length (sha256_spec m) = 32"
proof -
  have "blocks64 (m @ sha_padding (length m)) \<noteq> []"
  proof -
    have "64 \<le> length (m @ sha_padding (length m))"
      using padded_long [of "length m"] by (simp add: sha_padding_def)
    then show ?thesis by (simp add: blocks64.simps [of "m @ sha_padding (length m)"])
  qed
  then obtain bs b where "blocks64 (m @ sha_padding (length m)) = bs @ [b]"
    by (metis rev_exhaust)
  then show ?thesis by (simp add: sha256_spec_def length_concat comp_def sum_list_triv)
qed

lemma length_sha256 [simp]: "length (sha256_digest m) = 32"
  by (simp add: sha256_digest_spec)


end
