(* ===== verification/Enums.thy ===== *)
theory Enums
  imports Prelude
begin

text \<open>
  \<open>core/enums.hpp\<close>: the enumerations with the numeric codes the serialised formats carry.
  Every enumeration has \<open>std::uint8_t\<close> as its underlying type and the readers build one with
  \<open>static_cast\<close> from whatever byte they find, so a value need not be an enumerator: the
  constructor \<open>Other\<close> stands for such a value. \<open>X_code\<close> is the cast to the underlying type,
  \<open>X_of\<close> the cast from it and \<open>X_wf\<close> says that a value is one the cast can produce (not an
  \<open>Other\<close> holding the code of an enumerator). \<open>None\<close> of the source is written \<open>None_v\<close>.
\<close>

section \<open>Casts between bytes and enumerations\<close>

definition enum_of :: "'e list \<Rightarrow> ('e \<Rightarrow> byte) \<Rightarrow> (byte \<Rightarrow> 'e) \<Rightarrow> byte \<Rightarrow> 'e" where
  "enum_of all code oth b = (case find (\<lambda>e. code e = b) all of Some e \<Rightarrow> e | None \<Rightarrow> oth b)"

locale u8_enum =
  fixes all :: "'e list"
    and code :: "'e \<Rightarrow> byte"
    and oth :: "byte \<Rightarrow> 'e"
  assumes code_oth: "code (oth b) = b"
    and distinct_codes: "distinct (map code all)"
begin

lemma code_of: "code (enum_of all code oth b) = b"
  by (auto simp: enum_of_def code_oth find_Some_iff split: option.split)

lemma of_code_named: "e \<in> set all \<Longrightarrow> enum_of all code oth (code e) = e"
  using distinct_codes
  by (auto simp: enum_of_def find_Some_iff find_None_iff distinct_map inj_on_def split: option.split)

lemma of_inj: "enum_of all code oth a = enum_of all code oth b \<longleftrightarrow> a = b"
  by (metis code_of)

lemma of_code_of: "enum_of all code oth (code (enum_of all code oth b)) = enum_of all code oth b"
  by (simp add: code_of)

end

section \<open>The enumerations\<close>

datatype Classification =
    Unknown
  | Measured
  | Reported
  | Derived
  | Estimated
  | Other byte

primrec Classification_code :: "Classification \<Rightarrow> byte" where
  "Classification_code Classification.Unknown = 0"
| "Classification_code Classification.Measured = 1"
| "Classification_code Classification.Reported = 2"
| "Classification_code Classification.Derived = 3"
| "Classification_code Classification.Estimated = 4"
| "Classification_code (Classification.Other b) = b"

definition Classification_all :: "Classification list" where
  "Classification_all = [Classification.Unknown,
     Classification.Measured,
     Classification.Reported,
     Classification.Derived,
     Classification.Estimated]"

definition Classification_of :: "byte \<Rightarrow> Classification" where
  "Classification_of b = enum_of Classification_all Classification_code Classification.Other b"

definition Classification_wf :: "Classification \<Rightarrow> bool" where
  "Classification_wf e \<longleftrightarrow> Classification_of (Classification_code e) = e"

interpretation en_Classification: u8_enum Classification_all Classification_code Classification.Other
  by unfold_locales (simp_all add: Classification_all_def)

lemma Classification_code_of [simp, enum_codes]: "Classification_code (Classification_of b) = b"
  unfolding Classification_of_def by (rule en_Classification.code_of)

lemma Classification_wf_of [simp, intro]: "Classification_wf (Classification_of b)"
  by (simp add: Classification_wf_def)

lemma Classification_wf_named: "e \<in> set Classification_all \<Longrightarrow> Classification_wf e"
  unfolding Classification_wf_def Classification_of_def by (rule en_Classification.of_code_named)

datatype SourceType =
    System
  | Process
  | Cuda
  | Synthetic
  | TraceFile
  | Multiprocess
  | Provider
  | Other byte

primrec SourceType_code :: "SourceType \<Rightarrow> byte" where
  "SourceType_code SourceType.System = 0"
| "SourceType_code SourceType.Process = 1"
| "SourceType_code SourceType.Cuda = 2"
| "SourceType_code SourceType.Synthetic = 3"
| "SourceType_code SourceType.TraceFile = 4"
| "SourceType_code SourceType.Multiprocess = 5"
| "SourceType_code SourceType.Provider = 6"
| "SourceType_code (SourceType.Other b) = b"

definition SourceType_all :: "SourceType list" where
  "SourceType_all = [SourceType.System,
     SourceType.Process,
     SourceType.Cuda,
     SourceType.Synthetic,
     SourceType.TraceFile,
     SourceType.Multiprocess,
     SourceType.Provider]"

definition SourceType_of :: "byte \<Rightarrow> SourceType" where
  "SourceType_of b = enum_of SourceType_all SourceType_code SourceType.Other b"

definition SourceType_wf :: "SourceType \<Rightarrow> bool" where
  "SourceType_wf e \<longleftrightarrow> SourceType_of (SourceType_code e) = e"

interpretation en_SourceType: u8_enum SourceType_all SourceType_code SourceType.Other
  by unfold_locales (simp_all add: SourceType_all_def)

lemma SourceType_code_of [simp, enum_codes]: "SourceType_code (SourceType_of b) = b"
  unfolding SourceType_of_def by (rule en_SourceType.code_of)

lemma SourceType_wf_of [simp, intro]: "SourceType_wf (SourceType_of b)"
  by (simp add: SourceType_wf_def)

lemma SourceType_wf_named: "e \<in> set SourceType_all \<Longrightarrow> SourceType_wf e"
  unfolding SourceType_wf_def SourceType_of_def by (rule en_SourceType.of_code_named)

datatype CollectionMethod =
    Unknown
  | Query
  | Attach
  | Instrument
  | Trace
  | Event
  | Reconstructed
  | Estimated
  | Other byte

primrec CollectionMethod_code :: "CollectionMethod \<Rightarrow> byte" where
  "CollectionMethod_code CollectionMethod.Unknown = 0"
| "CollectionMethod_code CollectionMethod.Query = 1"
| "CollectionMethod_code CollectionMethod.Attach = 2"
| "CollectionMethod_code CollectionMethod.Instrument = 3"
| "CollectionMethod_code CollectionMethod.Trace = 4"
| "CollectionMethod_code CollectionMethod.Event = 5"
| "CollectionMethod_code CollectionMethod.Reconstructed = 6"
| "CollectionMethod_code CollectionMethod.Estimated = 7"
| "CollectionMethod_code (CollectionMethod.Other b) = b"

definition CollectionMethod_all :: "CollectionMethod list" where
  "CollectionMethod_all = [CollectionMethod.Unknown,
     CollectionMethod.Query,
     CollectionMethod.Attach,
     CollectionMethod.Instrument,
     CollectionMethod.Trace,
     CollectionMethod.Event,
     CollectionMethod.Reconstructed,
     CollectionMethod.Estimated]"

definition CollectionMethod_of :: "byte \<Rightarrow> CollectionMethod" where
  "CollectionMethod_of b = enum_of CollectionMethod_all CollectionMethod_code CollectionMethod.Other b"

definition CollectionMethod_wf :: "CollectionMethod \<Rightarrow> bool" where
  "CollectionMethod_wf e \<longleftrightarrow> CollectionMethod_of (CollectionMethod_code e) = e"

interpretation en_CollectionMethod: u8_enum CollectionMethod_all CollectionMethod_code CollectionMethod.Other
  by unfold_locales (simp_all add: CollectionMethod_all_def)

lemma CollectionMethod_code_of [simp, enum_codes]: "CollectionMethod_code (CollectionMethod_of b) = b"
  unfolding CollectionMethod_of_def by (rule en_CollectionMethod.code_of)

lemma CollectionMethod_wf_of [simp, intro]: "CollectionMethod_wf (CollectionMethod_of b)"
  by (simp add: CollectionMethod_wf_def)

lemma CollectionMethod_wf_named: "e \<in> set CollectionMethod_all \<Longrightarrow> CollectionMethod_wf e"
  unfolding CollectionMethod_wf_def CollectionMethod_of_def by (rule en_CollectionMethod.of_code_named)

datatype ReliabilityClass =
    Unknown
  | Current
  | Stale
  | Unavailable
  | Restarted
  | Corrupt
  | Degraded
  | Partial
  | Other byte

primrec ReliabilityClass_code :: "ReliabilityClass \<Rightarrow> byte" where
  "ReliabilityClass_code ReliabilityClass.Unknown = 0"
| "ReliabilityClass_code ReliabilityClass.Current = 1"
| "ReliabilityClass_code ReliabilityClass.Stale = 2"
| "ReliabilityClass_code ReliabilityClass.Unavailable = 3"
| "ReliabilityClass_code ReliabilityClass.Restarted = 4"
| "ReliabilityClass_code ReliabilityClass.Corrupt = 5"
| "ReliabilityClass_code ReliabilityClass.Degraded = 6"
| "ReliabilityClass_code ReliabilityClass.Partial = 7"
| "ReliabilityClass_code (ReliabilityClass.Other b) = b"

definition ReliabilityClass_all :: "ReliabilityClass list" where
  "ReliabilityClass_all = [ReliabilityClass.Unknown,
     ReliabilityClass.Current,
     ReliabilityClass.Stale,
     ReliabilityClass.Unavailable,
     ReliabilityClass.Restarted,
     ReliabilityClass.Corrupt,
     ReliabilityClass.Degraded,
     ReliabilityClass.Partial]"

definition ReliabilityClass_of :: "byte \<Rightarrow> ReliabilityClass" where
  "ReliabilityClass_of b = enum_of ReliabilityClass_all ReliabilityClass_code ReliabilityClass.Other b"

definition ReliabilityClass_wf :: "ReliabilityClass \<Rightarrow> bool" where
  "ReliabilityClass_wf e \<longleftrightarrow> ReliabilityClass_of (ReliabilityClass_code e) = e"

interpretation en_ReliabilityClass: u8_enum ReliabilityClass_all ReliabilityClass_code ReliabilityClass.Other
  by unfold_locales (simp_all add: ReliabilityClass_all_def)

lemma ReliabilityClass_code_of [simp, enum_codes]: "ReliabilityClass_code (ReliabilityClass_of b) = b"
  unfolding ReliabilityClass_of_def by (rule en_ReliabilityClass.code_of)

lemma ReliabilityClass_wf_of [simp, intro]: "ReliabilityClass_wf (ReliabilityClass_of b)"
  by (simp add: ReliabilityClass_wf_def)

lemma ReliabilityClass_wf_named: "e \<in> set ReliabilityClass_all \<Longrightarrow> ReliabilityClass_wf e"
  unfolding ReliabilityClass_wf_def ReliabilityClass_of_def by (rule en_ReliabilityClass.of_code_named)

datatype LifecycleState =
    Collected
  | Normalized
  | Correlated
  | DecisionLinked
  | OutcomeLinked
  | Reconstructed
  | Explained
  | Replayed
  | Superseded
  | Invalid
  | Corrupt
  | Retired
  | Other byte

primrec LifecycleState_code :: "LifecycleState \<Rightarrow> byte" where
  "LifecycleState_code LifecycleState.Collected = 0"
| "LifecycleState_code LifecycleState.Normalized = 1"
| "LifecycleState_code LifecycleState.Correlated = 2"
| "LifecycleState_code LifecycleState.DecisionLinked = 3"
| "LifecycleState_code LifecycleState.OutcomeLinked = 4"
| "LifecycleState_code LifecycleState.Reconstructed = 5"
| "LifecycleState_code LifecycleState.Explained = 6"
| "LifecycleState_code LifecycleState.Replayed = 7"
| "LifecycleState_code LifecycleState.Superseded = 8"
| "LifecycleState_code LifecycleState.Invalid = 9"
| "LifecycleState_code LifecycleState.Corrupt = 10"
| "LifecycleState_code LifecycleState.Retired = 11"
| "LifecycleState_code (LifecycleState.Other b) = b"

definition LifecycleState_all :: "LifecycleState list" where
  "LifecycleState_all = [LifecycleState.Collected,
     LifecycleState.Normalized,
     LifecycleState.Correlated,
     LifecycleState.DecisionLinked,
     LifecycleState.OutcomeLinked,
     LifecycleState.Reconstructed,
     LifecycleState.Explained,
     LifecycleState.Replayed,
     LifecycleState.Superseded,
     LifecycleState.Invalid,
     LifecycleState.Corrupt,
     LifecycleState.Retired]"

definition LifecycleState_of :: "byte \<Rightarrow> LifecycleState" where
  "LifecycleState_of b = enum_of LifecycleState_all LifecycleState_code LifecycleState.Other b"

definition LifecycleState_wf :: "LifecycleState \<Rightarrow> bool" where
  "LifecycleState_wf e \<longleftrightarrow> LifecycleState_of (LifecycleState_code e) = e"

interpretation en_LifecycleState: u8_enum LifecycleState_all LifecycleState_code LifecycleState.Other
  by unfold_locales (simp_all add: LifecycleState_all_def)

lemma LifecycleState_code_of [simp, enum_codes]: "LifecycleState_code (LifecycleState_of b) = b"
  unfolding LifecycleState_of_def by (rule en_LifecycleState.code_of)

lemma LifecycleState_wf_of [simp, intro]: "LifecycleState_wf (LifecycleState_of b)"
  by (simp add: LifecycleState_wf_def)

lemma LifecycleState_wf_named: "e \<in> set LifecycleState_all \<Longrightarrow> LifecycleState_wf e"
  unfolding LifecycleState_wf_def LifecycleState_of_def by (rule en_LifecycleState.of_code_named)

datatype ConfidenceClass =
    InsufficientEvidence
  | PartialEvidence
  | Reconstructed
  | StrongMixedEvidence
  | CompleteMeasured
  | Other byte

primrec ConfidenceClass_code :: "ConfidenceClass \<Rightarrow> byte" where
  "ConfidenceClass_code ConfidenceClass.InsufficientEvidence = 0"
| "ConfidenceClass_code ConfidenceClass.PartialEvidence = 1"
| "ConfidenceClass_code ConfidenceClass.Reconstructed = 2"
| "ConfidenceClass_code ConfidenceClass.StrongMixedEvidence = 3"
| "ConfidenceClass_code ConfidenceClass.CompleteMeasured = 4"
| "ConfidenceClass_code (ConfidenceClass.Other b) = b"

definition ConfidenceClass_all :: "ConfidenceClass list" where
  "ConfidenceClass_all = [ConfidenceClass.InsufficientEvidence,
     ConfidenceClass.PartialEvidence,
     ConfidenceClass.Reconstructed,
     ConfidenceClass.StrongMixedEvidence,
     ConfidenceClass.CompleteMeasured]"

definition ConfidenceClass_of :: "byte \<Rightarrow> ConfidenceClass" where
  "ConfidenceClass_of b = enum_of ConfidenceClass_all ConfidenceClass_code ConfidenceClass.Other b"

definition ConfidenceClass_wf :: "ConfidenceClass \<Rightarrow> bool" where
  "ConfidenceClass_wf e \<longleftrightarrow> ConfidenceClass_of (ConfidenceClass_code e) = e"

interpretation en_ConfidenceClass: u8_enum ConfidenceClass_all ConfidenceClass_code ConfidenceClass.Other
  by unfold_locales (simp_all add: ConfidenceClass_all_def)

lemma ConfidenceClass_code_of [simp, enum_codes]: "ConfidenceClass_code (ConfidenceClass_of b) = b"
  unfolding ConfidenceClass_of_def by (rule en_ConfidenceClass.code_of)

lemma ConfidenceClass_wf_of [simp, intro]: "ConfidenceClass_wf (ConfidenceClass_of b)"
  by (simp add: ConfidenceClass_wf_def)

lemma ConfidenceClass_wf_named: "e \<in> set ConfidenceClass_all \<Longrightarrow> ConfidenceClass_wf e"
  unfolding ConfidenceClass_wf_def ConfidenceClass_of_def by (rule en_ConfidenceClass.of_code_named)

datatype ConstraintClass =
    Hard
  | Soft
  | Other byte

primrec ConstraintClass_code :: "ConstraintClass \<Rightarrow> byte" where
  "ConstraintClass_code ConstraintClass.Hard = 0"
| "ConstraintClass_code ConstraintClass.Soft = 1"
| "ConstraintClass_code (ConstraintClass.Other b) = b"

definition ConstraintClass_all :: "ConstraintClass list" where
  "ConstraintClass_all = [ConstraintClass.Hard,
     ConstraintClass.Soft]"

definition ConstraintClass_of :: "byte \<Rightarrow> ConstraintClass" where
  "ConstraintClass_of b = enum_of ConstraintClass_all ConstraintClass_code ConstraintClass.Other b"

definition ConstraintClass_wf :: "ConstraintClass \<Rightarrow> bool" where
  "ConstraintClass_wf e \<longleftrightarrow> ConstraintClass_of (ConstraintClass_code e) = e"

interpretation en_ConstraintClass: u8_enum ConstraintClass_all ConstraintClass_code ConstraintClass.Other
  by unfold_locales (simp_all add: ConstraintClass_all_def)

lemma ConstraintClass_code_of [simp, enum_codes]: "ConstraintClass_code (ConstraintClass_of b) = b"
  unfolding ConstraintClass_of_def by (rule en_ConstraintClass.code_of)

lemma ConstraintClass_wf_of [simp, intro]: "ConstraintClass_wf (ConstraintClass_of b)"
  by (simp add: ConstraintClass_wf_def)

lemma ConstraintClass_wf_named: "e \<in> set ConstraintClass_all \<Longrightarrow> ConstraintClass_wf e"
  unfolding ConstraintClass_wf_def ConstraintClass_of_def by (rule en_ConstraintClass.of_code_named)

datatype ConstraintKind =
    Capability
  | MemoryCapacity
  | MemoryHeadroom
  | Architecture
  | BackendCompatibility
  | RuntimeCompatibility
  | Health
  | Quota
  | Reservation
  | Tenant
  | Namespace
  | Locality
  | Topology
  | Deadline
  | Device
  | Node
  | Policy
  | Custom
  | Other byte

primrec ConstraintKind_code :: "ConstraintKind \<Rightarrow> byte" where
  "ConstraintKind_code ConstraintKind.Capability = 0"
| "ConstraintKind_code ConstraintKind.MemoryCapacity = 1"
| "ConstraintKind_code ConstraintKind.MemoryHeadroom = 2"
| "ConstraintKind_code ConstraintKind.Architecture = 3"
| "ConstraintKind_code ConstraintKind.BackendCompatibility = 4"
| "ConstraintKind_code ConstraintKind.RuntimeCompatibility = 5"
| "ConstraintKind_code ConstraintKind.Health = 6"
| "ConstraintKind_code ConstraintKind.Quota = 7"
| "ConstraintKind_code ConstraintKind.Reservation = 8"
| "ConstraintKind_code ConstraintKind.Tenant = 9"
| "ConstraintKind_code ConstraintKind.Namespace = 10"
| "ConstraintKind_code ConstraintKind.Locality = 11"
| "ConstraintKind_code ConstraintKind.Topology = 12"
| "ConstraintKind_code ConstraintKind.Deadline = 13"
| "ConstraintKind_code ConstraintKind.Device = 14"
| "ConstraintKind_code ConstraintKind.Node = 15"
| "ConstraintKind_code ConstraintKind.Policy = 16"
| "ConstraintKind_code ConstraintKind.Custom = 255"
| "ConstraintKind_code (ConstraintKind.Other b) = b"

definition ConstraintKind_all :: "ConstraintKind list" where
  "ConstraintKind_all = [ConstraintKind.Capability,
     ConstraintKind.MemoryCapacity,
     ConstraintKind.MemoryHeadroom,
     ConstraintKind.Architecture,
     ConstraintKind.BackendCompatibility,
     ConstraintKind.RuntimeCompatibility,
     ConstraintKind.Health,
     ConstraintKind.Quota,
     ConstraintKind.Reservation,
     ConstraintKind.Tenant,
     ConstraintKind.Namespace,
     ConstraintKind.Locality,
     ConstraintKind.Topology,
     ConstraintKind.Deadline,
     ConstraintKind.Device,
     ConstraintKind.Node,
     ConstraintKind.Policy,
     ConstraintKind.Custom]"

definition ConstraintKind_of :: "byte \<Rightarrow> ConstraintKind" where
  "ConstraintKind_of b = enum_of ConstraintKind_all ConstraintKind_code ConstraintKind.Other b"

definition ConstraintKind_wf :: "ConstraintKind \<Rightarrow> bool" where
  "ConstraintKind_wf e \<longleftrightarrow> ConstraintKind_of (ConstraintKind_code e) = e"

interpretation en_ConstraintKind: u8_enum ConstraintKind_all ConstraintKind_code ConstraintKind.Other
  by unfold_locales (simp_all add: ConstraintKind_all_def)

lemma ConstraintKind_code_of [simp, enum_codes]: "ConstraintKind_code (ConstraintKind_of b) = b"
  unfolding ConstraintKind_of_def by (rule en_ConstraintKind.code_of)

lemma ConstraintKind_wf_of [simp, intro]: "ConstraintKind_wf (ConstraintKind_of b)"
  by (simp add: ConstraintKind_wf_def)

lemma ConstraintKind_wf_named: "e \<in> set ConstraintKind_all \<Longrightarrow> ConstraintKind_wf e"
  unfolding ConstraintKind_wf_def ConstraintKind_of_def by (rule en_ConstraintKind.of_code_named)

datatype CostComponentKind =
    QueueCost
  | ComputeCost
  | MemoryHeadroom
  | TransferCost
  | TopologyCost
  | StateLocalityBenefit
  | RecomputeCost
  | ColdStartCost
  | ReservationPressure
  | DeadlineRisk
  | FailureRisk
  | HealthPenalty
  | PolicyPriority
  | TenantFairness
  | Custom
  | Other byte

primrec CostComponentKind_code :: "CostComponentKind \<Rightarrow> byte" where
  "CostComponentKind_code CostComponentKind.QueueCost = 0"
| "CostComponentKind_code CostComponentKind.ComputeCost = 1"
| "CostComponentKind_code CostComponentKind.MemoryHeadroom = 2"
| "CostComponentKind_code CostComponentKind.TransferCost = 3"
| "CostComponentKind_code CostComponentKind.TopologyCost = 4"
| "CostComponentKind_code CostComponentKind.StateLocalityBenefit = 5"
| "CostComponentKind_code CostComponentKind.RecomputeCost = 6"
| "CostComponentKind_code CostComponentKind.ColdStartCost = 7"
| "CostComponentKind_code CostComponentKind.ReservationPressure = 8"
| "CostComponentKind_code CostComponentKind.DeadlineRisk = 9"
| "CostComponentKind_code CostComponentKind.FailureRisk = 10"
| "CostComponentKind_code CostComponentKind.HealthPenalty = 11"
| "CostComponentKind_code CostComponentKind.PolicyPriority = 12"
| "CostComponentKind_code CostComponentKind.TenantFairness = 13"
| "CostComponentKind_code CostComponentKind.Custom = 255"
| "CostComponentKind_code (CostComponentKind.Other b) = b"

definition CostComponentKind_all :: "CostComponentKind list" where
  "CostComponentKind_all = [CostComponentKind.QueueCost,
     CostComponentKind.ComputeCost,
     CostComponentKind.MemoryHeadroom,
     CostComponentKind.TransferCost,
     CostComponentKind.TopologyCost,
     CostComponentKind.StateLocalityBenefit,
     CostComponentKind.RecomputeCost,
     CostComponentKind.ColdStartCost,
     CostComponentKind.ReservationPressure,
     CostComponentKind.DeadlineRisk,
     CostComponentKind.FailureRisk,
     CostComponentKind.HealthPenalty,
     CostComponentKind.PolicyPriority,
     CostComponentKind.TenantFairness,
     CostComponentKind.Custom]"

definition CostComponentKind_of :: "byte \<Rightarrow> CostComponentKind" where
  "CostComponentKind_of b = enum_of CostComponentKind_all CostComponentKind_code CostComponentKind.Other b"

definition CostComponentKind_wf :: "CostComponentKind \<Rightarrow> bool" where
  "CostComponentKind_wf e \<longleftrightarrow> CostComponentKind_of (CostComponentKind_code e) = e"

interpretation en_CostComponentKind: u8_enum CostComponentKind_all CostComponentKind_code CostComponentKind.Other
  by unfold_locales (simp_all add: CostComponentKind_all_def)

lemma CostComponentKind_code_of [simp, enum_codes]: "CostComponentKind_code (CostComponentKind_of b) = b"
  unfolding CostComponentKind_of_def by (rule en_CostComponentKind.code_of)

lemma CostComponentKind_wf_of [simp, intro]: "CostComponentKind_wf (CostComponentKind_of b)"
  by (simp add: CostComponentKind_wf_def)

lemma CostComponentKind_wf_named: "e \<in> set CostComponentKind_all \<Longrightarrow> CostComponentKind_wf e"
  unfolding CostComponentKind_wf_def CostComponentKind_of_def by (rule en_CostComponentKind.of_code_named)

datatype ScoreComponentKind =
    HardConstraintScore
  | CostComponent
  | LocalityBenefit
  | PolicyWeighted
  | TieBreak
  | Custom
  | Other byte

primrec ScoreComponentKind_code :: "ScoreComponentKind \<Rightarrow> byte" where
  "ScoreComponentKind_code ScoreComponentKind.HardConstraintScore = 0"
| "ScoreComponentKind_code ScoreComponentKind.CostComponent = 1"
| "ScoreComponentKind_code ScoreComponentKind.LocalityBenefit = 2"
| "ScoreComponentKind_code ScoreComponentKind.PolicyWeighted = 3"
| "ScoreComponentKind_code ScoreComponentKind.TieBreak = 4"
| "ScoreComponentKind_code ScoreComponentKind.Custom = 255"
| "ScoreComponentKind_code (ScoreComponentKind.Other b) = b"

definition ScoreComponentKind_all :: "ScoreComponentKind list" where
  "ScoreComponentKind_all = [ScoreComponentKind.HardConstraintScore,
     ScoreComponentKind.CostComponent,
     ScoreComponentKind.LocalityBenefit,
     ScoreComponentKind.PolicyWeighted,
     ScoreComponentKind.TieBreak,
     ScoreComponentKind.Custom]"

definition ScoreComponentKind_of :: "byte \<Rightarrow> ScoreComponentKind" where
  "ScoreComponentKind_of b = enum_of ScoreComponentKind_all ScoreComponentKind_code ScoreComponentKind.Other b"

definition ScoreComponentKind_wf :: "ScoreComponentKind \<Rightarrow> bool" where
  "ScoreComponentKind_wf e \<longleftrightarrow> ScoreComponentKind_of (ScoreComponentKind_code e) = e"

interpretation en_ScoreComponentKind: u8_enum ScoreComponentKind_all ScoreComponentKind_code ScoreComponentKind.Other
  by unfold_locales (simp_all add: ScoreComponentKind_all_def)

lemma ScoreComponentKind_code_of [simp, enum_codes]: "ScoreComponentKind_code (ScoreComponentKind_of b) = b"
  unfolding ScoreComponentKind_of_def by (rule en_ScoreComponentKind.code_of)

lemma ScoreComponentKind_wf_of [simp, intro]: "ScoreComponentKind_wf (ScoreComponentKind_of b)"
  by (simp add: ScoreComponentKind_wf_def)

lemma ScoreComponentKind_wf_named: "e \<in> set ScoreComponentKind_all \<Longrightarrow> ScoreComponentKind_wf e"
  unfolding ScoreComponentKind_wf_def ScoreComponentKind_of_def by (rule en_ScoreComponentKind.of_code_named)

datatype DeviceKind =
    Cpu
  | Gpu
  | Accelerator
  | Unknown
  | Other byte

primrec DeviceKind_code :: "DeviceKind \<Rightarrow> byte" where
  "DeviceKind_code DeviceKind.Cpu = 0"
| "DeviceKind_code DeviceKind.Gpu = 1"
| "DeviceKind_code DeviceKind.Accelerator = 2"
| "DeviceKind_code DeviceKind.Unknown = 255"
| "DeviceKind_code (DeviceKind.Other b) = b"

definition DeviceKind_all :: "DeviceKind list" where
  "DeviceKind_all = [DeviceKind.Cpu,
     DeviceKind.Gpu,
     DeviceKind.Accelerator,
     DeviceKind.Unknown]"

definition DeviceKind_of :: "byte \<Rightarrow> DeviceKind" where
  "DeviceKind_of b = enum_of DeviceKind_all DeviceKind_code DeviceKind.Other b"

definition DeviceKind_wf :: "DeviceKind \<Rightarrow> bool" where
  "DeviceKind_wf e \<longleftrightarrow> DeviceKind_of (DeviceKind_code e) = e"

interpretation en_DeviceKind: u8_enum DeviceKind_all DeviceKind_code DeviceKind.Other
  by unfold_locales (simp_all add: DeviceKind_all_def)

lemma DeviceKind_code_of [simp, enum_codes]: "DeviceKind_code (DeviceKind_of b) = b"
  unfolding DeviceKind_of_def by (rule en_DeviceKind.code_of)

lemma DeviceKind_wf_of [simp, intro]: "DeviceKind_wf (DeviceKind_of b)"
  by (simp add: DeviceKind_wf_def)

lemma DeviceKind_wf_named: "e \<in> set DeviceKind_all \<Longrightarrow> DeviceKind_wf e"
  unfolding DeviceKind_wf_def DeviceKind_of_def by (rule en_DeviceKind.of_code_named)

datatype TopologyType =
    NUMA
  | PCIe
  | Interconnect
  | Accelerator
  | Mesh
  | Unknown
  | Other byte

primrec TopologyType_code :: "TopologyType \<Rightarrow> byte" where
  "TopologyType_code TopologyType.NUMA = 0"
| "TopologyType_code TopologyType.PCIe = 1"
| "TopologyType_code TopologyType.Interconnect = 2"
| "TopologyType_code TopologyType.Accelerator = 3"
| "TopologyType_code TopologyType.Mesh = 4"
| "TopologyType_code TopologyType.Unknown = 255"
| "TopologyType_code (TopologyType.Other b) = b"

definition TopologyType_all :: "TopologyType list" where
  "TopologyType_all = [TopologyType.NUMA,
     TopologyType.PCIe,
     TopologyType.Interconnect,
     TopologyType.Accelerator,
     TopologyType.Mesh,
     TopologyType.Unknown]"

definition TopologyType_of :: "byte \<Rightarrow> TopologyType" where
  "TopologyType_of b = enum_of TopologyType_all TopologyType_code TopologyType.Other b"

definition TopologyType_wf :: "TopologyType \<Rightarrow> bool" where
  "TopologyType_wf e \<longleftrightarrow> TopologyType_of (TopologyType_code e) = e"

interpretation en_TopologyType: u8_enum TopologyType_all TopologyType_code TopologyType.Other
  by unfold_locales (simp_all add: TopologyType_all_def)

lemma TopologyType_code_of [simp, enum_codes]: "TopologyType_code (TopologyType_of b) = b"
  unfolding TopologyType_of_def by (rule en_TopologyType.code_of)

lemma TopologyType_wf_of [simp, intro]: "TopologyType_wf (TopologyType_of b)"
  by (simp add: TopologyType_wf_def)

lemma TopologyType_wf_named: "e \<in> set TopologyType_all \<Longrightarrow> TopologyType_wf e"
  unfolding TopologyType_wf_def TopologyType_of_def by (rule en_TopologyType.of_code_named)

datatype LocalityType =
    NUMA
  | PCIe
  | Accelerator
  | Interconnect
  | PersistentState
  | Data
  | Model
  | ReusableState
  | Unknown
  | Other byte

primrec LocalityType_code :: "LocalityType \<Rightarrow> byte" where
  "LocalityType_code LocalityType.NUMA = 0"
| "LocalityType_code LocalityType.PCIe = 1"
| "LocalityType_code LocalityType.Accelerator = 2"
| "LocalityType_code LocalityType.Interconnect = 3"
| "LocalityType_code LocalityType.PersistentState = 4"
| "LocalityType_code LocalityType.Data = 5"
| "LocalityType_code LocalityType.Model = 6"
| "LocalityType_code LocalityType.ReusableState = 7"
| "LocalityType_code LocalityType.Unknown = 255"
| "LocalityType_code (LocalityType.Other b) = b"

definition LocalityType_all :: "LocalityType list" where
  "LocalityType_all = [LocalityType.NUMA,
     LocalityType.PCIe,
     LocalityType.Accelerator,
     LocalityType.Interconnect,
     LocalityType.PersistentState,
     LocalityType.Data,
     LocalityType.Model,
     LocalityType.ReusableState,
     LocalityType.Unknown]"

definition LocalityType_of :: "byte \<Rightarrow> LocalityType" where
  "LocalityType_of b = enum_of LocalityType_all LocalityType_code LocalityType.Other b"

definition LocalityType_wf :: "LocalityType \<Rightarrow> bool" where
  "LocalityType_wf e \<longleftrightarrow> LocalityType_of (LocalityType_code e) = e"

interpretation en_LocalityType: u8_enum LocalityType_all LocalityType_code LocalityType.Other
  by unfold_locales (simp_all add: LocalityType_all_def)

lemma LocalityType_code_of [simp, enum_codes]: "LocalityType_code (LocalityType_of b) = b"
  unfolding LocalityType_of_def by (rule en_LocalityType.code_of)

lemma LocalityType_wf_of [simp, intro]: "LocalityType_wf (LocalityType_of b)"
  by (simp add: LocalityType_wf_def)

lemma LocalityType_wf_named: "e \<in> set LocalityType_all \<Longrightarrow> LocalityType_wf e"
  unfolding LocalityType_wf_def LocalityType_of_def by (rule en_LocalityType.of_code_named)

datatype HealthState =
    Unknown
  | Healthy
  | Degraded
  | Unhealthy
  | Offline
  | Corrupt
  | Other byte

primrec HealthState_code :: "HealthState \<Rightarrow> byte" where
  "HealthState_code HealthState.Unknown = 0"
| "HealthState_code HealthState.Healthy = 1"
| "HealthState_code HealthState.Degraded = 2"
| "HealthState_code HealthState.Unhealthy = 3"
| "HealthState_code HealthState.Offline = 4"
| "HealthState_code HealthState.Corrupt = 5"
| "HealthState_code (HealthState.Other b) = b"

definition HealthState_all :: "HealthState list" where
  "HealthState_all = [HealthState.Unknown,
     HealthState.Healthy,
     HealthState.Degraded,
     HealthState.Unhealthy,
     HealthState.Offline,
     HealthState.Corrupt]"

definition HealthState_of :: "byte \<Rightarrow> HealthState" where
  "HealthState_of b = enum_of HealthState_all HealthState_code HealthState.Other b"

definition HealthState_wf :: "HealthState \<Rightarrow> bool" where
  "HealthState_wf e \<longleftrightarrow> HealthState_of (HealthState_code e) = e"

interpretation en_HealthState: u8_enum HealthState_all HealthState_code HealthState.Other
  by unfold_locales (simp_all add: HealthState_all_def)

lemma HealthState_code_of [simp, enum_codes]: "HealthState_code (HealthState_of b) = b"
  unfolding HealthState_of_def by (rule en_HealthState.code_of)

lemma HealthState_wf_of [simp, intro]: "HealthState_wf (HealthState_of b)"
  by (simp add: HealthState_wf_def)

lemma HealthState_wf_named: "e \<in> set HealthState_all \<Longrightarrow> HealthState_wf e"
  unfolding HealthState_wf_def HealthState_of_def by (rule en_HealthState.of_code_named)

datatype MemoryPressureLevel =
    Unknown
  | None_v
  | Low
  | Moderate
  | High
  | Critical
  | Other byte

primrec MemoryPressureLevel_code :: "MemoryPressureLevel \<Rightarrow> byte" where
  "MemoryPressureLevel_code MemoryPressureLevel.Unknown = 0"
| "MemoryPressureLevel_code MemoryPressureLevel.None_v = 1"
| "MemoryPressureLevel_code MemoryPressureLevel.Low = 2"
| "MemoryPressureLevel_code MemoryPressureLevel.Moderate = 3"
| "MemoryPressureLevel_code MemoryPressureLevel.High = 4"
| "MemoryPressureLevel_code MemoryPressureLevel.Critical = 5"
| "MemoryPressureLevel_code (MemoryPressureLevel.Other b) = b"

definition MemoryPressureLevel_all :: "MemoryPressureLevel list" where
  "MemoryPressureLevel_all = [MemoryPressureLevel.Unknown,
     MemoryPressureLevel.None_v,
     MemoryPressureLevel.Low,
     MemoryPressureLevel.Moderate,
     MemoryPressureLevel.High,
     MemoryPressureLevel.Critical]"

definition MemoryPressureLevel_of :: "byte \<Rightarrow> MemoryPressureLevel" where
  "MemoryPressureLevel_of b = enum_of MemoryPressureLevel_all MemoryPressureLevel_code MemoryPressureLevel.Other b"

definition MemoryPressureLevel_wf :: "MemoryPressureLevel \<Rightarrow> bool" where
  "MemoryPressureLevel_wf e \<longleftrightarrow> MemoryPressureLevel_of (MemoryPressureLevel_code e) = e"

interpretation en_MemoryPressureLevel: u8_enum MemoryPressureLevel_all MemoryPressureLevel_code MemoryPressureLevel.Other
  by unfold_locales (simp_all add: MemoryPressureLevel_all_def)

lemma MemoryPressureLevel_code_of [simp, enum_codes]: "MemoryPressureLevel_code (MemoryPressureLevel_of b) = b"
  unfolding MemoryPressureLevel_of_def by (rule en_MemoryPressureLevel.code_of)

lemma MemoryPressureLevel_wf_of [simp, intro]: "MemoryPressureLevel_wf (MemoryPressureLevel_of b)"
  by (simp add: MemoryPressureLevel_wf_def)

lemma MemoryPressureLevel_wf_named: "e \<in> set MemoryPressureLevel_all \<Longrightarrow> MemoryPressureLevel_wf e"
  unfolding MemoryPressureLevel_wf_def MemoryPressureLevel_of_def by (rule en_MemoryPressureLevel.of_code_named)

datatype QueueState =
    Unknown
  | Empty
  | Low
  | Moderate
  | High
  | Blocked
  | Other byte

primrec QueueState_code :: "QueueState \<Rightarrow> byte" where
  "QueueState_code QueueState.Unknown = 0"
| "QueueState_code QueueState.Empty = 1"
| "QueueState_code QueueState.Low = 2"
| "QueueState_code QueueState.Moderate = 3"
| "QueueState_code QueueState.High = 4"
| "QueueState_code QueueState.Blocked = 5"
| "QueueState_code (QueueState.Other b) = b"

definition QueueState_all :: "QueueState list" where
  "QueueState_all = [QueueState.Unknown,
     QueueState.Empty,
     QueueState.Low,
     QueueState.Moderate,
     QueueState.High,
     QueueState.Blocked]"

definition QueueState_of :: "byte \<Rightarrow> QueueState" where
  "QueueState_of b = enum_of QueueState_all QueueState_code QueueState.Other b"

definition QueueState_wf :: "QueueState \<Rightarrow> bool" where
  "QueueState_wf e \<longleftrightarrow> QueueState_of (QueueState_code e) = e"

interpretation en_QueueState: u8_enum QueueState_all QueueState_code QueueState.Other
  by unfold_locales (simp_all add: QueueState_all_def)

lemma QueueState_code_of [simp, enum_codes]: "QueueState_code (QueueState_of b) = b"
  unfolding QueueState_of_def by (rule en_QueueState.code_of)

lemma QueueState_wf_of [simp, intro]: "QueueState_wf (QueueState_of b)"
  by (simp add: QueueState_wf_def)

lemma QueueState_wf_named: "e \<in> set QueueState_all \<Longrightarrow> QueueState_wf e"
  unfolding QueueState_wf_def QueueState_of_def by (rule en_QueueState.of_code_named)

datatype DeadlineState =
    Unknown
  | Comfortable
  | Tight
  | AtRisk
  | Missed
  | Other byte

primrec DeadlineState_code :: "DeadlineState \<Rightarrow> byte" where
  "DeadlineState_code DeadlineState.Unknown = 0"
| "DeadlineState_code DeadlineState.Comfortable = 1"
| "DeadlineState_code DeadlineState.Tight = 2"
| "DeadlineState_code DeadlineState.AtRisk = 3"
| "DeadlineState_code DeadlineState.Missed = 4"
| "DeadlineState_code (DeadlineState.Other b) = b"

definition DeadlineState_all :: "DeadlineState list" where
  "DeadlineState_all = [DeadlineState.Unknown,
     DeadlineState.Comfortable,
     DeadlineState.Tight,
     DeadlineState.AtRisk,
     DeadlineState.Missed]"

definition DeadlineState_of :: "byte \<Rightarrow> DeadlineState" where
  "DeadlineState_of b = enum_of DeadlineState_all DeadlineState_code DeadlineState.Other b"

definition DeadlineState_wf :: "DeadlineState \<Rightarrow> bool" where
  "DeadlineState_wf e \<longleftrightarrow> DeadlineState_of (DeadlineState_code e) = e"

interpretation en_DeadlineState: u8_enum DeadlineState_all DeadlineState_code DeadlineState.Other
  by unfold_locales (simp_all add: DeadlineState_all_def)

lemma DeadlineState_code_of [simp, enum_codes]: "DeadlineState_code (DeadlineState_of b) = b"
  unfolding DeadlineState_of_def by (rule en_DeadlineState.code_of)

lemma DeadlineState_wf_of [simp, intro]: "DeadlineState_wf (DeadlineState_of b)"
  by (simp add: DeadlineState_wf_def)

lemma DeadlineState_wf_named: "e \<in> set DeadlineState_all \<Longrightarrow> DeadlineState_wf e"
  unfolding DeadlineState_wf_def DeadlineState_of_def by (rule en_DeadlineState.of_code_named)

datatype SloClass =
    Unknown
  | BestEffort
  | Standard
  | Guaranteed
  | Critical
  | Other byte

primrec SloClass_code :: "SloClass \<Rightarrow> byte" where
  "SloClass_code SloClass.Unknown = 0"
| "SloClass_code SloClass.BestEffort = 1"
| "SloClass_code SloClass.Standard = 2"
| "SloClass_code SloClass.Guaranteed = 3"
| "SloClass_code SloClass.Critical = 4"
| "SloClass_code (SloClass.Other b) = b"

definition SloClass_all :: "SloClass list" where
  "SloClass_all = [SloClass.Unknown,
     SloClass.BestEffort,
     SloClass.Standard,
     SloClass.Guaranteed,
     SloClass.Critical]"

definition SloClass_of :: "byte \<Rightarrow> SloClass" where
  "SloClass_of b = enum_of SloClass_all SloClass_code SloClass.Other b"

definition SloClass_wf :: "SloClass \<Rightarrow> bool" where
  "SloClass_wf e \<longleftrightarrow> SloClass_of (SloClass_code e) = e"

interpretation en_SloClass: u8_enum SloClass_all SloClass_code SloClass.Other
  by unfold_locales (simp_all add: SloClass_all_def)

lemma SloClass_code_of [simp, enum_codes]: "SloClass_code (SloClass_of b) = b"
  unfolding SloClass_of_def by (rule en_SloClass.code_of)

lemma SloClass_wf_of [simp, intro]: "SloClass_wf (SloClass_of b)"
  by (simp add: SloClass_wf_def)

lemma SloClass_wf_named: "e \<in> set SloClass_all \<Longrightarrow> SloClass_wf e"
  unfolding SloClass_wf_def SloClass_of_def by (rule en_SloClass.of_code_named)

datatype PriorityClass =
    Unknown
  | Low
  | Normal
  | High
  | Critical
  | Other byte

primrec PriorityClass_code :: "PriorityClass \<Rightarrow> byte" where
  "PriorityClass_code PriorityClass.Unknown = 0"
| "PriorityClass_code PriorityClass.Low = 1"
| "PriorityClass_code PriorityClass.Normal = 2"
| "PriorityClass_code PriorityClass.High = 3"
| "PriorityClass_code PriorityClass.Critical = 4"
| "PriorityClass_code (PriorityClass.Other b) = b"

definition PriorityClass_all :: "PriorityClass list" where
  "PriorityClass_all = [PriorityClass.Unknown,
     PriorityClass.Low,
     PriorityClass.Normal,
     PriorityClass.High,
     PriorityClass.Critical]"

definition PriorityClass_of :: "byte \<Rightarrow> PriorityClass" where
  "PriorityClass_of b = enum_of PriorityClass_all PriorityClass_code PriorityClass.Other b"

definition PriorityClass_wf :: "PriorityClass \<Rightarrow> bool" where
  "PriorityClass_wf e \<longleftrightarrow> PriorityClass_of (PriorityClass_code e) = e"

interpretation en_PriorityClass: u8_enum PriorityClass_all PriorityClass_code PriorityClass.Other
  by unfold_locales (simp_all add: PriorityClass_all_def)

lemma PriorityClass_code_of [simp, enum_codes]: "PriorityClass_code (PriorityClass_of b) = b"
  unfolding PriorityClass_of_def by (rule en_PriorityClass.code_of)

lemma PriorityClass_wf_of [simp, intro]: "PriorityClass_wf (PriorityClass_of b)"
  by (simp add: PriorityClass_wf_def)

lemma PriorityClass_wf_named: "e \<in> set PriorityClass_all \<Longrightarrow> PriorityClass_wf e"
  unfolding PriorityClass_wf_def PriorityClass_of_def by (rule en_PriorityClass.of_code_named)

datatype OutcomeDisposition =
    Unknown
  | Succeeded
  | Failed
  | Retried
  | Fallback
  | Cancelled
  | TimedOut
  | Other byte

primrec OutcomeDisposition_code :: "OutcomeDisposition \<Rightarrow> byte" where
  "OutcomeDisposition_code OutcomeDisposition.Unknown = 0"
| "OutcomeDisposition_code OutcomeDisposition.Succeeded = 1"
| "OutcomeDisposition_code OutcomeDisposition.Failed = 2"
| "OutcomeDisposition_code OutcomeDisposition.Retried = 3"
| "OutcomeDisposition_code OutcomeDisposition.Fallback = 4"
| "OutcomeDisposition_code OutcomeDisposition.Cancelled = 5"
| "OutcomeDisposition_code OutcomeDisposition.TimedOut = 6"
| "OutcomeDisposition_code (OutcomeDisposition.Other b) = b"

definition OutcomeDisposition_all :: "OutcomeDisposition list" where
  "OutcomeDisposition_all = [OutcomeDisposition.Unknown,
     OutcomeDisposition.Succeeded,
     OutcomeDisposition.Failed,
     OutcomeDisposition.Retried,
     OutcomeDisposition.Fallback,
     OutcomeDisposition.Cancelled,
     OutcomeDisposition.TimedOut]"

definition OutcomeDisposition_of :: "byte \<Rightarrow> OutcomeDisposition" where
  "OutcomeDisposition_of b = enum_of OutcomeDisposition_all OutcomeDisposition_code OutcomeDisposition.Other b"

definition OutcomeDisposition_wf :: "OutcomeDisposition \<Rightarrow> bool" where
  "OutcomeDisposition_wf e \<longleftrightarrow> OutcomeDisposition_of (OutcomeDisposition_code e) = e"

interpretation en_OutcomeDisposition: u8_enum OutcomeDisposition_all OutcomeDisposition_code OutcomeDisposition.Other
  by unfold_locales (simp_all add: OutcomeDisposition_all_def)

lemma OutcomeDisposition_code_of [simp, enum_codes]: "OutcomeDisposition_code (OutcomeDisposition_of b) = b"
  unfolding OutcomeDisposition_of_def by (rule en_OutcomeDisposition.code_of)

lemma OutcomeDisposition_wf_of [simp, intro]: "OutcomeDisposition_wf (OutcomeDisposition_of b)"
  by (simp add: OutcomeDisposition_wf_def)

lemma OutcomeDisposition_wf_named: "e \<in> set OutcomeDisposition_all \<Longrightarrow> OutcomeDisposition_wf e"
  unfolding OutcomeDisposition_wf_def OutcomeDisposition_of_def by (rule en_OutcomeDisposition.of_code_named)

datatype RejectionReason =
    None_v
  | HardConstraintViolation
  | InsufficientMemory
  | MissingCapability
  | Health
  | Quota
  | Reservation
  | Deadline
  | BackendIncompatible
  | Locality
  | Outranked
  | TieBreakLost
  | StaleEvidence
  | Unknown
  | Other byte

primrec RejectionReason_code :: "RejectionReason \<Rightarrow> byte" where
  "RejectionReason_code RejectionReason.None_v = 0"
| "RejectionReason_code RejectionReason.HardConstraintViolation = 1"
| "RejectionReason_code RejectionReason.InsufficientMemory = 2"
| "RejectionReason_code RejectionReason.MissingCapability = 3"
| "RejectionReason_code RejectionReason.Health = 4"
| "RejectionReason_code RejectionReason.Quota = 5"
| "RejectionReason_code RejectionReason.Reservation = 6"
| "RejectionReason_code RejectionReason.Deadline = 7"
| "RejectionReason_code RejectionReason.BackendIncompatible = 8"
| "RejectionReason_code RejectionReason.Locality = 9"
| "RejectionReason_code RejectionReason.Outranked = 10"
| "RejectionReason_code RejectionReason.TieBreakLost = 11"
| "RejectionReason_code RejectionReason.StaleEvidence = 12"
| "RejectionReason_code RejectionReason.Unknown = 255"
| "RejectionReason_code (RejectionReason.Other b) = b"

definition RejectionReason_all :: "RejectionReason list" where
  "RejectionReason_all = [RejectionReason.None_v,
     RejectionReason.HardConstraintViolation,
     RejectionReason.InsufficientMemory,
     RejectionReason.MissingCapability,
     RejectionReason.Health,
     RejectionReason.Quota,
     RejectionReason.Reservation,
     RejectionReason.Deadline,
     RejectionReason.BackendIncompatible,
     RejectionReason.Locality,
     RejectionReason.Outranked,
     RejectionReason.TieBreakLost,
     RejectionReason.StaleEvidence,
     RejectionReason.Unknown]"

definition RejectionReason_of :: "byte \<Rightarrow> RejectionReason" where
  "RejectionReason_of b = enum_of RejectionReason_all RejectionReason_code RejectionReason.Other b"

definition RejectionReason_wf :: "RejectionReason \<Rightarrow> bool" where
  "RejectionReason_wf e \<longleftrightarrow> RejectionReason_of (RejectionReason_code e) = e"

interpretation en_RejectionReason: u8_enum RejectionReason_all RejectionReason_code RejectionReason.Other
  by unfold_locales (simp_all add: RejectionReason_all_def)

lemma RejectionReason_code_of [simp, enum_codes]: "RejectionReason_code (RejectionReason_of b) = b"
  unfolding RejectionReason_of_def by (rule en_RejectionReason.code_of)

lemma RejectionReason_wf_of [simp, intro]: "RejectionReason_wf (RejectionReason_of b)"
  by (simp add: RejectionReason_wf_def)

lemma RejectionReason_wf_named: "e \<in> set RejectionReason_all \<Longrightarrow> RejectionReason_wf e"
  unfolding RejectionReason_wf_def RejectionReason_of_def by (rule en_RejectionReason.of_code_named)

datatype TieBreakReason =
    None_v
  | LowestId
  | LowestCost
  | MostAvailable
  | HighestPriority
  | LowestQueue
  | DeterministicHash
  | Unknown
  | Other byte

primrec TieBreakReason_code :: "TieBreakReason \<Rightarrow> byte" where
  "TieBreakReason_code TieBreakReason.None_v = 0"
| "TieBreakReason_code TieBreakReason.LowestId = 1"
| "TieBreakReason_code TieBreakReason.LowestCost = 2"
| "TieBreakReason_code TieBreakReason.MostAvailable = 3"
| "TieBreakReason_code TieBreakReason.HighestPriority = 4"
| "TieBreakReason_code TieBreakReason.LowestQueue = 5"
| "TieBreakReason_code TieBreakReason.DeterministicHash = 6"
| "TieBreakReason_code TieBreakReason.Unknown = 255"
| "TieBreakReason_code (TieBreakReason.Other b) = b"

definition TieBreakReason_all :: "TieBreakReason list" where
  "TieBreakReason_all = [TieBreakReason.None_v,
     TieBreakReason.LowestId,
     TieBreakReason.LowestCost,
     TieBreakReason.MostAvailable,
     TieBreakReason.HighestPriority,
     TieBreakReason.LowestQueue,
     TieBreakReason.DeterministicHash,
     TieBreakReason.Unknown]"

definition TieBreakReason_of :: "byte \<Rightarrow> TieBreakReason" where
  "TieBreakReason_of b = enum_of TieBreakReason_all TieBreakReason_code TieBreakReason.Other b"

definition TieBreakReason_wf :: "TieBreakReason \<Rightarrow> bool" where
  "TieBreakReason_wf e \<longleftrightarrow> TieBreakReason_of (TieBreakReason_code e) = e"

interpretation en_TieBreakReason: u8_enum TieBreakReason_all TieBreakReason_code TieBreakReason.Other
  by unfold_locales (simp_all add: TieBreakReason_all_def)

lemma TieBreakReason_code_of [simp, enum_codes]: "TieBreakReason_code (TieBreakReason_of b) = b"
  unfolding TieBreakReason_of_def by (rule en_TieBreakReason.code_of)

lemma TieBreakReason_wf_of [simp, intro]: "TieBreakReason_wf (TieBreakReason_of b)"
  by (simp add: TieBreakReason_wf_def)

lemma TieBreakReason_wf_named: "e \<in> set TieBreakReason_all \<Longrightarrow> TieBreakReason_wf e"
  unfolding TieBreakReason_wf_def TieBreakReason_of_def by (rule en_TieBreakReason.of_code_named)

datatype DeterminismClass =
    NotApplicable
  | Deterministic
  | Random
  | PseudoDeterministic
  | Other byte

primrec DeterminismClass_code :: "DeterminismClass \<Rightarrow> byte" where
  "DeterminismClass_code DeterminismClass.NotApplicable = 0"
| "DeterminismClass_code DeterminismClass.Deterministic = 1"
| "DeterminismClass_code DeterminismClass.Random = 2"
| "DeterminismClass_code DeterminismClass.PseudoDeterministic = 3"
| "DeterminismClass_code (DeterminismClass.Other b) = b"

definition DeterminismClass_all :: "DeterminismClass list" where
  "DeterminismClass_all = [DeterminismClass.NotApplicable,
     DeterminismClass.Deterministic,
     DeterminismClass.Random,
     DeterminismClass.PseudoDeterministic]"

definition DeterminismClass_of :: "byte \<Rightarrow> DeterminismClass" where
  "DeterminismClass_of b = enum_of DeterminismClass_all DeterminismClass_code DeterminismClass.Other b"

definition DeterminismClass_wf :: "DeterminismClass \<Rightarrow> bool" where
  "DeterminismClass_wf e \<longleftrightarrow> DeterminismClass_of (DeterminismClass_code e) = e"

interpretation en_DeterminismClass: u8_enum DeterminismClass_all DeterminismClass_code DeterminismClass.Other
  by unfold_locales (simp_all add: DeterminismClass_all_def)

lemma DeterminismClass_code_of [simp, enum_codes]: "DeterminismClass_code (DeterminismClass_of b) = b"
  unfolding DeterminismClass_of_def by (rule en_DeterminismClass.code_of)

lemma DeterminismClass_wf_of [simp, intro]: "DeterminismClass_wf (DeterminismClass_of b)"
  by (simp add: DeterminismClass_wf_def)

lemma DeterminismClass_wf_named: "e \<in> set DeterminismClass_all \<Longrightarrow> DeterminismClass_wf e"
  unfolding DeterminismClass_wf_def DeterminismClass_of_def by (rule en_DeterminismClass.of_code_named)

datatype MessageType =
    Hello
  | RegisterSource
  | Observation
  | Decision
  | Outcome
  | CandidateSet
  | Ack
  | CoordinatorEpoch
  | Shutdown
  | Ping
  | Probe
  | Other byte

primrec MessageType_code :: "MessageType \<Rightarrow> byte" where
  "MessageType_code MessageType.Hello = 0"
| "MessageType_code MessageType.RegisterSource = 1"
| "MessageType_code MessageType.Observation = 2"
| "MessageType_code MessageType.Decision = 3"
| "MessageType_code MessageType.Outcome = 4"
| "MessageType_code MessageType.CandidateSet = 5"
| "MessageType_code MessageType.Ack = 6"
| "MessageType_code MessageType.CoordinatorEpoch = 7"
| "MessageType_code MessageType.Shutdown = 8"
| "MessageType_code MessageType.Ping = 9"
| "MessageType_code MessageType.Probe = 10"
| "MessageType_code (MessageType.Other b) = b"

definition MessageType_all :: "MessageType list" where
  "MessageType_all = [MessageType.Hello,
     MessageType.RegisterSource,
     MessageType.Observation,
     MessageType.Decision,
     MessageType.Outcome,
     MessageType.CandidateSet,
     MessageType.Ack,
     MessageType.CoordinatorEpoch,
     MessageType.Shutdown,
     MessageType.Ping,
     MessageType.Probe]"

definition MessageType_of :: "byte \<Rightarrow> MessageType" where
  "MessageType_of b = enum_of MessageType_all MessageType_code MessageType.Other b"

definition MessageType_wf :: "MessageType \<Rightarrow> bool" where
  "MessageType_wf e \<longleftrightarrow> MessageType_of (MessageType_code e) = e"

interpretation en_MessageType: u8_enum MessageType_all MessageType_code MessageType.Other
  by unfold_locales (simp_all add: MessageType_all_def)

lemma MessageType_code_of [simp, enum_codes]: "MessageType_code (MessageType_of b) = b"
  unfolding MessageType_of_def by (rule en_MessageType.code_of)

lemma MessageType_wf_of [simp, intro]: "MessageType_wf (MessageType_of b)"
  by (simp add: MessageType_wf_def)

lemma MessageType_wf_named: "e \<in> set MessageType_all \<Longrightarrow> MessageType_wf e"
  unfolding MessageType_wf_def MessageType_of_def by (rule en_MessageType.of_code_named)

section \<open>Names\<close>

primrec Classification_string :: "Classification \<Rightarrow> string" where
  "Classification_string Classification.Unknown = ''unknown''"
| "Classification_string Classification.Measured = ''measured''"
| "Classification_string Classification.Reported = ''reported''"
| "Classification_string Classification.Derived = ''derived''"
| "Classification_string Classification.Estimated = ''estimated''"
| "Classification_string (Classification.Other b) = ''unknown''"

primrec SourceType_string :: "SourceType \<Rightarrow> string" where
  "SourceType_string SourceType.System = ''system''"
| "SourceType_string SourceType.Process = ''process''"
| "SourceType_string SourceType.Cuda = ''cuda''"
| "SourceType_string SourceType.Synthetic = ''synthetic''"
| "SourceType_string SourceType.TraceFile = ''trace-file''"
| "SourceType_string SourceType.Multiprocess = ''multiprocess''"
| "SourceType_string SourceType.Provider = ''provider''"
| "SourceType_string (SourceType.Other b) = ''unknown''"

primrec ReliabilityClass_string :: "ReliabilityClass \<Rightarrow> string" where
  "ReliabilityClass_string ReliabilityClass.Unknown = ''unknown''"
| "ReliabilityClass_string ReliabilityClass.Current = ''current''"
| "ReliabilityClass_string ReliabilityClass.Stale = ''stale''"
| "ReliabilityClass_string ReliabilityClass.Unavailable = ''unavailable''"
| "ReliabilityClass_string ReliabilityClass.Restarted = ''restarted''"
| "ReliabilityClass_string ReliabilityClass.Corrupt = ''corrupt''"
| "ReliabilityClass_string ReliabilityClass.Degraded = ''degraded''"
| "ReliabilityClass_string ReliabilityClass.Partial = ''partial''"
| "ReliabilityClass_string (ReliabilityClass.Other b) = ''unknown''"

primrec LifecycleState_string :: "LifecycleState \<Rightarrow> string" where
  "LifecycleState_string LifecycleState.Collected = ''collected''"
| "LifecycleState_string LifecycleState.Normalized = ''normalized''"
| "LifecycleState_string LifecycleState.Correlated = ''correlated''"
| "LifecycleState_string LifecycleState.DecisionLinked = ''decision-linked''"
| "LifecycleState_string LifecycleState.OutcomeLinked = ''outcome-linked''"
| "LifecycleState_string LifecycleState.Reconstructed = ''reconstructed''"
| "LifecycleState_string LifecycleState.Explained = ''explained''"
| "LifecycleState_string LifecycleState.Replayed = ''replayed''"
| "LifecycleState_string LifecycleState.Superseded = ''superseded''"
| "LifecycleState_string LifecycleState.Invalid = ''invalid''"
| "LifecycleState_string LifecycleState.Corrupt = ''corrupt''"
| "LifecycleState_string LifecycleState.Retired = ''retired''"
| "LifecycleState_string (LifecycleState.Other b) = ''unknown''"

primrec ConfidenceClass_string :: "ConfidenceClass \<Rightarrow> string" where
  "ConfidenceClass_string ConfidenceClass.InsufficientEvidence = ''insufficient-evidence''"
| "ConfidenceClass_string ConfidenceClass.PartialEvidence = ''partial-evidence''"
| "ConfidenceClass_string ConfidenceClass.Reconstructed = ''reconstructed''"
| "ConfidenceClass_string ConfidenceClass.StrongMixedEvidence = ''strong-mixed-evidence''"
| "ConfidenceClass_string ConfidenceClass.CompleteMeasured = ''complete-measured''"
| "ConfidenceClass_string (ConfidenceClass.Other b) = ''unknown''"

primrec HealthState_string :: "HealthState \<Rightarrow> string" where
  "HealthState_string HealthState.Unknown = ''unknown''"
| "HealthState_string HealthState.Healthy = ''healthy''"
| "HealthState_string HealthState.Degraded = ''degraded''"
| "HealthState_string HealthState.Unhealthy = ''unhealthy''"
| "HealthState_string HealthState.Offline = ''offline''"
| "HealthState_string HealthState.Corrupt = ''corrupt''"
| "HealthState_string (HealthState.Other b) = ''unknown''"

definition classification_from :: "string \<Rightarrow> Classification" where
  "classification_from s =
     (if s = ''measured'' then Classification.Measured
      else if s = ''reported'' then Classification.Reported
      else if s = ''derived'' then Classification.Derived
      else if s = ''estimated'' then Classification.Estimated
      else Classification.Unknown)"

lemma classification_from_string:
  "c \<in> set Classification_all \<Longrightarrow> classification_from (Classification_string c) = c"
  by (auto simp: Classification_all_def classification_from_def)

end
