(* ===== verification/Float64.thy ===== *)
theory Float64
  imports Prelude
begin

text \<open>
  The C++ type \<open>double\<close> as the program uses it: an IEEE 754 binary64 value is its 64-bit
  pattern (what \<open>BinWriter::f64\<close> copies with \<open>memcpy\<close>). Comparison, addition, multiplication,
  division, conversion from and to integers and the \<open>%f\<close> text of \<open>std::to_string\<close> are
  executable integer arithmetic on sign, exponent and fraction, rounded to nearest with ties
  to even. NaN results follow the SSE2 arithmetic of the x64 target the build file requires:
  an operand NaN is quieted, an invalid operation gives the negative default NaN.
\<close>

type_synonym f64 = u64

section \<open>Fields\<close>

definition f64_mag :: "f64 \<Rightarrow> nat" where
  "f64_mag w = unat w mod 2 ^ 63"

definition f64_sign :: "f64 \<Rightarrow> bool" where
  "f64_sign w \<longleftrightarrow> 2 ^ 63 \<le> unat w"

definition f64_exp :: "f64 \<Rightarrow> nat" where
  "f64_exp w = f64_mag w div 2 ^ 52"

definition f64_frac :: "f64 \<Rightarrow> nat" where
  "f64_frac w = f64_mag w mod 2 ^ 52"

definition f64_make :: "bool \<Rightarrow> nat \<Rightarrow> f64" where
  "f64_make s m = word_of_nat ((if s then 2 ^ 63 else 0) + m)"

definition f64_is_nan :: "f64 \<Rightarrow> bool" where
  "f64_is_nan w \<longleftrightarrow> f64_exp w = 2047 \<and> f64_frac w \<noteq> 0"

definition f64_is_inf :: "f64 \<Rightarrow> bool" where
  "f64_is_inf w \<longleftrightarrow> f64_exp w = 2047 \<and> f64_frac w = 0"

text \<open>\<open>std::isfinite\<close>.\<close>

definition f64_finite :: "f64 \<Rightarrow> bool" where
  "f64_finite w \<longleftrightarrow> f64_exp w \<noteq> 2047"

text \<open>A finite value is \<open>\<plusminus> f64_mant w * 2 ^ f64_scale w\<close>.\<close>

definition f64_mant :: "f64 \<Rightarrow> nat" where
  "f64_mant w = (if f64_exp w = 0 then f64_frac w else f64_frac w + 2 ^ 52)"

definition f64_scale :: "f64 \<Rightarrow> int" where
  "f64_scale w = (if f64_exp w = 0 then -1074 else int (f64_exp w) - 1075)"

section \<open>Comparison\<close>

text \<open>
  Sign-magnitude patterns order the non-NaN values, with both zeros at 0. A comparison with a
  NaN is false (\<open>!=\<close> is the negation of \<open>==\<close>, hence true).
\<close>

definition f64_key :: "f64 \<Rightarrow> int" where
  "f64_key w = (if f64_sign w then - int (f64_mag w) else int (f64_mag w))"

definition f64_lt :: "f64 \<Rightarrow> f64 \<Rightarrow> bool" where
  "f64_lt a b \<longleftrightarrow> \<not> f64_is_nan a \<and> \<not> f64_is_nan b \<and> f64_key a < f64_key b"

definition f64_le :: "f64 \<Rightarrow> f64 \<Rightarrow> bool" where
  "f64_le a b \<longleftrightarrow> \<not> f64_is_nan a \<and> \<not> f64_is_nan b \<and> f64_key a \<le> f64_key b"

definition f64_eq :: "f64 \<Rightarrow> f64 \<Rightarrow> bool" where
  "f64_eq a b \<longleftrightarrow> \<not> f64_is_nan a \<and> \<not> f64_is_nan b \<and> f64_key a = f64_key b"

text \<open>\<open>std::max(a, b)\<close> returns \<open>b\<close> only when \<open>a < b\<close>.\<close>

definition f64_max :: "f64 \<Rightarrow> f64 \<Rightarrow> f64" where
  "f64_max a b = (if f64_lt a b then b else a)"

section \<open>Rounding\<close>

fun ilog2 :: "nat \<Rightarrow> nat" where
  "ilog2 n = (if n < 2 then 0 else Suc (ilog2 (n div 2)))"

declare ilog2.simps [simp del]

definition round_half_even :: "nat \<Rightarrow> nat \<Rightarrow> nat" where
  "round_half_even p q =
     (let n = p div q; r = p mod q
      in if 2 * r < q then n else if q < 2 * r then Suc n else if even n then n else Suc n)"

text \<open>\<open>scale_ratio p q e\<close> is the pair whose quotient is \<open>(p / q) / 2 ^ e\<close>.\<close>

definition scale_ratio :: "nat \<Rightarrow> nat \<Rightarrow> int \<Rightarrow> nat \<times> nat" where
  "scale_ratio p q e = (if 0 \<le> e then (p, q * 2 ^ nat e) else (p * 2 ^ nat (- e), q))"

text \<open>The exponent of the leading bit of \<open>p / q\<close>.\<close>

definition ratio_log2 :: "nat \<Rightarrow> nat \<Rightarrow> int" where
  "ratio_log2 p q =
     (let a = int (ilog2 p) - int (ilog2 q); (n, d) = scale_ratio p q a
      in if d \<le> n then a else a - 1)"

text \<open>
  The double nearest to \<open>p / q\<close>. The biased pattern of \<open>n * 2 ^ e\<close> is
  \<open>(e + 1074) * 2 ^ 52 + n\<close> for subnormal and normal values alike, and a carry out of the
  mantissa moves into the exponent by itself; patterns past the largest exponent are infinity.
\<close>

definition f64_of_ratio :: "bool \<Rightarrow> nat \<Rightarrow> nat \<Rightarrow> f64" where
  "f64_of_ratio s p q =
     (if p = 0 then f64_make s 0
      else let e = max (ratio_log2 p q - 52) (-1074);
               (n, d) = scale_ratio p q e
           in f64_make s (min (nat (e + 1074) * 2 ^ 52 + round_half_even n d) (2047 * 2 ^ 52)))"

text \<open>The double nearest to \<open>m * 2 ^ e\<close>.\<close>

definition f64_of_dyadic :: "bool \<Rightarrow> nat \<Rightarrow> int \<Rightarrow> f64" where
  "f64_of_dyadic s m e =
     (if 0 \<le> e then f64_of_ratio s (m * 2 ^ nat e) 1 else f64_of_ratio s m (2 ^ nat (- e)))"

section \<open>Arithmetic\<close>

definition f64_default_nan :: f64 where
  "f64_default_nan = 0xFFF8000000000000"

definition f64_quiet :: "f64 \<Rightarrow> f64" where
  "f64_quiet w = w OR 0x0008000000000000"

definition f64_neg :: "f64 \<Rightarrow> f64" where
  "f64_neg w = w XOR 0x8000000000000000"

definition f64_abs :: "f64 \<Rightarrow> f64" where
  "f64_abs w = f64_make False (f64_mag w)"

definition f64_signed :: "f64 \<Rightarrow> int" where
  "f64_signed w = (if f64_sign w then - int (f64_mant w) else int (f64_mant w))"

definition f64_add :: "f64 \<Rightarrow> f64 \<Rightarrow> f64" where
  "f64_add a b =
     (if f64_is_nan a then f64_quiet a
      else if f64_is_nan b then f64_quiet b
      else if f64_is_inf a then (if f64_is_inf b \<and> f64_sign a \<noteq> f64_sign b then f64_default_nan else a)
      else if f64_is_inf b then b
      else let e = min (f64_scale a) (f64_scale b);
               t = f64_signed a * 2 ^ nat (f64_scale a - e) + f64_signed b * 2 ^ nat (f64_scale b - e)
           in if t = 0 then f64_make (f64_sign a \<and> f64_sign b) 0
              else f64_of_dyadic (t < 0) (nat \<bar>t\<bar>) e)"

definition f64_mul :: "f64 \<Rightarrow> f64 \<Rightarrow> f64" where
  "f64_mul a b =
     (let s = (f64_sign a \<noteq> f64_sign b)
      in if f64_is_nan a then f64_quiet a
         else if f64_is_nan b then f64_quiet b
         else if f64_is_inf a then (if \<not> f64_is_inf b \<and> f64_mant b = 0 then f64_default_nan else f64_make s (2047 * 2 ^ 52))
         else if f64_is_inf b then (if f64_mant a = 0 then f64_default_nan else f64_make s (2047 * 2 ^ 52))
         else f64_of_dyadic s (f64_mant a * f64_mant b) (f64_scale a + f64_scale b))"

definition f64_sub :: "f64 \<Rightarrow> f64 \<Rightarrow> f64" where
  "f64_sub a b = (if f64_is_nan a then f64_quiet a else if f64_is_nan b then f64_quiet b
                  else f64_add a (f64_neg b))"

definition f64_div :: "f64 \<Rightarrow> f64 \<Rightarrow> f64" where
  "f64_div a b =
     (let s = (f64_sign a \<noteq> f64_sign b)
      in if f64_is_nan a then f64_quiet a
         else if f64_is_nan b then f64_quiet b
         else if f64_is_inf a then (if f64_is_inf b then f64_default_nan else f64_make s (2047 * 2 ^ 52))
         else if f64_is_inf b then f64_make s 0
         else if f64_mant b = 0 then (if f64_mant a = 0 then f64_default_nan else f64_make s (2047 * 2 ^ 52))
         else let e = f64_scale a - f64_scale b
              in if 0 \<le> e then f64_of_ratio s (f64_mant a * 2 ^ nat e) (f64_mant b)
                 else f64_of_ratio s (f64_mant a) (f64_mant b * 2 ^ nat (- e)))"

section \<open>Conversions\<close>

text \<open>\<open>static_cast<double>\<close> from unsigned and signed 64-bit integers.\<close>

definition f64_of_u64 :: "u64 \<Rightarrow> f64" where
  "f64_of_u64 w = f64_of_ratio False (unat w) 1"

definition f64_of_i64 :: "i64 \<Rightarrow> f64" where
  "f64_of_i64 w = f64_of_ratio (sint w < 0) (nat \<bar>sint w\<bar>) 1"

text \<open>
  The integer part of a finite value, towards zero. The casts back to integers are undefined
  in C++ where that part does not fit: \<open>None\<close>.
\<close>

definition f64_trunc :: "f64 \<Rightarrow> int" where
  "f64_trunc w =
     (let m = (if 0 \<le> f64_scale w then f64_mant w * 2 ^ nat (f64_scale w)
               else f64_mant w div 2 ^ nat (- f64_scale w))
      in if f64_sign w then - int m else int m)"

definition f64_to_u64 :: "f64 \<Rightarrow> u64 option" where
  "f64_to_u64 w =
     (if f64_finite w \<and> 0 \<le> f64_trunc w \<and> f64_trunc w < 2 ^ 64 then Some (word_of_int (f64_trunc w)) else None)"

definition f64_to_i32 :: "f64 \<Rightarrow> int option" where
  "f64_to_i32 w =
     (if f64_finite w \<and> - (2 ^ 31) \<le> f64_trunc w \<and> f64_trunc w < 2 ^ 31 then Some (f64_trunc w) else None)"

text \<open>\<open>std::to_string(double)\<close>: the \<open>%f\<close> format, six decimals, as the Windows runtime prints it.\<close>

definition pad6 :: "string \<Rightarrow> string" where
  "pad6 s = replicate (6 - length s) (CHR ''0'') @ s"

definition f64_text :: "f64 \<Rightarrow> string" where
  "f64_text w =
     (let sg = (if f64_sign w then ''-'' else '''')
      in if f64_is_inf w then sg @ ''inf''
         else if f64_is_nan w then
           (if w = f64_default_nan then ''-nan(ind)''
            else if f64_frac w < 2 ^ 51 then sg @ ''nan(snan)'' else sg @ ''nan'')
         else let (n, d) = scale_ratio (f64_mant w * 10 ^ 6) 1 (- f64_scale w);
                  t = round_half_even n d
              in sg @ dec_nat (t div 10 ^ 6) @ ''.'' @ pad6 (dec_nat (t mod 10 ^ 6)))"

definition f64_zero :: f64 where "f64_zero = 0"
definition f64_one :: f64 where "f64_one = 0x3FF0000000000000"

section \<open>Field and comparison lemmas\<close>

lemma unat_f64_make:
  assumes "m < 2 ^ 63"
  shows "unat (f64_make s m) = (if s then 2 ^ 63 else 0) + m"
proof -
  have "(if s then 2 ^ 63 else 0) + m < 2 ^ 64" using assms by simp
  then show ?thesis
    unfolding f64_make_def unsigned_of_nat by (simp add: take_bit_nat_eq_self)
qed

lemma f64_mag_make [simp]: "m < 2 ^ 63 \<Longrightarrow> f64_mag (f64_make s m) = m"
  by (simp add: f64_mag_def unat_f64_make)

lemma f64_sign_make [simp]: "m < 2 ^ 63 \<Longrightarrow> f64_sign (f64_make s m) = s"
  by (simp add: f64_sign_def unat_f64_make)

lemma f64_key_zero_iff: "f64_key w = 0 \<longleftrightarrow> f64_mag w = 0"
  by (simp add: f64_key_def)

lemma f64_eq_refl: "\<not> f64_is_nan a \<Longrightarrow> f64_eq a a"
  by (simp add: f64_eq_def)

lemma f64_eq_sym: "f64_eq a b \<longleftrightarrow> f64_eq b a"
  by (auto simp: f64_eq_def)

lemma f64_lt_linear:
  "\<not> f64_is_nan a \<Longrightarrow> \<not> f64_is_nan b \<Longrightarrow> f64_lt a b \<or> f64_eq a b \<or> f64_lt b a"
  by (auto simp: f64_lt_def f64_eq_def)

lemma f64_lt_not_eq: "f64_lt a b \<Longrightarrow> \<not> f64_eq a b"
  by (auto simp: f64_lt_def f64_eq_def)

lemma f64_lt_asym: "f64_lt a b \<Longrightarrow> \<not> f64_lt b a"
  by (auto simp: f64_lt_def)

lemma f64_lt_trans: "f64_lt a b \<Longrightarrow> f64_lt b c \<Longrightarrow> f64_lt a c"
  by (auto simp: f64_lt_def)

lemma f64_eq_trans: "f64_eq a b \<Longrightarrow> f64_eq b c \<Longrightarrow> f64_eq a c"
  by (auto simp: f64_eq_def)

lemma f64_lt_eq_trans: "f64_lt a b \<Longrightarrow> f64_eq b c \<Longrightarrow> f64_lt a c"
  by (auto simp: f64_lt_def f64_eq_def)

lemma f64_eq_lt_trans: "f64_eq a b \<Longrightarrow> f64_lt b c \<Longrightarrow> f64_lt a c"
  by (auto simp: f64_lt_def f64_eq_def)

lemma f64_finite_not_nan: "f64_finite w \<Longrightarrow> \<not> f64_is_nan w"
  by (simp add: f64_finite_def f64_is_nan_def)

interpretation f64_order: keyed_comparator "\<lambda>w. \<not> f64_is_nan w" f64_lt f64_key
  by unfold_locales (auto simp: f64_lt_def)

section \<open>Exactness of the conversions below 2 ^ 53\<close>

lemma ilog2_bounds: "0 < n \<Longrightarrow> 2 ^ ilog2 n \<le> n \<and> n < 2 ^ Suc (ilog2 n)"
proof (induction n rule: ilog2.induct)
  case (1 n)
  show ?case
  proof (cases "n < 2")
    case True
    with 1 show ?thesis by (simp add: ilog2.simps [of n])
  next
    case False
    with "1.IH" have "2 ^ ilog2 (n div 2) \<le> n div 2 \<and> n div 2 < 2 ^ Suc (ilog2 (n div 2))" by simp
    moreover have "ilog2 n = Suc (ilog2 (n div 2))" using False by (simp add: ilog2.simps [of n])
    ultimately show ?thesis by auto
  qed
qed

lemma ilog2_unique:
  assumes "2 ^ k \<le> n" "n < 2 ^ Suc k"
  shows "ilog2 n = k"
proof -
  have "0 < n" using assms(1) by (metis gr0I le_zero_eq power_not_zero zero_neq_numeral)
  then have *: "2 ^ ilog2 n \<le> n" "n < 2 ^ Suc (ilog2 n)" using ilog2_bounds by auto
  have "(2::nat) ^ k < 2 ^ Suc (ilog2 n)" "(2::nat) ^ ilog2 n < 2 ^ Suc k"
    using * assms by (metis le_less_trans)+
  then have "k < Suc (ilog2 n)" "ilog2 n < Suc k"
    using power_less_imp_less_exp [of "2::nat"] one_less_numeral_iff semiring_norm(76) by blast+
  then show ?thesis by simp
qed

lemma ilog2_mult_pow: "0 < n \<Longrightarrow> ilog2 (n * 2 ^ a) = ilog2 n + a"
  by (rule ilog2_unique) (use ilog2_bounds [of n] in \<open>auto simp: power_add\<close>)

lemma ilog2_pow [simp]: "ilog2 (2 ^ b) = b"
  by (rule ilog2_unique) auto

lemma ilog2_less: "0 < n \<Longrightarrow> n < 2 ^ k \<Longrightarrow> ilog2 n < k"
  using ilog2_bounds [of n] power_less_imp_less_exp [of "2::nat" "ilog2 n" k]
  by (auto dest: le_less_trans)

lemma pow_split: "a + b = (c::nat) \<Longrightarrow> (2::nat) ^ a * 2 ^ b = 2 ^ c"
  by (metis power_add)

lemma ratio_log2_dyadic:
  assumes "0 < m"
  shows "ratio_log2 (m * 2 ^ a) (2 ^ b) = int (ilog2 m) + int a - int b"
proof (cases "b \<le> ilog2 m + a")
  case True
  have "(2::nat) ^ b * 2 ^ (ilog2 m + a - b) = 2 ^ ilog2 m * 2 ^ a"
    using True by (simp flip: power_add)
  also have "\<dots> \<le> m * 2 ^ a" using ilog2_bounds [OF assms] by simp
  finally show ?thesis
    using True assms
    by (simp add: ratio_log2_def scale_ratio_def Let_def ilog2_mult_pow nat_diff_distrib nat_add_distrib)
next
  case False
  then have "(2::nat) ^ b = 2 ^ ilog2 m * 2 ^ a * 2 ^ (b - (ilog2 m + a))"
    by (simp flip: power_add)
  also have "\<dots> \<le> m * 2 ^ a * 2 ^ (b - (ilog2 m + a))" using ilog2_bounds [OF assms] by simp
  finally have *: "(2::nat) ^ b \<le> m * 2 ^ a * 2 ^ (b - (ilog2 m + a))" .
  have "nat (- (int (ilog2 m + a) - int b)) = b - (ilog2 m + a)" using False by simp
  with * False show ?thesis
    using assms by (simp add: ratio_log2_def scale_ratio_def Let_def ilog2_mult_pow)
qed

lemma round_half_even_exact: "0 < d \<Longrightarrow> round_half_even (n * d) d = n"
  by (simp add: round_half_even_def)

text \<open>Integers below \<open>2 ^ 53\<close> have an exact pattern: exponent from the leading bit, fraction shifted up.\<close>

lemma f64_of_nat_pattern:
  assumes "0 < n" "n < 2 ^ 53"
  shows "f64_of_ratio s n 1 =
           f64_make s ((1022 + ilog2 n) * 2 ^ 52 + n * 2 ^ (52 - ilog2 n))"
proof -
  let ?l = "ilog2 n"
  have l: "?l \<le> 52" using ilog2_less [OF assms] by simp
  have r: "ratio_log2 n 1 = int ?l"
    using ratio_log2_dyadic [OF assms(1), of 0 0] by simp
  have e: "max (int ?l - 52) (- 1074) = int ?l - 52" by simp
  have "nat (- (int ?l - 52)) = 52 - ?l" using l by simp
  then have sr: "scale_ratio n 1 (int ?l - 52) = (n * 2 ^ (52 - ?l), 1)"
    using l by (cases "?l = 52") (auto simp: scale_ratio_def)
  have "n * 2 ^ (52 - ?l) < 2 ^ Suc ?l * 2 ^ (52 - ?l)"
    using ilog2_bounds [OF assms(1)] by simp
  also have "\<dots> = 2 ^ 53" using l by (simp flip: power_add power_Suc)
  finally have b: "n * 2 ^ (52 - ?l) < 2 ^ 53" .
  have "nat (int ?l - 52 + 1074) = 1022 + ?l" using l by simp
  moreover have "(1022 + ?l) * 2 ^ 52 + n * 2 ^ (52 - ?l) \<le> 2047 * 2 ^ 52"
    using b l mult_le_mono1 [of "1022 + ?l" 1074 "2 ^ 52"] by simp
  ultimately show ?thesis
    using assms(1) r e sr round_half_even_exact [of 1 "n * 2 ^ (52 - ?l)"]
    by (simp add: f64_of_ratio_def Let_def min_def)
qed

lemma f64_fields_of_nat:
  assumes "0 < n" "n < 2 ^ 53"
  shows "f64_exp (f64_of_ratio s n 1) = 1023 + ilog2 n"
    and "f64_mant (f64_of_ratio s n 1) = n * 2 ^ (52 - ilog2 n)"
    and "f64_sign (f64_of_ratio s n 1) = s"
proof -
  let ?l = "ilog2 n"
  let ?M = "n * 2 ^ (52 - ?l)"
  have l: "?l \<le> 52" using ilog2_less [OF assms] by simp
  have lo: "2 ^ 52 \<le> ?M"
    using ilog2_bounds [OF assms(1)] l pow_split [of ?l "52 - ?l" 52]
    by (metis le_add_diff_inverse mult_le_mono1)
  have "?M < 2 ^ Suc ?l * 2 ^ (52 - ?l)"
    using ilog2_bounds [OF assms(1)] by simp
  also have "\<dots> = 2 ^ 53" using l by (simp add: pow_split del: power_Suc)
  finally have hi: "?M < 2 ^ 53" .
  obtain f where M: "?M = 2 ^ 52 + f" and f: "f < 2 ^ 52"
    using lo hi by (auto simp: le_iff_add)
  have pat: "(1022 + ?l) * 2 ^ 52 + ?M = (1023 + ?l) * 2 ^ 52 + f" by (simp add: M)
  have small: "(1023 + ?l) * 2 ^ 52 + f < 2 ^ 63" using l f by simp
  have mag: "f64_mag (f64_of_ratio s n 1) = (1023 + ?l) * 2 ^ 52 + f"
    using f64_of_nat_pattern [OF assms, of s] pat small by simp
  show ex: "f64_exp (f64_of_ratio s n 1) = 1023 + ?l"
    using f by (simp add: f64_exp_def mag del: One_nat_def)
  have "f64_frac (f64_of_ratio s n 1) = f"
    using f unfolding f64_frac_def mag by (simp only: mod_mult_self3 mod_less)
  then show "f64_mant (f64_of_ratio s n 1) = ?M" by (simp add: f64_mant_def ex M del: One_nat_def)
  show "f64_sign (f64_of_ratio s n 1) = s"
    using f64_of_nat_pattern [OF assms, of s] pat small by simp
qed

lemma f64_trunc_of_nat:
  assumes "n < 2 ^ 53"
  shows "f64_trunc (f64_of_ratio False n 1) = int n"
proof (cases "n = 0")
  case True
  then show ?thesis
    by (simp add: f64_of_ratio_def f64_trunc_def f64_mant_def f64_frac_def f64_exp_def f64_scale_def)
next
  case False
  then have n: "0 < n" by simp
  have sc: "f64_scale (f64_of_ratio False n 1) = int (ilog2 n) - 52"
    by (simp add: f64_scale_def f64_fields_of_nat [OF n assms] del: One_nat_def)
  show ?thesis
  proof (cases "52 \<le> ilog2 n")
    case True
    then have "ilog2 n = 52"
      using ilog2_less [OF n assms] by simp
    with sc show ?thesis by (simp add: f64_trunc_def f64_fields_of_nat [OF n assms] del: One_nat_def)
  next
    case False
    then have "nat (- (int (ilog2 n) - 52)) = 52 - ilog2 n" by simp
    with sc False show ?thesis by (simp add: f64_trunc_def f64_fields_of_nat [OF n assms] del: One_nat_def)
  qed
qed

lemma f64_to_u64_of_u64:
  assumes "unat w < 2 ^ 53"
  shows "f64_to_u64 (f64_of_u64 w) = Some w"
proof -
  have fin: "f64_finite (f64_of_u64 w)"
  proof (cases "unat w = 0")
    case True
    then show ?thesis by (simp add: f64_of_u64_def f64_of_ratio_def f64_finite_def f64_exp_def)
  next
    case False
    then have "ilog2 (unat w) < 53"
      using ilog2_less [OF _ assms] by simp
    with False show ?thesis
      by (simp add: f64_of_u64_def f64_finite_def f64_fields_of_nat [OF _ assms] del: One_nat_def)
  qed
  have "f64_trunc (f64_of_u64 w) = int (unat w)"
    by (simp only: f64_of_u64_def f64_trunc_of_nat [OF assms])
  moreover have "uint w < 2 ^ 64" using uint_lt2p [of w] by simp
  ultimately show ?thesis using fin by (simp add: f64_to_u64_def)
qed

end
