(* ===== verification/Core.thy ===== *)
theory Core
  imports Enums Float64 "HOL-Library.List_Lexorder" "HOL-Library.Char_ord"
begin

text \<open>
  \<open>core/ids.hpp\<close>, \<open>core/time.hpp\<close>, \<open>core/value.hpp\<close> and \<open>core/provenance.hpp\<close>: typed 64-bit
  identities, timestamps, the typed evidence value with its throwing accessors, provenance and
  confidence. Exceptions of the C++ library are values of \<open>fault\<close>; an operation whose C++
  behaviour is undefined returns \<open>Undefined\<close>.
\<close>

datatype fault =
    Runtime_error string
  | Out_of_range string
  | Undefined string

text \<open>\<open>version()\<close>.\<close>

definition po_version :: string where
  "po_version = ''1.0.0''"

section \<open>Identities\<close>

datatype PlacementObservationTag = PlacementObservationTag
datatype PlacementDecisionTag = PlacementDecisionTag
datatype PlacementAttemptTag = PlacementAttemptTag
datatype SourceTag = SourceTag
datatype NodeTag = NodeTag
datatype DeviceTag = DeviceTag
datatype WorkloadTag = WorkloadTag
datatype RequestTag = RequestTag
datatype TenantTag = TenantTag
datatype NamespaceTag = NamespaceTag
datatype CandidateTag = CandidateTag
datatype WorkerTag = WorkerTag
datatype DatasetTag = DatasetTag
datatype ModelTag = ModelTag

datatype (dead 'tag) Id = Id (id_value: u64)

type_synonym PlacementObservationId = "PlacementObservationTag Id"
type_synonym PlacementDecisionId = "PlacementDecisionTag Id"
type_synonym PlacementAttemptId = "PlacementAttemptTag Id"
type_synonym SourceId = "SourceTag Id"
type_synonym NodeId = "NodeTag Id"
type_synonym DeviceId = "DeviceTag Id"
type_synonym WorkloadId = "WorkloadTag Id"
type_synonym RequestId = "RequestTag Id"
type_synonym TenantId = "TenantTag Id"
type_synonym NamespaceId = "NamespaceTag Id"
type_synonym CandidateId = "CandidateTag Id"

definition nil_id :: "'t Id" where
  "nil_id = Id 0"

definition id_valid :: "'t Id \<Rightarrow> bool" where
  "id_valid i \<longleftrightarrow> id_value i \<noteq> 0"

definition id_nil :: "'t Id \<Rightarrow> bool" where
  "id_nil i \<longleftrightarrow> id_value i = 0"

definition id_str :: "'t Id \<Rightarrow> string" where
  "id_str i = dec_nat (unat (id_value i))"

text \<open>\<open>next_id_from\<close> increments the counter and returns the identity of its new value.\<close>

definition next_id_from :: "u64 \<Rightarrow> 't Id \<times> u64" where
  "next_id_from counter = (Id (counter + 1), counter + 1)"

lemma id_valid_nil: "id_valid i \<longleftrightarrow> \<not> id_nil i"
  by (simp add: id_valid_def id_nil_def)

lemma id_str_inj [simp]: "id_str a = id_str b \<longleftrightarrow> a = b"
  by (cases a; cases b) (auto simp: id_str_def intro: unsigned_word_eqI)

text \<open>\<open>operator<=>\<close> of \<open>Id\<close>.\<close>

instantiation Id :: (type) linorder
begin

definition less_eq_Id :: "'a Id \<Rightarrow> 'a Id \<Rightarrow> bool" where
  "less_eq_Id a b \<longleftrightarrow> id_value a \<le> id_value b"

definition less_Id :: "'a Id \<Rightarrow> 'a Id \<Rightarrow> bool" where
  "less_Id a b \<longleftrightarrow> id_value a < id_value b"

instance
  by standard (auto simp: less_eq_Id_def less_Id_def intro: Id.expand)

end

section \<open>Time\<close>

record Timestamp =
  ts_wall :: i64
  ts_mono :: u64
  ts_uncertainty_ns :: i64

definition Timestamp_default :: Timestamp where
  "Timestamp_default = \<lparr>ts_wall = 0, ts_mono = 0, ts_uncertainty_ns = 0\<rparr>"

definition time_before :: "Timestamp \<Rightarrow> Timestamp \<Rightarrow> bool" where
  "time_before a b =
     (if ts_mono a \<noteq> 0 \<and> ts_mono b \<noteq> 0 then ts_mono a < ts_mono b
      else if ts_wall a \<noteq> ts_wall b then sint (ts_wall a) < sint (ts_wall b)
      else False)"

definition time_after :: "Timestamp \<Rightarrow> Timestamp \<Rightarrow> bool" where
  "time_after a b =
     (if ts_mono a \<noteq> 0 \<and> ts_mono b \<noteq> 0 then ts_mono a > ts_mono b
      else if ts_wall a \<noteq> ts_wall b then sint (ts_wall a) > sint (ts_wall b)
      else False)"

lemma time_after_before: "time_after a b = time_before b a"
  by (auto simp: time_after_def time_before_def)

section \<open>Provenance and confidence\<close>

record Provenance =
  prov_source_id :: SourceId
  prov_source_generation :: u64
  prov_source_type :: SourceType
  prov_method :: CollectionMethod
  prov_reliability :: ReliabilityClass
  prov_classification :: Classification
  prov_timestamp :: Timestamp
  prov_uncertainty_ns :: i64
  prov_worker_boot :: u64
  prov_coordinator_epoch :: u64
  prov_collection_error :: string
  prov_normalized_field :: string
  prov_raw_field :: string

definition Provenance_default :: Provenance where
  "Provenance_default =
     \<lparr>prov_source_id = nil_id, prov_source_generation = 0, prov_source_type = SourceType.Provider,
      prov_method = CollectionMethod.Unknown, prov_reliability = ReliabilityClass.Unknown,
      prov_classification = Classification.Unknown, prov_timestamp = Timestamp_default,
      prov_uncertainty_ns = 0, prov_worker_boot = 0, prov_coordinator_epoch = 0,
      prov_collection_error = '''', prov_normalized_field = '''', prov_raw_field = ''''\<rparr>"

record Confidence =
  conf_cls :: ConfidenceClass
  conf_numerator :: f64
  conf_denominator :: f64
  conf_derivation :: string

definition Confidence_default :: Confidence where
  "Confidence_default =
     \<lparr>conf_cls = ConfidenceClass.InsufficientEvidence, conf_numerator = f64_zero,
      conf_denominator = f64_zero, conf_derivation = ''''\<rparr>"

definition confidence_numeric :: "Confidence \<Rightarrow> f64" where
  "confidence_numeric c =
     (if f64_lt f64_zero (conf_denominator c) then f64_div (conf_numerator c) (conf_denominator c)
      else f64_zero)"

section \<open>Evidence values\<close>

datatype Value =
    VNone
  | VInt i64
  | VUInt u64
  | VDouble f64
  | VBool bool
  | VString string

datatype ValueKind = KNone | KInt | KUInt | KDouble | KBool | KString

primrec value_kind :: "Value \<Rightarrow> ValueKind" where
  "value_kind VNone = KNone"
| "value_kind (VInt i) = KInt"
| "value_kind (VUInt u) = KUInt"
| "value_kind (VDouble d) = KDouble"
| "value_kind (VBool b) = KBool"
| "value_kind (VString s) = KString"

definition value_valid :: "Value \<Rightarrow> bool" where
  "value_valid v \<longleftrightarrow> value_kind v \<noteq> KNone"

fun value_as_int :: "Value \<Rightarrow> fault + i64" where
  "value_as_int (VInt i) = Inr i"
| "value_as_int _ = Inl (Runtime_error ''Value::as_int on non-int value'')"

fun value_as_uint :: "Value \<Rightarrow> fault + u64" where
  "value_as_uint (VUInt u) = Inr u"
| "value_as_uint (VInt i) =
     (if sint i < 0 then Inl (Runtime_error ''Value::as_uint on negative int'') else Inr i)"
| "value_as_uint _ = Inl (Runtime_error ''Value::as_uint on non-uint value'')"

fun value_as_double :: "Value \<Rightarrow> fault + f64" where
  "value_as_double (VDouble d) = Inr d"
| "value_as_double (VInt i) = Inr (f64_of_i64 i)"
| "value_as_double (VUInt u) = Inr (f64_of_u64 u)"
| "value_as_double _ = Inl (Runtime_error ''Value::as_double on non-numeric value'')"

fun value_as_bool :: "Value \<Rightarrow> fault + bool" where
  "value_as_bool (VBool b) = Inr b"
| "value_as_bool _ = Inl (Runtime_error ''Value::as_bool on non-bool value'')"

fun value_as_string :: "Value \<Rightarrow> fault + string" where
  "value_as_string (VString s) = Inr s"
| "value_as_string _ = Inl (Runtime_error ''Value::as_string on non-string value'')"

primrec value_text :: "Value \<Rightarrow> string" where
  "value_text VNone = ''null''"
| "value_text (VInt i) = dec_int (sint i)"
| "value_text (VUInt u) = dec_nat (unat u)"
| "value_text (VDouble d) = f64_text d"
| "value_text (VBool b) = (if b then ''true'' else ''false'')"
| "value_text (VString s) = s"

lemma value_as_uint_cases:
  "value_as_uint v = Inr u \<longleftrightarrow> v = VUInt u \<or> (v = VInt u \<and> 0 \<le> sint u)"
  by (cases v) auto

end
