(* ===== verification/Model.thy ===== *)
theory Model
  imports Core
begin

text \<open>
  \<open>core/model.hpp\<close> and \<open>core/analysis.hpp\<close>: the evidence records, one \<^theory_text>\<open>record\<close> per
  struct, with the source's fields in their order (each prefixed by a short name of its struct)
  and a constant \<open>X_default\<close> for the value the default member initialisers give. A
  \<open>std::vector\<close> is a list, a \<open>std::optional\<close> an option, a \<open>std::map\<close> a key-sorted association
  list and a \<open>double\<close> its 64-bit pattern.
\<close>

section \<open>The data model\<close>

record Measurement =
  meas_normalized_field :: string
  meas_raw_field :: string
  meas_value :: Value
  meas_classification :: Classification
  meas_provenance :: Provenance

definition Measurement_default :: Measurement where
  "Measurement_default =
     \<lparr>meas_normalized_field = '''',
      meas_raw_field = '''',
      meas_value = VNone,
      meas_classification = Classification.Unknown,
      meas_provenance = Provenance_default\<rparr>"

record SourceDescriptor =
  src_source_id :: SourceId
  src_generation :: u64
  src_type :: SourceType
  src_name :: string
  src_reliability :: ReliabilityClass
  src_endpoint :: string
  src_last_seen :: Timestamp
  src_synthetic :: bool

definition SourceDescriptor_default :: SourceDescriptor where
  "SourceDescriptor_default =
     \<lparr>src_source_id = nil_id,
      src_generation = 0,
      src_type = SourceType.Provider,
      src_name = '''',
      src_reliability = ReliabilityClass.Unknown,
      src_endpoint = '''',
      src_last_seen = Timestamp_default,
      src_synthetic = False\<rparr>"

record DeviceDescriptor =
  dev_device_id :: DeviceId
  dev_node_id :: NodeId
  dev_kind :: DeviceKind
  dev_vendor :: string
  dev_model :: string
  dev_architecture :: string
  dev_compute_capability_major :: i32
  dev_compute_capability_minor :: i32
  dev_memory_bytes :: u64
  dev_free_memory_bytes :: u64
  dev_used_memory_bytes :: u64
  dev_sm_count :: i32
  dev_clock_mhz :: f64
  dev_health :: HealthState
  dev_synthetic :: bool

definition DeviceDescriptor_default :: DeviceDescriptor where
  "DeviceDescriptor_default =
     \<lparr>dev_device_id = nil_id,
      dev_node_id = nil_id,
      dev_kind = DeviceKind.Unknown,
      dev_vendor = '''',
      dev_model = '''',
      dev_architecture = '''',
      dev_compute_capability_major = 0,
      dev_compute_capability_minor = 0,
      dev_memory_bytes = 0,
      dev_free_memory_bytes = 0,
      dev_used_memory_bytes = 0,
      dev_sm_count = 0,
      dev_clock_mhz = f64_zero,
      dev_health = HealthState.Unknown,
      dev_synthetic = False\<rparr>"

record NodeDescriptor =
  node_node_id :: NodeId
  node_hostname :: string
  node_cpu_count :: i32
  node_memory_bytes :: u64
  node_numa_architecture :: string
  node_devices :: "DeviceId list"
  node_health :: HealthState
  node_region :: string
  node_synthetic :: bool

definition NodeDescriptor_default :: NodeDescriptor where
  "NodeDescriptor_default =
     \<lparr>node_node_id = nil_id,
      node_hostname = '''',
      node_cpu_count = 0,
      node_memory_bytes = 0,
      node_numa_architecture = '''',
      node_devices = [],
      node_health = HealthState.Unknown,
      node_region = '''',
      node_synthetic = False\<rparr>"

record WorkloadDescriptor =
  wl_workload_id :: WorkloadId
  wl_request_id :: RequestId
  wl_tenant_id :: TenantId
  wl_namespace_id :: NamespaceId
  wl_name :: string
  wl_required_kind :: DeviceKind
  wl_required_architecture :: string
  wl_memory_bytes :: u64
  wl_predicted_service_seconds :: f64
  wl_priority :: PriorityClass
  wl_slo :: SloClass
  wl_capabilities :: "string list"
  wl_synthetic :: bool

definition WorkloadDescriptor_default :: WorkloadDescriptor where
  "WorkloadDescriptor_default =
     \<lparr>wl_workload_id = nil_id,
      wl_request_id = nil_id,
      wl_tenant_id = nil_id,
      wl_namespace_id = nil_id,
      wl_name = '''',
      wl_required_kind = DeviceKind.Unknown,
      wl_required_architecture = '''',
      wl_memory_bytes = 0,
      wl_predicted_service_seconds = f64_zero,
      wl_priority = PriorityClass.Normal,
      wl_slo = SloClass.Standard,
      wl_capabilities = [],
      wl_synthetic = False\<rparr>"

record QueueDescriptor =
  queue_queue_name :: string
  queue_state :: QueueState
  queue_depth :: u32
  queue_oldest_age_ns :: u64
  queue_head_wait_ns :: u64
  queue_expected_wait_ns :: u64
  queue_capacity :: u32

definition QueueDescriptor_default :: QueueDescriptor where
  "QueueDescriptor_default =
     \<lparr>queue_queue_name = '''',
      queue_state = QueueState.Unknown,
      queue_depth = 0,
      queue_oldest_age_ns = 0,
      queue_head_wait_ns = 0,
      queue_expected_wait_ns = 0,
      queue_capacity = 0\<rparr>"

record MemoryDescriptor =
  mem_total_bytes :: u64
  mem_free_bytes :: u64
  mem_used_bytes :: u64
  mem_pressure :: MemoryPressureLevel
  mem_pressure_ratio :: f64

definition MemoryDescriptor_default :: MemoryDescriptor where
  "MemoryDescriptor_default =
     \<lparr>mem_total_bytes = 0,
      mem_free_bytes = 0,
      mem_used_bytes = 0,
      mem_pressure = MemoryPressureLevel.Unknown,
      mem_pressure_ratio = f64_zero\<rparr>"

record TopologyDescriptor =
  topo_type :: TopologyType
  topo_from_node :: NodeId
  topo_to_node :: NodeId
  topo_from_device :: DeviceId
  topo_to_device :: DeviceId
  topo_distance_units :: u64
  topo_interconnect_path :: string
  topo_transfer_cost :: f64

definition TopologyDescriptor_default :: TopologyDescriptor where
  "TopologyDescriptor_default =
     \<lparr>topo_type = TopologyType.Unknown,
      topo_from_node = nil_id,
      topo_to_node = nil_id,
      topo_from_device = nil_id,
      topo_to_device = nil_id,
      topo_distance_units = 0,
      topo_interconnect_path = '''',
      topo_transfer_cost = f64_zero\<rparr>"

record LocalityDescriptor =
  loc_type :: LocalityType
  loc_state_key :: string
  loc_device_id :: DeviceId
  loc_node_id :: NodeId
  loc_present :: bool
  loc_benefit :: f64

definition LocalityDescriptor_default :: LocalityDescriptor where
  "LocalityDescriptor_default =
     \<lparr>loc_type = LocalityType.Unknown,
      loc_state_key = '''',
      loc_device_id = nil_id,
      loc_node_id = nil_id,
      loc_present = False,
      loc_benefit = f64_zero\<rparr>"

record ReservationDescriptor =
  resv_reservation_key :: string
  resv_tenant_id :: TenantId
  resv_device_id :: DeviceId
  resv_node_id :: NodeId
  resv_reserved_bytes :: u64
  resv_active :: bool

definition ReservationDescriptor_default :: ReservationDescriptor where
  "ReservationDescriptor_default =
     \<lparr>resv_reservation_key = '''',
      resv_tenant_id = nil_id,
      resv_device_id = nil_id,
      resv_node_id = nil_id,
      resv_reserved_bytes = 0,
      resv_active = False\<rparr>"

record DeadlineDescriptor =
  dl_deadline_ns :: i64
  dl_submitted_ns :: i64
  dl_state :: DeadlineState
  dl_risk :: f64

definition DeadlineDescriptor_default :: DeadlineDescriptor where
  "DeadlineDescriptor_default =
     \<lparr>dl_deadline_ns = 0,
      dl_submitted_ns = 0,
      dl_state = DeadlineState.Unknown,
      dl_risk = f64_zero\<rparr>"

record PlacementConstraint =
  con_cls :: ConstraintClass
  con_kind :: ConstraintKind
  con_field :: string
  con_value :: Value
  con_requirement_text :: string
  con_classification :: Classification
  con_provenance :: Provenance

definition PlacementConstraint_default :: PlacementConstraint where
  "PlacementConstraint_default =
     \<lparr>con_cls = ConstraintClass.Hard,
      con_kind = ConstraintKind.Custom,
      con_field = '''',
      con_value = VNone,
      con_requirement_text = '''',
      con_classification = Classification.Unknown,
      con_provenance = Provenance_default\<rparr>"

record PlacementCostComponent =
  cost_kind :: CostComponentKind
  cost_label :: string
  cost_cost :: f64
  cost_policy_weight :: f64
  cost_classification :: Classification
  cost_provenance :: Provenance
  cost_detail :: string

definition PlacementCostComponent_default :: PlacementCostComponent where
  "PlacementCostComponent_default =
     \<lparr>cost_kind = CostComponentKind.Custom,
      cost_label = '''',
      cost_cost = f64_zero,
      cost_policy_weight = f64_zero,
      cost_classification = Classification.Unknown,
      cost_provenance = Provenance_default,
      cost_detail = ''''\<rparr>"

record PlacementScoreComponent =
  score_kind :: ScoreComponentKind
  score_label :: string
  score_value :: f64
  score_classification :: Classification
  score_provenance :: Provenance

definition PlacementScoreComponent_default :: PlacementScoreComponent where
  "PlacementScoreComponent_default =
     \<lparr>score_kind = ScoreComponentKind.Custom,
      score_label = '''',
      score_value = f64_zero,
      score_classification = Classification.Unknown,
      score_provenance = Provenance_default\<rparr>"

record PlacementCandidate =
  cand_candidate_id :: CandidateId
  cand_node_id :: NodeId
  cand_device_id :: DeviceId
  cand_generation :: u64
  cand_architecture :: string
  cand_capabilities :: "string list"
  cand_health :: HealthState
  cand_memory :: MemoryDescriptor
  cand_queue :: QueueDescriptor
  cand_locality :: "LocalityDescriptor list"
  cand_costs :: "PlacementCostComponent list"
  cand_total_cost :: f64
  cand_rejection_reason_text :: "string option"
  cand_rejection_reason :: "RejectionReason option"

definition PlacementCandidate_default :: PlacementCandidate where
  "PlacementCandidate_default =
     \<lparr>cand_candidate_id = nil_id,
      cand_node_id = nil_id,
      cand_device_id = nil_id,
      cand_generation = 0,
      cand_architecture = '''',
      cand_capabilities = [],
      cand_health = HealthState.Unknown,
      cand_memory = MemoryDescriptor_default,
      cand_queue = QueueDescriptor_default,
      cand_locality = [],
      cand_costs = [],
      cand_total_cost = f64_zero,
      cand_rejection_reason_text = None,
      cand_rejection_reason = None\<rparr>"

record CandidateSet =
  cset_candidates :: "PlacementCandidate list"
  cset_complete :: bool
  cset_reconstructed :: bool
  cset_classification :: Classification
  cset_source_chain :: "Provenance list"
  cset_missing_fields :: "string list"

definition CandidateSet_default :: CandidateSet where
  "CandidateSet_default =
     \<lparr>cset_candidates = [],
      cset_complete = False,
      cset_reconstructed = False,
      cset_classification = Classification.Measured,
      cset_source_chain = [],
      cset_missing_fields = []\<rparr>"

record PlacementOutcome =
  out_decision_id :: PlacementDecisionId
  out_attempt_id :: PlacementAttemptId
  out_disposition :: OutcomeDisposition
  out_start_delay_ns :: i64
  out_duration_ns :: i64
  out_predicted_duration_ns :: i64
  out_memory_used_bytes :: u64
  out_error :: string
  out_classification :: Classification
  out_provenance :: Provenance

definition PlacementOutcome_default :: PlacementOutcome where
  "PlacementOutcome_default =
     \<lparr>out_decision_id = nil_id,
      out_attempt_id = nil_id,
      out_disposition = OutcomeDisposition.Unknown,
      out_start_delay_ns = 0,
      out_duration_ns = 0,
      out_predicted_duration_ns = 0,
      out_memory_used_bytes = 0,
      out_error = '''',
      out_classification = Classification.Measured,
      out_provenance = Provenance_default\<rparr>"

record PlacementObservation =
  obs_observation_id :: PlacementObservationId
  obs_observation_generation :: u64
  obs_revision :: i64
  obs_source_id :: SourceId
  obs_source_generation :: u64
  obs_source_type :: SourceType
  obs_timestamp :: Timestamp
  obs_worker_boot :: u64
  obs_coordinator_epoch :: u64
  obs_workload_id :: WorkloadId
  obs_request_id :: RequestId
  obs_tenant_id :: TenantId
  obs_namespace_id :: NamespaceId
  obs_node_id :: NodeId
  obs_device_id :: DeviceId
  obs_decision_id :: PlacementDecisionId
  obs_attempt_id :: PlacementAttemptId
  obs_epoch :: u64
  obs_lifecycle :: LifecycleState
  obs_fields :: "Measurement list"
  obs_reliability :: ReliabilityClass
  obs_synthetic :: bool

definition PlacementObservation_default :: PlacementObservation where
  "PlacementObservation_default =
     \<lparr>obs_observation_id = nil_id,
      obs_observation_generation = 0,
      obs_revision = 0,
      obs_source_id = nil_id,
      obs_source_generation = 0,
      obs_source_type = SourceType.Provider,
      obs_timestamp = Timestamp_default,
      obs_worker_boot = 0,
      obs_coordinator_epoch = 0,
      obs_workload_id = nil_id,
      obs_request_id = nil_id,
      obs_tenant_id = nil_id,
      obs_namespace_id = nil_id,
      obs_node_id = nil_id,
      obs_device_id = nil_id,
      obs_decision_id = nil_id,
      obs_attempt_id = nil_id,
      obs_epoch = 0,
      obs_lifecycle = LifecycleState.Collected,
      obs_fields = [],
      obs_reliability = ReliabilityClass.Current,
      obs_synthetic = False\<rparr>"

record PlacementDecision =
  dec_decision_id :: PlacementDecisionId
  dec_attempt_id :: PlacementAttemptId
  dec_placement_generation :: u64
  dec_observation_generation :: u64
  dec_epoch :: u64
  dec_policy_generation :: u64
  dec_workload_id :: WorkloadId
  dec_request_id :: RequestId
  dec_tenant_id :: TenantId
  dec_namespace_id :: NamespaceId
  dec_node_id :: NodeId
  dec_device_id :: DeviceId
  dec_candidate_set :: CandidateSet
  dec_selected_candidate :: CandidateId
  dec_rejected_candidates :: "CandidateId list"
  dec_hard_constraints :: "PlacementConstraint list"
  dec_soft_preferences :: "PlacementConstraint list"
  dec_score_components :: "PlacementScoreComponent list"
  dec_cost_components :: "PlacementCostComponent list"
  dec_tie_break :: TieBreakReason
  dec_tie_break_reason :: string
  dec_selected_reason :: string
  dec_rejection_reasons :: "(CandidateId \<times> string) list"
  dec_confidence :: Confidence
  dec_classification :: Classification
  dec_determinism :: DeterminismClass
  dec_provenance :: Provenance
  dec_outcome :: "PlacementOutcome option"
  dec_lifecycle :: LifecycleState

definition PlacementDecision_default :: PlacementDecision where
  "PlacementDecision_default =
     \<lparr>dec_decision_id = nil_id,
      dec_attempt_id = nil_id,
      dec_placement_generation = 0,
      dec_observation_generation = 0,
      dec_epoch = 0,
      dec_policy_generation = 0,
      dec_workload_id = nil_id,
      dec_request_id = nil_id,
      dec_tenant_id = nil_id,
      dec_namespace_id = nil_id,
      dec_node_id = nil_id,
      dec_device_id = nil_id,
      dec_candidate_set = CandidateSet_default,
      dec_selected_candidate = nil_id,
      dec_rejected_candidates = [],
      dec_hard_constraints = [],
      dec_soft_preferences = [],
      dec_score_components = [],
      dec_cost_components = [],
      dec_tie_break = TieBreakReason.None_v,
      dec_tie_break_reason = '''',
      dec_selected_reason = '''',
      dec_rejection_reasons = [],
      dec_confidence = Confidence_default,
      dec_classification = Classification.Measured,
      dec_determinism = DeterminismClass.Deterministic,
      dec_provenance = Provenance_default,
      dec_outcome = None,
      dec_lifecycle = LifecycleState.DecisionLinked\<rparr>"

record ExplanationLine =
  line_question :: string
  line_answer :: string
  line_influence :: f64
  line_classification :: Classification
  line_evidence_fields :: "string list"

definition ExplanationLine_default :: ExplanationLine where
  "ExplanationLine_default =
     \<lparr>line_question = '''',
      line_answer = '''',
      line_influence = f64_zero,
      line_classification = Classification.Unknown,
      line_evidence_fields = []\<rparr>"

record PlacementExplanation =
  ex_decision_id :: PlacementDecisionId
  ex_workload_id :: WorkloadId
  ex_confidence :: Confidence
  ex_lines :: "ExplanationLine list"
  ex_next_alternative :: CandidateId
  ex_missing_evidence :: "string list"
  ex_determinism :: DeterminismClass
  ex_summary :: string

definition PlacementExplanation_default :: PlacementExplanation where
  "PlacementExplanation_default =
     \<lparr>ex_decision_id = nil_id,
      ex_workload_id = nil_id,
      ex_confidence = Confidence_default,
      ex_lines = [],
      ex_next_alternative = nil_id,
      ex_missing_evidence = [],
      ex_determinism = DeterminismClass.Deterministic,
      ex_summary = ''''\<rparr>"

section \<open>Analysis results\<close>

record CounterfactualChange =
  ch_field :: string
  ch_new_value :: Value
  ch_relative :: bool

definition CounterfactualChange_default :: CounterfactualChange where
  "CounterfactualChange_default =
     \<lparr>ch_field = '''',
      ch_new_value = VNone,
      ch_relative = False\<rparr>"

record CounterfactualResult =
  cf_decision_id :: PlacementDecisionId
  cf_changed_inputs :: "CounterfactualChange list"
  cf_resulting_ranking :: "CandidateId list"
  cf_resulting_decision :: CandidateId
  cf_decision_changed :: bool
  cf_classification :: Classification
  cf_note :: string

definition CounterfactualResult_default :: CounterfactualResult where
  "CounterfactualResult_default =
     \<lparr>cf_decision_id = nil_id,
      cf_changed_inputs = [],
      cf_resulting_ranking = [],
      cf_resulting_decision = nil_id,
      cf_decision_changed = False,
      cf_classification = Classification.Derived,
      cf_note = ''''\<rparr>"

record ComparisonDelta =
  delta_field :: string
  delta_before :: string
  delta_after :: string
  delta_changed_outcome :: bool

definition ComparisonDelta_default :: ComparisonDelta where
  "ComparisonDelta_default =
     \<lparr>delta_field = '''',
      delta_before = '''',
      delta_after = '''',
      delta_changed_outcome = False\<rparr>"

record ComparisonResult =
  cmp_a :: PlacementDecisionId
  cmp_b :: PlacementDecisionId
  cmp_deltas :: "ComparisonDelta list"
  cmp_selected_changed :: bool
  cmp_changed_outcome_fields :: "string list"

definition ComparisonResult_default :: ComparisonResult where
  "ComparisonResult_default =
     \<lparr>cmp_a = nil_id,
      cmp_b = nil_id,
      cmp_deltas = [],
      cmp_selected_changed = False,
      cmp_changed_outcome_fields = []\<rparr>"

record ReplayMismatch =
  mm_field :: string
  mm_expected :: string
  mm_actual :: string

definition ReplayMismatch_default :: ReplayMismatch where
  "ReplayMismatch_default =
     \<lparr>mm_field = '''',
      mm_expected = '''',
      mm_actual = ''''\<rparr>"

record ReplayResult =
  rep_decision_id :: PlacementDecisionId
  rep_replay_digest :: string
  rep_decision_digest :: string
  rep_evidence_digest :: string
  rep_reproduced :: bool
  rep_mismatches :: "ReplayMismatch list"
  rep_missing_required_evidence :: "string list"
  rep_selected :: CandidateId
  rep_classification :: Classification

definition ReplayResult_default :: ReplayResult where
  "ReplayResult_default =
     \<lparr>rep_decision_id = nil_id,
      rep_replay_digest = '''',
      rep_decision_digest = '''',
      rep_evidence_digest = '''',
      rep_reproduced = False,
      rep_mismatches = [],
      rep_missing_required_evidence = [],
      rep_selected = nil_id,
      rep_classification = Classification.Derived\<rparr>"

record TimelineEntry =
  te_observation_id :: PlacementObservationId
  te_decision_id :: PlacementDecisionId
  te_timestamp :: Timestamp
  te_kind :: string
  te_label :: string

definition TimelineEntry_default :: TimelineEntry where
  "TimelineEntry_default =
     \<lparr>te_observation_id = nil_id,
      te_decision_id = nil_id,
      te_timestamp = Timestamp_default,
      te_kind = '''',
      te_label = ''''\<rparr>"

record PlacementTimeline =
  tl_workload_id :: WorkloadId
  tl_entries :: "TimelineEntry list"

definition PlacementTimeline_default :: PlacementTimeline where
  "PlacementTimeline_default =
     \<lparr>tl_workload_id = nil_id,
      tl_entries = []\<rparr>"

record PlacementSnapshot =
  snap_at :: Timestamp
  snap_decisions :: "PlacementDecision list"
  snap_observations :: "PlacementObservation list"
  snap_source_health :: "(SourceId \<times> ReliabilityClass) list"
  snap_observation_count :: u64
  snap_decision_count :: u64
  snap_outcome_count :: u64

definition PlacementSnapshot_default :: PlacementSnapshot where
  "PlacementSnapshot_default =
     \<lparr>snap_at = Timestamp_default,
      snap_decisions = [],
      snap_observations = [],
      snap_source_health = [],
      snap_observation_count = 0,
      snap_decision_count = 0,
      snap_outcome_count = 0\<rparr>"

section \<open>Member functions\<close>

text \<open>\<open>PlacementCostComponent::weighted\<close>.\<close>

definition cost_weighted :: "PlacementCostComponent \<Rightarrow> f64" where
  "cost_weighted c = f64_mul (cost_cost c) (cost_policy_weight c)"

text \<open>\<open>PlacementObservation::find\<close>: the first measurement with the canonical field name.\<close>

fun find_measurement :: "string \<Rightarrow> Measurement list \<Rightarrow> Measurement option" where
  "find_measurement field [] = None"
| "find_measurement field (m # ms) =
     (if meas_normalized_field m = field then Some m else find_measurement field ms)"

definition obs_find :: "PlacementObservation \<Rightarrow> string \<Rightarrow> Measurement option" where
  "obs_find ob field = find_measurement field (obs_fields ob)"

lemma find_measurement_Some:
  "find_measurement field ms = Some m \<Longrightarrow> m \<in> set ms \<and> meas_normalized_field m = field"
  by (induction field ms rule: find_measurement.induct) (auto split: if_splits)

end
