(* ===== verification/Binary.thy ===== *)
theory Binary
  imports Model
begin

text \<open>
  \<open>BinWriter\<close> and \<open>BinReader\<close> of \<open>serialize.hpp\<close>. A writer call takes the buffer and returns the
  longer buffer or the exception, a reader call takes the reader's state and returns the value
  and the new state or the exception. The last sections hold the calculus in which the round trip
  of a structure is derived field by field, and the contract of a codec as a locale.
\<close>

named_theorems stable_intros "readers that do not look ahead"

section \<open>Errors\<close>

datatype SerKind = Truncated | Corrupt | UnknownVersion | TrailingData | OutOfBounds | UnknownKind

datatype SerializationError = SerializationError (ser_kind: SerKind) (ser_what: string)

section \<open>Writer\<close>

type_synonym writer = "bytes \<Rightarrow> SerializationError + bytes"

definition w_u8 :: "byte \<Rightarrow> writer" where
  "w_u8 v buf = Inr (buf @ [v])"

definition w_u16 :: "16 word \<Rightarrow> writer" where
  "w_u16 v buf = Inr (buf @ [ucast (v AND 0xff), ucast (drop_bit 8 v AND 0xff)])"

definition w_u32 :: "u32 \<Rightarrow> writer" where
  "w_u32 v buf = Inr (buf @ le_bytes 4 v)"

definition w_u64 :: "u64 \<Rightarrow> writer" where
  "w_u64 v buf = Inr (buf @ le_bytes 8 v)"

definition w_i64 :: "i64 \<Rightarrow> writer" where
  "w_i64 v = w_u64 v"

definition w_f64 :: "f64 \<Rightarrow> writer" where
  "w_f64 v = w_u64 v"

definition w_bool :: "bool \<Rightarrow> writer" where
  "w_bool v = w_u8 (if v then 1 else 0)"

definition w_raw :: "bytes \<Rightarrow> writer" where
  "w_raw bs buf = Inr (buf @ bs)"

text \<open>Calls made one after the other on the same writer.\<close>

fun w_all :: "writer list \<Rightarrow> writer" where
  "w_all [] buf = Inr buf"
| "w_all (w # ws) buf = (case w buf of Inl e \<Rightarrow> Inl e | Inr buf' \<Rightarrow> w_all ws buf')"

declare w_all.simps [simp del]

definition w_str :: "string \<Rightarrow> writer" where
  "w_str s buf =
     (if length s > 0xFFFFFFFF then Inl (SerializationError Corrupt ''string too long'')
      else w_all [w_u32 (of_nat (length s)), w_raw (bytes_of_string s)] buf)"

definition write_vec :: "('a \<Rightarrow> writer) \<Rightarrow> 'a list \<Rightarrow> writer" where
  "write_vec fn v = w_all (w_u32 (of_nat (length v)) # map fn v)"

text \<open>\<open>w.boolean(o.has_value()); if (o) fn(w, *o);\<close>\<close>

definition write_opt :: "('a \<Rightarrow> writer) \<Rightarrow> 'a option \<Rightarrow> writer" where
  "write_opt fn v = w_all (w_bool (v \<noteq> None) # (case v of None \<Rightarrow> [] | Some x \<Rightarrow> [fn x]))"

section \<open>Reader\<close>

record BinReader =
  br_data :: bytes
  br_pos :: nat

type_synonym 'a reader = "BinReader \<Rightarrow> SerializationError + 'a \<times> BinReader"

definition rd_return :: "'a \<Rightarrow> 'a reader" where
  "rd_return x r = Inr (x, r)"

definition rd_fail :: "SerKind \<Rightarrow> string \<Rightarrow> 'a reader" where
  "rd_fail k msg r = Inl (SerializationError k msg)"

definition rd :: "'a reader \<Rightarrow> ('a \<Rightarrow> 'b reader) \<Rightarrow> 'b reader" where
  "rd m f r = (case m r of Inl e \<Rightarrow> Inl e | Inr (x, r') \<Rightarrow> f x r')"

text \<open>\<open>need(n)\<close>, the \<open>n\<close> bytes at the position, and the advance. Positions and sizes are those of
  a buffer in memory, so \<open>pos_ + n\<close> (\<open>n\<close> at most 64 MiB here) does not wrap.\<close>

definition r_take :: "nat \<Rightarrow> bytes reader" where
  "r_take n r =
     (if br_pos r + n > length (br_data r) then Inl (SerializationError Truncated ''binary truncated'')
      else Inr (take n (drop (br_pos r) (br_data r)), r\<lparr>br_pos := br_pos r + n\<rparr>))"

definition r_u8 :: "byte reader" where
  "r_u8 = rd (r_take 1) (\<lambda>p. rd_return (p ! 0))"

definition r_u16 :: "16 word reader" where
  "r_u16 = rd (r_take 2) (\<lambda>p. rd_return (ucast (p ! 0) OR push_bit 8 (ucast (p ! 1))))"

definition r_u32 :: "u32 reader" where
  "r_u32 = rd (r_take 4) (\<lambda>p. rd_return (le_word p))"

definition r_u64 :: "u64 reader" where
  "r_u64 = rd (r_take 8) (\<lambda>p. rd_return (le_word p))"

definition r_i64 :: "i64 reader" where
  "r_i64 = r_u64"

definition r_f64 :: "f64 reader" where
  "r_f64 = r_u64"

definition r_bool :: "bool reader" where
  "r_bool = rd r_u8 (\<lambda>b. rd_return (b \<noteq> 0))"

definition max_string :: nat where
  "max_string = 64 * 1024 * 1024"

definition r_str :: "string reader" where
  "r_str = rd r_u32 (\<lambda>len.
     if unat len > max_string then rd_fail Corrupt ''string length beyond cap''
     else rd (r_take (unat len)) (\<lambda>p. rd_return (string_of_bytes p)))"

definition br_remaining :: "BinReader \<Rightarrow> nat" where
  "br_remaining r = length (br_data r) - br_pos r"

definition br_at_end :: "BinReader \<Rightarrow> bool" where
  "br_at_end r \<longleftrightarrow> br_pos r = length (br_data r)"

primrec read_items :: "'a reader \<Rightarrow> nat \<Rightarrow> 'a list reader" where
  "read_items fn 0 = rd_return []"
| "read_items fn (Suc n) = rd fn (\<lambda>x. rd (read_items fn n) (\<lambda>xs. rd_return (x # xs)))"

definition read_vec :: "'a reader \<Rightarrow> 'a list reader" where
  "read_vec fn = rd r_u32 (\<lambda>n. read_items fn (unat n))"

definition read_opt :: "'a reader \<Rightarrow> 'a option reader" where
  "read_opt fn = rd r_bool (\<lambda>b. if b then rd fn (\<lambda>x. rd_return (Some x)) else rd_return None)"

text \<open>A reader over a whole buffer, as every caller makes one.\<close>

definition run_reader :: "'a reader \<Rightarrow> bytes \<Rightarrow> SerializationError + 'a \<times> BinReader" where
  "run_reader fn data = fn \<lparr>br_data = data, br_pos = 0\<rparr>"

section \<open>Round trips, field by field\<close>

definition emits :: "writer \<Rightarrow> bytes \<Rightarrow> bool" where
  "emits w bs \<longleftrightarrow> (\<forall>buf. w buf = Inr (buf @ bs))"

definition parses :: "'a reader \<Rightarrow> bytes \<Rightarrow> 'a \<Rightarrow> bool" where
  "parses r bs x \<longleftrightarrow>
     (\<forall>pre post. r \<lparr>br_data = pre @ bs @ post, br_pos = length pre\<rparr> =
        Inr (x, \<lparr>br_data = pre @ bs @ post, br_pos = length pre + length bs\<rparr>))"

definition starves :: "'a reader \<Rightarrow> bytes \<Rightarrow> bool" where
  "starves r bs \<longleftrightarrow>
     (\<forall>pre n. n < length bs \<longrightarrow>
        (\<exists>m. r \<lparr>br_data = pre @ take n bs, br_pos = length pre\<rparr> = Inl (SerializationError Truncated m)))"

text \<open>The writer appends some bytes; on them the reader returns the value and stops right behind
  them; on a proper prefix of them it reports truncation.\<close>

definition codes :: "writer \<Rightarrow> 'a reader \<Rightarrow> 'a \<Rightarrow> bool" where
  "codes w r x \<longleftrightarrow> (\<exists>bs. emits w bs \<and> parses r bs x \<and> starves r bs)"

lemma emits_all: "emits w bs \<Longrightarrow> emits (w_all ws) cs \<Longrightarrow> emits (w_all (w # ws)) (bs @ cs)"
  by (simp add: emits_def w_all.simps)

lemma parses_rd:
  assumes "parses r bs a" "parses (f a) cs x"
  shows "parses (rd r f) (bs @ cs) x"
  unfolding parses_def
proof (intro allI)
  fix pre post
  from assms(1) have "r \<lparr>br_data = pre @ bs @ cs @ post, br_pos = length pre\<rparr> =
      Inr (a, \<lparr>br_data = pre @ bs @ cs @ post, br_pos = length (pre @ bs)\<rparr>)"
    by (simp add: parses_def)
  moreover from assms(2) have "f a \<lparr>br_data = (pre @ bs) @ cs @ post, br_pos = length (pre @ bs)\<rparr> =
      Inr (x, \<lparr>br_data = (pre @ bs) @ cs @ post, br_pos = length (pre @ bs) + length cs\<rparr>)"
    unfolding parses_def by blast
  ultimately show "rd r f \<lparr>br_data = pre @ (bs @ cs) @ post, br_pos = length pre\<rparr> =
      Inr (x, \<lparr>br_data = pre @ (bs @ cs) @ post, br_pos = length pre + length (bs @ cs)\<rparr>)"
    by (simp add: rd_def add.assoc)
qed

lemma starves_rd:
  assumes "parses r bs a" "starves r bs" "starves (f a) cs"
  shows "starves (rd r f) (bs @ cs)"
  unfolding starves_def
proof (intro allI impI)
  fix pre n
  assume n: "n < length (bs @ cs)"
  show "\<exists>m. rd r f \<lparr>br_data = pre @ take n (bs @ cs), br_pos = length pre\<rparr> = Inl (SerializationError Truncated m)"
  proof (cases "n < length bs")
    case True
    with assms(2) obtain m where
      "r \<lparr>br_data = pre @ take n bs, br_pos = length pre\<rparr> = Inl (SerializationError Truncated m)"
      unfolding starves_def by blast
    with True show ?thesis by (simp add: rd_def)
  next
    case False
    let ?k = "n - length bs"
    from assms(3) n False obtain m where
      "f a \<lparr>br_data = (pre @ bs) @ take ?k cs, br_pos = length (pre @ bs)\<rparr> = Inl (SerializationError Truncated m)"
      unfolding starves_def by (metis add_diff_inverse_nat length_append nat_add_left_cancel_less)
    moreover from assms(1) have "r \<lparr>br_data = pre @ bs @ take ?k cs, br_pos = length pre\<rparr> =
        Inr (a, \<lparr>br_data = pre @ bs @ take ?k cs, br_pos = length pre + length bs\<rparr>)"
      by (simp add: parses_def)
    ultimately show ?thesis using False by (simp add: rd_def)
  qed
qed

lemma codes_step:
  "codes w r a \<Longrightarrow> codes (w_all ws) (f a) x \<Longrightarrow> codes (w_all (w # ws)) (rd r f) x"
  unfolding codes_def by (elim exE conjE, rule exI, rule conjI, erule (1) emits_all, rule conjI, erule (1) parses_rd, erule (2) starves_rd)

lemma codes_done: "y = x \<Longrightarrow> codes (w_all []) (rd_return y) x"
  by (auto simp: codes_def emits_def parses_def starves_def rd_return_def w_all.simps intro: exI [of _ "[]"])

lemma codes_last: "codes w r x \<Longrightarrow> codes (w_all [w]) r x"
  by (auto simp: codes_def emits_def w_all.simps)

lemma parses_take: "length bs = n \<Longrightarrow> parses (r_take n) bs bs"
  by (simp add: parses_def r_take_def)

lemma starves_take: "length bs = n \<Longrightarrow> starves (r_take n) bs"
  by (simp add: starves_def r_take_def)

lemma starves_take_map: "length bs = n \<Longrightarrow> starves (rd (r_take n) f) bs"
  by (simp add: starves_def r_take_def rd_def)

lemma parses_take_map: "length bs = n \<Longrightarrow> x = f bs \<Longrightarrow> parses (rd (r_take n) (\<lambda>p. rd_return (f p))) bs x"
  by (simp add: parses_def rd_def r_take_def rd_return_def)

lemma codes_u8: "codes (w_u8 v) r_u8 v"
  unfolding codes_def r_u8_def
  by (rule exI [of _ "[v]"]) (auto simp: emits_def w_u8_def intro: parses_take_map starves_take_map)

lemma codes_u32: "codes (w_u32 v) r_u32 v"
  unfolding codes_def r_u32_def
  by (rule exI [of _ "le_bytes 4 v"])
     (auto simp: emits_def w_u32_def le_word_bytes take_bit_word_eq_self intro!: parses_take_map starves_take_map)

lemma codes_u64: "codes (w_u64 v) r_u64 v"
  unfolding codes_def r_u64_def
  by (rule exI [of _ "le_bytes 8 v"])
     (auto simp: emits_def w_u64_def le_word_bytes take_bit_word_eq_self intro!: parses_take_map starves_take_map)

lemma codes_u16: "codes (w_u16 v) r_u16 v"
proof -
  have "ucast (ucast (v AND 0xff) :: byte) OR push_bit 8 (ucast (ucast (drop_bit 8 v AND 0xff) :: byte)) = v"
  proof (rule bit_word_eqI)
    fix n assume "n < LENGTH(16)"
    then show "bit (ucast (ucast (v AND 0xff) :: byte) OR push_bit 8 (ucast (ucast (drop_bit 8 v AND 0xff) :: byte)) :: 16 word) n = bit v n"
      unfolding mask_8_word by (cases "n < 8") (auto simp: bit_simps)
  qed
  then show ?thesis
    unfolding codes_def r_u16_def
    by (intro exI [of _ "[ucast (v AND 0xff), ucast (drop_bit 8 v AND 0xff)]"])
       (auto simp: emits_def w_u16_def intro!: parses_take_map starves_take_map)
qed

lemma codes_i64: "codes (w_i64 v) r_i64 v"
  by (simp add: w_i64_def r_i64_def codes_u64)

lemma codes_f64: "codes (w_f64 v) r_f64 v"
  by (simp add: w_f64_def r_f64_def codes_u64)

lemma codes_map: "codes w r a \<Longrightarrow> f a = x \<Longrightarrow> codes w (rd r (\<lambda>v. rd_return (f v))) x"
  using codes_step [of w r a "[]" "\<lambda>v. rd_return (f v)" x] codes_done [of "f a" x]
  by (auto simp: codes_def emits_def w_all.simps split: sum.splits)

lemma codes_bool: "codes (w_bool v) r_bool v"
  unfolding w_bool_def r_bool_def by (rule codes_map [OF codes_u8]) simp

definition str_ok :: "string \<Rightarrow> bool" where
  "str_ok s \<longleftrightarrow> length s \<le> max_string"

lemma codes_raw: "length bs = n \<Longrightarrow> codes (w_raw bs) (r_take n) bs"
  unfolding codes_def by (rule exI [of _ bs]) (auto simp: emits_def w_raw_def parses_take starves_take)

lemma codes_str: "str_ok s \<Longrightarrow> codes (w_str s) r_str s"
proof -
  assume "str_ok s"
  then have len: "length s \<le> 67108864" by (simp add: str_ok_def max_string_def)
  then have n: "unat (of_nat (length s) :: u32) = length s"
    by (simp add: unsigned_of_nat take_bit_nat_eq_self)
  have w: "w_str s = w_all [w_u32 (of_nat (length s)), w_raw (bytes_of_string s)]"
    using len by (intro ext) (simp add: w_str_def)
  show ?thesis
    unfolding w r_str_def
  proof (rule codes_step [OF codes_u32])
    show "codes (w_all [w_raw (bytes_of_string s)])
       (if unat (of_nat (length s) :: u32) > max_string then rd_fail Corrupt ''string length beyond cap''
        else rd (r_take (unat (of_nat (length s) :: u32))) (\<lambda>p. rd_return (string_of_bytes p))) s"
      using len by (simp add: n max_string_def codes_step [OF codes_raw] codes_done)
  qed
qed

lemma codes_items:
  "\<forall>x \<in> set xs. codes (fn x) rdr x \<Longrightarrow> codes (w_all (map fn xs)) (read_items rdr (length xs)) xs"
proof (induction xs)
  case Nil
  show ?case by (simp only: list.map list.size read_items.simps codes_done)
next
  case (Cons x xs)
  then have "codes (w_all (map fn xs)) (rd (read_items rdr (length xs)) (\<lambda>ys. rd_return (x # ys))) (x # xs)"
    by (intro codes_map) auto
  with Cons show ?case by (auto intro: codes_step)
qed

definition vec_ok :: "('a \<Rightarrow> bool) \<Rightarrow> 'a list \<Rightarrow> bool" where
  "vec_ok ok xs \<longleftrightarrow> length xs < 2 ^ 32 \<and> list_all ok xs"

lemma codes_vec:
  assumes "length xs < 2 ^ 32" "\<And>x. x \<in> set xs \<Longrightarrow> codes (fn x) rdr x"
  shows "codes (write_vec fn xs) (read_vec rdr) xs"
proof -
  have "unat (of_nat (length xs) :: u32) = length xs"
    using assms(1) by (simp add: unsigned_of_nat take_bit_nat_eq_self)
  then show ?thesis
    unfolding write_vec_def read_vec_def using assms(2)
    by (intro codes_step [OF codes_u32]) (simp add: codes_items)
qed

lemma codes_vec_ok:
  "vec_ok ok xs \<Longrightarrow> (\<And>x. ok x \<Longrightarrow> codes (fn x) rdr x) \<Longrightarrow> codes (write_vec fn xs) (read_vec rdr) xs"
  by (rule codes_vec) (auto simp: vec_ok_def list_all_iff)

lemma codes_opt:
  assumes "\<And>x. v = Some x \<Longrightarrow> codes (fn x) rdr x"
  shows "codes (write_opt fn v) (read_opt rdr) v"
  unfolding write_opt_def read_opt_def
proof (rule codes_step [OF codes_bool])
  show "codes (w_all (case v of None \<Rightarrow> [] | Some x \<Rightarrow> [fn x]))
     (if v \<noteq> None then rd rdr (\<lambda>x. rd_return (Some x)) else rd_return None) v"
    using assms by (cases v) (auto intro!: codes_done codes_step)
qed

section \<open>Readers do not look ahead\<close>

definition stable :: "'a reader \<Rightarrow> bool" where
  "stable r \<longleftrightarrow>
     (\<forall>d p x r'. p \<le> length d \<longrightarrow> r \<lparr>br_data = d, br_pos = p\<rparr> = Inr (x, r') \<longrightarrow>
        br_data r' = d \<and> p \<le> br_pos r' \<and> br_pos r' \<le> length d \<and>
        (\<forall>t. r \<lparr>br_data = d @ t, br_pos = p\<rparr> = Inr (x, \<lparr>br_data = d @ t, br_pos = br_pos r'\<rparr>)))"

lemma stable_return [stable_intros]: "stable (rd_return x)"
  by (simp add: stable_def rd_return_def)

lemma stable_fail [stable_intros]: "stable (rd_fail k m)"
  by (simp add: stable_def rd_fail_def)

lemma stable_take [stable_intros]: "stable (r_take n)"
  by (auto simp: stable_def r_take_def)

lemma stable_rd [stable_intros]:
  assumes "stable r" "\<And>a. stable (f a)"
  shows "stable (rd r f)"
  unfolding stable_def
proof (intro allI impI)
  fix d p x r'
  assume p: "p \<le> length d" and run: "rd r f \<lparr>br_data = d, br_pos = p\<rparr> = Inr (x, r')"
  then obtain a r1 where 1: "r \<lparr>br_data = d, br_pos = p\<rparr> = Inr (a, r1)" and 2: "f a r1 = Inr (x, r')"
    by (auto simp: rd_def split: sum.splits)
  from assms(1) p 1 have s1: "br_data r1 = d" "p \<le> br_pos r1" "br_pos r1 \<le> length d"
    "\<And>t. r \<lparr>br_data = d @ t, br_pos = p\<rparr> = Inr (a, \<lparr>br_data = d @ t, br_pos = br_pos r1\<rparr>)"
    unfolding stable_def by blast+
  then have "r1 = \<lparr>br_data = d, br_pos = br_pos r1\<rparr>" by (cases r1) simp
  with 2 have "f a \<lparr>br_data = d, br_pos = br_pos r1\<rparr> = Inr (x, r')" by simp
  with assms(2) [of a] s1(3) have "br_data r' = d \<and> br_pos r1 \<le> br_pos r' \<and> br_pos r' \<le> length d \<and>
      (\<forall>t. f a \<lparr>br_data = d @ t, br_pos = br_pos r1\<rparr> = Inr (x, \<lparr>br_data = d @ t, br_pos = br_pos r'\<rparr>))"
    unfolding stable_def by blast
  with s1 show "br_data r' = d \<and> p \<le> br_pos r' \<and> br_pos r' \<le> length d \<and>
        (\<forall>t. rd r f \<lparr>br_data = d @ t, br_pos = p\<rparr> = Inr (x, \<lparr>br_data = d @ t, br_pos = br_pos r'\<rparr>))"
    by (auto simp: rd_def)
qed

lemma stable_if [stable_intros]: "stable a \<Longrightarrow> stable b \<Longrightarrow> stable (if c then a else b)"
  by simp

lemma stable_u8 [stable_intros]: "stable r_u8" and stable_u16: "stable r_u16"
  and stable_u32 [stable_intros]: "stable r_u32" and stable_u64 [stable_intros]: "stable r_u64"
  unfolding r_u8_def r_u16_def r_u32_def r_u64_def
  by (intro stable_rd stable_take stable_return)+

lemma stable_i64 [stable_intros]: "stable r_i64" and stable_f64 [stable_intros]: "stable r_f64"
  by (simp_all add: r_i64_def r_f64_def stable_u64)

lemma stable_bool [stable_intros]: "stable r_bool"
  unfolding r_bool_def by (intro stable_rd stable_u8 stable_return)

lemma stable_str [stable_intros]: "stable r_str"
  unfolding r_str_def by (intro stable_rd stable_u32 stable_if stable_fail stable_take stable_return)

lemma stable_items: "stable r \<Longrightarrow> stable (read_items r n)"
  by (induction n) (simp_all add: stable_return stable_rd)

lemma stable_vec [stable_intros]: "stable r \<Longrightarrow> stable (read_vec r)"
  unfolding read_vec_def by (intro stable_rd stable_u32 stable_items)

lemma stable_opt [stable_intros]: "stable r \<Longrightarrow> stable (read_opt r)"
  unfolding read_opt_def by (intro stable_rd stable_bool stable_if stable_return)

section \<open>The contract of a codec\<close>

locale codec =
  fixes wr :: "'a \<Rightarrow> writer"
    and rdr :: "'a reader"
    and ok :: "'a \<Rightarrow> bool"
  assumes roundtrip: "ok x \<Longrightarrow> codes (wr x) rdr x"
    and no_lookahead: "stable rdr"
begin

lemma written:
  assumes "ok x"
  obtains bs where "wr x [] = Inr bs"
    and "\<And>rest. run_reader rdr (bs @ rest) = Inr (x, \<lparr>br_data = bs @ rest, br_pos = length bs\<rparr>)"
proof -
  from roundtrip [OF assms] obtain bs where e: "emits (wr x) bs" and p: "parses rdr bs x"
    by (auto simp: codes_def)
  from e have "wr x [] = Inr bs" by (simp add: emits_def)
  moreover from p [unfolded parses_def, rule_format, of "[]"]
  have "run_reader rdr (bs @ rest) = Inr (x, \<lparr>br_data = bs @ rest, br_pos = length bs\<rparr>)" for rest
    by (simp add: run_reader_def)
  ultimately show thesis by (rule that)
qed

lemma read_back:
  "ok x \<Longrightarrow> wr x [] = Inr bs \<Longrightarrow>
   run_reader rdr (bs @ rest) = Inr (x, \<lparr>br_data = bs @ rest, br_pos = length bs\<rparr>)"
  by (metis written sum.inject(2))

lemma write_appends: "ok x \<Longrightarrow> wr x [] = Inr bs \<Longrightarrow> wr x buf = Inr (buf @ bs)"
  using roundtrip [of x] by (auto simp: codes_def emits_def)

lemma unambiguous:
  assumes "ok x" "ok y" "wr x [] = Inr bs" "wr y [] = Inr cs" "bs @ s = cs @ t"
  shows "x = y \<and> bs = cs \<and> s = t"
  using read_back [OF assms(1,3), of s] read_back [OF assms(2,4), of t] assms(5)
  by (metis append_eq_append_conv old.prod.inject sum.inject(2) BinReader.ext_inject)

lemma truncated_rejected:
  assumes "ok x" "wr x [] = Inr bs" "n < length bs"
  shows "\<exists>m. run_reader rdr (take n bs) = Inl (SerializationError Truncated m)"
proof -
  from roundtrip [OF assms(1)] assms(2) have "starves rdr bs" by (auto simp: codes_def emits_def)
  from this [unfolded starves_def, rule_format, of n "[]"] assms(3) show ?thesis
    by (simp add: run_reader_def)
qed

lemma consumes_within: "run_reader rdr data = Inr (x, r') \<Longrightarrow> br_data r' = data \<and> br_pos r' \<le> length data"
  using no_lookahead unfolding stable_def run_reader_def by blast

lemma more_input_same:
  "run_reader rdr data = Inr (x, r') \<Longrightarrow>
   run_reader rdr (data @ t) = Inr (x, \<lparr>br_data = data @ t, br_pos = br_pos r'\<rparr>)"
  using no_lookahead unfolding stable_def run_reader_def by blast

lemma vec: "codec (write_vec wr) (read_vec rdr) (vec_ok ok)"
  by unfold_locales (auto intro: codes_vec_ok roundtrip stable_vec no_lookahead)

end

interpretation str: codec w_str r_str str_ok
  by unfold_locales (auto intro: codes_str stable_str)

lemmas codes_leaves [codec_intros] =
  codes_u8 codes_u32 codes_u64 codes_i64 codes_f64 codes_bool codes_str

end
