(* ===== verification/Bin_Codec.thy ===== *)
theory Bin_Codec
  imports Binary
begin

text \<open>
  The binary writers and readers of \<open>serialize.cpp\<close>, one pair per structure in the source's field
  order, and for each pair the round trip (\<open>codes_X\<close>, for values that satisfy \<open>X_ok\<close>: enumeration
  values a byte can name, strings below the reader's cap, vectors below 2 to the 32 elements, and
  the members the format leaves out at their defaults), the absence of lookahead (\<open>stable_X\<close>) and
  the interpretation \<open>cdc_X\<close> of the codec contract.
\<close>

section \<open>Shared pieces\<close>

text \<open>\<open>w.u64(id.value())\<close> and \<open>XId(r.u64())\<close>.\<close>

definition w_id :: "'t Id \<Rightarrow> writer" where
  "w_id i = w_u64 (id_value i)"

definition r_id :: "'t Id reader" where
  "r_id = rd r_u64 (\<lambda>v. rd_return (Id v))"

lemma codes_id: "codes (w_id i) r_id i"
  unfolding w_id_def r_id_def by (rule codes_map [OF codes_u64]) simp

lemma codes_vec_id [codec_intros]: "length xs < 2 ^ 32 \<Longrightarrow> codes (write_vec w_id xs) (read_vec r_id) xs"
  by (rule codes_vec) (simp_all add: codes_id)

lemma codes_vec_str [codec_intros]: "vec_ok str_ok xs \<Longrightarrow> codes (write_vec w_str xs) (read_vec r_str) xs"
  by (rule codes_vec_ok [where ok = str_ok]) (simp_all add: codes_str)

lemma codes_opt_ok:
  "pred_option ok v \<Longrightarrow> (\<And>x. ok x \<Longrightarrow> codes (fn x) rdr x) \<Longrightarrow> codes (write_opt fn v) (read_opt rdr) v"
  by (rule codes_opt) auto

lemma codes_opt_str [codec_intros]: "pred_option str_ok v \<Longrightarrow> codes (write_opt w_str v) (read_opt r_str) v"
  by (rule codes_opt_ok [where ok = str_ok]) (simp_all add: codes_str)

lemma codes_opt_RejectionReason [codec_intros]:
  "pred_option RejectionReason_wf v \<Longrightarrow>
   codes (write_opt (\<lambda>e. w_u8 (RejectionReason_code e)) v)
     (read_opt (rd r_u8 (\<lambda>b. rd_return (RejectionReason_of b)))) v"
  by (rule codes_opt_ok [where ok = RejectionReason_wf]) (auto intro: codes_map [OF codes_u8] simp: RejectionReason_wf_def)

lemmas [wf_defs] =
  Classification_wf_def SourceType_wf_def CollectionMethod_wf_def ReliabilityClass_wf_def
  ConfidenceClass_wf_def DeviceKind_wf_def HealthState_wf_def PriorityClass_wf_def SloClass_wf_def
  QueueState_wf_def MemoryPressureLevel_wf_def TopologyType_wf_def LocalityType_wf_def
  DeadlineState_wf_def ConstraintClass_wf_def ConstraintKind_wf_def CostComponentKind_wf_def
  ScoreComponentKind_wf_def RejectionReason_wf_def OutcomeDisposition_wf_def LifecycleState_wf_def
  TieBreakReason_wf_def DeterminismClass_wf_def

lemma ucast_small_byte [wf_defs]: "v < 256 \<Longrightarrow> (ucast (ucast v :: byte) :: i32) = v"
proof -
  assume "v < 256"
  then have "unat v < 256" by (simp add: word_less_nat_alt)
  then show ?thesis by (simp add: word_unat_eq_iff unsigned_ucast_eq unsigned_take_bit_eq take_bit_nat_eq_self)
qed

lemma ucast_scast_i32 [wf_defs]: "(ucast (scast (v :: i32) :: i64) :: i32) = v"
  by (rule bit_word_eqI) (simp add: bit_simps)

text \<open>The \<open>rejection_reasons\<close> map: written in key order, read back entry by entry.\<close>

definition write_reasons :: "(CandidateId \<times> string) list \<Rightarrow> writer" where
  "write_reasons m =
     w_all (w_u32 (of_nat (length m)) # map (\<lambda>(i, msg). w_all [w_u64 (id_value i), w_str msg]) m)"

primrec read_reason_items :: "nat \<Rightarrow> (CandidateId \<times> string) list \<Rightarrow> (CandidateId \<times> string) list reader" where
  "read_reason_items 0 acc = rd_return acc"
| "read_reason_items (Suc n) acc =
     rd r_u64 (\<lambda>i. rd r_str (\<lambda>msg. read_reason_items n (smap_put (Id i) msg acc)))"

definition read_reasons :: "(CandidateId \<times> string) list reader" where
  "read_reasons = rd r_u32 (\<lambda>n. read_reason_items (unat n) [])"

definition reasons_ok :: "(CandidateId \<times> string) list \<Rightarrow> bool" where
  "reasons_ok m \<longleftrightarrow> smap_ok m \<and> length m < 2 ^ 32 \<and> list_all (\<lambda>(i, msg). str_ok msg) m"

lemma w_all_flat: "w_all (w_all [a, b] # ws) = w_all (a # b # ws)"
  by (rule ext) (simp add: w_all.simps split: sum.split)

lemma codes_flat: "codes (w_all (a # b # ws)) r x \<Longrightarrow> codes (w_all (w_all [a, b] # ws)) r x"
  by (simp only: w_all_flat)

lemma codes_reason_items:
  "smap_ok (acc @ m) \<Longrightarrow> list_all (\<lambda>(i, msg). str_ok msg) m \<Longrightarrow>
   codes (w_all (map (\<lambda>(i, msg). w_all [w_u64 (id_value i), w_str msg]) m))
     (read_reason_items (length m) acc) (acc @ m)"
proof (induction m arbitrary: acc)
  case Nil
  show ?case by (simp only: list.map list.size read_reason_items.simps) (rule codes_done, simp)
next
  case (Cons e m)
  obtain i msg where e: "e = (i, msg)" by fastforce
  have put: "smap_put i msg acc = acc @ [(i, msg)]"
    by (rule smap_put_append) (use Cons.prems(1) in \<open>auto simp: e smap_ok_def sorted_wrt_append\<close>)
  have "codes (w_all (map (\<lambda>(i, msg). w_all [w_u64 (id_value i), w_str msg]) m))
     (read_reason_items (length m) (smap_put i msg acc)) (acc @ e # m)"
    using Cons.IH [of "acc @ [(i, msg)]"] Cons.prems by (simp add: e put)
  then show ?case
    using Cons.prems(2)
    by (simp only: list.map list.size add_0_right add_Suc_right read_reason_items.simps e prod.case)
       (intro codes_flat codes_step [OF codes_u64] codes_step [OF codes_str], simp_all)
qed

lemma codes_reasons [codec_intros]: "reasons_ok m \<Longrightarrow> codes (write_reasons m) read_reasons m"
proof -
  assume ok: "reasons_ok m"
  then have "unat (of_nat (length m) :: u32) = length m"
    by (simp add: reasons_ok_def unsigned_of_nat take_bit_nat_eq_self)
  then show ?thesis
    unfolding write_reasons_def read_reasons_def using ok codes_reason_items [of "[]" m]
    by (intro codes_step [OF codes_u32]) (simp add: reasons_ok_def)
qed

lemma stable_reason_items: "stable (read_reason_items n acc)"
  by (induction n arbitrary: acc) (simp_all add: stable_intros)

lemma stable_reasons [stable_intros]: "stable read_reasons"
  unfolding read_reasons_def by (intro stable_rd stable_u32 stable_reason_items)

section \<open>Values\<close>

primrec write_value :: "Value \<Rightarrow> writer" where
  "write_value VNone = w_all [w_u8 0]"
| "write_value (VInt i) = w_all [w_u8 1, w_i64 i]"
| "write_value (VUInt u) = w_all [w_u8 2, w_u64 u]"
| "write_value (VDouble d) = w_all [w_u8 3, w_f64 d]"
| "write_value (VBool b) = w_all [w_u8 4, w_bool b]"
| "write_value (VString s) = w_all [w_u8 5, w_str s]"

definition read_value :: "Value reader" where
  "read_value = rd r_u8 (\<lambda>k.
     if k = 0 then rd_return VNone
     else if k = 1 then rd r_i64 (\<lambda>i. rd_return (VInt i))
     else if k = 2 then rd r_u64 (\<lambda>u. rd_return (VUInt u))
     else if k = 3 then rd r_f64 (\<lambda>d. rd_return (VDouble d))
     else if k = 4 then rd r_bool (\<lambda>b. rd_return (VBool b))
     else if k = 5 then rd r_str (\<lambda>s. rd_return (VString s))
     else rd_fail Corrupt ''bad value kind'')"

fun Value_ok :: "Value \<Rightarrow> bool" where
  "Value_ok (VString s) \<longleftrightarrow> str_ok s"
| "Value_ok _ \<longleftrightarrow> True"

lemma codes_value [codec_intros]: "Value_ok v \<Longrightarrow> codes (write_value v) read_value v"
  unfolding read_value_def
  by (cases v) (auto intro!: codes_step [OF codes_u8] codes_step codes_done codes_leaves)

lemma stable_value [stable_intros]: "stable read_value"
  unfolding read_value_def by (intro stable_intros)

interpretation cdc_value: codec write_value read_value Value_ok
  by unfold_locales (simp_all add: codes_value stable_value)

section \<open>Structures\<close>

subsection \<open>\<open>Provenance\<close>\<close>

definition write_provenance :: "Provenance \<Rightarrow> writer" where
  "write_provenance x = w_all
     [w_u64 (id_value (prov_source_id x)), w_u64 (prov_source_generation x),
      w_u8 (SourceType_code (prov_source_type x)), w_u8 (CollectionMethod_code (prov_method x)),
      w_u8 (ReliabilityClass_code (prov_reliability x)),
      w_u8 (Classification_code (prov_classification x)), w_i64 (ts_wall (prov_timestamp x)),
      w_u64 (ts_mono (prov_timestamp x)), w_i64 (ts_uncertainty_ns (prov_timestamp x)),
      w_u64 (prov_worker_boot x), w_u64 (prov_coordinator_epoch x),
      w_str (prov_collection_error x), w_str (prov_normalized_field x), w_str (prov_raw_field x)]"

definition read_provenance :: "Provenance reader" where
  "read_provenance =
     rd r_u64 (\<lambda>v_source_id. rd r_u64 (\<lambda>v_source_generation. rd r_u8 (\<lambda>v_source_type.
     rd r_u8 (\<lambda>v_method. rd r_u8 (\<lambda>v_reliability. rd r_u8 (\<lambda>v_classification.
     rd r_i64 (\<lambda>v_wall. rd r_u64 (\<lambda>v_mono. rd r_i64 (\<lambda>v_uncertainty_ns.
     rd r_u64 (\<lambda>v_worker_boot. rd r_u64 (\<lambda>v_coordinator_epoch.
     rd r_str (\<lambda>v_collection_error. rd r_str (\<lambda>v_normalized_field.
     rd r_str (\<lambda>v_raw_field.
     rd_return
       \<lparr>prov_source_id = Id v_source_id, prov_source_generation = v_source_generation,
        prov_source_type = SourceType_of v_source_type,
        prov_method = CollectionMethod_of v_method,
        prov_reliability = ReliabilityClass_of v_reliability,
        prov_classification = Classification_of v_classification,
        prov_timestamp = \<lparr>ts_wall = v_wall, ts_mono = v_mono, ts_uncertainty_ns = v_uncertainty_ns\<rparr>,
        prov_uncertainty_ns = 0, prov_worker_boot = v_worker_boot,
        prov_coordinator_epoch = v_coordinator_epoch,
        prov_collection_error = v_collection_error, prov_normalized_field = v_normalized_field,
        prov_raw_field = v_raw_field\<rparr>))))))))))))))"

definition Provenance_ok :: "Provenance \<Rightarrow> bool" where
  "Provenance_ok x \<longleftrightarrow>
     SourceType_wf (prov_source_type x) \<and> CollectionMethod_wf (prov_method x) \<and>
     ReliabilityClass_wf (prov_reliability x) \<and>
     Classification_wf (prov_classification x) \<and> str_ok (prov_collection_error x) \<and>
     str_ok (prov_normalized_field x) \<and> str_ok (prov_raw_field x) \<and>
     prov_uncertainty_ns x = 0"

lemma codes_provenance [codec_intros]: "Provenance_ok x \<Longrightarrow> codes (write_provenance x) read_provenance x"
  unfolding write_provenance_def read_provenance_def
  by (intro codes_step codes_done codec_intros)
     (auto simp: Provenance_ok_def wf_defs intro!: codec_intros Provenance.equality Timestamp.equality)

lemmas codes_provenance_vec [codec_intros] = codes_vec_ok [where ok = Provenance_ok, OF _ codes_provenance]

lemma stable_provenance [stable_intros]: "stable read_provenance"
  unfolding read_provenance_def r_id_def by (intro stable_intros)

interpretation cdc_provenance: codec write_provenance read_provenance Provenance_ok
  by unfold_locales (simp_all add: codes_provenance stable_provenance)

subsection \<open>\<open>Confidence\<close>\<close>

definition write_confidence :: "Confidence \<Rightarrow> writer" where
  "write_confidence x = w_all
     [w_u8 (ConfidenceClass_code (conf_cls x)), w_f64 (conf_numerator x),
      w_f64 (conf_denominator x), w_str (conf_derivation x)]"

definition read_confidence :: "Confidence reader" where
  "read_confidence =
     rd r_u8 (\<lambda>v_cls. rd r_f64 (\<lambda>v_numerator. rd r_f64 (\<lambda>v_denominator.
     rd r_str (\<lambda>v_derivation.
     rd_return
       \<lparr>conf_cls = ConfidenceClass_of v_cls, conf_numerator = v_numerator,
        conf_denominator = v_denominator, conf_derivation = v_derivation\<rparr>))))"

definition Confidence_ok :: "Confidence \<Rightarrow> bool" where
  "Confidence_ok x \<longleftrightarrow>
     ConfidenceClass_wf (conf_cls x) \<and> str_ok (conf_derivation x)"

lemma codes_confidence [codec_intros]: "Confidence_ok x \<Longrightarrow> codes (write_confidence x) read_confidence x"
  unfolding write_confidence_def read_confidence_def
  by (intro codes_step codes_done codec_intros)
     (auto simp: Confidence_ok_def wf_defs intro!: codec_intros Confidence.equality)

lemma stable_confidence [stable_intros]: "stable read_confidence"
  unfolding read_confidence_def r_id_def by (intro stable_intros)

interpretation cdc_confidence: codec write_confidence read_confidence Confidence_ok
  by unfold_locales (simp_all add: codes_confidence stable_confidence)

subsection \<open>\<open>Measurement\<close>\<close>

definition write_measurement :: "Measurement \<Rightarrow> writer" where
  "write_measurement x = w_all
     [w_str (meas_normalized_field x), w_str (meas_raw_field x), write_value (meas_value x),
      w_u8 (Classification_code (meas_classification x)), write_provenance (meas_provenance x)]"

definition read_measurement :: "Measurement reader" where
  "read_measurement =
     rd r_str (\<lambda>v_normalized_field. rd r_str (\<lambda>v_raw_field. rd read_value (\<lambda>v_value.
     rd r_u8 (\<lambda>v_classification. rd read_provenance (\<lambda>v_provenance.
     rd_return
       \<lparr>meas_normalized_field = v_normalized_field, meas_raw_field = v_raw_field,
        meas_value = v_value, meas_classification = Classification_of v_classification,
        meas_provenance = v_provenance\<rparr>)))))"

definition Measurement_ok :: "Measurement \<Rightarrow> bool" where
  "Measurement_ok x \<longleftrightarrow>
     str_ok (meas_normalized_field x) \<and> str_ok (meas_raw_field x) \<and>
     Value_ok (meas_value x) \<and> Classification_wf (meas_classification x) \<and>
     Provenance_ok (meas_provenance x)"

lemma codes_measurement [codec_intros]: "Measurement_ok x \<Longrightarrow> codes (write_measurement x) read_measurement x"
  unfolding write_measurement_def read_measurement_def
  by (intro codes_step codes_done codec_intros)
     (auto simp: Measurement_ok_def wf_defs intro!: codec_intros Measurement.equality)

lemmas codes_measurement_vec [codec_intros] = codes_vec_ok [where ok = Measurement_ok, OF _ codes_measurement]

lemma stable_measurement [stable_intros]: "stable read_measurement"
  unfolding read_measurement_def r_id_def by (intro stable_intros)

interpretation cdc_measurement: codec write_measurement read_measurement Measurement_ok
  by unfold_locales (simp_all add: codes_measurement stable_measurement)

subsection \<open>\<open>SourceDescriptor\<close>\<close>

definition write_source_descriptor :: "SourceDescriptor \<Rightarrow> writer" where
  "write_source_descriptor x = w_all
     [w_u64 (id_value (src_source_id x)), w_u64 (src_generation x),
      w_u8 (SourceType_code (src_type x)), w_str (src_name x),
      w_u8 (ReliabilityClass_code (src_reliability x)), w_str (src_endpoint x),
      w_i64 (ts_wall (src_last_seen x)), w_u64 (ts_mono (src_last_seen x)),
      w_bool (src_synthetic x)]"

definition read_source_descriptor :: "SourceDescriptor reader" where
  "read_source_descriptor =
     rd r_u64 (\<lambda>v_source_id. rd r_u64 (\<lambda>v_generation. rd r_u8 (\<lambda>v_type.
     rd r_str (\<lambda>v_name. rd r_u8 (\<lambda>v_reliability. rd r_str (\<lambda>v_endpoint.
     rd r_i64 (\<lambda>v_wall. rd r_u64 (\<lambda>v_mono. rd r_bool (\<lambda>v_synthetic.
     rd_return
       \<lparr>src_source_id = Id v_source_id, src_generation = v_generation,
        src_type = SourceType_of v_type, src_name = v_name,
        src_reliability = ReliabilityClass_of v_reliability, src_endpoint = v_endpoint,
        src_last_seen = \<lparr>ts_wall = v_wall, ts_mono = v_mono, ts_uncertainty_ns = 0\<rparr>,
        src_synthetic = v_synthetic\<rparr>)))))))))"

definition SourceDescriptor_ok :: "SourceDescriptor \<Rightarrow> bool" where
  "SourceDescriptor_ok x \<longleftrightarrow>
     SourceType_wf (src_type x) \<and> str_ok (src_name x) \<and>
     ReliabilityClass_wf (src_reliability x) \<and> str_ok (src_endpoint x) \<and>
     ts_uncertainty_ns (src_last_seen x) = 0"

lemma codes_source_descriptor [codec_intros]: "SourceDescriptor_ok x \<Longrightarrow> codes (write_source_descriptor x) read_source_descriptor x"
  unfolding write_source_descriptor_def read_source_descriptor_def
  by (intro codes_step codes_done codec_intros)
     (auto simp: SourceDescriptor_ok_def wf_defs intro!: codec_intros SourceDescriptor.equality Timestamp.equality)

lemma stable_source_descriptor [stable_intros]: "stable read_source_descriptor"
  unfolding read_source_descriptor_def r_id_def by (intro stable_intros)

interpretation cdc_source_descriptor: codec write_source_descriptor read_source_descriptor SourceDescriptor_ok
  by unfold_locales (simp_all add: codes_source_descriptor stable_source_descriptor)

subsection \<open>\<open>DeviceDescriptor\<close>\<close>

definition write_device_descriptor :: "DeviceDescriptor \<Rightarrow> writer" where
  "write_device_descriptor x = w_all
     [w_u64 (id_value (dev_device_id x)), w_u64 (id_value (dev_node_id x)),
      w_u8 (DeviceKind_code (dev_kind x)), w_str (dev_vendor x), w_str (dev_model x),
      w_str (dev_architecture x), w_u8 (ucast (dev_compute_capability_major x)),
      w_u8 (ucast (dev_compute_capability_minor x)), w_u64 (dev_memory_bytes x),
      w_u64 (dev_free_memory_bytes x), w_u64 (dev_used_memory_bytes x),
      w_i64 (scast (dev_sm_count x)), w_f64 (dev_clock_mhz x),
      w_u8 (HealthState_code (dev_health x)), w_bool (dev_synthetic x)]"

definition read_device_descriptor :: "DeviceDescriptor reader" where
  "read_device_descriptor =
     rd r_u64 (\<lambda>v_device_id. rd r_u64 (\<lambda>v_node_id. rd r_u8 (\<lambda>v_kind.
     rd r_str (\<lambda>v_vendor. rd r_str (\<lambda>v_model. rd r_str (\<lambda>v_architecture.
     rd r_u8 (\<lambda>v_compute_capability_major. rd r_u8 (\<lambda>v_compute_capability_minor.
     rd r_u64 (\<lambda>v_memory_bytes. rd r_u64 (\<lambda>v_free_memory_bytes.
     rd r_u64 (\<lambda>v_used_memory_bytes. rd r_i64 (\<lambda>v_sm_count. rd r_f64 (\<lambda>v_clock_mhz.
     rd r_u8 (\<lambda>v_health. rd r_bool (\<lambda>v_synthetic.
     rd_return
       \<lparr>dev_device_id = Id v_device_id, dev_node_id = Id v_node_id,
        dev_kind = DeviceKind_of v_kind, dev_vendor = v_vendor, dev_model = v_model,
        dev_architecture = v_architecture,
        dev_compute_capability_major = ucast v_compute_capability_major,
        dev_compute_capability_minor = ucast v_compute_capability_minor,
        dev_memory_bytes = v_memory_bytes, dev_free_memory_bytes = v_free_memory_bytes,
        dev_used_memory_bytes = v_used_memory_bytes, dev_sm_count = ucast v_sm_count,
        dev_clock_mhz = v_clock_mhz, dev_health = HealthState_of v_health,
        dev_synthetic = v_synthetic\<rparr>)))))))))))))))"

definition DeviceDescriptor_ok :: "DeviceDescriptor \<Rightarrow> bool" where
  "DeviceDescriptor_ok x \<longleftrightarrow>
     DeviceKind_wf (dev_kind x) \<and> str_ok (dev_vendor x) \<and> str_ok (dev_model x) \<and>
     str_ok (dev_architecture x) \<and> dev_compute_capability_major x < 256 \<and>
     dev_compute_capability_minor x < 256 \<and> HealthState_wf (dev_health x)"

lemma codes_device_descriptor [codec_intros]: "DeviceDescriptor_ok x \<Longrightarrow> codes (write_device_descriptor x) read_device_descriptor x"
  unfolding write_device_descriptor_def read_device_descriptor_def
  by (intro codes_step codes_done codec_intros)
     (auto simp: DeviceDescriptor_ok_def wf_defs intro!: codec_intros DeviceDescriptor.equality)

lemma stable_device_descriptor [stable_intros]: "stable read_device_descriptor"
  unfolding read_device_descriptor_def r_id_def by (intro stable_intros)

interpretation cdc_device_descriptor: codec write_device_descriptor read_device_descriptor DeviceDescriptor_ok
  by unfold_locales (simp_all add: codes_device_descriptor stable_device_descriptor)

subsection \<open>\<open>NodeDescriptor\<close>\<close>

definition write_node_descriptor :: "NodeDescriptor \<Rightarrow> writer" where
  "write_node_descriptor x = w_all
     [w_u64 (id_value (node_node_id x)), w_str (node_hostname x),
      w_i64 (scast (node_cpu_count x)), w_u64 (node_memory_bytes x),
      w_str (node_numa_architecture x), write_vec w_id (node_devices x),
      w_u8 (HealthState_code (node_health x)), w_str (node_region x), w_bool (node_synthetic x)]"

definition read_node_descriptor :: "NodeDescriptor reader" where
  "read_node_descriptor =
     rd r_u64 (\<lambda>v_node_id. rd r_str (\<lambda>v_hostname. rd r_i64 (\<lambda>v_cpu_count.
     rd r_u64 (\<lambda>v_memory_bytes. rd r_str (\<lambda>v_numa_architecture.
     rd (read_vec r_id) (\<lambda>v_devices. rd r_u8 (\<lambda>v_health. rd r_str (\<lambda>v_region.
     rd r_bool (\<lambda>v_synthetic.
     rd_return
       \<lparr>node_node_id = Id v_node_id, node_hostname = v_hostname,
        node_cpu_count = ucast v_cpu_count, node_memory_bytes = v_memory_bytes,
        node_numa_architecture = v_numa_architecture, node_devices = v_devices,
        node_health = HealthState_of v_health, node_region = v_region,
        node_synthetic = v_synthetic\<rparr>)))))))))"

definition NodeDescriptor_ok :: "NodeDescriptor \<Rightarrow> bool" where
  "NodeDescriptor_ok x \<longleftrightarrow>
     str_ok (node_hostname x) \<and> str_ok (node_numa_architecture x) \<and>
     length (node_devices x) < 2 ^ 32 \<and> HealthState_wf (node_health x) \<and>
     str_ok (node_region x)"

lemma codes_node_descriptor [codec_intros]: "NodeDescriptor_ok x \<Longrightarrow> codes (write_node_descriptor x) read_node_descriptor x"
  unfolding write_node_descriptor_def read_node_descriptor_def
  by (intro codes_step codes_done codec_intros)
     (auto simp: NodeDescriptor_ok_def wf_defs intro!: codec_intros NodeDescriptor.equality)

lemma stable_node_descriptor [stable_intros]: "stable read_node_descriptor"
  unfolding read_node_descriptor_def r_id_def by (intro stable_intros)

interpretation cdc_node_descriptor: codec write_node_descriptor read_node_descriptor NodeDescriptor_ok
  by unfold_locales (simp_all add: codes_node_descriptor stable_node_descriptor)

subsection \<open>\<open>WorkloadDescriptor\<close>\<close>

definition write_workload_descriptor :: "WorkloadDescriptor \<Rightarrow> writer" where
  "write_workload_descriptor x = w_all
     [w_u64 (id_value (wl_workload_id x)), w_u64 (id_value (wl_request_id x)),
      w_u64 (id_value (wl_tenant_id x)), w_u64 (id_value (wl_namespace_id x)),
      w_str (wl_name x), w_u8 (DeviceKind_code (wl_required_kind x)),
      w_str (wl_required_architecture x), w_u64 (wl_memory_bytes x),
      w_f64 (wl_predicted_service_seconds x), w_u8 (PriorityClass_code (wl_priority x)),
      w_u8 (SloClass_code (wl_slo x)), write_vec w_str (wl_capabilities x),
      w_bool (wl_synthetic x)]"

definition read_workload_descriptor :: "WorkloadDescriptor reader" where
  "read_workload_descriptor =
     rd r_u64 (\<lambda>v_workload_id. rd r_u64 (\<lambda>v_request_id. rd r_u64 (\<lambda>v_tenant_id.
     rd r_u64 (\<lambda>v_namespace_id. rd r_str (\<lambda>v_name. rd r_u8 (\<lambda>v_required_kind.
     rd r_str (\<lambda>v_required_architecture. rd r_u64 (\<lambda>v_memory_bytes.
     rd r_f64 (\<lambda>v_predicted_service_seconds. rd r_u8 (\<lambda>v_priority. rd r_u8 (\<lambda>v_slo.
     rd (read_vec r_str) (\<lambda>v_capabilities. rd r_bool (\<lambda>v_synthetic.
     rd_return
       \<lparr>wl_workload_id = Id v_workload_id, wl_request_id = Id v_request_id,
        wl_tenant_id = Id v_tenant_id, wl_namespace_id = Id v_namespace_id, wl_name = v_name,
        wl_required_kind = DeviceKind_of v_required_kind,
        wl_required_architecture = v_required_architecture, wl_memory_bytes = v_memory_bytes,
        wl_predicted_service_seconds = v_predicted_service_seconds,
        wl_priority = PriorityClass_of v_priority, wl_slo = SloClass_of v_slo,
        wl_capabilities = v_capabilities, wl_synthetic = v_synthetic\<rparr>)))))))))))))"

definition WorkloadDescriptor_ok :: "WorkloadDescriptor \<Rightarrow> bool" where
  "WorkloadDescriptor_ok x \<longleftrightarrow>
     str_ok (wl_name x) \<and> DeviceKind_wf (wl_required_kind x) \<and>
     str_ok (wl_required_architecture x) \<and> PriorityClass_wf (wl_priority x) \<and>
     SloClass_wf (wl_slo x) \<and> vec_ok str_ok (wl_capabilities x)"

lemma codes_workload_descriptor [codec_intros]: "WorkloadDescriptor_ok x \<Longrightarrow> codes (write_workload_descriptor x) read_workload_descriptor x"
  unfolding write_workload_descriptor_def read_workload_descriptor_def
  by (intro codes_step codes_done codec_intros)
     (auto simp: WorkloadDescriptor_ok_def wf_defs intro!: codec_intros WorkloadDescriptor.equality)

lemma stable_workload_descriptor [stable_intros]: "stable read_workload_descriptor"
  unfolding read_workload_descriptor_def r_id_def by (intro stable_intros)

interpretation cdc_workload_descriptor: codec write_workload_descriptor read_workload_descriptor WorkloadDescriptor_ok
  by unfold_locales (simp_all add: codes_workload_descriptor stable_workload_descriptor)

subsection \<open>\<open>QueueDescriptor\<close>\<close>

definition write_queue_descriptor :: "QueueDescriptor \<Rightarrow> writer" where
  "write_queue_descriptor x = w_all
     [w_str (queue_queue_name x), w_u8 (QueueState_code (queue_state x)), w_u32 (queue_depth x),
      w_u64 (queue_oldest_age_ns x), w_u64 (queue_head_wait_ns x),
      w_u64 (queue_expected_wait_ns x), w_u32 (queue_capacity x)]"

definition read_queue_descriptor :: "QueueDescriptor reader" where
  "read_queue_descriptor =
     rd r_str (\<lambda>v_queue_name. rd r_u8 (\<lambda>v_state. rd r_u32 (\<lambda>v_depth.
     rd r_u64 (\<lambda>v_oldest_age_ns. rd r_u64 (\<lambda>v_head_wait_ns.
     rd r_u64 (\<lambda>v_expected_wait_ns. rd r_u32 (\<lambda>v_capacity.
     rd_return
       \<lparr>queue_queue_name = v_queue_name, queue_state = QueueState_of v_state,
        queue_depth = v_depth, queue_oldest_age_ns = v_oldest_age_ns,
        queue_head_wait_ns = v_head_wait_ns, queue_expected_wait_ns = v_expected_wait_ns,
        queue_capacity = v_capacity\<rparr>)))))))"

definition QueueDescriptor_ok :: "QueueDescriptor \<Rightarrow> bool" where
  "QueueDescriptor_ok x \<longleftrightarrow>
     str_ok (queue_queue_name x) \<and> QueueState_wf (queue_state x)"

lemma codes_queue_descriptor [codec_intros]: "QueueDescriptor_ok x \<Longrightarrow> codes (write_queue_descriptor x) read_queue_descriptor x"
  unfolding write_queue_descriptor_def read_queue_descriptor_def
  by (intro codes_step codes_done codec_intros)
     (auto simp: QueueDescriptor_ok_def wf_defs intro!: codec_intros QueueDescriptor.equality)

lemma stable_queue_descriptor [stable_intros]: "stable read_queue_descriptor"
  unfolding read_queue_descriptor_def r_id_def by (intro stable_intros)

interpretation cdc_queue_descriptor: codec write_queue_descriptor read_queue_descriptor QueueDescriptor_ok
  by unfold_locales (simp_all add: codes_queue_descriptor stable_queue_descriptor)

subsection \<open>\<open>MemoryDescriptor\<close>\<close>

definition write_memory_descriptor :: "MemoryDescriptor \<Rightarrow> writer" where
  "write_memory_descriptor x = w_all
     [w_u64 (mem_total_bytes x), w_u64 (mem_free_bytes x), w_u64 (mem_used_bytes x),
      w_u8 (MemoryPressureLevel_code (mem_pressure x)), w_f64 (mem_pressure_ratio x)]"

definition read_memory_descriptor :: "MemoryDescriptor reader" where
  "read_memory_descriptor =
     rd r_u64 (\<lambda>v_total_bytes. rd r_u64 (\<lambda>v_free_bytes. rd r_u64 (\<lambda>v_used_bytes.
     rd r_u8 (\<lambda>v_pressure. rd r_f64 (\<lambda>v_pressure_ratio.
     rd_return
       \<lparr>mem_total_bytes = v_total_bytes, mem_free_bytes = v_free_bytes,
        mem_used_bytes = v_used_bytes, mem_pressure = MemoryPressureLevel_of v_pressure,
        mem_pressure_ratio = v_pressure_ratio\<rparr>)))))"

definition MemoryDescriptor_ok :: "MemoryDescriptor \<Rightarrow> bool" where
  "MemoryDescriptor_ok x \<longleftrightarrow>
     MemoryPressureLevel_wf (mem_pressure x)"

lemma codes_memory_descriptor [codec_intros]: "MemoryDescriptor_ok x \<Longrightarrow> codes (write_memory_descriptor x) read_memory_descriptor x"
  unfolding write_memory_descriptor_def read_memory_descriptor_def
  by (intro codes_step codes_done codec_intros)
     (auto simp: MemoryDescriptor_ok_def wf_defs intro!: codec_intros MemoryDescriptor.equality)

lemma stable_memory_descriptor [stable_intros]: "stable read_memory_descriptor"
  unfolding read_memory_descriptor_def r_id_def by (intro stable_intros)

interpretation cdc_memory_descriptor: codec write_memory_descriptor read_memory_descriptor MemoryDescriptor_ok
  by unfold_locales (simp_all add: codes_memory_descriptor stable_memory_descriptor)

subsection \<open>\<open>TopologyDescriptor\<close>\<close>

definition write_topology_descriptor :: "TopologyDescriptor \<Rightarrow> writer" where
  "write_topology_descriptor x = w_all
     [w_u8 (TopologyType_code (topo_type x)), w_u64 (id_value (topo_from_node x)),
      w_u64 (id_value (topo_to_node x)), w_u64 (id_value (topo_from_device x)),
      w_u64 (id_value (topo_to_device x)), w_u64 (topo_distance_units x),
      w_str (topo_interconnect_path x), w_f64 (topo_transfer_cost x)]"

definition read_topology_descriptor :: "TopologyDescriptor reader" where
  "read_topology_descriptor =
     rd r_u8 (\<lambda>v_type. rd r_u64 (\<lambda>v_from_node. rd r_u64 (\<lambda>v_to_node.
     rd r_u64 (\<lambda>v_from_device. rd r_u64 (\<lambda>v_to_device. rd r_u64 (\<lambda>v_distance_units.
     rd r_str (\<lambda>v_interconnect_path. rd r_f64 (\<lambda>v_transfer_cost.
     rd_return
       \<lparr>topo_type = TopologyType_of v_type, topo_from_node = Id v_from_node,
        topo_to_node = Id v_to_node, topo_from_device = Id v_from_device,
        topo_to_device = Id v_to_device, topo_distance_units = v_distance_units,
        topo_interconnect_path = v_interconnect_path, topo_transfer_cost = v_transfer_cost\<rparr>))))))))"

definition TopologyDescriptor_ok :: "TopologyDescriptor \<Rightarrow> bool" where
  "TopologyDescriptor_ok x \<longleftrightarrow>
     TopologyType_wf (topo_type x) \<and> str_ok (topo_interconnect_path x)"

lemma codes_topology_descriptor [codec_intros]: "TopologyDescriptor_ok x \<Longrightarrow> codes (write_topology_descriptor x) read_topology_descriptor x"
  unfolding write_topology_descriptor_def read_topology_descriptor_def
  by (intro codes_step codes_done codec_intros)
     (auto simp: TopologyDescriptor_ok_def wf_defs intro!: codec_intros TopologyDescriptor.equality)

lemma stable_topology_descriptor [stable_intros]: "stable read_topology_descriptor"
  unfolding read_topology_descriptor_def r_id_def by (intro stable_intros)

interpretation cdc_topology_descriptor: codec write_topology_descriptor read_topology_descriptor TopologyDescriptor_ok
  by unfold_locales (simp_all add: codes_topology_descriptor stable_topology_descriptor)

subsection \<open>\<open>LocalityDescriptor\<close>\<close>

definition write_locality_descriptor :: "LocalityDescriptor \<Rightarrow> writer" where
  "write_locality_descriptor x = w_all
     [w_u8 (LocalityType_code (loc_type x)), w_str (loc_state_key x),
      w_u64 (id_value (loc_device_id x)), w_u64 (id_value (loc_node_id x)),
      w_bool (loc_present x), w_f64 (loc_benefit x)]"

definition read_locality_descriptor :: "LocalityDescriptor reader" where
  "read_locality_descriptor =
     rd r_u8 (\<lambda>v_type. rd r_str (\<lambda>v_state_key. rd r_u64 (\<lambda>v_device_id.
     rd r_u64 (\<lambda>v_node_id. rd r_bool (\<lambda>v_present. rd r_f64 (\<lambda>v_benefit.
     rd_return
       \<lparr>loc_type = LocalityType_of v_type, loc_state_key = v_state_key,
        loc_device_id = Id v_device_id, loc_node_id = Id v_node_id, loc_present = v_present,
        loc_benefit = v_benefit\<rparr>))))))"

definition LocalityDescriptor_ok :: "LocalityDescriptor \<Rightarrow> bool" where
  "LocalityDescriptor_ok x \<longleftrightarrow>
     LocalityType_wf (loc_type x) \<and> str_ok (loc_state_key x)"

lemma codes_locality_descriptor [codec_intros]: "LocalityDescriptor_ok x \<Longrightarrow> codes (write_locality_descriptor x) read_locality_descriptor x"
  unfolding write_locality_descriptor_def read_locality_descriptor_def
  by (intro codes_step codes_done codec_intros)
     (auto simp: LocalityDescriptor_ok_def wf_defs intro!: codec_intros LocalityDescriptor.equality)

lemmas codes_locality_descriptor_vec [codec_intros] = codes_vec_ok [where ok = LocalityDescriptor_ok, OF _ codes_locality_descriptor]

lemma stable_locality_descriptor [stable_intros]: "stable read_locality_descriptor"
  unfolding read_locality_descriptor_def r_id_def by (intro stable_intros)

interpretation cdc_locality_descriptor: codec write_locality_descriptor read_locality_descriptor LocalityDescriptor_ok
  by unfold_locales (simp_all add: codes_locality_descriptor stable_locality_descriptor)

subsection \<open>\<open>ReservationDescriptor\<close>\<close>

definition write_reservation_descriptor :: "ReservationDescriptor \<Rightarrow> writer" where
  "write_reservation_descriptor x = w_all
     [w_str (resv_reservation_key x), w_u64 (id_value (resv_tenant_id x)),
      w_u64 (id_value (resv_device_id x)), w_u64 (id_value (resv_node_id x)),
      w_u64 (resv_reserved_bytes x), w_bool (resv_active x)]"

definition read_reservation_descriptor :: "ReservationDescriptor reader" where
  "read_reservation_descriptor =
     rd r_str (\<lambda>v_reservation_key. rd r_u64 (\<lambda>v_tenant_id. rd r_u64 (\<lambda>v_device_id.
     rd r_u64 (\<lambda>v_node_id. rd r_u64 (\<lambda>v_reserved_bytes. rd r_bool (\<lambda>v_active.
     rd_return
       \<lparr>resv_reservation_key = v_reservation_key, resv_tenant_id = Id v_tenant_id,
        resv_device_id = Id v_device_id, resv_node_id = Id v_node_id,
        resv_reserved_bytes = v_reserved_bytes, resv_active = v_active\<rparr>))))))"

definition ReservationDescriptor_ok :: "ReservationDescriptor \<Rightarrow> bool" where
  "ReservationDescriptor_ok x \<longleftrightarrow>
     str_ok (resv_reservation_key x)"

lemma codes_reservation_descriptor [codec_intros]: "ReservationDescriptor_ok x \<Longrightarrow> codes (write_reservation_descriptor x) read_reservation_descriptor x"
  unfolding write_reservation_descriptor_def read_reservation_descriptor_def
  by (intro codes_step codes_done codec_intros)
     (auto simp: ReservationDescriptor_ok_def wf_defs intro!: codec_intros ReservationDescriptor.equality)

lemma stable_reservation_descriptor [stable_intros]: "stable read_reservation_descriptor"
  unfolding read_reservation_descriptor_def r_id_def by (intro stable_intros)

interpretation cdc_reservation_descriptor: codec write_reservation_descriptor read_reservation_descriptor ReservationDescriptor_ok
  by unfold_locales (simp_all add: codes_reservation_descriptor stable_reservation_descriptor)

subsection \<open>\<open>DeadlineDescriptor\<close>\<close>

definition write_deadline_descriptor :: "DeadlineDescriptor \<Rightarrow> writer" where
  "write_deadline_descriptor x = w_all
     [w_i64 (dl_deadline_ns x), w_i64 (dl_submitted_ns x),
      w_u8 (DeadlineState_code (dl_state x)), w_f64 (dl_risk x)]"

definition read_deadline_descriptor :: "DeadlineDescriptor reader" where
  "read_deadline_descriptor =
     rd r_i64 (\<lambda>v_deadline_ns. rd r_i64 (\<lambda>v_submitted_ns. rd r_u8 (\<lambda>v_state.
     rd r_f64 (\<lambda>v_risk.
     rd_return
       \<lparr>dl_deadline_ns = v_deadline_ns, dl_submitted_ns = v_submitted_ns,
        dl_state = DeadlineState_of v_state, dl_risk = v_risk\<rparr>))))"

definition DeadlineDescriptor_ok :: "DeadlineDescriptor \<Rightarrow> bool" where
  "DeadlineDescriptor_ok x \<longleftrightarrow>
     DeadlineState_wf (dl_state x)"

lemma codes_deadline_descriptor [codec_intros]: "DeadlineDescriptor_ok x \<Longrightarrow> codes (write_deadline_descriptor x) read_deadline_descriptor x"
  unfolding write_deadline_descriptor_def read_deadline_descriptor_def
  by (intro codes_step codes_done codec_intros)
     (auto simp: DeadlineDescriptor_ok_def wf_defs intro!: codec_intros DeadlineDescriptor.equality)

lemma stable_deadline_descriptor [stable_intros]: "stable read_deadline_descriptor"
  unfolding read_deadline_descriptor_def r_id_def by (intro stable_intros)

interpretation cdc_deadline_descriptor: codec write_deadline_descriptor read_deadline_descriptor DeadlineDescriptor_ok
  by unfold_locales (simp_all add: codes_deadline_descriptor stable_deadline_descriptor)

subsection \<open>\<open>PlacementConstraint\<close>\<close>

definition write_constraint :: "PlacementConstraint \<Rightarrow> writer" where
  "write_constraint x = w_all
     [w_u8 (ConstraintClass_code (con_cls x)), w_u8 (ConstraintKind_code (con_kind x)),
      w_str (con_field x), write_value (con_value x), w_str (con_requirement_text x),
      w_u8 (Classification_code (con_classification x)), write_provenance (con_provenance x)]"

definition read_constraint :: "PlacementConstraint reader" where
  "read_constraint =
     rd r_u8 (\<lambda>v_cls. rd r_u8 (\<lambda>v_kind. rd r_str (\<lambda>v_field.
     rd read_value (\<lambda>v_value. rd r_str (\<lambda>v_requirement_text.
     rd r_u8 (\<lambda>v_classification. rd read_provenance (\<lambda>v_provenance.
     rd_return
       \<lparr>con_cls = ConstraintClass_of v_cls, con_kind = ConstraintKind_of v_kind,
        con_field = v_field, con_value = v_value, con_requirement_text = v_requirement_text,
        con_classification = Classification_of v_classification, con_provenance = v_provenance\<rparr>)))))))"

definition PlacementConstraint_ok :: "PlacementConstraint \<Rightarrow> bool" where
  "PlacementConstraint_ok x \<longleftrightarrow>
     ConstraintClass_wf (con_cls x) \<and> ConstraintKind_wf (con_kind x) \<and>
     str_ok (con_field x) \<and> Value_ok (con_value x) \<and>
     str_ok (con_requirement_text x) \<and> Classification_wf (con_classification x) \<and>
     Provenance_ok (con_provenance x)"

lemma codes_constraint [codec_intros]: "PlacementConstraint_ok x \<Longrightarrow> codes (write_constraint x) read_constraint x"
  unfolding write_constraint_def read_constraint_def
  by (intro codes_step codes_done codec_intros)
     (auto simp: PlacementConstraint_ok_def wf_defs intro!: codec_intros PlacementConstraint.equality)

lemmas codes_constraint_vec [codec_intros] = codes_vec_ok [where ok = PlacementConstraint_ok, OF _ codes_constraint]

lemma stable_constraint [stable_intros]: "stable read_constraint"
  unfolding read_constraint_def r_id_def by (intro stable_intros)

interpretation cdc_constraint: codec write_constraint read_constraint PlacementConstraint_ok
  by unfold_locales (simp_all add: codes_constraint stable_constraint)

subsection \<open>\<open>PlacementCostComponent\<close>\<close>

definition write_cost_component :: "PlacementCostComponent \<Rightarrow> writer" where
  "write_cost_component x = w_all
     [w_u8 (CostComponentKind_code (cost_kind x)), w_str (cost_label x), w_f64 (cost_cost x),
      w_f64 (cost_policy_weight x), w_u8 (Classification_code (cost_classification x)),
      write_provenance (cost_provenance x), w_str (cost_detail x)]"

definition read_cost_component :: "PlacementCostComponent reader" where
  "read_cost_component =
     rd r_u8 (\<lambda>v_kind. rd r_str (\<lambda>v_label. rd r_f64 (\<lambda>v_cost.
     rd r_f64 (\<lambda>v_policy_weight. rd r_u8 (\<lambda>v_classification.
     rd read_provenance (\<lambda>v_provenance. rd r_str (\<lambda>v_detail.
     rd_return
       \<lparr>cost_kind = CostComponentKind_of v_kind, cost_label = v_label, cost_cost = v_cost,
        cost_policy_weight = v_policy_weight,
        cost_classification = Classification_of v_classification,
        cost_provenance = v_provenance, cost_detail = v_detail\<rparr>)))))))"

definition PlacementCostComponent_ok :: "PlacementCostComponent \<Rightarrow> bool" where
  "PlacementCostComponent_ok x \<longleftrightarrow>
     CostComponentKind_wf (cost_kind x) \<and> str_ok (cost_label x) \<and>
     Classification_wf (cost_classification x) \<and> Provenance_ok (cost_provenance x) \<and>
     str_ok (cost_detail x)"

lemma codes_cost_component [codec_intros]: "PlacementCostComponent_ok x \<Longrightarrow> codes (write_cost_component x) read_cost_component x"
  unfolding write_cost_component_def read_cost_component_def
  by (intro codes_step codes_done codec_intros)
     (auto simp: PlacementCostComponent_ok_def wf_defs intro!: codec_intros PlacementCostComponent.equality)

lemmas codes_cost_component_vec [codec_intros] = codes_vec_ok [where ok = PlacementCostComponent_ok, OF _ codes_cost_component]

lemma stable_cost_component [stable_intros]: "stable read_cost_component"
  unfolding read_cost_component_def r_id_def by (intro stable_intros)

interpretation cdc_cost_component: codec write_cost_component read_cost_component PlacementCostComponent_ok
  by unfold_locales (simp_all add: codes_cost_component stable_cost_component)

subsection \<open>\<open>PlacementScoreComponent\<close>\<close>

definition write_score_component :: "PlacementScoreComponent \<Rightarrow> writer" where
  "write_score_component x = w_all
     [w_u8 (ScoreComponentKind_code (score_kind x)), w_str (score_label x),
      w_f64 (score_value x), w_u8 (Classification_code (score_classification x)),
      write_provenance (score_provenance x)]"

definition read_score_component :: "PlacementScoreComponent reader" where
  "read_score_component =
     rd r_u8 (\<lambda>v_kind. rd r_str (\<lambda>v_label. rd r_f64 (\<lambda>v_value.
     rd r_u8 (\<lambda>v_classification. rd read_provenance (\<lambda>v_provenance.
     rd_return
       \<lparr>score_kind = ScoreComponentKind_of v_kind, score_label = v_label, score_value = v_value,
        score_classification = Classification_of v_classification,
        score_provenance = v_provenance\<rparr>)))))"

definition PlacementScoreComponent_ok :: "PlacementScoreComponent \<Rightarrow> bool" where
  "PlacementScoreComponent_ok x \<longleftrightarrow>
     ScoreComponentKind_wf (score_kind x) \<and> str_ok (score_label x) \<and>
     Classification_wf (score_classification x) \<and> Provenance_ok (score_provenance x)"

lemma codes_score_component [codec_intros]: "PlacementScoreComponent_ok x \<Longrightarrow> codes (write_score_component x) read_score_component x"
  unfolding write_score_component_def read_score_component_def
  by (intro codes_step codes_done codec_intros)
     (auto simp: PlacementScoreComponent_ok_def wf_defs intro!: codec_intros PlacementScoreComponent.equality)

lemmas codes_score_component_vec [codec_intros] = codes_vec_ok [where ok = PlacementScoreComponent_ok, OF _ codes_score_component]

lemma stable_score_component [stable_intros]: "stable read_score_component"
  unfolding read_score_component_def r_id_def by (intro stable_intros)

interpretation cdc_score_component: codec write_score_component read_score_component PlacementScoreComponent_ok
  by unfold_locales (simp_all add: codes_score_component stable_score_component)

subsection \<open>\<open>PlacementCandidate\<close>\<close>

definition write_candidate :: "PlacementCandidate \<Rightarrow> writer" where
  "write_candidate x = w_all
     [w_u64 (id_value (cand_candidate_id x)), w_u64 (id_value (cand_node_id x)),
      w_u64 (id_value (cand_device_id x)), w_u64 (cand_generation x),
      w_str (cand_architecture x), write_vec w_str (cand_capabilities x),
      w_u8 (HealthState_code (cand_health x)), write_memory_descriptor (cand_memory x),
      write_queue_descriptor (cand_queue x),
      write_vec write_locality_descriptor (cand_locality x),
      write_vec write_cost_component (cand_costs x), w_f64 (cand_total_cost x),
      write_opt w_str (cand_rejection_reason_text x),
      write_opt (\<lambda>e. w_u8 (RejectionReason_code e)) (cand_rejection_reason x)]"

definition read_candidate :: "PlacementCandidate reader" where
  "read_candidate =
     rd r_u64 (\<lambda>v_candidate_id. rd r_u64 (\<lambda>v_node_id. rd r_u64 (\<lambda>v_device_id.
     rd r_u64 (\<lambda>v_generation. rd r_str (\<lambda>v_architecture.
     rd (read_vec r_str) (\<lambda>v_capabilities. rd r_u8 (\<lambda>v_health.
     rd read_memory_descriptor (\<lambda>v_memory. rd read_queue_descriptor (\<lambda>v_queue.
     rd (read_vec read_locality_descriptor) (\<lambda>v_locality.
     rd (read_vec read_cost_component) (\<lambda>v_costs. rd r_f64 (\<lambda>v_total_cost.
     rd (read_opt r_str) (\<lambda>v_rejection_reason_text.
     rd (read_opt (rd r_u8 (\<lambda>b. rd_return (RejectionReason_of b)))) (\<lambda>v_rejection_reason.
     rd_return
       \<lparr>cand_candidate_id = Id v_candidate_id, cand_node_id = Id v_node_id,
        cand_device_id = Id v_device_id, cand_generation = v_generation,
        cand_architecture = v_architecture, cand_capabilities = v_capabilities,
        cand_health = HealthState_of v_health, cand_memory = v_memory, cand_queue = v_queue,
        cand_locality = v_locality, cand_costs = v_costs, cand_total_cost = v_total_cost,
        cand_rejection_reason_text = v_rejection_reason_text,
        cand_rejection_reason = v_rejection_reason\<rparr>))))))))))))))"

definition PlacementCandidate_ok :: "PlacementCandidate \<Rightarrow> bool" where
  "PlacementCandidate_ok x \<longleftrightarrow>
     str_ok (cand_architecture x) \<and> vec_ok str_ok (cand_capabilities x) \<and>
     HealthState_wf (cand_health x) \<and> MemoryDescriptor_ok (cand_memory x) \<and>
     QueueDescriptor_ok (cand_queue x) \<and>
     vec_ok LocalityDescriptor_ok (cand_locality x) \<and>
     vec_ok PlacementCostComponent_ok (cand_costs x) \<and>
     pred_option str_ok (cand_rejection_reason_text x) \<and>
     pred_option RejectionReason_wf (cand_rejection_reason x)"

lemma codes_candidate [codec_intros]: "PlacementCandidate_ok x \<Longrightarrow> codes (write_candidate x) read_candidate x"
  unfolding write_candidate_def read_candidate_def
  by (intro codes_step codes_done codec_intros)
     (auto simp: PlacementCandidate_ok_def wf_defs intro!: codec_intros PlacementCandidate.equality)

lemmas codes_candidate_vec [codec_intros] = codes_vec_ok [where ok = PlacementCandidate_ok, OF _ codes_candidate]

lemma stable_candidate [stable_intros]: "stable read_candidate"
  unfolding read_candidate_def r_id_def by (intro stable_intros)

interpretation cdc_candidate: codec write_candidate read_candidate PlacementCandidate_ok
  by unfold_locales (simp_all add: codes_candidate stable_candidate)

subsection \<open>\<open>CandidateSet\<close>\<close>

definition write_candidate_set :: "CandidateSet \<Rightarrow> writer" where
  "write_candidate_set x = w_all
     [write_vec write_candidate (cset_candidates x), w_bool (cset_complete x),
      w_bool (cset_reconstructed x), w_u8 (Classification_code (cset_classification x)),
      write_vec write_provenance (cset_source_chain x), write_vec w_str (cset_missing_fields x)]"

definition read_candidate_set :: "CandidateSet reader" where
  "read_candidate_set =
     rd (read_vec read_candidate) (\<lambda>v_candidates. rd r_bool (\<lambda>v_complete.
     rd r_bool (\<lambda>v_reconstructed. rd r_u8 (\<lambda>v_classification.
     rd (read_vec read_provenance) (\<lambda>v_source_chain. rd (read_vec r_str) (\<lambda>v_missing_fields.
     rd_return
       \<lparr>cset_candidates = v_candidates, cset_complete = v_complete,
        cset_reconstructed = v_reconstructed,
        cset_classification = Classification_of v_classification,
        cset_source_chain = v_source_chain, cset_missing_fields = v_missing_fields\<rparr>))))))"

definition CandidateSet_ok :: "CandidateSet \<Rightarrow> bool" where
  "CandidateSet_ok x \<longleftrightarrow>
     vec_ok PlacementCandidate_ok (cset_candidates x) \<and>
     Classification_wf (cset_classification x) \<and>
     vec_ok Provenance_ok (cset_source_chain x) \<and> vec_ok str_ok (cset_missing_fields x)"

lemma codes_candidate_set [codec_intros]: "CandidateSet_ok x \<Longrightarrow> codes (write_candidate_set x) read_candidate_set x"
  unfolding write_candidate_set_def read_candidate_set_def
  by (intro codes_step codes_done codec_intros)
     (auto simp: CandidateSet_ok_def wf_defs intro!: codec_intros CandidateSet.equality)

lemma stable_candidate_set [stable_intros]: "stable read_candidate_set"
  unfolding read_candidate_set_def r_id_def by (intro stable_intros)

interpretation cdc_candidate_set: codec write_candidate_set read_candidate_set CandidateSet_ok
  by unfold_locales (simp_all add: codes_candidate_set stable_candidate_set)

subsection \<open>\<open>PlacementOutcome\<close>\<close>

definition write_outcome :: "PlacementOutcome \<Rightarrow> writer" where
  "write_outcome x = w_all
     [w_u64 (id_value (out_decision_id x)), w_u64 (id_value (out_attempt_id x)),
      w_u8 (OutcomeDisposition_code (out_disposition x)), w_i64 (out_start_delay_ns x),
      w_i64 (out_duration_ns x), w_i64 (out_predicted_duration_ns x),
      w_u64 (out_memory_used_bytes x), w_str (out_error x),
      w_u8 (Classification_code (out_classification x)), write_provenance (out_provenance x)]"

definition read_outcome :: "PlacementOutcome reader" where
  "read_outcome =
     rd r_u64 (\<lambda>v_decision_id. rd r_u64 (\<lambda>v_attempt_id. rd r_u8 (\<lambda>v_disposition.
     rd r_i64 (\<lambda>v_start_delay_ns. rd r_i64 (\<lambda>v_duration_ns.
     rd r_i64 (\<lambda>v_predicted_duration_ns. rd r_u64 (\<lambda>v_memory_used_bytes.
     rd r_str (\<lambda>v_error. rd r_u8 (\<lambda>v_classification.
     rd read_provenance (\<lambda>v_provenance.
     rd_return
       \<lparr>out_decision_id = Id v_decision_id, out_attempt_id = Id v_attempt_id,
        out_disposition = OutcomeDisposition_of v_disposition,
        out_start_delay_ns = v_start_delay_ns, out_duration_ns = v_duration_ns,
        out_predicted_duration_ns = v_predicted_duration_ns,
        out_memory_used_bytes = v_memory_used_bytes, out_error = v_error,
        out_classification = Classification_of v_classification, out_provenance = v_provenance\<rparr>))))))))))"

definition PlacementOutcome_ok :: "PlacementOutcome \<Rightarrow> bool" where
  "PlacementOutcome_ok x \<longleftrightarrow>
     OutcomeDisposition_wf (out_disposition x) \<and> str_ok (out_error x) \<and>
     Classification_wf (out_classification x) \<and> Provenance_ok (out_provenance x)"

lemma codes_outcome [codec_intros]: "PlacementOutcome_ok x \<Longrightarrow> codes (write_outcome x) read_outcome x"
  unfolding write_outcome_def read_outcome_def
  by (intro codes_step codes_done codec_intros)
     (auto simp: PlacementOutcome_ok_def wf_defs intro!: codec_intros PlacementOutcome.equality)

lemmas codes_outcome_opt [codec_intros] = codes_opt_ok [where ok = PlacementOutcome_ok, OF _ codes_outcome]

lemma stable_outcome [stable_intros]: "stable read_outcome"
  unfolding read_outcome_def r_id_def by (intro stable_intros)

interpretation cdc_outcome: codec write_outcome read_outcome PlacementOutcome_ok
  by unfold_locales (simp_all add: codes_outcome stable_outcome)

subsection \<open>\<open>PlacementObservation\<close>\<close>

definition write_observation :: "PlacementObservation \<Rightarrow> writer" where
  "write_observation x = w_all
     [w_u64 (id_value (obs_observation_id x)), w_u64 (obs_observation_generation x),
      w_i64 (obs_revision x), w_u64 (id_value (obs_source_id x)),
      w_u64 (obs_source_generation x), w_u8 (SourceType_code (obs_source_type x)),
      w_i64 (ts_wall (obs_timestamp x)), w_u64 (ts_mono (obs_timestamp x)),
      w_i64 (ts_uncertainty_ns (obs_timestamp x)), w_u64 (obs_worker_boot x),
      w_u64 (obs_coordinator_epoch x), w_u64 (id_value (obs_workload_id x)),
      w_u64 (id_value (obs_request_id x)), w_u64 (id_value (obs_tenant_id x)),
      w_u64 (id_value (obs_namespace_id x)), w_u64 (id_value (obs_node_id x)),
      w_u64 (id_value (obs_device_id x)), w_u64 (id_value (obs_decision_id x)),
      w_u64 (id_value (obs_attempt_id x)), w_u64 (obs_epoch x),
      w_u8 (LifecycleState_code (obs_lifecycle x)), write_vec write_measurement (obs_fields x),
      w_u8 (ReliabilityClass_code (obs_reliability x)), w_bool (obs_synthetic x)]"

definition read_observation :: "PlacementObservation reader" where
  "read_observation =
     rd r_u64 (\<lambda>v_observation_id. rd r_u64 (\<lambda>v_observation_generation.
     rd r_i64 (\<lambda>v_revision. rd r_u64 (\<lambda>v_source_id. rd r_u64 (\<lambda>v_source_generation.
     rd r_u8 (\<lambda>v_source_type. rd r_i64 (\<lambda>v_wall. rd r_u64 (\<lambda>v_mono.
     rd r_i64 (\<lambda>v_uncertainty_ns. rd r_u64 (\<lambda>v_worker_boot.
     rd r_u64 (\<lambda>v_coordinator_epoch. rd r_u64 (\<lambda>v_workload_id.
     rd r_u64 (\<lambda>v_request_id. rd r_u64 (\<lambda>v_tenant_id. rd r_u64 (\<lambda>v_namespace_id.
     rd r_u64 (\<lambda>v_node_id. rd r_u64 (\<lambda>v_device_id. rd r_u64 (\<lambda>v_decision_id.
     rd r_u64 (\<lambda>v_attempt_id. rd r_u64 (\<lambda>v_epoch. rd r_u8 (\<lambda>v_lifecycle.
     rd (read_vec read_measurement) (\<lambda>v_fields. rd r_u8 (\<lambda>v_reliability.
     rd r_bool (\<lambda>v_synthetic.
     rd_return
       \<lparr>obs_observation_id = Id v_observation_id,
        obs_observation_generation = v_observation_generation, obs_revision = v_revision,
        obs_source_id = Id v_source_id, obs_source_generation = v_source_generation,
        obs_source_type = SourceType_of v_source_type,
        obs_timestamp = \<lparr>ts_wall = v_wall, ts_mono = v_mono, ts_uncertainty_ns = v_uncertainty_ns\<rparr>,
        obs_worker_boot = v_worker_boot, obs_coordinator_epoch = v_coordinator_epoch,
        obs_workload_id = Id v_workload_id, obs_request_id = Id v_request_id,
        obs_tenant_id = Id v_tenant_id, obs_namespace_id = Id v_namespace_id,
        obs_node_id = Id v_node_id, obs_device_id = Id v_device_id,
        obs_decision_id = Id v_decision_id, obs_attempt_id = Id v_attempt_id,
        obs_epoch = v_epoch, obs_lifecycle = LifecycleState_of v_lifecycle,
        obs_fields = v_fields, obs_reliability = ReliabilityClass_of v_reliability,
        obs_synthetic = v_synthetic\<rparr>))))))))))))))))))))))))"

definition PlacementObservation_ok :: "PlacementObservation \<Rightarrow> bool" where
  "PlacementObservation_ok x \<longleftrightarrow>
     SourceType_wf (obs_source_type x) \<and> LifecycleState_wf (obs_lifecycle x) \<and>
     vec_ok Measurement_ok (obs_fields x) \<and> ReliabilityClass_wf (obs_reliability x)"

lemma codes_observation [codec_intros]: "PlacementObservation_ok x \<Longrightarrow> codes (write_observation x) read_observation x"
  unfolding write_observation_def read_observation_def
  by (intro codes_step codes_done codec_intros)
     (auto simp: PlacementObservation_ok_def wf_defs intro!: codec_intros PlacementObservation.equality Timestamp.equality)

lemma stable_observation [stable_intros]: "stable read_observation"
  unfolding read_observation_def r_id_def by (intro stable_intros)

interpretation cdc_observation: codec write_observation read_observation PlacementObservation_ok
  by unfold_locales (simp_all add: codes_observation stable_observation)

subsection \<open>\<open>PlacementDecision\<close>\<close>

definition write_decision :: "PlacementDecision \<Rightarrow> writer" where
  "write_decision x = w_all
     [w_u64 (id_value (dec_decision_id x)), w_u64 (id_value (dec_attempt_id x)),
      w_u64 (dec_placement_generation x), w_u64 (dec_observation_generation x),
      w_u64 (dec_epoch x), w_u64 (dec_policy_generation x),
      w_u64 (id_value (dec_workload_id x)), w_u64 (id_value (dec_request_id x)),
      w_u64 (id_value (dec_tenant_id x)), w_u64 (id_value (dec_namespace_id x)),
      w_u64 (id_value (dec_node_id x)), w_u64 (id_value (dec_device_id x)),
      write_candidate_set (dec_candidate_set x), w_u64 (id_value (dec_selected_candidate x)),
      write_vec w_id (dec_rejected_candidates x),
      write_vec write_constraint (dec_hard_constraints x),
      write_vec write_constraint (dec_soft_preferences x),
      write_vec write_score_component (dec_score_components x),
      write_vec write_cost_component (dec_cost_components x),
      w_u8 (TieBreakReason_code (dec_tie_break x)), w_str (dec_tie_break_reason x),
      w_str (dec_selected_reason x), write_reasons (dec_rejection_reasons x),
      write_confidence (dec_confidence x), w_u8 (Classification_code (dec_classification x)),
      w_u8 (DeterminismClass_code (dec_determinism x)), write_provenance (dec_provenance x),
      write_opt write_outcome (dec_outcome x), w_u8 (LifecycleState_code (dec_lifecycle x))]"

definition read_decision :: "PlacementDecision reader" where
  "read_decision =
     rd r_u64 (\<lambda>v_decision_id. rd r_u64 (\<lambda>v_attempt_id.
     rd r_u64 (\<lambda>v_placement_generation. rd r_u64 (\<lambda>v_observation_generation.
     rd r_u64 (\<lambda>v_epoch. rd r_u64 (\<lambda>v_policy_generation. rd r_u64 (\<lambda>v_workload_id.
     rd r_u64 (\<lambda>v_request_id. rd r_u64 (\<lambda>v_tenant_id. rd r_u64 (\<lambda>v_namespace_id.
     rd r_u64 (\<lambda>v_node_id. rd r_u64 (\<lambda>v_device_id.
     rd read_candidate_set (\<lambda>v_candidate_set. rd r_u64 (\<lambda>v_selected_candidate.
     rd (read_vec r_id) (\<lambda>v_rejected_candidates.
     rd (read_vec read_constraint) (\<lambda>v_hard_constraints.
     rd (read_vec read_constraint) (\<lambda>v_soft_preferences.
     rd (read_vec read_score_component) (\<lambda>v_score_components.
     rd (read_vec read_cost_component) (\<lambda>v_cost_components. rd r_u8 (\<lambda>v_tie_break.
     rd r_str (\<lambda>v_tie_break_reason. rd r_str (\<lambda>v_selected_reason.
     rd read_reasons (\<lambda>v_rejection_reasons. rd read_confidence (\<lambda>v_confidence.
     rd r_u8 (\<lambda>v_classification. rd r_u8 (\<lambda>v_determinism.
     rd read_provenance (\<lambda>v_provenance. rd (read_opt read_outcome) (\<lambda>v_outcome.
     rd r_u8 (\<lambda>v_lifecycle.
     rd_return
       \<lparr>dec_decision_id = Id v_decision_id, dec_attempt_id = Id v_attempt_id,
        dec_placement_generation = v_placement_generation,
        dec_observation_generation = v_observation_generation, dec_epoch = v_epoch,
        dec_policy_generation = v_policy_generation, dec_workload_id = Id v_workload_id,
        dec_request_id = Id v_request_id, dec_tenant_id = Id v_tenant_id,
        dec_namespace_id = Id v_namespace_id, dec_node_id = Id v_node_id,
        dec_device_id = Id v_device_id, dec_candidate_set = v_candidate_set,
        dec_selected_candidate = Id v_selected_candidate,
        dec_rejected_candidates = v_rejected_candidates,
        dec_hard_constraints = v_hard_constraints, dec_soft_preferences = v_soft_preferences,
        dec_score_components = v_score_components, dec_cost_components = v_cost_components,
        dec_tie_break = TieBreakReason_of v_tie_break,
        dec_tie_break_reason = v_tie_break_reason, dec_selected_reason = v_selected_reason,
        dec_rejection_reasons = v_rejection_reasons, dec_confidence = v_confidence,
        dec_classification = Classification_of v_classification,
        dec_determinism = DeterminismClass_of v_determinism, dec_provenance = v_provenance,
        dec_outcome = v_outcome, dec_lifecycle = LifecycleState_of v_lifecycle\<rparr>)))))))))))))))))))))))))))))"

definition PlacementDecision_ok :: "PlacementDecision \<Rightarrow> bool" where
  "PlacementDecision_ok x \<longleftrightarrow>
     CandidateSet_ok (dec_candidate_set x) \<and>
     length (dec_rejected_candidates x) < 2 ^ 32 \<and>
     vec_ok PlacementConstraint_ok (dec_hard_constraints x) \<and>
     vec_ok PlacementConstraint_ok (dec_soft_preferences x) \<and>
     vec_ok PlacementScoreComponent_ok (dec_score_components x) \<and>
     vec_ok PlacementCostComponent_ok (dec_cost_components x) \<and>
     TieBreakReason_wf (dec_tie_break x) \<and> str_ok (dec_tie_break_reason x) \<and>
     str_ok (dec_selected_reason x) \<and> reasons_ok (dec_rejection_reasons x) \<and>
     Confidence_ok (dec_confidence x) \<and> Classification_wf (dec_classification x) \<and>
     DeterminismClass_wf (dec_determinism x) \<and> Provenance_ok (dec_provenance x) \<and>
     pred_option PlacementOutcome_ok (dec_outcome x) \<and> LifecycleState_wf (dec_lifecycle x)"

lemma codes_decision [codec_intros]: "PlacementDecision_ok x \<Longrightarrow> codes (write_decision x) read_decision x"
  unfolding write_decision_def read_decision_def
  by (intro codes_step codes_done codec_intros)
     (auto simp: PlacementDecision_ok_def wf_defs intro!: codec_intros PlacementDecision.equality)

lemma stable_decision [stable_intros]: "stable read_decision"
  unfolding read_decision_def r_id_def by (intro stable_intros)

interpretation cdc_decision: codec write_decision read_decision PlacementDecision_ok
  by unfold_locales (simp_all add: codes_decision stable_decision)

section \<open>Properties of the codecs\<close>

lemmas default_wf =
  Classification_of_def SourceType_of_def CollectionMethod_of_def ReliabilityClass_of_def
  ConfidenceClass_of_def LifecycleState_of_def TieBreakReason_of_def DeterminismClass_of_def enum_of_def
  Classification_all_def SourceType_all_def CollectionMethod_all_def ReliabilityClass_all_def
  ConfidenceClass_all_def LifecycleState_all_def TieBreakReason_all_def DeterminismClass_all_def
  str_ok_def max_string_def vec_ok_def reasons_ok_def smap_ok_def

lemma Provenance_default_ok: "Provenance_ok Provenance_default"
  by (simp add: Provenance_ok_def Provenance_default_def wf_defs default_wf)

lemma PlacementObservation_default_ok: "PlacementObservation_ok PlacementObservation_default"
  by (simp add: PlacementObservation_ok_def PlacementObservation_default_def wf_defs default_wf)

lemma PlacementDecision_default_ok: "PlacementDecision_ok PlacementDecision_default"
  by (simp add: PlacementDecision_ok_def PlacementDecision_default_def CandidateSet_ok_def
      CandidateSet_default_def Confidence_ok_def Confidence_default_def Provenance_default_ok wf_defs default_wf)

text \<open>A decision with a few members set, to try the properties on.\<close>

definition sample_decision :: PlacementDecision where
  "sample_decision = PlacementDecision_default
     \<lparr>dec_decision_id := Id 7, dec_rejected_candidates := [Id 2, Id 3],
      dec_rejection_reasons := [(Id 2, ''busy''), (Id 3, ''no memory'')], dec_selected_reason := ''lowest cost''\<rparr>"

lemma sample_decision_ok: "PlacementDecision_ok sample_decision"
  using PlacementDecision_default_ok
  by (simp add: PlacementDecision_ok_def sample_decision_def default_wf less_Id_def word_less_nat_alt)

lemma read_decision_empty: "run_reader read_decision [] = Inl (SerializationError Truncated ''binary truncated'')"
  by (simp add: run_reader_def read_decision_def rd_def r_u64_def r_take_def)

lemma written_decision_nonempty: "PlacementDecision_ok d \<Longrightarrow> write_decision d [] = Inr bs \<Longrightarrow> bs \<noteq> []"
  using cdc_decision.read_back [of d bs "[]"] read_decision_empty by auto

text \<open>C16. A serialisable decision is written without error and read back equal, whatever follows it,
  with the reader left right behind it.\<close>

theorem decision_roundtrip:
  "PlacementDecision_ok d \<Longrightarrow>
   \<exists>bs. write_decision d [] = Inr bs \<and>
     run_reader read_decision (bs @ rest) = Inr (d, \<lparr>br_data = bs @ rest, br_pos = length bs\<rparr>)"
  by (metis cdc_decision.written)

lemma decision_roundtrip_witness:
  "\<exists>bs. write_decision sample_decision [] = Inr bs \<and>
     run_reader read_decision (bs @ [1, 2]) = Inr (sample_decision, \<lparr>br_data = bs @ [1, 2], br_pos = length bs\<rparr>)"
  by (rule decision_roundtrip [OF sample_decision_ok])

text \<open>A serialised decision cut anywhere is refused as truncated; it is never read as another decision.\<close>

theorem truncated_decision_rejected:
  "PlacementDecision_ok d \<Longrightarrow> write_decision d [] = Inr bs \<Longrightarrow> n < length bs \<Longrightarrow>
   \<exists>m. run_reader read_decision (take n bs) = Inl (SerializationError Truncated m)"
  by (rule cdc_decision.truncated_rejected)

lemma truncated_decision_rejected_witness:
  "\<exists>bs m. write_decision sample_decision [] = Inr bs \<and> bs \<noteq> [] \<and>
     run_reader read_decision (butlast bs) = Inl (SerializationError Truncated m)"
proof -
  obtain bs where w: "write_decision sample_decision [] = Inr bs"
    using cdc_decision.written [OF sample_decision_ok] by metis
  then have ne: "bs \<noteq> []" by (rule written_decision_nonempty [OF sample_decision_ok])
  with truncated_decision_rejected [OF sample_decision_ok w, of "length bs - 1"] w show ?thesis
    by (auto simp: butlast_conv_take)
qed

text \<open>Serialised decisions are uniquely decodable: two streams that agree start with the same decision.\<close>

theorem decision_bytes_unambiguous:
  "PlacementDecision_ok d \<Longrightarrow> PlacementDecision_ok e \<Longrightarrow> write_decision d [] = Inr bs \<Longrightarrow>
   write_decision e [] = Inr cs \<Longrightarrow> bs @ s = cs @ t \<Longrightarrow> d = e \<and> s = t"
  using cdc_decision.unambiguous by blast

lemma decision_bytes_unambiguous_witness:
  "\<exists>bs cs. write_decision sample_decision [] = Inr bs \<and> write_decision PlacementDecision_default [] = Inr cs \<and>
     bs @ [0] \<noteq> cs @ [0]"
proof -
  obtain bs cs where w: "write_decision sample_decision [] = Inr bs" "write_decision PlacementDecision_default [] = Inr cs"
    using cdc_decision.written [OF sample_decision_ok] cdc_decision.written [OF PlacementDecision_default_ok] by metis
  from decision_bytes_unambiguous [OF sample_decision_ok PlacementDecision_default_ok w, of "[0]" "[0]"] w show ?thesis
    by (auto simp: sample_decision_def PlacementDecision_default_def)
qed

text \<open>A serialisable observation is written without error and read back equal, whatever follows it.\<close>

theorem observation_roundtrip:
  "PlacementObservation_ok x \<Longrightarrow>
   \<exists>bs. write_observation x [] = Inr bs \<and>
     run_reader read_observation (bs @ rest) = Inr (x, \<lparr>br_data = bs @ rest, br_pos = length bs\<rparr>)"
  by (metis cdc_observation.written)

lemma observation_roundtrip_witness:
  "\<exists>bs. write_observation (PlacementObservation_default\<lparr>obs_epoch := 5\<rparr>) [] = Inr bs \<and>
     run_reader read_observation (bs @ []) =
       Inr (PlacementObservation_default\<lparr>obs_epoch := 5\<rparr>, \<lparr>br_data = bs @ [], br_pos = length bs\<rparr>)"
proof (rule observation_roundtrip)
  show "PlacementObservation_ok (PlacementObservation_default\<lparr>obs_epoch := 5\<rparr>)"
    using PlacementObservation_default_ok by (simp add: PlacementObservation_ok_def)
qed

text \<open>The format has no place for the clock uncertainty of a provenance.\<close>

lemma write_provenance_ignores: "write_provenance (p\<lparr>prov_uncertainty_ns := u\<rparr>) = write_provenance p"
  by (simp add: write_provenance_def)

text \<open>The binary round trip of a provenance loses its \<open>uncertainty_ns\<close>: what is read back has 0 there.\<close>

theorem provenance_uncertainty_lost:
  "Provenance_ok (p\<lparr>prov_uncertainty_ns := 0\<rparr>) \<Longrightarrow>
   \<exists>bs. write_provenance p [] = Inr bs \<and>
     run_reader read_provenance (bs @ rest) =
       Inr (p\<lparr>prov_uncertainty_ns := 0\<rparr>, \<lparr>br_data = bs @ rest, br_pos = length bs\<rparr>)"
  using cdc_provenance.written [of "p\<lparr>prov_uncertainty_ns := 0\<rparr>"] write_provenance_ignores [where p = p and u = 0]
  by metis

lemma provenance_uncertainty_lost_witness:
  "\<exists>bs. write_provenance (Provenance_default\<lparr>prov_uncertainty_ns := 9\<rparr>) [] = Inr bs \<and>
     run_reader read_provenance (bs @ []) = Inr (Provenance_default, \<lparr>br_data = bs @ [], br_pos = length bs\<rparr>)"
proof -
  have d: "Provenance_default\<lparr>prov_uncertainty_ns := 9\<rparr>\<lparr>prov_uncertainty_ns := 0\<rparr> = Provenance_default"
    by (simp add: Provenance_default_def)
  show ?thesis
    using provenance_uncertainty_lost [of "Provenance_default\<lparr>prov_uncertainty_ns := 9\<rparr>" "[]"] Provenance_default_ok
    unfolding d by blast
qed

end
