(* ===== verification/Records.thy ===== *)
theory Records
  imports Bin_Codec Sha256
begin

text \<open>
  The record envelope of \<open>serialize.cpp\<close> (\<open>encode_record\<close>, \<open>decode_record\<close>): magic, version, kind,
  body length, body and the SHA-256 digest of all of it. The decoder has two modes: the strict one
  owns the whole buffer, the streaming one (a non-null \<open>consumed\<close>) reads one record off the front.
\<close>

datatype RecordKind =
    ObservationRecord | DecisionRecord | OutcomeRecord | SourceDescriptorRecord | SnapshotRecord
  | ReplayBundleRecord | ComparisonBundleRecord | EpochRecord | OtherRecord byte

primrec RecordKind_code :: "RecordKind \<Rightarrow> byte" where
  "RecordKind_code ObservationRecord = 1"
| "RecordKind_code DecisionRecord = 2"
| "RecordKind_code OutcomeRecord = 3"
| "RecordKind_code SourceDescriptorRecord = 4"
| "RecordKind_code SnapshotRecord = 5"
| "RecordKind_code ReplayBundleRecord = 6"
| "RecordKind_code ComparisonBundleRecord = 7"
| "RecordKind_code EpochRecord = 8"
| "RecordKind_code (OtherRecord b) = b"

definition RecordKind_all :: "RecordKind list" where
  "RecordKind_all = [ObservationRecord, DecisionRecord, OutcomeRecord, SourceDescriptorRecord,
     SnapshotRecord, ReplayBundleRecord, ComparisonBundleRecord, EpochRecord]"

definition RecordKind_of :: "byte \<Rightarrow> RecordKind" where
  "RecordKind_of b = enum_of RecordKind_all RecordKind_code OtherRecord b"

interpretation en_RecordKind: u8_enum RecordKind_all RecordKind_code OtherRecord
  by unfold_locales (simp_all add: RecordKind_all_def)

definition kRecordMagic :: u32 where "kRecordMagic = 0x504D4252"
definition kRecordVersion :: u32 where "kRecordVersion = 1"
definition kMaxBody :: u64 where "kMaxBody = 64 * 1024 * 1024"

definition record_prefix :: "RecordKind \<Rightarrow> bytes \<Rightarrow> u32 \<Rightarrow> writer" where
  "record_prefix kind body version =
     w_all [w_u32 kRecordMagic, w_u32 version, w_u8 (RecordKind_code kind),
            w_u64 (of_nat (length body)), w_raw body]"

definition encode_record :: "RecordKind \<Rightarrow> bytes \<Rightarrow> u32 \<Rightarrow> SerializationError + bytes" where
  "encode_record kind body version =
     (case record_prefix kind body version [] of
        Inl e \<Rightarrow> Inl e
      | Inr prefix \<Rightarrow> w_all [w_raw prefix, w_raw (sha256_digest prefix)] [])"

text \<open>The part of \<open>decode_record\<close> that reads the header, with its checks: kind and body length.\<close>

definition record_header :: "u32 \<Rightarrow> (byte \<times> u64) reader" where
  "record_header expected_version =
     rd r_u32 (\<lambda>magic.
       if magic \<noteq> kRecordMagic then rd_fail Corrupt ''bad record magic''
       else rd r_u32 (\<lambda>ver.
         if ver \<noteq> expected_version then rd_fail UnknownVersion ''unknown record version''
         else rd r_u8 (\<lambda>k.
           if k < 1 \<or> k > 8 then rd_fail Corrupt ''unknown record kind''
           else rd r_u64 (\<lambda>body_len.
             if body_len > kMaxBody then rd_fail Corrupt ''record body beyond cap''
             else rd_return (k, body_len)))))"

definition decode_record ::
    "bytes \<Rightarrow> u32 \<Rightarrow> bool \<Rightarrow> SerializationError + RecordKind \<times> bytes \<times> nat" where
  "decode_record data expected_version streaming =
     (case run_reader (record_header expected_version) data of
        Inl e \<Rightarrow> Inl e
      | Inr ((k, body_len), r) \<Rightarrow>
          if br_remaining r < unat body_len + 32
          then Inl (SerializationError Truncated ''record truncated'')
          else let header_len = 17; total = header_len + unat body_len + 32 in
            if \<not> streaming \<and> length data \<noteq> total
            then Inl (SerializationError TrailingData ''trailing data after record'')
            else if sha256_digest (take (header_len + unat body_len) data) \<noteq>
                    take 32 (drop (header_len + unat body_len) data)
            then Inl (SerializationError Corrupt ''record checksum mismatch'')
            else Inr (RecordKind_of k, take (unat body_len) (drop header_len data), total))"

section \<open>Layout\<close>

definition header_bytes :: "byte \<Rightarrow> u64 \<Rightarrow> u32 \<Rightarrow> bytes" where
  "header_bytes k len version = le_bytes 4 kRecordMagic @ le_bytes 4 version @ [k] @ le_bytes 8 len"

lemma length_header_bytes [simp]: "length (header_bytes k len v) = 17"
  by (simp add: header_bytes_def)

definition signed_record :: "bytes \<Rightarrow> bytes" where
  "signed_record p = p @ sha256_digest p"

lemma encode_record_layout:
  "encode_record kind body version =
     Inr (signed_record (header_bytes (RecordKind_code kind) (of_nat (length body)) version @ body))"
  by (simp add: encode_record_def record_prefix_def signed_record_def header_bytes_def w_all.simps
      w_u32_def w_u8_def w_u64_def w_raw_def)

lemma header_codes:
  assumes "\<not> (k < 1 \<or> k > 8)" "\<not> len > kMaxBody"
  shows "parses (record_header v) (header_bytes k len v) (k, len) \<and>
         starves (record_header v) (header_bytes k len v)"
proof -
  have "codes (w_all [w_u32 kRecordMagic, w_u32 v, w_u8 k, w_u64 len]) (record_header v) (k, len)"
    unfolding record_header_def
    apply (rule codes_step [OF codes_u32], simp only: simp_thms if_False)
    apply (rule codes_step [OF codes_u32], simp only: simp_thms if_False)
    apply (rule codes_step [OF codes_u8], simp only: assms if_False)
    apply (rule codes_step [OF codes_u64], simp only: assms if_False)
    apply (rule codes_done, rule refl)
    done
  then obtain bs where e: "emits (w_all [w_u32 kRecordMagic, w_u32 v, w_u8 k, w_u64 len]) bs"
    and p: "parses (record_header v) bs (k, len)" "starves (record_header v) bs" by (auto simp: codes_def)
  from e have "bs = header_bytes k len v"
    by (simp add: emits_def header_bytes_def w_all.simps w_u32_def w_u8_def w_u64_def)
  with p show ?thesis by simp
qed

lemma header_read:
  assumes "\<not> (k < 1 \<or> k > 8)" "\<not> len > kMaxBody"
  shows "run_reader (record_header v) (header_bytes k len v @ rest) =
    Inr ((k, len), \<lparr>br_data = header_bytes k len v @ rest, br_pos = 17\<rparr>)"
  using header_codes [OF assms, of v, THEN conjunct1, unfolded parses_def, rule_format, of "[]"]
  by (simp add: run_reader_def)

lemma rd_Inr: "rd r f s = Inr y \<longleftrightarrow> (\<exists>a s'. r s = Inr (a, s') \<and> f a s' = Inr y)"
  by (auto simp: rd_def split: sum.splits)

lemma r_take_Inr:
  "r_take n s = Inr (bs, s') \<longleftrightarrow>
     br_pos s + n \<le> length (br_data s) \<and> bs = take n (drop (br_pos s) (br_data s)) \<and>
     s' = s\<lparr>br_pos := br_pos s + n\<rparr>"
  by (auto simp: r_take_def)

lemma header_read_dest:
  assumes "run_reader (record_header v) data = Inr ((k, len), r)"
  shows "take 17 data = header_bytes k len v" "17 \<le> length data" "br_pos r = 17" "br_data r = data"
    "\<not> (k < 1 \<or> k > 8)" "\<not> len > kMaxBody"
proof -
  from assms have *: "17 \<le> length data \<and> le_word (take 4 data) = kRecordMagic \<and> le_word (take 4 (drop 4 data)) = v
      \<and> k = data ! 8 \<and> len = le_word (take 8 (drop 9 data)) \<and> br_pos r = 17 \<and> br_data r = data
      \<and> \<not> (k < 1 \<or> k > 8) \<and> \<not> len > kMaxBody"
    by (auto simp: run_reader_def record_header_def rd_Inr r_u32_def r_u8_def r_u64_def r_take_Inr
        rd_return_def rd_fail_def split: if_splits)
  then show "17 \<le> length data" "br_pos r = 17" "br_data r = data" "\<not> (k < 1 \<or> k > 8)" "\<not> len > kMaxBody"
    by auto
  have b: "le_bytes 4 kRecordMagic = take 4 data" "le_bytes 4 v = take 4 (drop 4 data)"
      "le_bytes 8 len = take 8 (drop 9 data)"
    using * le_bytes_word [of "take 4 data", where ?'a = 32]
      le_bytes_word [of "take 4 (drop 4 data)", where ?'a = 32]
      le_bytes_word [of "take 8 (drop 9 data)", where ?'a = 64] by auto
  have "take 17 data = take 4 data @ take 4 (drop 4 data) @ take 1 (drop 8 data) @ take 8 (drop 9 data)"
    using take_add [of 4 13 data] take_add [of 4 9 "drop 4 data"] take_add [of 1 8 "drop 8 data"] by simp
  moreover have "take 1 (drop 8 data) = [data ! 8]"
    using * by (simp add: take_Suc hd_drop_conv_nth)
  ultimately show "take 17 data = header_bytes k len v" using * b by (simp add: header_bytes_def)
qed


lemma RecordKind_code_range: "kind \<in> set RecordKind_all \<Longrightarrow> \<not> (RecordKind_code kind < 1 \<or> RecordKind_code kind > 8)"
  by (auto simp: RecordKind_all_def)

lemma RecordKind_of_code: "kind \<in> set RecordKind_all \<Longrightarrow> RecordKind_of (RecordKind_code kind) = kind"
  unfolding RecordKind_of_def by (rule en_RecordKind.of_code_named)

lemma RecordKind_code_of: "RecordKind_code (RecordKind_of b) = b"
  unfolding RecordKind_of_def by (rule en_RecordKind.code_of)

lemma RecordKind_of_named: "\<not> (b < 1 \<or> b > 8) \<Longrightarrow> RecordKind_of b \<in> set RecordKind_all"
proof -
  assume "\<not> (b < 1 \<or> b > 8)"
  then have "unat b \<in> set [1..<9]" by (auto simp: word_le_nat_alt word_less_nat_alt not_less)
  also have "set [1..<9] = {1, 2, 3, 4, 5, 6, 7, 8 :: nat}" by (auto simp: upt_rec)
  also have "unat b \<in> \<dots> \<longleftrightarrow> b \<in> {1, 2, 3, 4, 5, 6, 7, 8}"
    by (simp add: word_unat_eq_iff)
  finally have "b \<in> RecordKind_code ` set RecordKind_all" by (simp add: RecordKind_all_def)
  then show ?thesis using RecordKind_of_code by auto
qed

lemma body_len_cap:
  "length body \<le> unat kMaxBody \<Longrightarrow> unat (of_nat (length body) :: u64) = length body"
  "length body \<le> unat kMaxBody \<Longrightarrow> \<not> of_nat (length body) > kMaxBody"
  by (simp_all add: kMaxBody_def unsigned_of_nat take_bit_nat_eq_self word_less_nat_alt)

lemma decode_encoded:
  assumes "length body \<le> unat kMaxBody" "kind \<in> set RecordKind_all" "encode_record kind body v = Inr bs"
  shows "decode_record (bs @ rest) v streaming =
    (if \<not> streaming \<and> rest \<noteq> [] then Inl (SerializationError TrailingData ''trailing data after record'')
     else Inr (kind, body, length bs))"
proof -
  let ?p = "header_bytes (RecordKind_code kind) (of_nat (length body)) v"
  from assms(3) have bs: "bs = signed_record (?p @ body)" by (simp add: encode_record_layout)
  note hdr = header_read [OF RecordKind_code_range [OF assms(2)] body_len_cap(2) [OF assms(1)],
      of v "body @ sha256_digest (?p @ body) @ rest"]
  show ?thesis
    using hdr assms body_len_cap(1) [OF assms(1)]
    by (simp add: bs signed_record_def decode_record_def br_remaining_def Let_def RecordKind_of_code)
qed

lemma decode_record_dest:
  assumes "decode_record data v streaming = Inr (kind, body, n)"
  shows "n \<le> length data" "encode_record kind body v = Inr (take n data)" "length body \<le> unat kMaxBody"
    "kind \<in> set RecordKind_all" "streaming \<or> n = length data"
proof -
  from assms obtain k len r where h: "run_reader (record_header v) data = Inr ((k, len), r)"
    and rem: "\<not> br_remaining r < unat len + 32" and tot: "n = 17 + unat len + 32"
    and strict: "streaming \<or> length data = 17 + unat len + 32"
    and dg: "sha256_digest (take (17 + unat len) data) = take 32 (drop (17 + unat len) data)"
    and kind: "kind = RecordKind_of k" and body: "body = take (unat len) (drop 17 data)"
    by (auto simp: decode_record_def Let_def split: sum.splits if_splits)
  note hd = header_read_dest [OF h]
  from rem hd have len: "17 + unat len + 32 \<le> length data" by (simp add: br_remaining_def)
  have lb: "length body = unat len" using body len by simp
  have pre: "take (17 + unat len) data = header_bytes k len v @ body"
    using hd(1) body by (simp add: take_add)
  have "take n data = take (17 + unat len) data @ take 32 (drop (17 + unat len) data)"
    by (simp only: tot take_add)
  also have "\<dots> = signed_record (header_bytes k len v @ body)"
    using dg pre by (simp add: signed_record_def)
  finally show "encode_record kind body v = Inr (take n data)"
    by (simp add: encode_record_layout kind RecordKind_code_of lb)
  show "n \<le> length data" using len tot by simp
  show "length body \<le> unat kMaxBody" using lb hd(6) by (simp add: not_less word_le_nat_alt)
  show "kind \<in> set RecordKind_all" using kind hd(5) by (simp add: RecordKind_of_named)
  show "streaming \<or> n = length data" using strict tot by auto
qed

text \<open>Every proper prefix of a record is reported as truncated, in both modes.\<close>

lemma truncated_record:
  assumes "length body \<le> unat kMaxBody" "kind \<in> set RecordKind_all" "encode_record kind body v = Inr bs"
    "n < length bs"
  shows "\<exists>m. decode_record (take n bs) v streaming = Inl (SerializationError Truncated m)"
proof -
  let ?h = "header_bytes (RecordKind_code kind) (of_nat (length body)) v"
  from assms(3) have bs: "bs = ?h @ body @ sha256_digest (?h @ body)"
    by (simp add: encode_record_layout signed_record_def)
  note ok = RecordKind_code_range [OF assms(2)] body_len_cap(2) [OF assms(1)]
  show ?thesis
  proof (cases "n < 17")
    case True
    with header_codes [OF ok, of v, THEN conjunct2, unfolded starves_def, rule_format, of n "[]"]
    obtain m where "run_reader (record_header v) (take n bs) = Inl (SerializationError Truncated m)"
      by (auto simp: run_reader_def bs)
    then show ?thesis by (simp add: decode_record_def)
  next
    case False
    then obtain t where t: "take n bs = ?h @ t" "length t < length body + 32"
      using assms(4) by (intro that [of "take (n - 17) (body @ sha256_digest (?h @ body))"]) (auto simp: bs)
    then show ?thesis
      using header_read [OF ok, of v t] body_len_cap(1) [OF assms(1)]
      by (simp add: decode_record_def br_remaining_def)
  qed
qed

text \<open>A body beyond the cap is written without complaint; no reader accepts the record.\<close>

lemma oversized_record:
  assumes "unat kMaxBody < length body" "length body < 2 ^ 64" "kind \<in> set RecordKind_all"
    "encode_record kind body v = Inr bs"
  shows "decode_record (bs @ rest) v streaming = Inl (SerializationError Corrupt ''record body beyond cap'')"
proof -
  let ?len = "of_nat (length body) :: u64"
  let ?h = "header_bytes (RecordKind_code kind) ?len v"
  let ?k = "RecordKind_code kind"
  have big: "?len > kMaxBody"
    using assms(1,2) by (simp add: word_less_nat_alt unsigned_of_nat take_bit_nat_eq_self)
  from assms(4) have bs: "bs = ?h @ body @ sha256_digest (?h @ body)"
    by (simp add: encode_record_layout signed_record_def)
  have "run_reader (record_header v) (?h @ t) = Inl (SerializationError Corrupt ''record body beyond cap'')" for t
    using big RecordKind_code_range [OF assms(3)]
    by (simp add: run_reader_def record_header_def header_bytes_def rd_def r_u32_def r_u8_def r_u64_def r_take_def
        rd_return_def rd_fail_def le_word_bytes take_bit_word_eq_self)
  then show ?thesis by (simp add: decode_record_def bs)
qed


section \<open>Properties of the envelope\<close>

text \<open>C29. The strict decoder accepts a buffer exactly when it is, byte for byte, the record the encoder
  writes for a body within the cap; it returns that kind and body.\<close>

theorem strict_record_iff_encoded:
  "decode_record data v False = Inr (kind, body, n) \<longleftrightarrow>
   encode_record kind body v = Inr data \<and> length body \<le> unat kMaxBody \<and> kind \<in> set RecordKind_all \<and>
   n = length data"
  using decode_record_dest [of data v False kind body n] decode_encoded [of body kind v data "[]" False]
  by auto

text \<open>In a log, the streaming decoder takes exactly the first record, whatever follows it.\<close>

theorem streamed_record_is_first:
  "length body \<le> unat kMaxBody \<Longrightarrow> kind \<in> set RecordKind_all \<Longrightarrow> encode_record kind body v = Inr bs \<Longrightarrow>
   decode_record (bs @ rest) v True = Inr (kind, body, length bs)"
  by (simp add: decode_encoded)

lemma streamed_record_is_first_witness:
  "\<exists>bs. encode_record EpochRecord [1, 2, 3] 1 = Inr bs \<and>
     decode_record (bs @ [80, 77]) 1 True = Inr (EpochRecord, [1, 2, 3], length bs)"
  by (intro exI conjI, rule encode_record_layout, rule streamed_record_is_first)
     (simp_all add: encode_record_layout kMaxBody_def RecordKind_all_def)

text \<open>A record cut anywhere is reported as truncated.\<close>

theorem truncated_record_rejected:
  "length body \<le> unat kMaxBody \<Longrightarrow> kind \<in> set RecordKind_all \<Longrightarrow> encode_record kind body v = Inr bs \<Longrightarrow>
   n < length bs \<Longrightarrow> \<exists>m. decode_record (take n bs) v streaming = Inl (SerializationError Truncated m)"
  by (rule truncated_record)

lemma truncated_record_rejected_witness:
  "\<exists>bs m. encode_record EpochRecord [1, 2, 3] 1 = Inr bs \<and> length bs = 52 \<and>
     decode_record (take 51 bs) 1 True = Inl (SerializationError Truncated m)"
proof -
  obtain bs where e: "encode_record EpochRecord [1, 2, 3] 1 = Inr bs" and len: "length bs = 52"
    by (simp add: encode_record_layout signed_record_def)
  have "\<exists>m. decode_record (take 51 bs) 1 True = Inl (SerializationError Truncated m)"
    by (rule truncated_record_rejected [OF _ _ e]) (simp_all add: kMaxBody_def RecordKind_all_def len)
  with e len show ?thesis by blast
qed

text \<open>The encoder does not enforce the decoder's cap: a body longer than 64 MiB is encoded without an
  error into a record that both decoding modes refuse.\<close>

theorem oversized_record_unreadable:
  "unat kMaxBody < length body \<Longrightarrow> length body < 2 ^ 64 \<Longrightarrow> kind \<in> set RecordKind_all \<Longrightarrow>
   \<exists>bs. encode_record kind body v = Inr bs \<and>
     decode_record (bs @ rest) v streaming = Inl (SerializationError Corrupt ''record body beyond cap'')"
  using oversized_record [of body kind v] encode_record_layout by blast

lemma oversized_record_unreadable_witness:
  "\<exists>bs. encode_record DecisionRecord (replicate 67108865 0) 1 = Inr bs \<and>
     decode_record (bs @ []) 1 True = Inl (SerializationError Corrupt ''record body beyond cap'')"
  by (rule oversized_record_unreadable) (simp_all add: kMaxBody_def RecordKind_all_def)

end
