(* ===== verification/Ranking.thy ===== *)
theory Ranking
  imports Model "HOL-Library.Product_Lexorder"
begin

text \<open>
  The first half of \<open>src/compute.cpp\<close>: hard-constraint evaluation, weighted cost and the
  deterministic ranking \<open>rank_candidates\<close>. The exception of a throwing accessor is the \<open>Inl\<close> case.
  The later sections show what the ranking is: on candidates whose costs are numbers the comparator
  is the lexicographic order of \<open>rank_key\<close>, so \<open>std::stable_sort\<close> returns the list sorted by it.
\<close>

text \<open>\<open>digest_format()\<close>.\<close>

definition digest_format :: string where
  "digest_format = ''Placement-Observatory/1 canonical-json SHA-256''"

section \<open>Constraints and costs\<close>

record Eval =
  ev_violation :: bool
  ev_reason :: string

definition ev_ok :: Eval where
  "ev_ok = \<lparr>ev_violation = False, ev_reason = ''''\<rparr>"

text \<open>\<open>if (cond) { out.violation = true; out.reason = msg; }\<close>\<close>

definition ev_when :: "bool \<Rightarrow> string \<Rightarrow> Eval" where
  "ev_when cond msg = (if cond then \<lparr>ev_violation = True, ev_reason = msg\<rparr> else ev_ok)"

definition is_num :: "Value \<Rightarrow> bool" where
  "is_num v \<longleftrightarrow> value_kind v = KInt \<or> value_kind v = KUInt \<or> value_kind v = KDouble"

definition with_uint :: "Value \<Rightarrow> (u64 \<Rightarrow> Eval) \<Rightarrow> fault + Eval" where
  "with_uint v f = (case value_as_uint v of Inl e \<Rightarrow> Inl e | Inr u \<Rightarrow> Inr (f u))"

definition with_string :: "Value \<Rightarrow> (string \<Rightarrow> Eval) \<Rightarrow> fault + Eval" where
  "with_string v f = (case value_as_string v of Inl e \<Rightarrow> Inl e | Inr s \<Rightarrow> Inr (f s))"

definition not_evaluable :: string where
  "not_evaluable = ''not-evaluable:''"

definition eval_constraint :: "PlacementCandidate \<Rightarrow> PlacementConstraint \<Rightarrow> fault + Eval" where
  "eval_constraint c hc =
     (let f = con_field hc; v = con_value hc in
      if f = ''memory.total_bytes'' \<and> is_num v then
        with_uint v (\<lambda>u. ev_when (mem_total_bytes (cand_memory c) < u) ''insufficient total memory'')
      else if f = ''memory.free_bytes'' \<and> is_num v then
        with_uint v (\<lambda>u. ev_when (mem_free_bytes (cand_memory c) < u) ''insufficient free memory headroom'')
      else if f = ''queue.depth'' \<and> is_num v then
        with_uint v (\<lambda>u. ev_when (ucast (queue_depth (cand_queue c)) > u) ''queue depth exceeds hard cap'')
      else if f = ''device.architecture'' \<and> value_kind v = KString then
        with_string v (\<lambda>s. ev_when (cand_architecture c \<noteq> s) ''architecture mismatch'')
      else if f = ''capability'' \<and> value_kind v = KString then
        with_string v (\<lambda>cap. ev_when (cap \<notin> set (cand_capabilities c)) (''missing capability: '' @ cap))
      else if f = ''device.health'' \<or> f = ''health'' then
        Inr (ev_when (cand_health c \<noteq> HealthState.Healthy \<and> cand_health c \<noteq> HealthState.Degraded)
               ''device not healthy'')
      else Inr \<lparr>ev_violation = False, ev_reason = not_evaluable @ f\<rparr>)"

definition weighted_total :: "PlacementCandidate \<Rightarrow> f64" where
  "weighted_total c =
     foldl (\<lambda>s cost. f64_add s (f64_mul (cost_cost cost) (cost_policy_weight cost))) f64_zero (cand_costs c)"

definition cost_signature :: "PlacementCandidate \<Rightarrow> f64 list" where
  "cost_signature c =
     map (\<lambda>cost. if cost_kind cost = CostComponentKind.StateLocalityBenefit then f64_neg (cost_cost cost)
                 else cost_cost cost) (cand_costs c)"

text \<open>\<open>operator==\<close> and \<open>operator<\<close> of \<open>std::vector<double>\<close>; the latter stops at the first pair that is
  not equal, and is false there when the pair is unordered.\<close>

fun vec_eq :: "f64 list \<Rightarrow> f64 list \<Rightarrow> bool" where
  "vec_eq [] [] = True"
| "vec_eq (x # xs) (y # ys) = (f64_eq x y \<and> vec_eq xs ys)"
| "vec_eq _ _ = False"

fun vec_less :: "f64 list \<Rightarrow> f64 list \<Rightarrow> bool" where
  "vec_less [] [] = False"
| "vec_less [] (y # ys) = True"
| "vec_less (x # xs) [] = False"
| "vec_less (x # xs) (y # ys) = (if f64_eq x y then vec_less xs ys else f64_lt x y)"

definition cost_less :: "PlacementCandidate \<Rightarrow> PlacementCandidate \<Rightarrow> bool" where
  "cost_less a b =
     (let ta = weighted_total a; tb = weighted_total b in
      if \<not> f64_eq ta tb then f64_lt ta tb
      else let sa = cost_signature a; sb = cost_signature b in
        if \<not> vec_eq sa sb then vec_less sa sb
        else id_value (cand_candidate_id a) < id_value (cand_candidate_id b))"

definition has_cost_evidence :: "PlacementCandidate \<Rightarrow> bool" where
  "has_cost_evidence c \<longleftrightarrow> cand_costs c \<noteq> []"

section \<open>\<open>rank_candidates\<close>\<close>

record RankingResult =
  rk_ranked :: "CandidateId list"
  rk_rejections :: "(CandidateId \<times> string) list"
  rk_totals :: "(CandidateId \<times> f64) list"
  rk_selected :: CandidateId
  rk_missing :: "string list"
  rk_note :: string

text \<open>
  The inner loop over the hard constraints: whether the candidate is rejected, why, and the
  unverifiable constraints noted so far. \<open>reject_reason\<close> is still empty whenever a constraint turns
  out not to be evaluable, since a violation leaves the loop.
\<close>

fun constraint_loop ::
    "PlacementCandidate \<Rightarrow> PlacementConstraint list \<Rightarrow> string list \<Rightarrow> fault + bool \<times> string \<times> string list" where
  "constraint_loop c [] missing = Inr (False, '''', missing)"
| "constraint_loop c (hc # hcs) missing =
     (case eval_constraint c hc of
        Inl e \<Rightarrow> Inl e
      | Inr e \<Rightarrow>
          if ev_violation e then Inr (True, ev_reason e, missing)
          else if take 14 (ev_reason e) = not_evaluable
          then constraint_loop c hcs (missing @ [''hard-constraint-unverifiable:'' @ drop 14 (ev_reason e)])
          else constraint_loop c hcs missing)"

record Screen =
  sc_survivors :: "PlacementCandidate list"
  sc_rejections :: "(CandidateId \<times> string) list"
  sc_missing :: "string list"
  sc_has_costs :: bool

text \<open>The body of the outer loop for one candidate, and the loop.\<close>

definition screen_step :: "PlacementConstraint list \<Rightarrow> PlacementCandidate \<Rightarrow> Screen \<Rightarrow> fault + Screen" where
  "screen_step hcs c s =
     (let costs = sc_has_costs s \<or> length (cand_costs c) > 0 in
      case constraint_loop c hcs (sc_missing s) of
        Inl e \<Rightarrow> Inl e
      | Inr (rejected, reject_reason, missing) \<Rightarrow>
          if rejected
          then Inr (s\<lparr>sc_has_costs := costs, sc_missing := missing,
                 sc_rejections := smap_put (cand_candidate_id c)
                   (if reject_reason = '''' then ''rejected'' else reject_reason) (sc_rejections s)\<rparr>)
          else Inr (s\<lparr>sc_has_costs := costs, sc_missing := missing,
                 sc_survivors := sc_survivors s @ [c]\<rparr>))"

fun screen_loop :: "PlacementConstraint list \<Rightarrow> PlacementCandidate list \<Rightarrow> Screen \<Rightarrow> fault + Screen" where
  "screen_loop hcs [] s = Inr s"
| "screen_loop hcs (c # cs) s =
     (case screen_step hcs c s of Inl e \<Rightarrow> Inl e | Inr s' \<Rightarrow> screen_loop hcs cs s')"

text \<open>The comparator of the \<open>std::stable_sort\<close> call.\<close>

definition cand_before :: "PlacementCandidate \<Rightarrow> PlacementCandidate \<Rightarrow> bool" where
  "cand_before a b =
     (let ea = has_cost_evidence a; eb = has_cost_evidence b in
      if ea \<noteq> eb then ea
      else if \<not> ea then id_value (cand_candidate_id a) < id_value (cand_candidate_id b)
      else if cost_less a b then True
      else if cost_less b a then False
      else id_value (cand_candidate_id a) < id_value (cand_candidate_id b))"

text \<open>The loop that fills \<open>ranked\<close>, \<open>totals\<close> and \<open>missing\<close> from the sorted survivors.\<close>

fun result_loop :: "PlacementCandidate list \<Rightarrow> RankingResult \<Rightarrow> RankingResult" where
  "result_loop [] res = res"
| "result_loop (c # cs) res =
     result_loop cs (res\<lparr>rk_ranked := rk_ranked res @ [cand_candidate_id c],
       rk_totals := smap_put (cand_candidate_id c) (weighted_total c) (rk_totals res),
       rk_missing := rk_missing res @
         (if has_cost_evidence c then []
          else [''candidate '' @ id_str (cand_candidate_id c) @ '' has no cost evidence''])\<rparr>)"

definition screen_candidates :: "PlacementDecision \<Rightarrow> fault + Screen" where
  "screen_candidates d =
     screen_loop (dec_hard_constraints d) (cset_candidates (dec_candidate_set d))
       \<lparr>sc_survivors = [], sc_rejections = [], sc_missing = [], sc_has_costs = False\<rparr>"

definition rank_candidates :: "PlacementDecision \<Rightarrow> fault + RankingResult" where
  "rank_candidates d =
     (case screen_candidates d of
        Inl e \<Rightarrow> Inl e
      | Inr s \<Rightarrow>
          let survivors = stable_sort cand_before (sc_survivors s);
              res = result_loop survivors
                \<lparr>rk_ranked = [], rk_rejections = sc_rejections s, rk_totals = [], rk_selected = nil_id,
                 rk_missing = sc_missing s, rk_note = ''''\<rparr>
          in Inr (res\<lparr>rk_selected := (case survivors of [] \<Rightarrow> nil_id | c # _ \<Rightarrow> cand_candidate_id c),
               rk_note := (if sc_has_costs s then ''ranked-by-weighted-cost-with-component-vector-tiebreak''
                           else ''no-cost-evidence-ranked-last''),
               rk_missing := rk_missing res @ cset_missing_fields (dec_candidate_set d)\<rparr>))"

section \<open>Which candidates survive\<close>

definition violates :: "PlacementCandidate \<Rightarrow> PlacementConstraint \<Rightarrow> bool" where
  "violates c hc \<longleftrightarrow> (\<exists>e. eval_constraint c hc = Inr e \<and> ev_violation e)"

lemma ev_when_violation [simp]: "ev_violation (ev_when b m) = b"
  by (simp add: ev_when_def ev_ok_def)

lemma constraint_loop_Inr:
  "constraint_loop c hcs missing = Inr (rej, reason, missing') \<Longrightarrow>
   rej \<longleftrightarrow> (\<exists>hc \<in> set hcs. violates c hc)"
proof (induction c hcs missing arbitrary: rej reason missing' rule: constraint_loop.induct)
  case (2 c hc hcs missing)
  then show ?case
    by (auto simp: violates_def split: sum.splits if_splits)
qed auto

definition rejected_by :: "PlacementConstraint list \<Rightarrow> PlacementCandidate \<Rightarrow> bool" where
  "rejected_by hcs c \<longleftrightarrow> (\<exists>hc \<in> set hcs. violates c hc)"

lemma screen_step_Inr:
  assumes "screen_step hcs c s = Inr s'"
  shows "sc_survivors s' = sc_survivors s @ (if rejected_by hcs c then [] else [c])"
    and "fst ` set (sc_rejections s') =
      fst ` set (sc_rejections s) \<union> (if rejected_by hcs c then {cand_candidate_id c} else {})"
    and "smap_ok (sc_rejections s) \<Longrightarrow> smap_ok (sc_rejections s')"
    and "sc_has_costs s' \<longleftrightarrow> sc_has_costs s \<or> has_cost_evidence c"
proof -
  from assms obtain rej reason missing where
    cl: "constraint_loop c hcs (sc_missing s) = Inr (rej, reason, missing)"
    by (cases "constraint_loop c hcs (sc_missing s)") (auto simp: screen_step_def Let_def)
  then have rej: "rej = rejected_by hcs c" using constraint_loop_Inr [OF cl] by (simp add: rejected_by_def)
  note defs = screen_step_def Let_def smap_put_keys smap_put_ok has_cost_evidence_def
  show "sc_survivors s' = sc_survivors s @ (if rejected_by hcs c then [] else [c])"
    using assms cl rej by (cases rej) (auto simp: defs)
  show "fst ` set (sc_rejections s') =
      fst ` set (sc_rejections s) \<union> (if rejected_by hcs c then {cand_candidate_id c} else {})"
  proof (cases rej)
    case True
    then have "sc_rejections s' = smap_put (cand_candidate_id c)
        (if reason = '''' then ''rejected'' else reason) (sc_rejections s)"
      using assms cl by (auto simp: screen_step_def Let_def)
    then show ?thesis using True rej by (simp only: smap_put_keys) simp
  next
    case False
    then show ?thesis using assms cl rej by (auto simp: screen_step_def Let_def)
  qed
  show "smap_ok (sc_rejections s) \<Longrightarrow> smap_ok (sc_rejections s')"
    using assms cl rej by (cases rej) (auto simp: defs)
  show "sc_has_costs s' \<longleftrightarrow> sc_has_costs s \<or> has_cost_evidence c"
    using assms cl rej by (cases rej) (auto simp: defs)
qed

lemma screen_loop_Inr:
  assumes "screen_loop hcs cs s = Inr s'"
  shows "sc_survivors s' = sc_survivors s @ filter (\<lambda>c. \<not> rejected_by hcs c) cs"
    and "fst ` set (sc_rejections s') =
      fst ` set (sc_rejections s) \<union> cand_candidate_id ` set (filter (rejected_by hcs) cs)"
    and "smap_ok (sc_rejections s) \<Longrightarrow> smap_ok (sc_rejections s')"
  using assms
proof (induction cs arbitrary: s)
  case (Cons c cs)
  { case 1
    then obtain s1 where "screen_step hcs c s = Inr s1" "screen_loop hcs cs s1 = Inr s'"
      by (auto split: sum.splits)
    with Cons.IH(1) show ?case by (simp add: screen_step_Inr(1))
  next
    case 2
    then obtain s1 where "screen_step hcs c s = Inr s1" "screen_loop hcs cs s1 = Inr s'"
      by (auto split: sum.splits)
    with Cons.IH(2) [of s1] show ?case by (auto simp: screen_step_Inr(2))
  next
    case 3
    then obtain s1 where "screen_step hcs c s = Inr s1" "screen_loop hcs cs s1 = Inr s'"
      by (auto split: sum.splits)
    with Cons.IH(3) [OF screen_step_Inr(3)] 3 show ?case by blast }
qed auto

definition survivors_of :: "PlacementDecision \<Rightarrow> PlacementCandidate list" where
  "survivors_of d =
     filter (\<lambda>c. \<not> rejected_by (dec_hard_constraints d) c) (cset_candidates (dec_candidate_set d))"

section \<open>What is returned\<close>

lemma result_loop_fields:
  "rk_ranked (result_loop cs res) = rk_ranked res @ map cand_candidate_id cs"
  "rk_rejections (result_loop cs res) = rk_rejections res"
  "rk_selected (result_loop cs res) = rk_selected res"
  by (induction cs res rule: result_loop.induct) simp_all

lemma result_loop_totals:
  "fst ` set (rk_totals (result_loop cs res)) = fst ` set (rk_totals res) \<union> cand_candidate_id ` set cs"
  "smap_ok (rk_totals res) \<Longrightarrow> smap_ok (rk_totals (result_loop cs res))"
  by (induction cs res rule: result_loop.induct) (auto simp: smap_put_keys smap_put_ok)

lemma rank_candidates_Inr:
  assumes "rank_candidates d = Inr r"
  shows "rk_ranked r = map cand_candidate_id (stable_sort cand_before (survivors_of d))"
    and "fst ` set (rk_rejections r) =
      cand_candidate_id ` {c \<in> set (cset_candidates (dec_candidate_set d)). rejected_by (dec_hard_constraints d) c}"
    and "smap_ok (rk_rejections r)"
    and "rk_selected r = (case rk_ranked r of [] \<Rightarrow> nil_id | i # _ \<Rightarrow> i)"
    and "fst ` set (rk_totals r) = set (rk_ranked r)" "smap_ok (rk_totals r)"
proof -
  from assms obtain s where s: "screen_candidates d = Inr s"
    by (auto simp: rank_candidates_def split: sum.splits)
  note scr = screen_loop_Inr [OF s [unfolded screen_candidates_def]]
  have surv: "sc_survivors s = survivors_of d" using scr(1) by (simp add: survivors_of_def)
  show "rk_ranked r = map cand_candidate_id (stable_sort cand_before (survivors_of d))"
    using assms s surv by (auto simp: rank_candidates_def Let_def result_loop_fields)
  then show "rk_selected r = (case rk_ranked r of [] \<Rightarrow> nil_id | i # _ \<Rightarrow> i)"
    using assms s surv by (auto simp: rank_candidates_def Let_def split: list.splits)
  have "rk_rejections r = sc_rejections s"
    using assms s by (auto simp: rank_candidates_def Let_def result_loop_fields)
  then show "fst ` set (rk_rejections r) =
      cand_candidate_id ` {c \<in> set (cset_candidates (dec_candidate_set d)). rejected_by (dec_hard_constraints d) c}"
    using scr(2) by simp
  show "smap_ok (rk_rejections r)"
    using assms s scr(3) by (auto simp: rank_candidates_def Let_def result_loop_fields smap_ok_def)
  obtain res where "rk_totals r = rk_totals (result_loop (stable_sort cand_before (sc_survivors s)) res)"
    "rk_ranked r = map cand_candidate_id (stable_sort cand_before (sc_survivors s))" "rk_totals res = []"
    using assms s by (auto simp: rank_candidates_def Let_def result_loop_fields)
  then show "fst ` set (rk_totals r) = set (rk_ranked r)" "smap_ok (rk_totals r)"
    using result_loop_totals(2) [of res] by (simp_all add: result_loop_totals(1) smap_ok_def)
qed

section \<open>The comparator is a lexicographic order\<close>

definition rank_key :: "PlacementCandidate \<Rightarrow> bool \<times> int \<times> int list \<times> u64" where
  "rank_key c =
     (\<not> has_cost_evidence c,
      if has_cost_evidence c then f64_key (weighted_total c) else 0,
      if has_cost_evidence c then map f64_key (cost_signature c) else [],
      id_value (cand_candidate_id c))"

definition num_costs :: "PlacementCandidate \<Rightarrow> bool" where
  "num_costs c \<longleftrightarrow> \<not> f64_is_nan (weighted_total c) \<and> list_all (\<lambda>x. \<not> f64_is_nan x) (cost_signature c)"

lemma vec_eq_key:
  "list_all (\<lambda>x. \<not> f64_is_nan x) xs \<Longrightarrow> list_all (\<lambda>x. \<not> f64_is_nan x) ys \<Longrightarrow>
   vec_eq xs ys \<longleftrightarrow> map f64_key xs = map f64_key ys"
  by (induction xs ys rule: vec_eq.induct) (auto simp: f64_eq_def)

lemma vec_less_key:
  "list_all (\<lambda>x. \<not> f64_is_nan x) xs \<Longrightarrow> list_all (\<lambda>x. \<not> f64_is_nan x) ys \<Longrightarrow>
   vec_less xs ys \<longleftrightarrow> map f64_key xs < map f64_key ys"
  by (induction xs ys rule: vec_less.induct) (auto simp: f64_eq_def f64_lt_def)

lemma cost_less_key:
  assumes "num_costs a" "num_costs b"
  shows "cost_less a b \<longleftrightarrow>
    (f64_key (weighted_total a), map f64_key (cost_signature a), id_value (cand_candidate_id a)) <
    (f64_key (weighted_total b), map f64_key (cost_signature b), id_value (cand_candidate_id b))"
  using assms
  by (auto simp: cost_less_def Let_def num_costs_def vec_eq_key vec_less_key f64_eq_def f64_lt_def less_le)

lemma cand_before_key:
  assumes "num_costs a" "num_costs b"
  shows "cand_before a b \<longleftrightarrow> rank_key a < rank_key b"
  using assms by (auto simp: cand_before_def Let_def rank_key_def cost_less_key)

interpretation cand_order: keyed_comparator num_costs cand_before rank_key
  by unfold_locales (rule cand_before_key)

lemmas stable_sort_rank_key = cand_order.sorts_by_key

lemma rank_key_id: "rank_key a = rank_key b \<Longrightarrow> cand_candidate_id a = cand_candidate_id b"
  by (simp add: rank_key_def Id.expand)

section \<open>Faults\<close>

text \<open>The constraints whose evaluation cannot throw.\<close>

definition evaluable :: "PlacementConstraint \<Rightarrow> bool" where
  "evaluable hc \<longleftrightarrow>
     (con_field hc \<in> {''memory.total_bytes'', ''memory.free_bytes'', ''queue.depth''} \<longrightarrow>
      (case con_value hc of VInt i \<Rightarrow> 0 \<le> sint i | VDouble _ \<Rightarrow> False | _ \<Rightarrow> True))"

lemma eval_constraint_Inr: "evaluable hc \<longleftrightarrow> (\<exists>e. eval_constraint c hc = Inr e)"
  by (cases "con_value hc")
     (auto simp: eval_constraint_def Let_def evaluable_def is_num_def with_uint_def with_string_def)

lemma constraint_loop_total:
  "\<forall>hc \<in> set hcs. evaluable hc \<Longrightarrow> \<exists>x. constraint_loop c hcs missing = Inr x"
proof (induction c hcs missing rule: constraint_loop.induct)
  case (2 c hc hcs missing)
  from 2(3) obtain e where "eval_constraint c hc = Inr e"
    using eval_constraint_Inr [of hc c] by auto
  with 2 show ?case by auto
qed (rule exI, rule constraint_loop.simps(1))

lemma screen_loop_total:
  "\<forall>hc \<in> set hcs. evaluable hc \<Longrightarrow> \<exists>s'. screen_loop hcs cs s = Inr s'"
proof (induction cs arbitrary: s)
  case (Cons c cs)
  obtain rej reason missing where "constraint_loop c hcs (sc_missing s) = Inr (rej, reason, missing)"
    using constraint_loop_total [OF Cons.prems] by (metis prod_cases3)
  then have "\<exists>s'. screen_step hcs c s = Inr s'" by (cases rej) (simp_all add: screen_step_def Let_def)
  with Cons show ?case by auto
qed simp

section \<open>Sample candidates\<close>

text \<open>Arithmetic on the extreme values that the ingest checks let pass.\<close>

lemma dyadic_overflow: "f64_of_dyadic s (2 ^ 104) 920 = f64_make s (2047 * 2 ^ 52)"
proof -
  have r: "ratio_log2 (2 ^ 1024) 1 = 1024"
    using ratio_log2_dyadic [of 1 1024 0] ilog2_pow [of 0] by simp
  have "scale_ratio (2 ^ 1024) 1 972 = (2 ^ 52 * 2 ^ 972, 2 ^ 972)"
    by (simp add: scale_ratio_def)
  moreover have "round_half_even (2 ^ 52 * 2 ^ 972) (2 ^ 972) = 2 ^ 52"
    by (rule round_half_even_exact) simp
  moreover have "(2::nat) ^ 104 * 2 ^ nat 920 = 2 ^ 1024" by (simp flip: power_add)
  ultimately show ?thesis
    using r by (simp add: f64_of_dyadic_def f64_of_ratio_def Let_def)
qed
lemmas f64_fields = f64_is_nan_def f64_is_inf_def f64_exp_def f64_mag_def f64_frac_def f64_sign_def f64_mant_def f64_scale_def

lemma mul_inf: "f64_mul 0x7FE0000000000000 0x4000000000000000 = 0x7FF0000000000000"
  using dyadic_overflow [of False] by (simp add: f64_mul_def f64_fields Let_def f64_make_def)
lemma mul_minf: "f64_mul 0xFFE0000000000000 0x4000000000000000 = 0xFFF0000000000000"
  using dyadic_overflow [of True] by (simp add: f64_mul_def f64_fields Let_def f64_make_def)
lemma mul_zero: "f64_mul 0 0 = 0"
  by (simp add: f64_mul_def f64_fields Let_def f64_of_dyadic_def f64_of_ratio_def f64_make_def)
lemma add_zero: "f64_add 0 0 = 0"
  by (simp add: f64_add_def f64_fields f64_signed_def Let_def f64_make_def)
lemma add_inf: "f64_add 0 0x7FF0000000000000 = 0x7FF0000000000000"
  by (simp add: f64_add_def f64_fields Let_def)
lemma add_nan: "f64_add 0x7FF0000000000000 0xFFF0000000000000 = f64_default_nan"
  by (simp add: f64_add_def f64_fields Let_def)

definition cost_of :: "f64 \<Rightarrow> f64 \<Rightarrow> PlacementCostComponent" where
  "cost_of c w = PlacementCostComponent_default\<lparr>cost_cost := c, cost_policy_weight := w\<rparr>"
definition cand_of :: "u64 \<Rightarrow> PlacementCostComponent list \<Rightarrow> PlacementCandidate" where
  "cand_of i cs = PlacementCandidate_default\<lparr>cand_candidate_id := Id i, cand_costs := cs\<rparr>"

lemma cand_of_simps [simp]: "cand_costs (cand_of i cs) = cs" "cand_candidate_id (cand_of i cs) = Id i"
  by (simp_all add: cand_of_def)
lemma cost_of_simps [simp]: "cost_cost (cost_of c w) = c" "cost_policy_weight (cost_of c w) = w"
  by (simp_all add: cost_of_def)

lemma totals:
  "weighted_total (cand_of i [cost_of 0 0]) = 0"
  "weighted_total (cand_of i [cost_of 0x7FE0000000000000 0x4000000000000000]) = 0x7FF0000000000000"
  "weighted_total (cand_of i [cost_of 0x7FE0000000000000 0x4000000000000000,
      cost_of 0xFFE0000000000000 0x4000000000000000]) = f64_default_nan"
  by (simp_all add: weighted_total_def f64_zero_def mul_inf mul_minf mul_zero add_zero add_inf add_nan)

definition depth_cap :: "Value \<Rightarrow> PlacementConstraint" where
  "depth_cap v = PlacementConstraint_default\<lparr>con_field := ''queue.depth'', con_value := v\<rparr>"

definition decision_over :: "PlacementCandidate list \<Rightarrow> PlacementConstraint list \<Rightarrow> PlacementDecision" where
  "decision_over cs hcs = PlacementDecision_default
     \<lparr>dec_candidate_set := CandidateSet_default\<lparr>cset_candidates := cs\<rparr>, dec_hard_constraints := hcs\<rparr>"

lemma decision_over_simps [simp]:
  "cset_candidates (dec_candidate_set (decision_over cs hcs)) = cs"
  "dec_hard_constraints (decision_over cs hcs) = hcs"
  by (simp_all add: decision_over_def)

definition three :: "PlacementCandidate list" where
  "three = [cand_of 5 [], cand_of 3 [cost_of 0 0], cand_of 2 [cost_of 0 0]]"

lemma evaluable_depth_cap: "evaluable (depth_cap (VUInt 4))"
  by (simp add: evaluable_def depth_cap_def)

lemma depth_cap_passes: "\<not> rejected_by [depth_cap (VUInt 4)] (cand_of i cs)"
  by (simp add: rejected_by_def violates_def eval_constraint_def Let_def depth_cap_def is_num_def with_uint_def
      cand_of_def PlacementCandidate_default_def QueueDescriptor_default_def ev_when_def ev_ok_def)

lemma three_survive: "survivors_of (decision_over three [depth_cap (VUInt 4)]) = three"
  by (simp add: survivors_of_def three_def depth_cap_passes)

lemma empty_total: "weighted_total (cand_of i []) = 0"
  by (simp add: weighted_total_def f64_zero_def)

lemma three_numeric: "\<forall>c \<in> set three. num_costs c"
  by (simp add: three_def num_costs_def totals empty_total cost_signature_def f64_fields f64_neg_def)

lemma three_sorted: "map cand_candidate_id (sort_key rank_key three) = [Id 2, Id 3, Id 5]"
  by (simp add: three_def rank_key_def has_cost_evidence_def totals cost_signature_def f64_key_def f64_fields)

lemma three_ranked: "\<exists>r. rank_candidates (decision_over three [depth_cap (VUInt 4)]) = Inr r"
proof -
  obtain s where "screen_candidates (decision_over three [depth_cap (VUInt 4)]) = Inr s"
    using screen_loop_total [of "[depth_cap (VUInt 4)]" three] evaluable_depth_cap
    by (auto simp: screen_candidates_def)
  then show ?thesis by (simp add: rank_candidates_def Let_def)
qed

section \<open>Properties of the ranking\<close>

text \<open>C8. \<open>rank_candidates\<close> orders the candidates that no hard constraint rejects: those with cost
  evidence first, by weighted total, then by the signed cost vector, then by identity. Whenever
  the costs are numbers, the result is exactly the survivors sorted by that key.\<close>

theorem ranking_is_sorted_by_key:
  assumes "rank_candidates d = Inr r" "\<forall>c \<in> set (survivors_of d). num_costs c"
  shows "rk_ranked r = map cand_candidate_id (sort_key rank_key (survivors_of d))"
  using rank_candidates_Inr(1) [OF assms(1)] stable_sort_rank_key [OF assms(2)] by simp

lemma ranking_is_sorted_by_key_witness:
  "\<exists>r. rank_candidates (decision_over three [depth_cap (VUInt 4)]) = Inr r \<and> rk_ranked r = [Id 2, Id 3, Id 5]"
proof -
  obtain r where r: "rank_candidates (decision_over three [depth_cap (VUInt 4)]) = Inr r"
    using three_ranked by blast
  from ranking_is_sorted_by_key [OF r] show ?thesis
    by (simp add: r three_survive three_numeric three_sorted)
qed

text \<open>Nothing is invented and nothing is lost: the ranked and the rejected identities together are
  the candidates of the decision, a candidate is ranked iff it violates no hard constraint, and
  every ranked candidate has its total.\<close>

theorem ranking_partitions_candidates:
  assumes "rank_candidates d = Inr r"
  shows "set (rk_ranked r) = cand_candidate_id ` {c \<in> set (cset_candidates (dec_candidate_set d)).
           \<not> (\<exists>hc \<in> set (dec_hard_constraints d). violates c hc)} \<and>
         fst ` set (rk_rejections r) = cand_candidate_id ` {c \<in> set (cset_candidates (dec_candidate_set d)).
           \<exists>hc \<in> set (dec_hard_constraints d). violates c hc} \<and>
         fst ` set (rk_totals r) = set (rk_ranked r) \<and>
         length (rk_ranked r) = length (survivors_of d)"
  using rank_candidates_Inr [OF assms] by (auto simp: survivors_of_def rejected_by_def)

lemma ranking_partitions_candidates_witness:
  "\<exists>r. rank_candidates (decision_over three [depth_cap (VUInt 4)]) = Inr r \<and> length (rk_ranked r) = 3"
proof -
  obtain r where r: "rank_candidates (decision_over three [depth_cap (VUInt 4)]) = Inr r"
    using three_ranked by blast
  from ranking_partitions_candidates [OF r] show ?thesis
    by (auto simp: r three_survive) (simp add: three_def)
qed

text \<open>The selected candidate is the best survivor: none has a smaller key, so none with cost evidence
  has a smaller weighted total; with no survivor the nil identity is selected.\<close>

theorem selection_is_minimal:
  assumes "rank_candidates d = Inr r" "\<forall>c \<in> set (survivors_of d). num_costs c"
  shows "(survivors_of d = [] \<longrightarrow> rk_selected r = nil_id) \<and>
         (survivors_of d \<noteq> [] \<longrightarrow> (\<exists>s \<in> set (survivors_of d). cand_candidate_id s = rk_selected r \<and>
           (\<forall>c \<in> set (survivors_of d). rank_key s \<le> rank_key c)))"
proof (cases "sort_key rank_key (survivors_of d)")
  case Nil
  then have "survivors_of d = []" by (metis set_empty set_sort)
  then show ?thesis
    using rank_candidates_Inr(1,4) [OF assms(1)] by simp
next
  case (Cons s rest)
  have "sorted (map rank_key (s # rest))" using sorted_sort_key [of rank_key "survivors_of d"] Cons by simp
  moreover have "set (survivors_of d) = set (s # rest)" by (metis Cons set_sort)
  ultimately have "s \<in> set (survivors_of d)" "\<forall>c \<in> set (survivors_of d). rank_key s \<le> rank_key c" by auto
  moreover have "cand_candidate_id s = rk_selected r"
    using rank_candidates_Inr(4) [OF assms(1)] rank_candidates_Inr(1) [OF assms(1)] stable_sort_rank_key [OF assms(2)] Cons
    by simp
  ultimately show ?thesis by auto
qed

lemma selection_is_minimal_witness:
  "\<exists>r s. rank_candidates (decision_over three [depth_cap (VUInt 4)]) = Inr r \<and> s \<in> set three \<and>
     cand_candidate_id s = rk_selected r"
proof -
  obtain r where r: "rank_candidates (decision_over three [depth_cap (VUInt 4)]) = Inr r"
    using three_ranked by blast
  from selection_is_minimal [OF r, unfolded three_survive] three_numeric r show ?thesis
    by (auto simp: three_def)
qed

text \<open>C15. The ranking does not depend on the order in which the candidates were recorded, as long as
  their identities are distinct and their costs are numbers.\<close>

theorem ranking_order_independent:
  assumes "rank_candidates d = Inr r" "rank_candidates d' = Inr r'"
    and "dec_hard_constraints d' = dec_hard_constraints d"
    and "mset (cset_candidates (dec_candidate_set d')) = mset (cset_candidates (dec_candidate_set d))"
    and "distinct (map cand_candidate_id (cset_candidates (dec_candidate_set d)))"
    and "\<forall>c \<in> set (cset_candidates (dec_candidate_set d)). num_costs c"
  shows "rk_ranked r' = rk_ranked r \<and> rk_selected r' = rk_selected r"
proof -
  let ?P = "\<lambda>c. \<not> rejected_by (dec_hard_constraints d) c"
  have m: "mset (survivors_of d) = mset (survivors_of d')"
    using assms(3,4) by (simp add: survivors_of_def)
  have inj: "inj_on rank_key (set (survivors_of d))"
    using assms(5) by (auto simp: inj_on_def survivors_of_def distinct_map dest!: rank_key_id)
  have "sort_key rank_key (survivors_of d) = sort_key rank_key (survivors_of d')"
  proof -
    have "mset (sort_key rank_key (survivors_of d')) = mset (survivors_of d)" by (simp add: m)
    then show ?thesis
      using properties_for_sort_key [of "sort_key rank_key (survivors_of d')" "survivors_of d" rank_key] inj
      by (metis (no_types, lifting) sorted_sort_key properties_for_sort_key sort_key_inj_key_eq)
  qed
  moreover have "\<forall>c \<in> set (survivors_of d). num_costs c" using assms(6) by (simp add: survivors_of_def)
  moreover from this m have "\<forall>c \<in> set (survivors_of d'). num_costs c" by (metis set_mset_mset)
  ultimately have "rk_ranked r' = rk_ranked r"
    using rank_candidates_Inr(1) [OF assms(1)] rank_candidates_Inr(1) [OF assms(2)] stable_sort_rank_key by simp
  then show ?thesis using rank_candidates_Inr(4) [OF assms(1)] rank_candidates_Inr(4) [OF assms(2)] by simp
qed

lemma ranking_order_independent_witness:
  "\<exists>r r'. rank_candidates (decision_over three [depth_cap (VUInt 4)]) = Inr r \<and>
     rank_candidates (decision_over (rev three) [depth_cap (VUInt 4)]) = Inr r' \<and> rk_ranked r' = rk_ranked r"
proof -
  obtain r where r: "rank_candidates (decision_over three [depth_cap (VUInt 4)]) = Inr r"
    using three_ranked by blast
  obtain s where "screen_candidates (decision_over (rev three) [depth_cap (VUInt 4)]) = Inr s"
    using screen_loop_total [of "[depth_cap (VUInt 4)]" "rev three"] evaluable_depth_cap
    by (auto simp: screen_candidates_def)
  then obtain r' where r': "rank_candidates (decision_over (rev three) [depth_cap (VUInt 4)]) = Inr r'"
    by (simp add: rank_candidates_def Let_def)
  have "rk_ranked r' = rk_ranked r \<and> rk_selected r' = rk_selected r"
    by (rule ranking_order_independent [OF r r']) (simp_all add: three_numeric, simp add: three_def)
  with r r' show ?thesis by blast
qed



text \<open>\<open>eval_constraint\<close> lets a double pass its numeric guard and then asks for an unsigned integer: a
  first constraint with a double value on a numeric field makes ranking throw for every decision
  that has a candidate.\<close>

theorem double_constraint_throws:
  assumes "cset_candidates (dec_candidate_set d) \<noteq> []" "dec_hard_constraints d = hc # hcs"
    and "con_field hc \<in> {''memory.total_bytes'', ''memory.free_bytes'', ''queue.depth''}" "con_value hc = VDouble x"
  shows "rank_candidates d = Inl (Runtime_error ''Value::as_uint on non-uint value'')"
proof -
  obtain c cs where cs: "cset_candidates (dec_candidate_set d) = c # cs"
    using assms(1) by (cases "cset_candidates (dec_candidate_set d)") auto
  have "eval_constraint c hc = Inl (Runtime_error ''Value::as_uint on non-uint value'')"
    using assms(3,4) by (auto simp: eval_constraint_def Let_def is_num_def with_uint_def)
  then have "constraint_loop c (hc # hcs) m = Inl (Runtime_error ''Value::as_uint on non-uint value'')" for m by simp
  then show ?thesis
    by (simp add: rank_candidates_def screen_candidates_def cs assms(2) screen_step_def Let_def del: constraint_loop.simps)
qed

lemma double_constraint_throws_witness:
  "rank_candidates (decision_over three [depth_cap (VDouble f64_one)]) =
     Inl (Runtime_error ''Value::as_uint on non-uint value'')"
  by (rule double_constraint_throws [where x = f64_one and hc = "depth_cap (VDouble f64_one)" and hcs = "[]"])
     (simp_all add: depth_cap_def, simp add: three_def)

text \<open>Finite costs and weights, which is all the ingest checks ask for, do not make the comparator an
  order: three candidates with finite costs can be cyclically before one another, because a total
  can overflow and cancel to NaN. \<open>std::stable_sort\<close> then has no defined result.\<close>

theorem cost_order_cycle:
  "\<exists>a b n. list_all (\<lambda>c. f64_finite (cost_cost c) \<and> f64_finite (cost_policy_weight c))
       (cand_costs a @ cand_costs b @ cand_costs n) \<and>
     cand_before a b \<and> cand_before b n \<and> cand_before n a"
  by (rule exI [of _ "cand_of 3 [cost_of 0 0]"],
      rule exI [of _ "cand_of 1 [cost_of 0x7FE0000000000000 0x4000000000000000]"],
      rule exI [of _ "cand_of 2 [cost_of 0x7FE0000000000000 0x4000000000000000, cost_of 0xFFE0000000000000 0x4000000000000000]"])
     (simp add: cand_before_def has_cost_evidence_def cost_less_def totals f64_finite_def f64_eq_def f64_lt_def
        f64_key_def f64_default_nan_def f64_fields)

end
