(* ===== verification/Observatory.thy ===== *)
theory Observatory
  imports Model
begin

text \<open>
  \<open>observatory.hpp\<close> and \<open>src/observatory.cpp\<close> without persistence and analytics: the state
  \<open>Observatory::Impl\<close>, source management, the three ingest operations and the queries. Each
  method holds the mutex from its first to its last statement, so one call is one step on the state
  (theory Concurrency takes the steps apart).
  An \<open>std::unordered_map\<close> is a key-sorted association list; where the code iterates over one, the
  iteration order is an argument of the definition. The clock reading of a call is an argument too.
\<close>

section \<open>State\<close>

type_synonym ('k, 'v) umap = "('k \<times> 'v) list"

record ObservatoryConfig =
  cfg_max_events :: nat
  cfg_enforce_stale_source_generation :: bool
  cfg_enforce_stale_worker_boot :: bool
  cfg_enforce_stale_coordinator_epoch :: bool

definition ObservatoryConfig_default :: ObservatoryConfig where
  "ObservatoryConfig_default =
     \<lparr>cfg_max_events = 1000000, cfg_enforce_stale_source_generation = True,
      cfg_enforce_stale_worker_boot = True, cfg_enforce_stale_coordinator_epoch = True\<rparr>"

record IngestResult =
  ing_accepted :: bool
  ing_error :: string
  ing_operation_count :: u64

record Impl =
  im_cfg :: ObservatoryConfig
  im_obs :: "PlacementObservation list"
  im_obs_by_id :: "(PlacementObservationId, nat) umap"
  im_dec :: "PlacementDecision list"
  im_dec_by_id :: "(PlacementDecisionId, nat) umap"
  im_outcomes :: "(PlacementDecisionId, PlacementOutcome) umap"
  im_sources :: "(SourceId, SourceDescriptor) umap"
  im_src_gen :: "(SourceId, u64) umap"
  im_src_boot :: "(SourceId, u64) umap"
  im_src_health :: "(SourceId, ReliabilityClass) umap"
  im_src_last_seen :: "(SourceId, Timestamp) umap"
  im_coordinator :: u64
  idx_obs_wl :: "(WorkloadId, nat list) umap"
  idx_dec_wl :: "(WorkloadId, nat list) umap"
  idx_obs_req :: "(RequestId, nat list) umap"
  idx_dec_req :: "(RequestId, nat list) umap"
  idx_obs_node :: "(NodeId, nat list) umap"
  idx_dec_node :: "(NodeId, nat list) umap"
  idx_obs_dev :: "(DeviceId, nat list) umap"
  idx_dec_dev :: "(DeviceId, nat list) umap"
  idx_obs_src :: "(SourceId, nat list) umap"
  idx_obs_gen :: "(u64, nat list) umap"
  idx_obs_epoch :: "(u64, nat list) umap"
  idx_dec_epoch :: "(u64, nat list) umap"
  idx_obs_ns :: "(NamespaceId, nat list) umap"
  idx_dec_ns :: "(NamespaceId, nat list) umap"
  idx_dec_pol :: "(u64, nat list) umap"
  idx_dec_sel :: "(CandidateId, nat list) umap"
  idx_dec_attempt :: "(PlacementAttemptId, nat) umap"
  idx_obs_attempt :: "(PlacementAttemptId, nat list) umap"
  im_rejected :: u64
  im_superseded :: u64
  im_snapshot_count :: u64
  im_events :: u64

definition Impl_init :: "ObservatoryConfig \<Rightarrow> Impl" where
  "Impl_init c =
     \<lparr>im_cfg = c, im_obs = [], im_obs_by_id = [], im_dec = [], im_dec_by_id = [], im_outcomes = [],
      im_sources = [], im_src_gen = [], im_src_boot = [], im_src_health = [], im_src_last_seen = [],
      im_coordinator = 0, idx_obs_wl = [], idx_dec_wl = [], idx_obs_req = [], idx_dec_req = [],
      idx_obs_node = [], idx_dec_node = [], idx_obs_dev = [], idx_dec_dev = [], idx_obs_src = [],
      idx_obs_gen = [], idx_obs_epoch = [], idx_dec_epoch = [], idx_obs_ns = [], idx_dec_ns = [],
      idx_dec_pol = [], idx_dec_sel = [], idx_dec_attempt = [], idx_obs_attempt = [],
      im_rejected = 0, im_superseded = 0, im_snapshot_count = 0, im_events = 0\<rparr>"

section \<open>Indices\<close>

text \<open>\<open>idx[k].push_back(i)\<close>, and the same under \<open>if (id.valid())\<close>.\<close>

definition idx_push :: "'k::linorder \<Rightarrow> nat \<Rightarrow> ('k, nat list) umap \<Rightarrow> ('k, nat list) umap" where
  "idx_push k i m = smap_put k ((case map_of m k of Some is \<Rightarrow> is | None \<Rightarrow> []) @ [i]) m"

definition idx_push_id :: "'t Id \<Rightarrow> nat \<Rightarrow> ('t Id, nat list) umap \<Rightarrow> ('t Id, nat list) umap" where
  "idx_push_id k i m = (if id_valid k then idx_push k i m else m)"

definition index_obs :: "PlacementObservation \<Rightarrow> nat \<Rightarrow> Impl \<Rightarrow> Impl" where
  "index_obs ob i I = I
     \<lparr>idx_obs_wl := idx_push_id (obs_workload_id ob) i (idx_obs_wl I),
      idx_obs_req := idx_push_id (obs_request_id ob) i (idx_obs_req I),
      idx_obs_node := idx_push_id (obs_node_id ob) i (idx_obs_node I),
      idx_obs_dev := idx_push_id (obs_device_id ob) i (idx_obs_dev I),
      idx_obs_src := idx_push_id (obs_source_id ob) i (idx_obs_src I),
      idx_obs_gen := idx_push (obs_source_generation ob) i (idx_obs_gen I),
      idx_obs_epoch := idx_push (obs_epoch ob) i (idx_obs_epoch I),
      idx_obs_ns := idx_push_id (obs_namespace_id ob) i (idx_obs_ns I),
      idx_obs_attempt := idx_push_id (obs_attempt_id ob) i (idx_obs_attempt I)\<rparr>"

definition index_dec :: "PlacementDecision \<Rightarrow> nat \<Rightarrow> Impl \<Rightarrow> Impl" where
  "index_dec d i I = I
     \<lparr>idx_dec_wl := idx_push_id (dec_workload_id d) i (idx_dec_wl I),
      idx_dec_req := idx_push_id (dec_request_id d) i (idx_dec_req I),
      idx_dec_node := idx_push_id (dec_node_id d) i (idx_dec_node I),
      idx_dec_dev := idx_push_id (dec_device_id d) i (idx_dec_dev I),
      idx_dec_epoch := idx_push (dec_epoch d) i (idx_dec_epoch I),
      idx_dec_ns := idx_push_id (dec_namespace_id d) i (idx_dec_ns I),
      idx_dec_pol := idx_push (dec_policy_generation d) i (idx_dec_pol I),
      idx_dec_sel := idx_push_id (dec_selected_candidate d) i (idx_dec_sel I),
      idx_dec_attempt := (if id_valid (dec_attempt_id d) then smap_put (dec_attempt_id d) i (idx_dec_attempt I)
                          else idx_dec_attempt I)\<rparr>"

section \<open>Source management\<close>

definition register_source :: "SourceDescriptor \<Rightarrow> Timestamp \<Rightarrow> Impl \<Rightarrow> Impl" where
  "register_source d now I =
     (let k = src_source_id d;
          I1 = (case map_of (im_src_gen I) k of
                  None \<Rightarrow> I\<lparr>im_src_gen := smap_put k (src_generation d) (im_src_gen I),
                            im_src_boot := smap_put k 0 (im_src_boot I)\<rparr>
                | Some g \<Rightarrow>
                    if src_generation d > g
                    then I\<lparr>im_src_gen := smap_put k (src_generation d) (im_src_gen I),
                           im_src_boot := smap_put k 0 (im_src_boot I)\<rparr>
                    else I)
      in I1\<lparr>im_sources := smap_put k d (im_sources I1),
            im_src_last_seen := smap_put k now (im_src_last_seen I1)\<rparr>)"

definition update_source_health :: "SourceId \<Rightarrow> ReliabilityClass \<Rightarrow> Timestamp \<Rightarrow> Impl \<Rightarrow> Impl" where
  "update_source_health k rc now I =
     I\<lparr>im_src_health := smap_put k rc (im_src_health I),
       im_src_last_seen := smap_put k now (im_src_last_seen I)\<rparr>"

definition source_health :: "SourceId \<Rightarrow> Impl \<Rightarrow> ReliabilityClass" where
  "source_health k I =
     (case map_of (im_src_health I) k of Some rc \<Rightarrow> rc | None \<Rightarrow> ReliabilityClass.Unknown)"

definition current_source_generation :: "SourceId \<Rightarrow> Impl \<Rightarrow> u64" where
  "current_source_generation k I = (case map_of (im_src_gen I) k of Some g \<Rightarrow> g | None \<Rightarrow> 0)"

definition set_coordinator_epoch :: "u64 \<Rightarrow> Impl \<Rightarrow> Impl" where
  "set_coordinator_epoch epoch I = I\<lparr>im_coordinator := epoch\<rparr>"

definition coordinator_epoch :: "Impl \<Rightarrow> u64" where
  "coordinator_epoch I = im_coordinator I"

section \<open>Ingest\<close>

definition reject :: "string \<Rightarrow> Impl \<Rightarrow> IngestResult \<times> Impl" where
  "reject msg I =
     (\<lparr>ing_accepted = False, ing_error = msg, ing_operation_count = im_events I\<rparr>,
      I\<lparr>im_rejected := im_rejected I + 1\<rparr>)"

definition accept :: "Impl \<Rightarrow> IngestResult \<times> Impl" where
  "accept I =
     (let I' = I\<lparr>im_events := im_events I + 1\<rparr>
      in (\<lparr>ing_accepted = True, ing_error = '''', ing_operation_count = im_events I'\<rparr>, I'))"

text \<open>The loop over the evidence fields: the message of the first invalid one.\<close>

definition memory_field :: "string \<Rightarrow> bool" where
  "memory_field f \<longleftrightarrow> f = ''memory.free_bytes'' \<or> f = ''memory.used_bytes'' \<or> f = ''memory.total_bytes''"

fun field_error :: "Measurement list \<Rightarrow> string option" where
  "field_error [] = None"
| "field_error (m # ms) =
     (case meas_value m of
        VDouble d \<Rightarrow> if \<not> f64_finite d then Some ''non-finite evidence value'' else field_error ms
      | VUInt u \<Rightarrow>
          if memory_field (meas_normalized_field m) \<and> u > 0x7FFFFFFFFFFFFFFF
          then Some ''impossible memory value'' else field_error ms
      | _ \<Rightarrow> field_error ms)"

definition trusted_boot :: "SourceId \<Rightarrow> Impl \<Rightarrow> u64 option" where
  "trusted_boot k I = (case map_of (im_src_boot I) k of Some b \<Rightarrow> if b \<noteq> 0 then Some b else None | None \<Rightarrow> None)"

text \<open>The update of generation and boot between the authority checks and the remaining checks.\<close>

definition adopt_authority :: "PlacementObservation \<Rightarrow> Impl \<Rightarrow> Impl" where
  "adopt_authority ob I =
     (let k = obs_source_id ob; cur = current_source_generation k I in
      if obs_source_generation ob > cur
      then I\<lparr>im_src_gen := smap_put k (obs_source_generation ob) (im_src_gen I),
             im_src_boot := smap_put k (obs_worker_boot ob) (im_src_boot I),
             im_superseded := (if cur > 0 then im_superseded I + 1 else im_superseded I)\<rparr>
      else if trusted_boot k I = None
      then I\<lparr>im_src_boot := smap_put k (obs_worker_boot ob) (im_src_boot I)\<rparr>
      else I)"

definition store_obs :: "PlacementObservation \<Rightarrow> Impl \<Rightarrow> Impl" where
  "store_obs ob I =
     (let idx = length (im_obs I)
      in index_obs ob idx (I\<lparr>im_obs := im_obs I @ [ob],
           im_obs_by_id := smap_put (obs_observation_id ob) idx (im_obs_by_id I)\<rparr>))"

definition stale_epoch :: "u64 \<Rightarrow> Impl \<Rightarrow> bool" where
  "stale_epoch e I \<longleftrightarrow>
     cfg_enforce_stale_coordinator_epoch (im_cfg I) \<and> im_coordinator I \<noteq> 0 \<and> e \<noteq> 0 \<and> e < im_coordinator I"

definition ingest :: "PlacementObservation \<Rightarrow> Impl \<Rightarrow> IngestResult \<times> Impl" where
  "ingest ob I =
     (let k = obs_source_id ob; cur = current_source_generation k I; boot = trusted_boot k I in
      if id_nil (obs_observation_id ob) then reject ''invalid observation id'' I
      else if id_nil k then reject ''invalid source id'' I
      else if obs_source_generation ob = 0 then reject ''zero source generation'' I
      else if obs_observation_generation ob = 0 then reject ''zero observation generation'' I
      else if map_of (im_obs_by_id I) (obs_observation_id ob) \<noteq> None then reject ''duplicate observation id'' I
      else if cfg_enforce_stale_source_generation (im_cfg I) \<and> obs_source_generation ob < cur
      then reject ''stale source generation'' I
      else if cfg_enforce_stale_worker_boot (im_cfg I) \<and> obs_source_generation ob = cur \<and>
              (case boot of Some b \<Rightarrow> obs_worker_boot ob \<noteq> b | None \<Rightarrow> False)
      then reject ''stale worker boot'' I
      else let I1 = adopt_authority ob I in
        if stale_epoch (obs_coordinator_epoch ob) I1 then reject ''stale coordinator epoch'' I1
        else case field_error (obs_fields ob) of
          Some msg \<Rightarrow> reject msg I1
        | None \<Rightarrow> accept (store_obs (ob\<lparr>obs_lifecycle := LifecycleState.Correlated\<rparr>) I1))"

definition finite_cost :: "PlacementDecision \<Rightarrow> bool" where
  "finite_cost d \<longleftrightarrow>
     list_all (\<lambda>c. f64_finite (cand_total_cost c) \<and>
       list_all (\<lambda>cc. f64_finite (cost_cost cc) \<and> f64_finite (cost_policy_weight cc)) (cand_costs c))
       (cset_candidates (dec_candidate_set d)) \<and>
     list_all (\<lambda>cc. f64_finite (cost_cost cc) \<and> f64_finite (cost_policy_weight cc)) (dec_cost_components d) \<and>
     list_all (\<lambda>sc. f64_finite (score_value sc)) (dec_score_components d)"

definition impossible_memory :: "PlacementCandidate \<Rightarrow> bool" where
  "impossible_memory c \<longleftrightarrow>
     (let m = cand_memory c in
      mem_total_bytes m > 0 \<and> mem_used_bytes m > mem_total_bytes m \<or>
      mem_total_bytes m > 0 \<and> mem_free_bytes m > mem_total_bytes m)"

definition store_dec :: "PlacementDecision \<Rightarrow> Impl \<Rightarrow> Impl" where
  "store_dec d I =
     (let idx = length (im_dec I)
      in index_dec d idx (I\<lparr>im_dec := im_dec I @ [d],
           im_dec_by_id := smap_put (dec_decision_id d) idx (im_dec_by_id I)\<rparr>))"

definition ingest_decision :: "PlacementDecision \<Rightarrow> Impl \<Rightarrow> IngestResult \<times> Impl" where
  "ingest_decision d I =
     (let cs = dec_candidate_set d in
      if id_nil (dec_decision_id d) then reject ''invalid decision id'' I
      else if map_of (im_dec_by_id I) (dec_decision_id d) \<noteq> None then reject ''duplicate decision id'' I
      else if id_valid (dec_attempt_id d) \<and>
              (case map_of (idx_dec_attempt I) (dec_attempt_id d) of
                 Some i \<Rightarrow> dec_decision_id (im_dec I ! i) \<noteq> dec_decision_id d | None \<Rightarrow> False)
      then reject ''duplicate placement attempt'' I
      else if dec_placement_generation d = 0 then reject ''zero placement generation'' I
      else if id_nil (dec_selected_candidate d) then reject ''invalid selected candidate'' I
      else if cset_complete cs \<and> cset_candidates cs = [] then reject ''complete candidate set empty'' I
      else if cset_complete cs \<and> dec_selected_candidate d \<notin> set (map cand_candidate_id (cset_candidates cs))
      then reject ''selected candidate absent from complete candidate set'' I
      else if cset_complete cs \<and> cset_reconstructed cs
      then reject ''candidate set cannot be both complete and reconstructed'' I
      else if \<not> finite_cost d then reject ''non-finite cost or score component'' I
      else if list_ex impossible_memory (cset_candidates cs) then reject ''impossible memory value'' I
      else if stale_epoch (prov_coordinator_epoch (dec_provenance d)) I then reject ''stale coordinator epoch'' I
      else accept (store_dec d I))"

definition ingest_outcome :: "PlacementOutcome \<Rightarrow> Impl \<Rightarrow> IngestResult \<times> Impl" where
  "ingest_outcome x I =
     (if id_nil (out_decision_id x) then reject ''invalid outcome decision id'' I
      else case map_of (im_dec_by_id I) (out_decision_id x) of
        None \<Rightarrow> reject ''outcome before decision'' I
      | Some i \<Rightarrow>
          if map_of (im_outcomes I) (out_decision_id x) \<noteq> None then reject ''duplicate outcome'' I
          else let d = im_dec I ! i in
            if id_valid (out_attempt_id x) \<and> id_valid (dec_attempt_id d) \<and> out_attempt_id x \<noteq> dec_attempt_id d
            then reject ''outcome wrong generation'' I
            else if out_disposition x = OutcomeDisposition.Unknown then reject ''unknown outcome disposition'' I
            else accept (I\<lparr>im_outcomes := smap_put (out_decision_id x) x (im_outcomes I)\<rparr>))"

section \<open>Queries\<close>

definition get_decision :: "PlacementDecisionId \<Rightarrow> Impl \<Rightarrow> PlacementDecision option" where
  "get_decision k I =
     (case map_of (im_dec_by_id I) k of
        None \<Rightarrow> None
      | Some i \<Rightarrow>
          let d = im_dec I ! i in
          Some (case map_of (im_outcomes I) k of Some x \<Rightarrow> d\<lparr>dec_outcome := Some x\<rparr> | None \<Rightarrow> d))"

definition get_outcome :: "PlacementDecisionId \<Rightarrow> Impl \<Rightarrow> PlacementOutcome option" where
  "get_outcome k I = map_of (im_outcomes I) k"

definition has_observation :: "PlacementObservationId \<Rightarrow> Impl \<Rightarrow> bool" where
  "has_observation k I \<longleftrightarrow> map_of (im_obs_by_id I) k \<noteq> None"

definition candidates :: "PlacementDecisionId \<Rightarrow> Impl \<Rightarrow> CandidateSet" where
  "candidates k I =
     (case map_of (im_dec_by_id I) k of
        None \<Rightarrow> CandidateSet_default
      | Some i \<Rightarrow> dec_candidate_set (im_dec I ! i))"

record QueryFilter =
  qf_workload_id :: WorkloadId
  qf_request_id :: RequestId
  qf_decision_id :: PlacementDecisionId
  qf_attempt_id :: PlacementAttemptId
  qf_node_id :: NodeId
  qf_device_id :: DeviceId
  qf_source_id :: SourceId
  qf_source_generation :: u64
  qf_epoch :: u64
  qf_policy_generation :: u64
  qf_namespace_id :: NamespaceId
  qf_t_begin :: i64
  qf_t_end :: i64

definition QueryFilter_default :: QueryFilter where
  "QueryFilter_default =
     \<lparr>qf_workload_id = nil_id, qf_request_id = nil_id, qf_decision_id = nil_id, qf_attempt_id = nil_id,
      qf_node_id = nil_id, qf_device_id = nil_id, qf_source_id = nil_id, qf_source_generation = 0,
      qf_epoch = 0, qf_policy_generation = 0, qf_namespace_id = nil_id, qf_t_begin = 0, qf_t_end = 0\<rparr>"

text \<open>\<open>if (f.x.valid() && o.x != f.x) continue;\<close>\<close>

definition id_passes :: "'t Id \<Rightarrow> 't Id \<Rightarrow> bool" where
  "id_passes f k \<longleftrightarrow> \<not> (id_valid f \<and> k \<noteq> f)"

definition num_passes :: "u64 \<Rightarrow> u64 \<Rightarrow> bool" where
  "num_passes f k \<longleftrightarrow> \<not> (f \<noteq> 0 \<and> k \<noteq> f)"

definition obs_passes :: "QueryFilter \<Rightarrow> PlacementObservation \<Rightarrow> bool" where
  "obs_passes f ob \<longleftrightarrow>
     id_passes (qf_workload_id f) (obs_workload_id ob) \<and> id_passes (qf_request_id f) (obs_request_id ob) \<and>
     id_passes (qf_decision_id f) (obs_decision_id ob) \<and> id_passes (qf_attempt_id f) (obs_attempt_id ob) \<and>
     id_passes (qf_node_id f) (obs_node_id ob) \<and> id_passes (qf_device_id f) (obs_device_id ob) \<and>
     id_passes (qf_source_id f) (obs_source_id ob) \<and>
     num_passes (qf_source_generation f) (obs_source_generation ob) \<and>
     num_passes (qf_epoch f) (obs_epoch ob) \<and> id_passes (qf_namespace_id f) (obs_namespace_id ob) \<and>
     \<not> (qf_t_begin f \<noteq> 0 \<and> sint (ts_wall (obs_timestamp ob)) < sint (qf_t_begin f)) \<and>
     \<not> (qf_t_end f \<noteq> 0 \<and> sint (ts_wall (obs_timestamp ob)) > sint (qf_t_end f))"

definition dec_passes :: "QueryFilter \<Rightarrow> PlacementDecision \<Rightarrow> bool" where
  "dec_passes f d \<longleftrightarrow>
     id_passes (qf_workload_id f) (dec_workload_id d) \<and> id_passes (qf_request_id f) (dec_request_id d) \<and>
     id_passes (qf_decision_id f) (dec_decision_id d) \<and> id_passes (qf_attempt_id f) (dec_attempt_id d) \<and>
     id_passes (qf_node_id f) (dec_node_id d) \<and> id_passes (qf_device_id f) (dec_device_id d) \<and>
     num_passes (qf_policy_generation f) (dec_policy_generation d) \<and>
     num_passes (qf_epoch f) (dec_epoch d) \<and> id_passes (qf_namespace_id f) (dec_namespace_id d)"

definition observations :: "QueryFilter \<Rightarrow> Impl \<Rightarrow> PlacementObservation list" where
  "observations f I = filter (obs_passes f) (im_obs I)"

definition decisions :: "QueryFilter \<Rightarrow> Impl \<Rightarrow> PlacementDecision list" where
  "decisions f I = filter (dec_passes f) (im_dec I)"

section \<open>Snapshot, timeline, statistics\<close>

text \<open>\<open>snapshot\<close> counts itself; \<open>source_health\<close> of the result is a \<open>std::map\<close>, filled in the iteration order
  of the unordered map.\<close>

definition snapshot :: "(SourceId \<times> ReliabilityClass) list \<Rightarrow> Timestamp \<Rightarrow> Impl \<Rightarrow> PlacementSnapshot \<times> Impl" where
  "snapshot health_order now I =
     (\<lparr>snap_at = now, snap_decisions = im_dec I, snap_observations = im_obs I,
       snap_source_health = foldl (\<lambda>m (k, rc). smap_put k rc m) [] health_order,
       snap_observation_count = of_nat (length (im_obs I)), snap_decision_count = of_nat (length (im_dec I)),
       snap_outcome_count = of_nat (length (im_outcomes I))\<rparr>,
      I\<lparr>im_snapshot_count := im_snapshot_count I + 1\<rparr>)"

definition obs_entry :: "PlacementObservation \<Rightarrow> TimelineEntry" where
  "obs_entry ob =
     \<lparr>te_observation_id = obs_observation_id ob, te_decision_id = obs_decision_id ob,
      te_timestamp = obs_timestamp ob, te_kind = ''observation'', te_label = id_str (obs_source_id ob)\<rparr>"

definition dec_entry :: "PlacementDecision \<Rightarrow> TimelineEntry" where
  "dec_entry d =
     \<lparr>te_observation_id = nil_id, te_decision_id = dec_decision_id d,
      te_timestamp = prov_timestamp (dec_provenance d), te_kind = ''decision'',
      te_label = id_str (dec_selected_candidate d)\<rparr>"

definition te_before :: "TimelineEntry \<Rightarrow> TimelineEntry \<Rightarrow> bool" where
  "te_before a b =
     (let ta = te_timestamp a; tb = te_timestamp b in
      if ts_mono ta \<noteq> ts_mono tb \<and> ts_mono ta \<noteq> 0 \<and> ts_mono tb \<noteq> 0 then ts_mono ta < ts_mono tb
      else if ts_wall ta \<noteq> ts_wall tb then sint (ts_wall ta) < sint (ts_wall tb)
      else if te_kind a \<noteq> te_kind b then te_kind a < te_kind b
      else id_value (te_observation_id a) < id_value (te_observation_id b))"

definition timeline_entries :: "WorkloadId \<Rightarrow> Impl \<Rightarrow> TimelineEntry list" where
  "timeline_entries workload I =
     map obs_entry (filter (\<lambda>ob. obs_workload_id ob = workload) (im_obs I)) @
     map dec_entry (filter (\<lambda>d. dec_workload_id d = workload) (im_dec I))"

text \<open>\<open>std::sort\<close> is not stable and the standard does not fix its result: it is an argument.\<close>

definition timeline ::
    "((TimelineEntry \<Rightarrow> TimelineEntry \<Rightarrow> bool) \<Rightarrow> TimelineEntry list \<Rightarrow> TimelineEntry list) \<Rightarrow>
     WorkloadId \<Rightarrow> Impl \<Rightarrow> PlacementTimeline" where
  "timeline std_sort workload I =
     \<lparr>tl_workload_id = workload, tl_entries = std_sort te_before (timeline_entries workload I)\<rparr>"

record Stats =
  st_observation_count :: u64
  st_decision_count :: u64
  st_outcome_count :: u64
  st_source_count :: u64
  st_superseded_count :: u64
  st_rejected_count :: u64
  st_event_count :: u64
  st_snapshot_count :: u64
  st_wall_clock_now :: u64

definition stats :: "i64 \<Rightarrow> Impl \<Rightarrow> Stats" where
  "stats now_wall I =
     \<lparr>st_observation_count = of_nat (length (im_obs I)), st_decision_count = of_nat (length (im_dec I)),
      st_outcome_count = of_nat (length (im_outcomes I)), st_source_count = of_nat (length (im_sources I)),
      st_superseded_count = im_superseded I, st_rejected_count = im_rejected I,
      st_event_count = im_events I, st_snapshot_count = im_snapshot_count I,
      st_wall_clock_now = now_wall\<rparr>"

end
