(* ===== verification/Log_Index.thy ===== *)
theory Log_Index
  imports Observatory
begin

text \<open>
  The interface between the evidence log and the maps that index it. A map with insertion and
  lookup (\<open>keyed_map\<close>) supports three kinds of index over an append-only log: by a unique key, by
  a shared key with all positions, and by a key whose last position wins. Appending an entry and
  updating the index the way \<open>index_obs\<close> and \<open>index_dec\<close> do keeps each of them exact. The laws are
  discharged for the key-sorted association lists of the model.
\<close>

section \<open>Positions in a log\<close>

definition positions :: "('a \<Rightarrow> 'k option) \<Rightarrow> 'a list \<Rightarrow> 'k \<Rightarrow> nat list" where
  "positions sel log k = filter (\<lambda>i. sel (log ! i) = Some k) [0..<length log]"

lemma positions_Nil [simp]: "positions sel [] k = []"
  by (simp add: positions_def)

lemma positions_append:
  "positions sel (log @ [x]) k = positions sel log k @ (if sel x = Some k then [length log] else [])"
proof -
  have "filter (\<lambda>i. sel ((log @ [x]) ! i) = Some k) [0..<length log] =
        filter (\<lambda>i. sel (log ! i) = Some k) [0..<length log]"
    by (rule filter_cong) (auto simp: nth_append)
  then show ?thesis by (simp add: positions_def)
qed

lemma set_positions: "set (positions sel log k) = {i. i < length log \<and> sel (log ! i) = Some k}"
  by (auto simp: positions_def)

section \<open>Maps and the indices they carry\<close>

locale keyed_map =
  fixes empty :: 'm
    and put :: "'k \<Rightarrow> 'v \<Rightarrow> 'm \<Rightarrow> 'm"
    and look :: "'m \<Rightarrow> 'k \<Rightarrow> 'v option"
    and ok :: "'m \<Rightarrow> bool"
  assumes look_empty: "look empty k = None"
    and ok_empty: "ok empty"
    and look_put: "ok m \<Longrightarrow> look (put k v m) = (look m)(k \<mapsto> v)"
    and ok_put: "ok m \<Longrightarrow> ok (put k v m)"
begin

lemma put_look_same: "ok m \<Longrightarrow> look (put k v m) k = Some v"
  by (simp add: look_put)

lemma put_keeps_others: "ok m \<Longrightarrow> k' \<noteq> k \<Longrightarrow> look (put k v m) k' = look m k'"
  by (simp add: look_put)

lemma put_dom: "ok m \<Longrightarrow> dom (look (put k v m)) = insert k (dom (look m))"
  by (simp add: look_put)

end

locale unique_index = keyed_map empty put look ok
  for empty :: 'm and put :: "'k \<Rightarrow> nat \<Rightarrow> 'm \<Rightarrow> 'm" and look and ok
begin

text \<open>\<open>look m k = Some i\<close> exactly when the entry at \<open>i\<close> has key \<open>k\<close>.\<close>

lemma unique_append:
  assumes "ok m" "\<And>k i. look m k = Some i \<longleftrightarrow> i < length log \<and> key (log ! i) = k" "look m (key x) = None"
  shows "look (put (key x) (length log) m) k = Some i \<longleftrightarrow>
     i < length (log @ [x]) \<and> key ((log @ [x]) ! i) = k"
  using assms(2) [of k i] assms(2) [of "key x"] assms(3)
  by (auto simp: look_put [OF assms(1)] nth_append less_Suc_eq)

lemma unique_keys:
  assumes "\<And>k i. look m k = Some i \<longleftrightarrow> i < length log \<and> key (log ! i) = k"
  shows "distinct (map key log)"
  unfolding distinct_conv_nth
proof (intro allI impI)
  fix i j
  assume ij: "i < length (map key log)" "j < length (map key log)" "i \<noteq> j"
  then have "look m (key (log ! i)) = Some i" "look m (key (log ! j)) = Some j" using assms by auto
  with ij show "map key log ! i \<noteq> map key log ! j" by auto
qed

lemma last_append:
  assumes "ok m" "\<And>k. look m k = (if positions sel log k = [] then None else Some (last (positions sel log k)))"
  shows "look (case sel x of None \<Rightarrow> m | Some k' \<Rightarrow> put k' (length log) m) k =
     (if positions sel (log @ [x]) k = [] then None else Some (last (positions sel (log @ [x]) k)))"
  using assms by (auto simp: positions_append look_put split: option.splits)

end

locale shared_index = keyed_map empty put look ok
  for empty :: 'm and put :: "'k \<Rightarrow> nat list \<Rightarrow> 'm \<Rightarrow> 'm" and look and ok
begin

lemma shared_append:
  assumes "ok m" "\<And>k. look m k = (if positions sel log k = [] then None else Some (positions sel log k))"
  shows "look (case sel x of None \<Rightarrow> m
               | Some k' \<Rightarrow> put k' ((case look m k' of Some is \<Rightarrow> is | None \<Rightarrow> []) @ [length log]) m) k =
     (if positions sel (log @ [x]) k = [] then None else Some (positions sel (log @ [x]) k))"
  using assms by (auto simp: positions_append look_put split: option.splits)

lemma shared_ok:
  "ok m \<Longrightarrow> ok (case sel x of None \<Rightarrow> m
               | Some k' \<Rightarrow> put k' ((case look m k' of Some is \<Rightarrow> is | None \<Rightarrow> []) @ [n]) m)"
  by (auto simp: ok_put split: option.splits)

end

section \<open>The maps of the model\<close>

lemma smap_ok_Nil [simp]: "smap_ok []"
  by (simp add: smap_ok_def)

interpretation um: keyed_map "[]" smap_put map_of smap_ok
  by unfold_locales (simp_all add: smap_lookup_put smap_put_ok)

interpretation uidx: unique_index "[]" smap_put map_of smap_ok
  by unfold_locales

interpretation sidx: shared_index "[]" smap_put map_of smap_ok
  by unfold_locales

definition unique_exact :: "('a \<Rightarrow> 'k::linorder) \<Rightarrow> 'a list \<Rightarrow> ('k, nat) umap \<Rightarrow> bool" where
  "unique_exact key log m \<longleftrightarrow> smap_ok m \<and> (\<forall>k i. map_of m k = Some i \<longleftrightarrow> i < length log \<and> key (log ! i) = k)"

definition shared_exact :: "('a \<Rightarrow> 'k::linorder option) \<Rightarrow> 'a list \<Rightarrow> ('k, nat list) umap \<Rightarrow> bool" where
  "shared_exact sel log m \<longleftrightarrow> smap_ok m \<and>
     (\<forall>k. map_of m k = (if positions sel log k = [] then None else Some (positions sel log k)))"

definition last_exact :: "('a \<Rightarrow> 'k::linorder option) \<Rightarrow> 'a list \<Rightarrow> ('k, nat) umap \<Rightarrow> bool" where
  "last_exact sel log m \<longleftrightarrow> smap_ok m \<and>
     (\<forall>k. map_of m k = (if positions sel log k = [] then None else Some (last (positions sel log k))))"

lemma exact_Nil [simp]: "unique_exact key [] []" "shared_exact sel [] []" "last_exact sel [] []"
  by (simp_all add: unique_exact_def shared_exact_def last_exact_def)

lemma unique_exact_append:
  "unique_exact key log m \<Longrightarrow> map_of m (key x) = None \<Longrightarrow>
   unique_exact key (log @ [x]) (smap_put (key x) (length log) m)"
proof -
  assume "unique_exact key log m" and new: "map_of m (key x) = None"
  then have ok: "smap_ok m" and ex: "\<And>k i. map_of m k = Some i \<longleftrightarrow> i < length log \<and> key (log ! i) = k"
    unfolding unique_exact_def by blast+
  show ?thesis
    unfolding unique_exact_def
    by (intro conjI allI uidx.unique_append [OF ok ex new] smap_put_ok ok)
qed

lemma unique_exact_distinct: "unique_exact key log m \<Longrightarrow> distinct (map key log)"
  unfolding unique_exact_def using uidx.unique_keys [of m log key] by blast

lemma unique_exact_None: "unique_exact key log m \<Longrightarrow> map_of m k = None \<longleftrightarrow> k \<notin> key ` set log"
  unfolding unique_exact_def by (metis (no_types, lifting) image_iff in_set_conv_nth not_None_eq)

lemma shared_exact_append:
  assumes "shared_exact sel log m"
  shows "shared_exact sel (log @ [x]) (case sel x of None \<Rightarrow> m | Some k \<Rightarrow> idx_push k (length log) m)"
proof -
  from assms have ok: "smap_ok m"
    and ex: "\<And>k. map_of m k = (if positions sel log k = [] then None else Some (positions sel log k))"
    unfolding shared_exact_def by blast+
  show ?thesis
    unfolding shared_exact_def idx_push_def
    by (intro conjI allI sidx.shared_append [OF ok ex] sidx.shared_ok [OF ok])
qed

lemma last_exact_append:
  assumes "last_exact sel log m"
  shows "last_exact sel (log @ [x]) (case sel x of None \<Rightarrow> m | Some k \<Rightarrow> smap_put k (length log) m)"
proof -
  from assms have ok: "smap_ok m"
    and ex: "\<And>k. map_of m k = (if positions sel log k = [] then None else Some (last (positions sel log k)))"
    unfolding last_exact_def by blast+
  show ?thesis
    unfolding last_exact_def
    by (intro conjI allI uidx.last_append [OF ok ex]) (simp add: ok smap_put_ok split: option.split)
qed

text \<open>The two ways a log entry selects a key: an identity that must be valid, and a plain number.\<close>

definition valid_key :: "('a \<Rightarrow> 't Id) \<Rightarrow> 'a \<Rightarrow> 't Id option" where
  "valid_key f x = (if id_valid (f x) then Some (f x) else None)"

lemma shared_exact_push_id:
  "shared_exact (valid_key f) log m \<Longrightarrow> shared_exact (valid_key f) (log @ [x]) (idx_push_id (f x) (length log) m)"
  using shared_exact_append [of "valid_key f" log m x] by (simp add: valid_key_def idx_push_id_def split: if_splits)

lemma shared_exact_push:
  "shared_exact (\<lambda>x. Some (f x)) log m \<Longrightarrow> shared_exact (\<lambda>x. Some (f x)) (log @ [x]) (idx_push (f x) (length log) m)"
  using shared_exact_append [of "\<lambda>x. Some (f x)" log m x] by simp

lemma last_exact_put_id:
  "last_exact (valid_key f) log m \<Longrightarrow>
   last_exact (valid_key f) (log @ [x]) (if id_valid (f x) then smap_put (f x) (length log) m else m)"
  using last_exact_append [of "valid_key f" log m x] by (simp add: valid_key_def split: if_splits)

end
