(* ===== verification/Obs_Invariants.thy ===== *)
theory Obs_Invariants
  imports Log_Index
begin

text \<open>
  What the observatory maintains. \<open>consistent\<close> says that every index is exactly the log it indexes,
  that outcomes belong to decisions and that source authority dominates the admitted evidence; it
  survives recovery too. \<open>admitted\<close> says what validation guarantees of every stored record, and
  holds of the states that live operations reach. The operations are the steps of a transition
  relation, and both are proved by induction over it.
\<close>

section \<open>Consistency\<close>

definition obs_indexed :: "Impl \<Rightarrow> bool" where
  "obs_indexed I \<longleftrightarrow>
     unique_exact obs_observation_id (im_obs I) (im_obs_by_id I) \<and>
     shared_exact (valid_key obs_workload_id) (im_obs I) (idx_obs_wl I) \<and>
     shared_exact (valid_key obs_request_id) (im_obs I) (idx_obs_req I) \<and>
     shared_exact (valid_key obs_node_id) (im_obs I) (idx_obs_node I) \<and>
     shared_exact (valid_key obs_device_id) (im_obs I) (idx_obs_dev I) \<and>
     shared_exact (valid_key obs_source_id) (im_obs I) (idx_obs_src I) \<and>
     shared_exact (\<lambda>ob. Some (obs_source_generation ob)) (im_obs I) (idx_obs_gen I) \<and>
     shared_exact (\<lambda>ob. Some (obs_epoch ob)) (im_obs I) (idx_obs_epoch I) \<and>
     shared_exact (valid_key obs_namespace_id) (im_obs I) (idx_obs_ns I) \<and>
     shared_exact (valid_key obs_attempt_id) (im_obs I) (idx_obs_attempt I)"

definition dec_indexed :: "Impl \<Rightarrow> bool" where
  "dec_indexed I \<longleftrightarrow>
     unique_exact dec_decision_id (im_dec I) (im_dec_by_id I) \<and>
     shared_exact (valid_key dec_workload_id) (im_dec I) (idx_dec_wl I) \<and>
     shared_exact (valid_key dec_request_id) (im_dec I) (idx_dec_req I) \<and>
     shared_exact (valid_key dec_node_id) (im_dec I) (idx_dec_node I) \<and>
     shared_exact (valid_key dec_device_id) (im_dec I) (idx_dec_dev I) \<and>
     shared_exact (\<lambda>d. Some (dec_epoch d)) (im_dec I) (idx_dec_epoch I) \<and>
     shared_exact (valid_key dec_namespace_id) (im_dec I) (idx_dec_ns I) \<and>
     shared_exact (\<lambda>d. Some (dec_policy_generation d)) (im_dec I) (idx_dec_pol I) \<and>
     shared_exact (valid_key dec_selected_candidate) (im_dec I) (idx_dec_sel I) \<and>
     last_exact (valid_key dec_attempt_id) (im_dec I) (idx_dec_attempt I)"

definition outcomes_ok :: "Impl \<Rightarrow> bool" where
  "outcomes_ok I \<longleftrightarrow> smap_ok (im_outcomes I) \<and>
     (\<forall>k x. map_of (im_outcomes I) k = Some x \<longrightarrow> out_decision_id x = k \<and> map_of (im_dec_by_id I) k \<noteq> None)"

definition authority_ok :: "Impl \<Rightarrow> bool" where
  "authority_ok I \<longleftrightarrow> smap_ok (im_src_gen I) \<and> smap_ok (im_src_boot I) \<and>
     (\<forall>ob \<in> set (im_obs I). obs_source_generation ob \<le> current_source_generation (obs_source_id ob) I)"

definition sources_ok :: "Impl \<Rightarrow> bool" where
  "sources_ok I \<longleftrightarrow> smap_ok (im_sources I) \<and> smap_ok (im_src_health I) \<and> smap_ok (im_src_last_seen I) \<and>
     (\<forall>k d. map_of (im_sources I) k = Some d \<longrightarrow> src_source_id d = k)"

definition consistent :: "Impl \<Rightarrow> bool" where
  "consistent I \<longleftrightarrow> obs_indexed I \<and> dec_indexed I \<and> outcomes_ok I \<and> authority_ok I \<and> sources_ok I"

lemmas inv_defs = obs_indexed_def dec_indexed_def outcomes_ok_def authority_ok_def sources_ok_def

lemma consistent_init: "consistent (Impl_init c)"
  by (simp add: consistent_def inv_defs Impl_init_def)

section \<open>The pieces of the operations\<close>

lemma obs_indexed_store:
  "obs_indexed I \<Longrightarrow> map_of (im_obs_by_id I) (obs_observation_id ob) = None \<Longrightarrow> obs_indexed (store_obs ob I)"
  by (simp add: obs_indexed_def store_obs_def index_obs_def Let_def unique_exact_append
      shared_exact_push_id shared_exact_push [where f = obs_source_generation] shared_exact_push [where f = obs_epoch])

lemma dec_indexed_store:
  "dec_indexed I \<Longrightarrow> map_of (im_dec_by_id I) (dec_decision_id d) = None \<Longrightarrow> dec_indexed (store_dec d I)"
  by (simp add: dec_indexed_def store_dec_def index_dec_def Let_def unique_exact_append last_exact_put_id
      shared_exact_push_id shared_exact_push [where f = dec_epoch] shared_exact_push [where f = dec_policy_generation])

lemma store_obs_fields [simp]:
  "im_obs (store_obs ob I) = im_obs I @ [ob]" "im_dec (store_obs ob I) = im_dec I"
  "im_dec_by_id (store_obs ob I) = im_dec_by_id I" "im_outcomes (store_obs ob I) = im_outcomes I"
  "im_src_gen (store_obs ob I) = im_src_gen I" "im_src_boot (store_obs ob I) = im_src_boot I"
  "im_sources (store_obs ob I) = im_sources I" "im_src_health (store_obs ob I) = im_src_health I"
  "im_src_last_seen (store_obs ob I) = im_src_last_seen I" "im_events (store_obs ob I) = im_events I"
  "im_cfg (store_obs ob I) = im_cfg I" "im_coordinator (store_obs ob I) = im_coordinator I"
  "im_rejected (store_obs ob I) = im_rejected I" "im_superseded (store_obs ob I) = im_superseded I"
  "idx_dec_attempt (store_obs ob I) = idx_dec_attempt I" "im_snapshot_count (store_obs ob I) = im_snapshot_count I"
  "dec_indexed (store_obs ob I) = dec_indexed I"
  by (simp_all add: store_obs_def index_obs_def Let_def dec_indexed_def)

lemma store_dec_fields [simp]:
  "im_obs (store_dec d I) = im_obs I" "im_dec (store_dec d I) = im_dec I @ [d]"
  "im_obs_by_id (store_dec d I) = im_obs_by_id I" "im_outcomes (store_dec d I) = im_outcomes I"
  "im_src_gen (store_dec d I) = im_src_gen I" "im_src_boot (store_dec d I) = im_src_boot I"
  "im_sources (store_dec d I) = im_sources I" "im_src_health (store_dec d I) = im_src_health I"
  "im_src_last_seen (store_dec d I) = im_src_last_seen I" "im_events (store_dec d I) = im_events I"
  "im_cfg (store_dec d I) = im_cfg I" "im_coordinator (store_dec d I) = im_coordinator I"
  "im_rejected (store_dec d I) = im_rejected I" "im_superseded (store_dec d I) = im_superseded I"
  "im_dec_by_id (store_dec d I) = smap_put (dec_decision_id d) (length (im_dec I)) (im_dec_by_id I)"
  "im_snapshot_count (store_dec d I) = im_snapshot_count I"
  "obs_indexed (store_dec d I) = obs_indexed I"
  by (simp_all add: store_dec_def index_dec_def Let_def obs_indexed_def)

lemma adopt_authority_fields [simp]:
  "im_obs (adopt_authority ob I) = im_obs I" "im_dec (adopt_authority ob I) = im_dec I"
  "im_obs_by_id (adopt_authority ob I) = im_obs_by_id I"
  "im_dec_by_id (adopt_authority ob I) = im_dec_by_id I" "im_outcomes (adopt_authority ob I) = im_outcomes I"
  "im_sources (adopt_authority ob I) = im_sources I" "im_src_health (adopt_authority ob I) = im_src_health I"
  "im_src_last_seen (adopt_authority ob I) = im_src_last_seen I" "im_events (adopt_authority ob I) = im_events I"
  "im_cfg (adopt_authority ob I) = im_cfg I" "im_coordinator (adopt_authority ob I) = im_coordinator I"
  "im_rejected (adopt_authority ob I) = im_rejected I"
  "idx_dec_attempt (adopt_authority ob I) = idx_dec_attempt I"
  "im_snapshot_count (adopt_authority ob I) = im_snapshot_count I"
  "obs_indexed (adopt_authority ob I) = obs_indexed I" "dec_indexed (adopt_authority ob I) = dec_indexed I"
  by (simp_all add: adopt_authority_def Let_def obs_indexed_def dec_indexed_def)

lemma current_after_adopt:
  "smap_ok (im_src_gen I) \<Longrightarrow> current_source_generation k (adopt_authority ob I) =
     (if k = obs_source_id ob then max (obs_source_generation ob) (current_source_generation k I)
      else current_source_generation k I)"
  by (auto simp: adopt_authority_def Let_def current_source_generation_def smap_lookup_put max_def
      split: option.splits)

lemma authority_ok_adopt: "authority_ok I \<Longrightarrow> authority_ok (adopt_authority ob I)"
proof -
  assume ok: "authority_ok I"
  then have "smap_ok (im_src_gen (adopt_authority ob I))" "smap_ok (im_src_boot (adopt_authority ob I))"
    by (simp_all add: authority_ok_def adopt_authority_def Let_def smap_put_ok)
  with ok show ?thesis
    by (auto simp: authority_ok_def current_after_adopt max_def)
qed

lemma consistent_reject [simp]: "consistent (snd (reject msg I)) = consistent I"
  by (simp add: consistent_def inv_defs reject_def current_source_generation_def)

lemma consistent_accept [simp]: "consistent (snd (accept I)) = consistent I"
  by (simp add: consistent_def inv_defs accept_def Let_def current_source_generation_def)

lemma consistent_adopt: "consistent I \<Longrightarrow> consistent (adopt_authority ob I)"
  by (simp add: consistent_def authority_ok_adopt) (simp add: outcomes_ok_def sources_ok_def)

lemma consistent_store_obs:
  assumes "consistent I" "map_of (im_obs_by_id I) (obs_observation_id ob) = None"
    and "obs_source_generation ob \<le> current_source_generation (obs_source_id ob) I"
  shows "consistent (store_obs ob I)"
  using assms
  by (auto simp: consistent_def obs_indexed_store outcomes_ok_def sources_ok_def authority_ok_def
      current_source_generation_def)

lemma consistent_store_dec:
  assumes "consistent I" "map_of (im_dec_by_id I) (dec_decision_id d) = None"
  shows "consistent (store_dec d I)"
proof -
  have "smap_ok (im_dec_by_id I)" using assms(1) by (simp add: consistent_def dec_indexed_def unique_exact_def)
  then show ?thesis
    using assms
    by (auto simp: consistent_def dec_indexed_store outcomes_ok_def sources_ok_def authority_ok_def
        current_source_generation_def smap_lookup_put)
qed

section \<open>The ingest operations, branch by branch\<close>

text \<open>An observation that gets past the authority checks.\<close>

definition obs_authorised :: "PlacementObservation \<Rightarrow> Impl \<Rightarrow> bool" where
  "obs_authorised ob I \<longleftrightarrow>
     id_valid (obs_observation_id ob) \<and> id_valid (obs_source_id ob) \<and>
     obs_source_generation ob \<noteq> 0 \<and> obs_observation_generation ob \<noteq> 0 \<and>
     map_of (im_obs_by_id I) (obs_observation_id ob) = None \<and>
     (cfg_enforce_stale_source_generation (im_cfg I) \<longrightarrow>
        current_source_generation (obs_source_id ob) I \<le> obs_source_generation ob) \<and>
     (cfg_enforce_stale_worker_boot (im_cfg I) \<and>
        obs_source_generation ob = current_source_generation (obs_source_id ob) I \<longrightarrow>
      trusted_boot (obs_source_id ob) I \<in> {None, Some (obs_worker_boot ob)})"

definition obs_content_ok :: "PlacementObservation \<Rightarrow> Impl \<Rightarrow> bool" where
  "obs_content_ok ob I \<longleftrightarrow> \<not> stale_epoch (obs_coordinator_epoch ob) I \<and> field_error (obs_fields ob) = None"

abbreviation correlated :: "PlacementObservation \<Rightarrow> PlacementObservation" where
  "correlated ob \<equiv> ob\<lparr>obs_lifecycle := LifecycleState.Correlated\<rparr>"

lemma if_reject:
  "(\<not> c \<Longrightarrow> \<exists>m. X = reject m I) \<Longrightarrow> \<exists>m. (if c then reject msg I else X) = reject m I"
  by auto

lemma ingest_unauthorised:
  assumes "\<not> obs_authorised ob I"
  shows "\<exists>msg. ingest ob I = reject msg I"
  unfolding ingest_def Let_def
proof (intro if_reject)
  assume "\<not> id_nil (obs_observation_id ob)" "\<not> id_nil (obs_source_id ob)" "obs_source_generation ob \<noteq> 0"
    "obs_observation_generation ob \<noteq> 0" "\<not> map_of (im_obs_by_id I) (obs_observation_id ob) \<noteq> None"
    "\<not> (cfg_enforce_stale_source_generation (im_cfg I) \<and>
        obs_source_generation ob < current_source_generation (obs_source_id ob) I)"
    "\<not> (cfg_enforce_stale_worker_boot (im_cfg I) \<and>
        obs_source_generation ob = current_source_generation (obs_source_id ob) I \<and>
        (case trusted_boot (obs_source_id ob) I of None \<Rightarrow> False | Some b \<Rightarrow> obs_worker_boot ob \<noteq> b))"
  then have "obs_authorised ob I"
    by (auto simp: obs_authorised_def id_valid_nil not_less split: option.splits)
  with assms show "\<exists>m. (if stale_epoch (obs_coordinator_epoch ob) (adopt_authority ob I)
      then reject ''stale coordinator epoch'' (adopt_authority ob I)
      else case field_error (obs_fields ob) of
        None \<Rightarrow> accept (store_obs (correlated ob) (adopt_authority ob I))
      | Some msg \<Rightarrow> reject msg (adopt_authority ob I)) = reject m I"
    by contradiction
qed

lemma ingest_authorised:
  assumes "obs_authorised ob I"
  shows "ingest ob I =
    (if stale_epoch (obs_coordinator_epoch ob) (adopt_authority ob I)
     then reject ''stale coordinator epoch'' (adopt_authority ob I)
     else case field_error (obs_fields ob) of
       None \<Rightarrow> accept (store_obs (correlated ob) (adopt_authority ob I))
     | Some msg \<Rightarrow> reject msg (adopt_authority ob I))"
proof -
  have "\<not> id_nil (obs_observation_id ob)" "\<not> id_nil (obs_source_id ob)" "obs_source_generation ob \<noteq> 0"
    "obs_observation_generation ob \<noteq> 0" "\<not> map_of (im_obs_by_id I) (obs_observation_id ob) \<noteq> None"
    "\<not> (cfg_enforce_stale_source_generation (im_cfg I) \<and>
        obs_source_generation ob < current_source_generation (obs_source_id ob) I)"
    "\<not> (cfg_enforce_stale_worker_boot (im_cfg I) \<and>
        obs_source_generation ob = current_source_generation (obs_source_id ob) I \<and>
        (case trusted_boot (obs_source_id ob) I of None \<Rightarrow> False | Some b \<Rightarrow> obs_worker_boot ob \<noteq> b))"
    using assms by (auto simp: obs_authorised_def id_valid_nil not_less split: option.splits)
  then show ?thesis unfolding ingest_def Let_def by (simp only: if_False)
qed

lemma ingest_accepts:
  "obs_authorised ob I \<Longrightarrow> obs_content_ok ob I \<Longrightarrow>
   ingest ob I = accept (store_obs (correlated ob) (adopt_authority ob I))"
  by (auto simp: ingest_authorised obs_content_ok_def stale_epoch_def)

lemma ingest_content_rejected:
  "obs_authorised ob I \<Longrightarrow> \<not> obs_content_ok ob I \<Longrightarrow> \<exists>msg. ingest ob I = reject msg (adopt_authority ob I)"
  by (auto simp: ingest_authorised obs_content_ok_def stale_epoch_def split: option.splits)

lemma ingest_cases:
  obtains (unauthorised) msg where "\<not> obs_authorised ob I" "ingest ob I = reject msg I"
    | (content) msg where "obs_authorised ob I" "\<not> obs_content_ok ob I" "ingest ob I = reject msg (adopt_authority ob I)"
    | (accepted) "obs_authorised ob I" "obs_content_ok ob I"
        "ingest ob I = accept (store_obs (correlated ob) (adopt_authority ob I))"
  using ingest_unauthorised ingest_content_rejected ingest_accepts by meson

text \<open>What \<open>ingest_decision\<close> asks of a decision by itself, and against the state.\<close>

definition decision_valid :: "PlacementDecision \<Rightarrow> bool" where
  "decision_valid d \<longleftrightarrow>
     id_valid (dec_decision_id d) \<and> dec_placement_generation d \<noteq> 0 \<and> id_valid (dec_selected_candidate d) \<and>
     (cset_complete (dec_candidate_set d) \<longrightarrow>
        dec_selected_candidate d \<in> cand_candidate_id ` set (cset_candidates (dec_candidate_set d)) \<and>
        \<not> cset_reconstructed (dec_candidate_set d)) \<and>
     finite_cost d \<and> \<not> list_ex impossible_memory (cset_candidates (dec_candidate_set d))"

definition decision_admissible :: "PlacementDecision \<Rightarrow> Impl \<Rightarrow> bool" where
  "decision_admissible d I \<longleftrightarrow>
     decision_valid d \<and> map_of (im_dec_by_id I) (dec_decision_id d) = None \<and>
     (id_valid (dec_attempt_id d) \<longrightarrow>
        (case map_of (idx_dec_attempt I) (dec_attempt_id d) of
           Some i \<Rightarrow> dec_decision_id (im_dec I ! i) = dec_decision_id d | None \<Rightarrow> True)) \<and>
     \<not> stale_epoch (prov_coordinator_epoch (dec_provenance d)) I"

lemma ingest_decision_cases:
  obtains (rejected) msg where "\<not> decision_admissible d I" "ingest_decision d I = reject msg I"
    | (accepted) "decision_admissible d I" "ingest_decision d I = accept (store_dec d I)"
proof (cases "decision_admissible d I")
  case True
  then have "ingest_decision d I = accept (store_dec d I)"
    unfolding ingest_decision_def Let_def decision_admissible_def decision_valid_def
    by (auto simp: id_valid_nil split: option.splits)
  with True that show thesis by blast
next
  case False
  have "\<exists>msg. ingest_decision d I = reject msg I"
    unfolding ingest_decision_def Let_def
    by (intro if_reject)
       (use False in \<open>auto simp: decision_admissible_def decision_valid_def id_valid_nil split: option.splits\<close>)
  with False that show thesis by blast
qed

definition outcome_admissible :: "PlacementOutcome \<Rightarrow> Impl \<Rightarrow> bool" where
  "outcome_admissible x I \<longleftrightarrow>
     id_valid (out_decision_id x) \<and> map_of (im_outcomes I) (out_decision_id x) = None \<and>
     (\<exists>i. map_of (im_dec_by_id I) (out_decision_id x) = Some i \<and>
        (id_valid (out_attempt_id x) \<and> id_valid (dec_attempt_id (im_dec I ! i)) \<longrightarrow>
         out_attempt_id x = dec_attempt_id (im_dec I ! i))) \<and>
     out_disposition x \<noteq> OutcomeDisposition.Unknown"

lemma ingest_outcome_cases:
  obtains (rejected) msg where "\<not> outcome_admissible x I" "ingest_outcome x I = reject msg I"
    | (accepted) "outcome_admissible x I"
        "ingest_outcome x I = accept (I\<lparr>im_outcomes := smap_put (out_decision_id x) x (im_outcomes I)\<rparr>)"
proof (cases "outcome_admissible x I")
  case True
  then have "ingest_outcome x I = accept (I\<lparr>im_outcomes := smap_put (out_decision_id x) x (im_outcomes I)\<rparr>)"
    unfolding ingest_outcome_def Let_def outcome_admissible_def by (auto simp: id_valid_nil)
  with True that show thesis by blast
next
  case False
  have "\<exists>msg. ingest_outcome x I = reject msg I"
  proof (cases "map_of (im_dec_by_id I) (out_decision_id x)")
    case None
    then show ?thesis unfolding ingest_outcome_def by auto
  next
    case (Some i)
    show ?thesis
      unfolding ingest_outcome_def Some option.case Let_def
      by (intro if_reject) (use False Some in \<open>auto simp: outcome_admissible_def id_valid_nil\<close>)
  qed
  with False that show thesis by blast
qed

section \<open>Every operation preserves consistency\<close>

lemma consistent_ingest: "consistent I \<Longrightarrow> consistent (snd (ingest ob I))"
proof (cases rule: ingest_cases [of ob I])
  case (accepted)
  assume ok: "consistent I"
  have "consistent (store_obs (correlated ob) (adopt_authority ob I))"
  proof (rule consistent_store_obs)
    show "consistent (adopt_authority ob I)" using ok by (rule consistent_adopt)
    show "map_of (im_obs_by_id (adopt_authority ob I)) (obs_observation_id (correlated ob)) = None"
      using accepted(1) by (simp add: obs_authorised_def)
    show "obs_source_generation (correlated ob)
        \<le> current_source_generation (obs_source_id (correlated ob)) (adopt_authority ob I)"
      using ok by (simp add: current_after_adopt consistent_def authority_ok_def)
  qed
  with accepted(3) show ?thesis by simp
qed (simp_all add: consistent_adopt)

lemma consistent_ingest_decision: "consistent I \<Longrightarrow> consistent (snd (ingest_decision d I))"
  by (cases rule: ingest_decision_cases [of d I]) (simp_all add: consistent_store_dec decision_admissible_def)

lemma consistent_put_outcome:
  assumes "consistent I" "map_of (im_dec_by_id I) (out_decision_id x) \<noteq> None"
  shows "consistent (I\<lparr>im_outcomes := smap_put (out_decision_id x) x (im_outcomes I)\<rparr>)"
proof -
  have "smap_ok (im_outcomes I)" using assms(1) by (simp add: consistent_def outcomes_ok_def)
  then show ?thesis
    using assms by (auto simp: consistent_def inv_defs current_source_generation_def smap_lookup_put smap_put_ok)
qed

lemma consistent_ingest_outcome: "consistent I \<Longrightarrow> consistent (snd (ingest_outcome x I))"
  by (cases rule: ingest_outcome_cases [of x I]) (auto simp: consistent_put_outcome outcome_admissible_def)

lemma current_after_register:
  assumes "smap_ok (im_src_gen I)"
  shows "current_source_generation k (register_source d now I) =
     (if k = src_source_id d then max (src_generation d) (current_source_generation k I)
      else current_source_generation k I)"
  using assms
  by (auto simp: register_source_def Let_def current_source_generation_def smap_lookup_put max_def split: option.splits)

lemma register_source_fields [simp]:
  "im_obs (register_source d now I) = im_obs I" "im_dec (register_source d now I) = im_dec I"
  "im_outcomes (register_source d now I) = im_outcomes I" "im_dec_by_id (register_source d now I) = im_dec_by_id I"
  "obs_indexed (register_source d now I) = obs_indexed I" "dec_indexed (register_source d now I) = dec_indexed I"
  "im_events (register_source d now I) = im_events I" "im_src_health (register_source d now I) = im_src_health I"
  "im_cfg (register_source d now I) = im_cfg I" "idx_dec_attempt (register_source d now I) = idx_dec_attempt I"
  "im_sources (register_source d now I) = smap_put (src_source_id d) d (im_sources I)"
  "im_src_last_seen (register_source d now I) = smap_put (src_source_id d) now (im_src_last_seen I)"
  by (simp_all add: register_source_def Let_def obs_indexed_def dec_indexed_def split: option.split)

lemma consistent_register: "consistent I \<Longrightarrow> consistent (register_source d now I)"
proof -
  assume ok: "consistent I"
  then have g: "smap_ok (im_src_gen I)" by (simp add: consistent_def authority_ok_def)
  have "smap_ok (im_src_gen (register_source d now I))" "smap_ok (im_src_boot (register_source d now I))"
    using ok by (auto simp: consistent_def authority_ok_def register_source_def Let_def smap_put_ok split: option.split)
  then have "authority_ok (register_source d now I)"
    using ok by (auto simp: consistent_def authority_ok_def current_after_register [OF g] max_def)
  moreover have "sources_ok (register_source d now I)"
    using ok by (auto simp: consistent_def sources_ok_def smap_put_ok smap_lookup_put)
  ultimately show ?thesis using ok by (simp add: consistent_def outcomes_ok_def)
qed

lemma consistent_health: "consistent I \<Longrightarrow> consistent (update_source_health k rc now I)"
  by (simp add: consistent_def inv_defs update_source_health_def current_source_generation_def smap_put_ok)

lemma consistent_epoch: "consistent I \<Longrightarrow> consistent (set_coordinator_epoch e I)"
  by (simp add: consistent_def inv_defs set_coordinator_epoch_def current_source_generation_def)

lemma consistent_snapshot: "consistent I \<Longrightarrow> consistent (snd (snapshot order now I))"
  by (simp add: consistent_def inv_defs snapshot_def current_source_generation_def)

section \<open>The transition relation\<close>

inductive live_step :: "Impl \<Rightarrow> Impl \<Rightarrow> bool" where
  step_register: "live_step I (register_source d now I)"
| step_health: "live_step I (update_source_health k rc now I)"
| step_epoch: "live_step I (set_coordinator_epoch e I)"
| step_ingest: "ingest ob I = (r, I') \<Longrightarrow> live_step I I'"
| step_decision: "ingest_decision d I = (r, I') \<Longrightarrow> live_step I I'"
| step_outcome: "ingest_outcome x I = (r, I') \<Longrightarrow> live_step I I'"
| step_snapshot: "snapshot order now I = (s, I') \<Longrightarrow> live_step I I'"

inductive live :: "ObservatoryConfig \<Rightarrow> Impl \<Rightarrow> bool" for c where
  live_init: "live c (Impl_init c)"
| live_next: "live c I \<Longrightarrow> live_step I I' \<Longrightarrow> live c I'"

inductive_cases live_stepE: "live_step I I'"

lemma live_step_consistent: "live_step I I' \<Longrightarrow> consistent I \<Longrightarrow> consistent I'"
proof (induction rule: live_step.induct)
  case (step_ingest ob I r I') then show ?case using consistent_ingest [of I ob] by simp
next
  case (step_decision d I r I') then show ?case using consistent_ingest_decision [of I d] by simp
next
  case (step_outcome x I r I') then show ?case using consistent_ingest_outcome [of I x] by simp
next
  case (step_snapshot order now I s I') then show ?case using consistent_snapshot [of I order now] by simp
qed (simp_all add: consistent_register consistent_health consistent_epoch)

lemma live_consistent: "live c I \<Longrightarrow> consistent I"
  by (induction rule: live.induct) (auto simp: consistent_init live_step_consistent)

section \<open>What was admitted stays valid\<close>

definition observation_admitted :: "PlacementObservation \<Rightarrow> bool" where
  "observation_admitted ob \<longleftrightarrow>
     id_valid (obs_observation_id ob) \<and> id_valid (obs_source_id ob) \<and> obs_source_generation ob \<noteq> 0 \<and>
     obs_observation_generation ob \<noteq> 0 \<and> field_error (obs_fields ob) = None \<and>
     obs_lifecycle ob = LifecycleState.Correlated"

definition outcome_admitted :: "PlacementOutcome \<Rightarrow> Impl \<Rightarrow> bool" where
  "outcome_admitted x I \<longleftrightarrow>
     out_disposition x \<noteq> OutcomeDisposition.Unknown \<and>
     (\<exists>d \<in> set (im_dec I). dec_decision_id d = out_decision_id x \<and>
        (id_valid (out_attempt_id x) \<and> id_valid (dec_attempt_id d) \<longrightarrow> out_attempt_id x = dec_attempt_id d))"

definition admitted :: "Impl \<Rightarrow> bool" where
  "admitted I \<longleftrightarrow>
     (\<forall>ob \<in> set (im_obs I). observation_admitted ob) \<and>
     (\<forall>d \<in> set (im_dec I). decision_valid d) \<and>
     distinct (filter id_valid (map dec_attempt_id (im_dec I))) \<and>
     (\<forall>k x. map_of (im_outcomes I) k = Some x \<longrightarrow> outcome_admitted x I) \<and>
     im_events I = of_nat (length (im_obs I) + length (im_dec I) + length (im_outcomes I))"

lemma admitted_init: "admitted (Impl_init c)"
  by (simp add: admitted_def Impl_init_def)

lemma admitted_cong:
  "im_obs I' = im_obs I \<Longrightarrow> im_dec I' = im_dec I \<Longrightarrow> im_outcomes I' = im_outcomes I \<Longrightarrow>
   im_events I' = im_events I \<Longrightarrow> admitted I' = admitted I"
  by (simp add: admitted_def outcome_admitted_def)

lemma admitted_reject [simp]: "admitted (snd (reject msg I)) = admitted I"
  by (rule admitted_cong) (simp_all add: reject_def)

lemma admitted_adopt [simp]: "admitted (adopt_authority ob I) = admitted I"
  by (rule admitted_cong) simp_all

lemma accept_fields [simp]:
  "im_obs (snd (accept I)) = im_obs I" "im_dec (snd (accept I)) = im_dec I"
  "im_outcomes (snd (accept I)) = im_outcomes I" "im_events (snd (accept I)) = im_events I + 1"
  by (simp_all add: accept_def Let_def)

lemma admitted_accept_obs:
  assumes "admitted I" "observation_admitted ob"
  shows "admitted (snd (accept (store_obs ob I)))"
  using assms by (auto simp: admitted_def outcome_admitted_def)

lemma attempt_unused:
  assumes "dec_indexed I" "decision_admissible d I" "id_valid (dec_attempt_id d)"
  shows "dec_attempt_id d \<notin> dec_attempt_id ` set (im_dec I)"
proof
  assume "dec_attempt_id d \<in> dec_attempt_id ` set (im_dec I)"
  then obtain j where j: "j < length (im_dec I)" "dec_attempt_id (im_dec I ! j) = dec_attempt_id d"
    by (auto simp: in_set_conv_nth)
  let ?ps = "positions (valid_key dec_attempt_id) (im_dec I) (dec_attempt_id d)"
  have "j \<in> set ?ps" using j assms(3) by (simp add: set_positions valid_key_def)
  then have ne: "?ps \<noteq> []" by auto
  with assms(1) have look: "map_of (idx_dec_attempt I) (dec_attempt_id d) = Some (last ?ps)"
    by (simp add: dec_indexed_def last_exact_def)
  have "last ?ps < length (im_dec I)" using last_in_set [OF ne] by (simp add: set_positions)
  moreover have "dec_decision_id (im_dec I ! last ?ps) = dec_decision_id d"
    using look assms(2,3) by (simp add: decision_admissible_def)
  ultimately have "map_of (im_dec_by_id I) (dec_decision_id d) = Some (last ?ps)"
    using assms(1) by (simp add: dec_indexed_def unique_exact_def)
  with assms(2) show False by (simp add: decision_admissible_def)
qed

lemma admitted_accept_dec:
  assumes "admitted I" "dec_indexed I" "decision_admissible d I"
  shows "admitted (snd (accept (store_dec d I)))"
  using assms attempt_unused [OF assms(2,3)]
  by (auto simp: admitted_def outcome_admitted_def decision_admissible_def)

lemma length_smap_put: "map_of m k = None \<Longrightarrow> length (smap_put k v m) = Suc (length m)"
  by (induction k v m rule: smap_put.induct) (auto split: if_splits)

lemma admitted_accept_outcome:
  assumes "admitted I" "consistent I" "outcome_admissible x I"
  shows "admitted (snd (accept (I\<lparr>im_outcomes := smap_put (out_decision_id x) x (im_outcomes I)\<rparr>)))"
proof -
  from assms(3) obtain i where i: "map_of (im_dec_by_id I) (out_decision_id x) = Some i"
    and att: "id_valid (out_attempt_id x) \<and> id_valid (dec_attempt_id (im_dec I ! i)) \<longrightarrow>
         out_attempt_id x = dec_attempt_id (im_dec I ! i)"
    by (auto simp: outcome_admissible_def)
  have "i < length (im_dec I) \<and> dec_decision_id (im_dec I ! i) = out_decision_id x"
    using i assms(2) by (simp add: consistent_def dec_indexed_def unique_exact_def)
  then have "outcome_admitted x I"
    using att assms(3) nth_mem by (fastforce simp: outcome_admitted_def outcome_admissible_def)
  moreover have "smap_ok (im_outcomes I)" using assms(2) by (simp add: consistent_def outcomes_ok_def)
  ultimately show ?thesis
    using assms(1,3)
    by (auto simp: admitted_def outcome_admitted_def outcome_admissible_def smap_lookup_put length_smap_put
        split: if_splits)
qed

lemma live_step_admitted: "live_step I I' \<Longrightarrow> consistent I \<Longrightarrow> admitted I \<Longrightarrow> admitted I'"
proof (induction rule: live_step.induct)
  case (step_register I d now)
  then show ?case by (simp add: admitted_cong [of "register_source d now I" I])
next
  case (step_health I k rc now)
  then show ?case by (subst admitted_cong [of _ I]) (simp_all add: update_source_health_def)
next
  case (step_epoch I e)
  then show ?case by (subst admitted_cong [of _ I]) (simp_all add: set_coordinator_epoch_def)
next
  case (step_ingest ob I r I')
  show ?case
  proof (cases rule: ingest_cases [of ob I])
    case accepted
    then have "observation_admitted (correlated ob)"
      by (simp add: observation_admitted_def obs_authorised_def obs_content_ok_def)
    then have "admitted (snd (accept (store_obs (correlated ob) (adopt_authority ob I))))"
      using step_ingest.prems(2) by (simp add: admitted_accept_obs)
    then show ?thesis using accepted(3) step_ingest.hyps by (metis snd_conv)
  qed (use step_ingest in \<open>auto dest: arg_cong [where f = snd]\<close>)
next
  case (step_decision d I r I')
  then show ?case
    by (cases rule: ingest_decision_cases [of d I])
       (auto dest!: arg_cong [where f = snd] simp: consistent_def admitted_accept_dec)
next
  case (step_outcome x I r I')
  then show ?case
    by (cases rule: ingest_outcome_cases [of x I])
       (auto dest!: arg_cong [where f = snd] simp: admitted_accept_outcome)
next
  case (step_snapshot order now I s I')
  then show ?case by (subst admitted_cong [of _ I]) (auto simp: snapshot_def)
qed

lemma live_admitted: "live c I \<Longrightarrow> admitted I"
  by (induction rule: live.induct) (auto simp: admitted_init live_step_admitted live_consistent)

section \<open>Monotonicity\<close>

lemma ingest_fst:
  "ing_accepted (fst (ingest ob I)) \<longleftrightarrow> obs_authorised ob I \<and> obs_content_ok ob I"
  by (cases rule: ingest_cases [of ob I]) (auto simp: reject_def accept_def Let_def)

lemma ingest_logs:
  "im_obs (snd (ingest ob I)) = im_obs I @ (if obs_authorised ob I \<and> obs_content_ok ob I then [correlated ob] else [])"
  "im_dec (snd (ingest ob I)) = im_dec I" "im_outcomes (snd (ingest ob I)) = im_outcomes I"
  by (cases rule: ingest_cases [of ob I]; simp add: reject_def)+

lemma ingest_decision_logs:
  "im_dec (snd (ingest_decision d I)) = im_dec I @ (if decision_admissible d I then [d] else [])"
  "im_obs (snd (ingest_decision d I)) = im_obs I" "im_outcomes (snd (ingest_decision d I)) = im_outcomes I"
  by (cases rule: ingest_decision_cases [of d I]; simp add: reject_def)+

lemma ingest_outcome_logs:
  "im_outcomes (snd (ingest_outcome x I)) =
     (if outcome_admissible x I then smap_put (out_decision_id x) x (im_outcomes I) else im_outcomes I)"
  "im_obs (snd (ingest_outcome x I)) = im_obs I" "im_dec (snd (ingest_outcome x I)) = im_dec I"
  by (cases rule: ingest_outcome_cases [of x I]; simp add: reject_def)+

definition extends :: "Impl \<Rightarrow> Impl \<Rightarrow> bool" where
  "extends I I' \<longleftrightarrow>
     (\<exists>os. im_obs I' = im_obs I @ os) \<and> (\<exists>ds. im_dec I' = im_dec I @ ds) \<and>
     map_of (im_outcomes I) \<subseteq>\<^sub>m map_of (im_outcomes I')"

lemma extends_refl: "extends I I"
  by (simp add: extends_def)

lemma extends_trans: "extends I J \<Longrightarrow> extends J K \<Longrightarrow> extends I K"
  unfolding extends_def by (metis append.assoc map_le_trans)

lemma extends_outcome:
  "consistent I \<Longrightarrow> extends I (snd (ingest_outcome x I))"
  by (auto simp: extends_def ingest_outcome_logs map_le_def smap_lookup_put consistent_def outcomes_ok_def
      outcome_admissible_def)

lemma live_step_extends: "live_step I I' \<Longrightarrow> consistent I \<Longrightarrow> extends I I'"
proof (induction rule: live_step.induct)
  case (step_ingest ob I r I')
  then show ?case using ingest_logs [of ob I] by (auto simp: extends_def)
next
  case (step_decision d I r I')
  then show ?case using ingest_decision_logs [of d I] by (auto simp: extends_def)
next
  case (step_outcome x I r I')
  then show ?case using extends_outcome [of I x] by simp
qed (auto simp: extends_def update_source_health_def set_coordinator_epoch_def snapshot_def)

lemma ingest_generation:
  assumes "smap_ok (im_src_gen I)"
  shows "current_source_generation k (snd (ingest ob I)) =
     (if k = obs_source_id ob \<and> obs_authorised ob I
      then max (obs_source_generation ob) (current_source_generation k I) else current_source_generation k I)"
proof -
  have r: "current_source_generation k (snd (reject m J)) = current_source_generation k J" for m J
    by (simp add: reject_def current_source_generation_def)
  have a: "current_source_generation k (snd (accept (store_obs ob' J))) = current_source_generation k J" for ob' J
    by (simp add: accept_def Let_def current_source_generation_def)
  show ?thesis
    by (cases rule: ingest_cases [of ob I]) (simp_all add: r a current_after_adopt [OF assms])
qed

lemma live_step_generation:
  "live_step I I' \<Longrightarrow> consistent I \<Longrightarrow> current_source_generation k I \<le> current_source_generation k I'"
proof (induction rule: live_step.induct)
  case (step_register I d now)
  then show ?case by (simp add: consistent_def authority_ok_def current_after_register)
next
  case (step_ingest ob I r I')
  then show ?case using ingest_generation [of I k ob] by (simp add: consistent_def authority_ok_def)
next
  case (step_decision d I r I')
  then show ?case
    by (cases rule: ingest_decision_cases [of d I])
       (auto simp: reject_def accept_def Let_def current_source_generation_def)
next
  case (step_outcome x I r I')
  then show ?case
    by (cases rule: ingest_outcome_cases [of x I])
       (auto simp: reject_def accept_def Let_def current_source_generation_def)
qed (auto simp: update_source_health_def set_coordinator_epoch_def snapshot_def current_source_generation_def)

inductive live_run :: "Impl \<Rightarrow> Impl \<Rightarrow> bool" where
  run_refl: "live_run I I"
| run_step: "live_run I J \<Longrightarrow> live_step J K \<Longrightarrow> live_run I K"

lemma live_run_consistent: "live_run I J \<Longrightarrow> consistent I \<Longrightarrow> consistent J"
  by (induction rule: live_run.induct) (auto simp: live_step_consistent)

lemma live_run_extends: "live_run I J \<Longrightarrow> consistent I \<Longrightarrow> extends I J"
proof (induction rule: live_run.induct)
  case (run_step I J K)
  then show ?case using extends_trans [of I J K] live_step_extends [of J K] live_run_consistent [of I J] by simp
qed (simp add: extends_refl)

lemma live_run_generation:
  "live_run I J \<Longrightarrow> consistent I \<Longrightarrow> current_source_generation k I \<le> current_source_generation k J"
proof (induction rule: live_run.induct)
  case (run_step I J K)
  then show ?case using live_step_generation [of J K k] live_run_consistent [of I J] by auto
qed simp

lemma live_step_cfg: "live_step I I' \<Longrightarrow> im_cfg I' = im_cfg I"
proof (induction rule: live_step.induct)
  case (step_ingest ob I r I')
  then show ?case by (cases rule: ingest_cases [of ob I]) (auto simp: reject_def accept_def Let_def)
next
  case (step_decision d I r I')
  then show ?case by (cases rule: ingest_decision_cases [of d I]) (auto simp: reject_def accept_def Let_def)
next
  case (step_outcome x I r I')
  then show ?case by (cases rule: ingest_outcome_cases [of x I]) (auto simp: reject_def accept_def Let_def)
qed (auto simp: update_source_health_def set_coordinator_epoch_def snapshot_def)

lemma live_run_cfg: "live_run I J \<Longrightarrow> im_cfg J = im_cfg I"
  by (induction rule: live_run.induct) (auto dest: live_step_cfg)

end
