(* ===== verification/Obs_Properties.thy ===== *)
theory Obs_Properties
  imports Obs_Invariants
begin

text \<open>
  The properties of the observatory's live operations, with the sample records their witnesses use:
  admission criteria, immutability of the log, monotone source authority, exact lookups, and the
  places where the code differs from its contract.
\<close>

section \<open>Sample records\<close>

definition sample_obs :: "u64 \<Rightarrow> u64 \<Rightarrow> u64 \<Rightarrow> PlacementObservation" where
  "sample_obs i gen boot = PlacementObservation_default
     \<lparr>obs_observation_id := Id i, obs_observation_generation := 1, obs_source_id := Id 1,
      obs_source_generation := gen, obs_worker_boot := boot\<rparr>"

definition sample_dec :: "u64 \<Rightarrow> PlacementDecision" where
  "sample_dec i = PlacementDecision_default
     \<lparr>dec_decision_id := Id i, dec_placement_generation := 1, dec_selected_candidate := Id 9\<rparr>"

definition sample_out :: "u64 \<Rightarrow> PlacementOutcome" where
  "sample_out i = PlacementOutcome_default\<lparr>out_decision_id := Id i, out_disposition := OutcomeDisposition.Succeeded\<rparr>"

abbreviation fresh :: Impl where
  "fresh \<equiv> Impl_init ObservatoryConfig_default"

lemmas sample_simps =
  sample_obs_def sample_dec_def sample_out_def PlacementObservation_default_def PlacementDecision_default_def
  PlacementOutcome_default_def Impl_init_def ObservatoryConfig_default_def id_valid_def nil_id_def

lemma sample_obs_authorised: "i \<noteq> 0 \<Longrightarrow> gen \<noteq> 0 \<Longrightarrow> obs_authorised (sample_obs i gen boot) fresh"
  by (simp add: obs_authorised_def sample_simps current_source_generation_def trusted_boot_def)

lemma sample_obs_content: "obs_content_ok (sample_obs i gen boot) fresh"
  by (simp add: obs_content_ok_def sample_simps stale_epoch_def)

lemma sample_dec_admissible: "i \<noteq> 0 \<Longrightarrow> decision_admissible (sample_dec i) fresh"
  by (simp add: decision_admissible_def decision_valid_def sample_simps CandidateSet_default_def finite_cost_def
      stale_epoch_def)

section \<open>Invariants\<close>

text \<open>C2. In every state that live operations reach: every index is exactly the log it indexes and the
  maps are well formed, the source generation dominates the admitted observations, every stored
  observation, decision and outcome satisfies the validation rules, valid attempts are used once,
  and the event counter is the number of stored records.\<close>

theorem live_states_are_sound: "live c I \<Longrightarrow> consistent I \<and> admitted I"
  by (simp add: live_consistent live_admitted)

lemma live_states_are_sound_witness:
  "consistent (snd (ingest (sample_obs 1 1 7) fresh)) \<and> admitted (snd (ingest (sample_obs 1 1 7) fresh)) \<and>
   im_obs (snd (ingest (sample_obs 1 1 7) fresh)) \<noteq> []"
proof -
  have "live ObservatoryConfig_default (snd (ingest (sample_obs 1 1 7) fresh))"
    by (rule live_next [OF live_init step_ingest]) (rule prod.collapse [symmetric])
  from live_states_are_sound [OF this] show ?thesis
    by (simp add: ingest_logs sample_obs_authorised sample_obs_content)
qed

text \<open>C31. The log is append-only: no live operation changes or removes a stored observation, decision or
  outcome.\<close>

theorem log_is_append_only:
  "live c I \<Longrightarrow> live_run I J \<Longrightarrow>
   (\<exists>os. im_obs J = im_obs I @ os) \<and> (\<exists>ds. im_dec J = im_dec I @ ds) \<and>
   (\<forall>k x. map_of (im_outcomes I) k = Some x \<longrightarrow> map_of (im_outcomes J) k = Some x)"
  using live_run_extends [of I J] live_consistent [of c I] unfolding extends_def map_le_def by (metis domI)

lemma log_is_append_only_witness:
  "\<exists>os. im_obs (snd (ingest (sample_obs 2 1 7) (snd (ingest (sample_obs 1 1 7) fresh)))) =
        im_obs (snd (ingest (sample_obs 1 1 7) fresh)) @ os"
proof -
  have l: "live ObservatoryConfig_default (snd (ingest (sample_obs 1 1 7) fresh))"
    by (rule live_next [OF live_init step_ingest]) (rule prod.collapse [symmetric])
  have r: "live_run (snd (ingest (sample_obs 1 1 7) fresh))
      (snd (ingest (sample_obs 2 1 7) (snd (ingest (sample_obs 1 1 7) fresh))))"
    by (rule run_step [OF run_refl step_ingest]) (rule prod.collapse [symmetric])
  from log_is_append_only [OF l r] show ?thesis by blast
qed

section \<open>Admission\<close>

text \<open>C3. \<open>ingest\<close> accepts an observation exactly when it is authorised (valid identities and generations,
  not a duplicate, not of a stale generation, not of another worker boot) and its content is valid;
  then the log grows by the observation marked correlated, and otherwise the log is unchanged.\<close>

theorem ingest_accepts_iff:
  "(ing_accepted (fst (ingest ob I)) \<longleftrightarrow> obs_authorised ob I \<and> obs_content_ok ob I) \<and>
   im_obs (snd (ingest ob I)) =
     (if ing_accepted (fst (ingest ob I)) then im_obs I @ [ob\<lparr>obs_lifecycle := LifecycleState.Correlated\<rparr>]
      else im_obs I)"
  by (simp add: ingest_fst ingest_logs)

text \<open>\<open>ingest_decision\<close> accepts a decision exactly when it is valid by itself, new, its attempt is not
  taken by another decision and its coordinator epoch is not stale; it stores it as it is.\<close>

theorem ingest_decision_accepts_iff:
  "(ing_accepted (fst (ingest_decision d I)) \<longleftrightarrow> decision_admissible d I) \<and>
   im_dec (snd (ingest_decision d I)) =
     (if ing_accepted (fst (ingest_decision d I)) then im_dec I @ [d] else im_dec I)"
proof -
  have "ing_accepted (fst (ingest_decision d I)) \<longleftrightarrow> decision_admissible d I"
    by (cases rule: ingest_decision_cases [of d I]) (auto simp: reject_def accept_def Let_def)
  then show ?thesis by (simp add: ingest_decision_logs)
qed



text \<open>Ingesting the same observation again is refused and changes nothing but the counter of rejections.\<close>

theorem duplicate_observation_refused:
  assumes "live c I" "ing_accepted (fst (ingest ob I))" "obs_observation_id ob' = obs_observation_id ob"
  shows "\<not> ing_accepted (fst (ingest ob' (snd (ingest ob I)))) \<and>
    snd (ingest ob' (snd (ingest ob I))) =
      (snd (ingest ob I))\<lparr>im_rejected := im_rejected (snd (ingest ob I)) + 1\<rparr>"
proof -
  let ?J = "snd (ingest ob I)"
  have "consistent ?J" by (rule consistent_ingest [OF live_consistent [OF assms(1)]])
  then have ex: "unique_exact obs_observation_id (im_obs ?J) (im_obs_by_id ?J)"
    by (simp add: consistent_def obs_indexed_def)
  have "obs_observation_id ob \<in> obs_observation_id ` set (im_obs ?J)"
    using assms(2) by (simp add: ingest_logs ingest_fst)
  then have "map_of (im_obs_by_id ?J) (obs_observation_id ob') \<noteq> None"
    using unique_exact_None [OF ex] assms(3) by simp
  then have na: "\<not> obs_authorised ob' ?J" by (simp add: obs_authorised_def)
  from ingest_unauthorised [OF na] obtain msg where "ingest ob' ?J = reject msg ?J" by blast
  then show ?thesis using na by (simp add: ingest_fst) (simp add: reject_def)
qed

lemma duplicate_observation_refused_witness:
  "\<not> ing_accepted (fst (ingest (sample_obs 1 1 7) (snd (ingest (sample_obs 1 1 7) fresh))))"
proof -
  have "ing_accepted (fst (ingest (sample_obs 1 1 7) fresh))"
    by (simp add: ingest_fst sample_obs_authorised sample_obs_content)
  from duplicate_observation_refused [OF live_init this refl] show ?thesis by blast
qed

section \<open>Lookups\<close>

text \<open>C17. Lookups agree with the log: \<open>has_observation\<close> holds of exactly the stored identities, and
  \<open>decision\<close> returns exactly the stored decision of that identity, with its outcome attached.\<close>

theorem lookups_agree_with_log:
  assumes "live c I"
  shows "(has_observation k I \<longleftrightarrow> k \<in> obs_observation_id ` set (im_obs I)) \<and>
    (get_decision i I = Some d' \<longleftrightarrow> (\<exists>d \<in> set (im_dec I). dec_decision_id d = i \<and>
       d' = (case get_outcome i I of Some x \<Rightarrow> d\<lparr>dec_outcome := Some x\<rparr> | None \<Rightarrow> d)))"
proof -
  have c: "consistent I" by (rule live_consistent [OF assms])
  then have o: "unique_exact obs_observation_id (im_obs I) (im_obs_by_id I)"
    and d: "unique_exact dec_decision_id (im_dec I) (im_dec_by_id I)"
    by (simp_all add: consistent_def obs_indexed_def dec_indexed_def)
  have "get_decision i I = Some d' \<longleftrightarrow> (\<exists>j. map_of (im_dec_by_id I) i = Some j \<and>
      d' = (case get_outcome i I of Some x \<Rightarrow> (im_dec I ! j)\<lparr>dec_outcome := Some x\<rparr> | None \<Rightarrow> im_dec I ! j))"
    by (auto simp: get_decision_def get_outcome_def Let_def split: option.splits)
  also have "\<dots> \<longleftrightarrow> (\<exists>d \<in> set (im_dec I). dec_decision_id d = i \<and>
       d' = (case get_outcome i I of Some x \<Rightarrow> d\<lparr>dec_outcome := Some x\<rparr> | None \<Rightarrow> d))"
    using d by (fastforce simp: unique_exact_def in_set_conv_nth)
  finally show ?thesis using unique_exact_None [OF o, of k] by (auto simp: has_observation_def)
qed

lemma lookups_agree_with_log_witness:
  "has_observation (Id 1) (snd (ingest (sample_obs 1 1 7) fresh)) \<and>
   \<not> has_observation (Id 2) (snd (ingest (sample_obs 1 1 7) fresh))"
proof -
  have l: "live ObservatoryConfig_default (snd (ingest (sample_obs 1 1 7) fresh))"
    by (rule live_next [OF live_init step_ingest]) (rule prod.collapse [symmetric])
  show ?thesis
    by (simp add: lookups_agree_with_log [OF l, THEN conjunct1] ingest_logs sample_obs_authorised sample_obs_content)
       (simp add: sample_simps)
qed

section \<open>Where the code departs from its contract\<close>

text \<open>A refused observation is not without effect: \<open>ingest\<close> raises the trusted generation of the source
  before it looks at the coordinator epoch and at the evidence fields. When it then refuses the
  observation, the source's legitimate observations of the generation it had are refused as stale.\<close>

theorem refused_observation_takes_authority:
  assumes "smap_ok (im_src_gen I)" "cfg_enforce_stale_source_generation (im_cfg I)"
    and "obs_authorised ob I" "\<not> obs_content_ok ob I"
    and "obs_source_id ob' = obs_source_id ob" "obs_source_generation ob' < obs_source_generation ob"
  shows "\<not> ing_accepted (fst (ingest ob I)) \<and> im_obs (snd (ingest ob I)) = im_obs I \<and>
    \<not> ing_accepted (fst (ingest ob' (snd (ingest ob I))))"
proof -
  let ?J = "snd (ingest ob I)"
  have g: "obs_source_generation ob \<le> current_source_generation (obs_source_id ob) ?J"
    using assms(3) by (simp add: ingest_generation [OF assms(1)])
  have "im_cfg ?J = im_cfg I" using live_step_cfg [OF step_ingest] by (metis prod.collapse)
  then have "\<not> obs_authorised ob' ?J"
    using g assms(2,5,6) by (auto simp: obs_authorised_def not_le)
  then show ?thesis using assms(4) by (simp add: ingest_fst ingest_logs)
qed

definition poisoned_obs :: PlacementObservation where
  "poisoned_obs = (sample_obs 5 9 7)
     \<lparr>obs_fields := [Measurement_default\<lparr>meas_value := VDouble f64_default_nan\<rparr>]\<rparr>"

lemma refused_observation_takes_authority_witness:
  "\<not> ing_accepted (fst (ingest poisoned_obs fresh)) \<and>
   ing_accepted (fst (ingest (sample_obs 1 1 7) fresh)) \<and>
   \<not> ing_accepted (fst (ingest (sample_obs 1 1 7) (snd (ingest poisoned_obs fresh))))"
proof -
  have a: "obs_authorised poisoned_obs fresh"
    using sample_obs_authorised [of 5 9 7] by (simp add: poisoned_obs_def obs_authorised_def)
  have b: "\<not> obs_content_ok poisoned_obs fresh"
    by (simp add: obs_content_ok_def poisoned_obs_def Measurement_default_def f64_finite_def f64_default_nan_def
        f64_exp_def f64_mag_def)
  have "\<not> ing_accepted (fst (ingest (sample_obs 1 1 7) (snd (ingest poisoned_obs fresh))))"
    using refused_observation_takes_authority [OF _ _ a b, of "sample_obs 1 1 7"]
    by (simp add: poisoned_obs_def sample_simps)
  then show ?thesis
    using a b by (simp add: ingest_fst sample_obs_authorised sample_obs_content)
qed

text \<open>Registering a source again with an older generation leaves the trusted generation alone but
  replaces the stored descriptor by the stale one.\<close>

theorem stale_registration_overwrites:
  assumes "live c I" "src_generation d < current_source_generation (src_source_id d) I"
  shows "map_of (im_sources (register_source d now I)) (src_source_id d) = Some d \<and>
    current_source_generation (src_source_id d) (register_source d now I) =
      current_source_generation (src_source_id d) I"
proof -
  have "consistent I" by (rule live_consistent [OF assms(1)])
  then have "smap_ok (im_src_gen I)" "smap_ok (im_sources I)"
    by (simp_all add: consistent_def authority_ok_def sources_ok_def)
  then show ?thesis
    using assms(2) less_imp_le [OF assms(2)] by (simp add: current_after_register smap_lookup_put max_def)
qed

definition sample_source :: "u64 \<Rightarrow> SourceDescriptor" where
  "sample_source gen = SourceDescriptor_default\<lparr>src_source_id := Id 1, src_generation := gen\<rparr>"

lemma stale_registration_overwrites_witness:
  "map_of (im_sources (register_source (sample_source 2) Timestamp_default
      (register_source (sample_source 5) Timestamp_default fresh))) (Id 1) = Some (sample_source 2)"
proof -
  have l: "live ObservatoryConfig_default (register_source (sample_source 5) Timestamp_default fresh)"
    by (rule live_next [OF live_init step_register])
  from stale_registration_overwrites [OF l, of "sample_source 2"] show ?thesis
    by (simp add: current_after_register sample_source_def Impl_init_def SourceDescriptor_default_def max_def)
qed

text \<open>The comparator of the timeline is not an order: three entries, one of which has no monotonic
  reading, can each be before the next in a circle, so \<open>std::sort\<close> has no defined result.\<close>

theorem timeline_order_cycle:
  "\<exists>a b c. te_before a b \<and> te_before b c \<and> te_before c a"
proof -
  define e where "e w m = \<lparr>te_observation_id = nil_id, te_decision_id = nil_id,
      te_timestamp = \<lparr>ts_wall = w, ts_mono = m, ts_uncertainty_ns = 0\<rparr>,
      te_kind = ''observation'', te_label = ''''\<rparr>" for w m
  have "te_before (e 3 1) (e 1 2)" "te_before (e 1 2) (e 2 0)" "te_before (e 2 0) (e 3 1)"
    by (simp_all add: te_before_def e_def Let_def)
  then show ?thesis by blast
qed

end
