(* ===== verification/Persistence.thy ===== *)
theory Persistence
  imports Obs_Properties Records
begin

text \<open>
  \<open>Observatory::persist\<close> and \<open>Observatory::recover\<close>: the state as a sequence of records and its
  reconstruction. The iteration orders of the two unordered maps that \<open>persist\<close> walks are arguments.
  A file system is a map from paths to contents; \<open>persist\<close> is the sequence of its states.
\<close>

section \<open>Writing\<close>

text \<open>The records in the order \<open>persist\<close> appends them, each with the writer calls of its body.\<close>

definition persist_writers ::
    "(SourceId \<times> SourceDescriptor) list \<Rightarrow> (PlacementDecisionId \<times> PlacementOutcome) list \<Rightarrow> Impl \<Rightarrow>
     (RecordKind \<times> writer) list" where
  "persist_writers src_order out_order I =
     [(EpochRecord, w_u64 (im_coordinator I))] @
     map (\<lambda>(k, d). (SourceDescriptorRecord, write_source_descriptor d)) src_order @
     map (\<lambda>ob. (ObservationRecord, write_observation ob)) (im_obs I) @
     map (\<lambda>d. (DecisionRecord, write_decision d)) (im_dec I) @
     map (\<lambda>(k, x). (OutcomeRecord, write_outcome x)) out_order"

text \<open>\<open>append\<close>: encode one record behind the bytes written so far.\<close>

definition append_record :: "RecordKind \<Rightarrow> writer \<Rightarrow> bytes \<Rightarrow> SerializationError + bytes" where
  "append_record kind w out =
     (case w [] of
        Inl e \<Rightarrow> Inl e
      | Inr body \<Rightarrow>
          (case encode_record kind body kRecordVersion of Inl e \<Rightarrow> Inl e | Inr rec \<Rightarrow> Inr (out @ rec)))"

fun append_records :: "(RecordKind \<times> writer) list \<Rightarrow> bytes \<Rightarrow> SerializationError + bytes" where
  "append_records [] out = Inr out"
| "append_records ((kind, w) # ws) out =
     (case append_record kind w out of Inl e \<Rightarrow> Inl e | Inr out' \<Rightarrow> append_records ws out')"

definition persist_image ::
    "(SourceId \<times> SourceDescriptor) list \<Rightarrow> (PlacementDecisionId \<times> PlacementOutcome) list \<Rightarrow> Impl \<Rightarrow>
     SerializationError + bytes" where
  "persist_image src_order out_order I = append_records (persist_writers src_order out_order I) []"

type_synonym file_system = "string \<Rightarrow> bytes option"

text \<open>The states the file system goes through: write the temporary file, remove the old file, rename.\<close>

definition persist_states :: "string \<Rightarrow> bytes \<Rightarrow> file_system \<Rightarrow> file_system list" where
  "persist_states path img fs =
     (let tmp = path @ ''.tmp'';
          written = fs(tmp \<mapsto> img);
          removed = written(path := None);
          renamed = removed(path := removed tmp, tmp := None)
      in [written, removed, renamed])"

section \<open>Reading\<close>

definition recover_source :: "SourceDescriptor \<Rightarrow> Impl \<Rightarrow> Impl" where
  "recover_source d I =
     (let k = src_source_id d; I1 = I\<lparr>im_sources := smap_put k d (im_sources I)\<rparr> in
      case map_of (im_src_gen I1) k of
        None \<Rightarrow> I1\<lparr>im_src_gen := smap_put k (src_generation d) (im_src_gen I1)\<rparr>
      | Some g \<Rightarrow>
          if src_generation d > g then I1\<lparr>im_src_gen := smap_put k (src_generation d) (im_src_gen I1)\<rparr>
          else I1)"

text \<open>\<open>I.src_gen[o.source_id]\<close> inserts a zero entry when the source is unknown.\<close>

definition recover_obs :: "PlacementObservation \<Rightarrow> Impl \<Rightarrow> Impl" where
  "recover_obs ob I =
     (let k = obs_source_id ob; I1 = store_obs ob I;
          I2 = (if map_of (im_src_gen I1) k = None then I1\<lparr>im_src_gen := smap_put k 0 (im_src_gen I1)\<rparr> else I1)
      in if obs_source_generation ob > current_source_generation k I2
         then I2\<lparr>im_src_gen := smap_put k (obs_source_generation ob) (im_src_gen I2),
                 im_src_boot := smap_put k (obs_worker_boot ob) (im_src_boot I2)\<rparr>
         else I2)"

text \<open>What the loop does with the body of one record: \<open>None\<close> leaves the loop (an exception of the
  reader), otherwise whether the record counts as loaded (\<open>continue\<close> skips the count).\<close>

definition apply_record :: "RecordKind \<Rightarrow> bytes \<Rightarrow> Impl \<Rightarrow> (bool \<times> Impl) option" where
  "apply_record kind body I =
     (case kind of
        EpochRecord \<Rightarrow>
          (case run_reader r_u64 body of Inl e \<Rightarrow> None | Inr (v, r) \<Rightarrow> Some (True, I\<lparr>im_coordinator := v\<rparr>))
      | SourceDescriptorRecord \<Rightarrow>
          (case run_reader read_source_descriptor body of
             Inl e \<Rightarrow> None | Inr (d, r) \<Rightarrow> Some (True, recover_source d I))
      | ObservationRecord \<Rightarrow>
          (case run_reader read_observation body of
             Inl e \<Rightarrow> None
           | Inr (ob, r) \<Rightarrow>
               if map_of (im_obs_by_id I) (obs_observation_id ob) \<noteq> None then Some (False, I)
               else Some (True, recover_obs ob I))
      | DecisionRecord \<Rightarrow>
          (case run_reader read_decision body of
             Inl e \<Rightarrow> None
           | Inr (d, r) \<Rightarrow>
               if map_of (im_dec_by_id I) (dec_decision_id d) \<noteq> None then Some (False, I)
               else Some (True, store_dec d I))
      | OutcomeRecord \<Rightarrow>
          (case run_reader read_outcome body of
             Inl e \<Rightarrow> None
           | Inr (x, r) \<Rightarrow>
               if map_of (im_dec_by_id I) (out_decision_id x) = None then Some (False, I)
               else if map_of (im_outcomes I) (out_decision_id x) \<noteq> None then Some (False, I)
               else Some (True, I\<lparr>im_outcomes := smap_put (out_decision_id x) x (im_outcomes I)\<rparr>))
      | _ \<Rightarrow> Some (True, I))"

lemma decode_consumes: "decode_record data v True = Inr (kind, body, n) \<Longrightarrow> 0 < n \<and> n \<le> length data"
  using decode_record_dest(1,2) [of data v True kind body n]
  by (auto simp: encode_record_layout signed_record_def dest: arg_cong [where f = length])

function recover_loop :: "bytes \<Rightarrow> Impl \<Rightarrow> nat \<Rightarrow> nat \<times> Impl" where
  "recover_loop data I loaded =
     (if data = [] then (loaded, I)
      else case decode_record data kRecordVersion True of
        Inl e \<Rightarrow> (loaded, I)
      | Inr (kind, body, consumed) \<Rightarrow>
          (case apply_record kind body I of
             None \<Rightarrow> (loaded, I)
           | Some (counted, I') \<Rightarrow>
               recover_loop (drop consumed data) I' (if counted then loaded + 1 else loaded)))"
  by auto
termination
  by (relation "measure (\<lambda>(data, I, loaded). length data)") (auto dest: decode_consumes)

declare recover_loop.simps [simp del]

text \<open>\<open>recover\<close> on the contents of the file (an unreadable or empty file loads nothing).\<close>

definition recover :: "bytes \<Rightarrow> Impl \<Rightarrow> nat \<times> Impl" where
  "recover bytes I = (if bytes = [] then (0, I) else recover_loop bytes I 0)"

section \<open>Images as lists of records\<close>

definition encode_rec :: "RecordKind \<times> bytes \<Rightarrow> bytes" where
  "encode_rec r = signed_record (header_bytes (RecordKind_code (fst r)) (of_nat (length (snd r))) kRecordVersion @ snd r)"

definition rec_ok :: "RecordKind \<times> bytes \<Rightarrow> bool" where
  "rec_ok r \<longleftrightarrow> fst r \<in> set RecordKind_all \<and> length (snd r) \<le> unat kMaxBody"

definition image_of :: "(RecordKind \<times> bytes) list \<Rightarrow> bytes" where
  "image_of rs = concat (map encode_rec rs)"

fun load_records :: "(RecordKind \<times> bytes) list \<Rightarrow> Impl \<Rightarrow> nat \<Rightarrow> nat \<times> Impl" where
  "load_records [] I n = (n, I)"
| "load_records (r # rs) I n =
     (case apply_record (fst r) (snd r) I of
        None \<Rightarrow> (n, I)
      | Some (counted, I') \<Rightarrow> load_records rs I' (if counted then n + 1 else n))"

lemma encode_rec_nonempty [simp]: "encode_rec r \<noteq> []"
  by (simp add: encode_rec_def signed_record_def header_bytes_def)

lemma decode_encode_rec:
  "rec_ok r \<Longrightarrow> decode_record (encode_rec r @ rest) kRecordVersion True = Inr (fst r, snd r, length (encode_rec r))"
  using decode_encoded [of "snd r" "fst r" kRecordVersion "encode_rec r" rest True]
  by (simp add: rec_ok_def encode_rec_def encode_record_layout)

lemma decode_cut_rec:
  "rec_ok r \<Longrightarrow> n < length (encode_rec r) \<Longrightarrow> \<exists>e. decode_record (take n (encode_rec r)) kRecordVersion True = Inl e"
  using truncated_record [of "snd r" "fst r" kRecordVersion "encode_rec r" n True]
  by (auto simp: rec_ok_def encode_rec_def encode_record_layout)

lemma recover_step:
  "rec_ok r \<Longrightarrow> recover_loop (encode_rec r @ rest) I n =
     (case apply_record (fst r) (snd r) I of
        None \<Rightarrow> (n, I)
      | Some (counted, I') \<Rightarrow> recover_loop rest I' (if counted then n + 1 else n))"
  by (subst recover_loop.simps) (simp add: decode_encode_rec split: option.split)

lemma recover_cut:
  assumes "rec_ok r" "n < length (encode_rec r)"
  shows "recover_loop (take n (encode_rec r)) I m = (m, I)"
  using decode_cut_rec [OF assms] by (subst recover_loop.simps) auto

text \<open>Loading an image cut at any byte is loading a prefix of its records.\<close>

lemma recover_take:
  "\<forall>r \<in> set rs. rec_ok r \<Longrightarrow> \<exists>j \<le> length rs. recover_loop (take n (image_of rs)) I m = load_records (take j rs) I m"
proof (induction rs arbitrary: n I m)
  case Nil
  then show ?case by (simp add: image_of_def recover_loop.simps)
next
  case (Cons r rs)
  show ?case
  proof (cases "n < length (encode_rec r)")
    case True
    then have "take n (image_of (r # rs)) = take n (encode_rec r)" by (simp add: image_of_def)
    with True Cons.prems have "recover_loop (take n (image_of (r # rs))) I m = load_records (take 0 (r # rs)) I m"
      by (simp add: recover_cut)
    then show ?thesis by (metis le0)
  next
    case False
    let ?n = "n - length (encode_rec r)"
    have t: "take n (image_of (r # rs)) = encode_rec r @ take ?n (image_of rs)"
      using False by (simp add: image_of_def)
    show ?thesis
    proof (cases "apply_record (fst r) (snd r) I")
      case None
      then have "recover_loop (take n (image_of (r # rs))) I m = load_records (take 1 (r # rs)) I m"
        using Cons.prems by (simp add: t recover_step)
      then show ?thesis by (metis One_nat_def Suc_le_mono le0 length_Cons)
    next
      case (Some p)
      obtain counted I' where p: "p = (counted, I')" by fastforce
      obtain j where "j \<le> length rs"
        "recover_loop (take ?n (image_of rs)) I' (if counted then m + 1 else m) =
          load_records (take j rs) I' (if counted then m + 1 else m)"
        using Cons.IH [of ?n I' "if counted then m + 1 else m"] Cons.prems by auto
      then have "recover_loop (take n (image_of (r # rs))) I m = load_records (take (Suc j) (r # rs)) I m"
        using Cons.prems Some p by (simp add: t recover_step)
      then show ?thesis using \<open>j \<le> length rs\<close> by (metis Suc_le_mono length_Cons)
    qed
  qed
qed

lemma recover_image:
  "\<forall>r \<in> set rs. rec_ok r \<Longrightarrow> recover_loop (image_of rs) I m = load_records rs I m"
proof (induction rs arbitrary: I m)
  case Nil
  then show ?case by (simp add: image_of_def recover_loop.simps)
next
  case (Cons r rs)
  then have "recover_loop (image_of (r # rs)) I m = recover_loop (encode_rec r @ image_of rs) I m"
    by (simp add: image_of_def)
  with Cons show ?case by (simp add: recover_step split: option.split)
qed

section \<open>Key-sorted maps are canonical\<close>

lemma smap_distinct: "smap_ok m \<Longrightarrow> distinct (map fst m)"
  by (simp add: smap_ok_def strict_sorted_iff)

lemma smap_ext:
  assumes "smap_ok a" "smap_ok b" "map_of a = map_of b"
  shows "a = b"
proof -
  have s: "set a = set b"
    using assms map_of_inject_set [of a b] by (simp add: smap_distinct)
  then have "map fst a = map fst b"
    using assms(1,2) strict_sorted_equal [of "map fst b" "map fst a"] by (simp add: smap_ok_def)
  moreover have "c = map (\<lambda>k. (k, the (map_of c k))) (map fst c)" if "smap_ok c" for c :: "('a \<times> 'b) list"
  proof -
    have "\<forall>p \<in> set c. map_of c (fst p) = Some (snd p)"
      using smap_distinct [OF that] by (auto intro: map_of_is_SomeI)
    then show ?thesis by (auto intro!: nth_equalityI)
  qed
  ultimately show ?thesis using assms by metis
qed

definition smap_build :: "('k::linorder \<times> 'v) list \<Rightarrow> ('k \<times> 'v) list \<Rightarrow> ('k \<times> 'v) list" where
  "smap_build xs m = fold (\<lambda>(k, v). smap_put k v) xs m"

lemma smap_build_ok: "smap_ok m \<Longrightarrow> smap_ok (smap_build xs m)"
  unfolding smap_build_def by (induction xs arbitrary: m) (auto simp: smap_put_ok)

lemma smap_build_lookup:
  "smap_ok m \<Longrightarrow> distinct (map fst xs) \<Longrightarrow> map_of (smap_build xs m) = map_of m ++ map_of xs"
  unfolding smap_build_def
proof (induction xs arbitrary: m)
  case (Cons x xs)
  then show ?case
    by (cases x) (auto simp: smap_put_ok smap_lookup_put map_add_def fun_eq_iff map_of_eq_None_iff [symmetric]
        split: option.splits)
qed simp

text \<open>Whatever order a map is walked in, inserting its entries one by one rebuilds it.\<close>

lemma smap_rebuild:
  assumes "smap_ok m" "mset xs = mset m"
  shows "smap_build xs [] = m"
proof (rule smap_ext)
  have set: "set xs = set m" using assms(2) by (metis set_mset_mset)
  have d: "distinct (map fst xs)"
  proof -
    have "mset (map fst xs) = mset (map fst m)" using assms(2) by simp
    then show ?thesis using smap_distinct [OF assms(1)] mset_eq_imp_distinct_iff by blast
  qed
  show "smap_ok (smap_build xs [])" by (simp add: smap_build_ok)
  have "map_of xs = map_of m" using set d smap_distinct [OF assms(1)] map_of_inject_set by blast
  then show "map_of (smap_build xs []) = map_of m" by (simp add: smap_build_lookup d)
qed (rule assms(1))

section \<open>Loading, kind by kind\<close>

definition body_of :: "writer \<Rightarrow> bytes" where
  "body_of w = (case w [] of Inl e \<Rightarrow> [] | Inr b \<Rightarrow> b)"

definition writer_ok :: "RecordKind \<times> writer \<Rightarrow> bool" where
  "writer_ok p \<longleftrightarrow> fst p \<in> set RecordKind_all \<and> (\<exists>b. snd p [] = Inr b \<and> length b \<le> unat kMaxBody)"

definition written_record :: "RecordKind \<times> writer \<Rightarrow> RecordKind \<times> bytes" where
  "written_record p = (fst p, body_of (snd p))"

lemma append_records_image:
  "\<forall>p \<in> set ws. writer_ok p \<Longrightarrow> append_records ws out = Inr (out @ image_of (map written_record ws))"
proof (induction ws arbitrary: out)
  case Nil
  then show ?case by (simp add: image_of_def)
next
  case (Cons p ws)
  obtain k w where p: "p = (k, w)" by fastforce
  from Cons.prems p obtain b where b: "w [] = Inr b" by (auto simp: writer_ok_def)
  then have "append_record k w out = Inr (out @ encode_rec (written_record p))"
    by (simp add: append_record_def encode_record_layout encode_rec_def written_record_def body_of_def p)
  with Cons p show ?case by (simp add: image_of_def)
qed

lemma written_record_ok: "writer_ok p \<Longrightarrow> rec_ok (written_record p)"
  by (auto simp: writer_ok_def rec_ok_def written_record_def body_of_def)

lemma read_body:
  "codec wr rdr ok \<Longrightarrow> ok x \<Longrightarrow> \<exists>r. run_reader rdr (body_of (wr x)) = Inr (x, r)"
  using codec.written [of wr rdr ok x thesis for thesis] codec.read_back [of wr rdr ok x _ "[]"]
  by (auto simp: body_of_def split: sum.split)
     (metis codec.written sum.distinct(1))

interpretation cdc_u64: codec w_u64 r_u64 "\<lambda>v. True"
  by unfold_locales (simp_all add: codes_u64 stable_u64)

lemma load_epoch: "apply_record EpochRecord (body_of (w_u64 v)) I = Some (True, I\<lparr>im_coordinator := v\<rparr>)"
  using read_body [OF cdc_u64.codec_axioms, of v] by (auto simp: apply_record_def)

lemma load_source:
  "SourceDescriptor_ok d \<Longrightarrow>
   apply_record SourceDescriptorRecord (body_of (write_source_descriptor d)) I = Some (True, recover_source d I)"
  using read_body [OF cdc_source_descriptor.codec_axioms] by (fastforce simp: apply_record_def)

lemma load_obs:
  "PlacementObservation_ok ob \<Longrightarrow> map_of (im_obs_by_id I) (obs_observation_id ob) = None \<Longrightarrow>
   apply_record ObservationRecord (body_of (write_observation ob)) I = Some (True, recover_obs ob I)"
  using read_body [OF cdc_observation.codec_axioms] by (fastforce simp: apply_record_def)

lemma load_dec:
  "PlacementDecision_ok d \<Longrightarrow> map_of (im_dec_by_id I) (dec_decision_id d) = None \<Longrightarrow>
   apply_record DecisionRecord (body_of (write_decision d)) I = Some (True, store_dec d I)"
  using read_body [OF cdc_decision.codec_axioms] by (fastforce simp: apply_record_def)

definition put_outcome :: "PlacementOutcome \<Rightarrow> Impl \<Rightarrow> Impl" where
  "put_outcome x I = I\<lparr>im_outcomes := smap_put (out_decision_id x) x (im_outcomes I)\<rparr>"

lemma load_outcome:
  "PlacementOutcome_ok x \<Longrightarrow> map_of (im_dec_by_id I) (out_decision_id x) \<noteq> None \<Longrightarrow>
   map_of (im_outcomes I) (out_decision_id x) = None \<Longrightarrow>
   apply_record OutcomeRecord (body_of (write_outcome x)) I = Some (True, put_outcome x I)"
  using read_body [OF cdc_outcome.codec_axioms] by (fastforce simp: apply_record_def put_outcome_def)

lemma load_sources:
  "\<forall>d \<in> set ds. SourceDescriptor_ok d \<Longrightarrow>
   load_records (map (\<lambda>d. (SourceDescriptorRecord, body_of (write_source_descriptor d))) ds @ rs) I n =
   load_records rs (fold recover_source ds I) (n + length ds)"
  by (induction ds arbitrary: I n) (simp_all add: load_source)

lemma recover_obs_fields [simp]:
  "im_obs (recover_obs ob I) = im_obs I @ [ob]" "im_dec (recover_obs ob I) = im_dec I"
  "im_obs_by_id (recover_obs ob I) = smap_put (obs_observation_id ob) (length (im_obs I)) (im_obs_by_id I)"
  "im_dec_by_id (recover_obs ob I) = im_dec_by_id I" "im_outcomes (recover_obs ob I) = im_outcomes I"
  "im_sources (recover_obs ob I) = im_sources I" "im_coordinator (recover_obs ob I) = im_coordinator I"
  "dec_indexed (recover_obs ob I) = dec_indexed I" "im_src_health (recover_obs ob I) = im_src_health I"
  "im_src_last_seen (recover_obs ob I) = im_src_last_seen I" "im_cfg (recover_obs ob I) = im_cfg I"
  by (simp_all add: recover_obs_def Let_def dec_indexed_def) (simp_all add: store_obs_def index_obs_def Let_def)

lemma load_observations:
  "\<forall>ob \<in> set os. PlacementObservation_ok ob \<Longrightarrow> unique_exact obs_observation_id (im_obs I) (im_obs_by_id I) \<Longrightarrow>
   distinct (map obs_observation_id (im_obs I @ os)) \<Longrightarrow>
   load_records (map (\<lambda>ob. (ObservationRecord, body_of (write_observation ob))) os @ rs) I n =
   load_records rs (fold recover_obs os I) (n + length os)"
proof (induction os arbitrary: I n)
  case (Cons ob os)
  have new: "map_of (im_obs_by_id I) (obs_observation_id ob) = None"
    using Cons.prems(2,3) by (auto simp: unique_exact_None)
  then have "unique_exact obs_observation_id (im_obs (recover_obs ob I)) (im_obs_by_id (recover_obs ob I))"
    using Cons.prems(2) by (simp add: unique_exact_append)
  with Cons.prems Cons.IH [of "recover_obs ob I" "n + 1"] new show ?case by (simp add: load_obs)
qed simp

lemma load_decisions:
  "\<forall>d \<in> set ds. PlacementDecision_ok d \<Longrightarrow> unique_exact dec_decision_id (im_dec I) (im_dec_by_id I) \<Longrightarrow>
   distinct (map dec_decision_id (im_dec I @ ds)) \<Longrightarrow>
   load_records (map (\<lambda>d. (DecisionRecord, body_of (write_decision d))) ds @ rs) I n =
   load_records rs (fold store_dec ds I) (n + length ds)"
proof (induction ds arbitrary: I n)
  case (Cons d ds)
  have new: "map_of (im_dec_by_id I) (dec_decision_id d) = None"
    using Cons.prems(2,3) by (auto simp: unique_exact_None)
  then have "unique_exact dec_decision_id (im_dec (store_dec d I)) (im_dec_by_id (store_dec d I))"
    using Cons.prems(2) by (simp add: unique_exact_append)
  with Cons.prems Cons.IH [of "store_dec d I" "n + 1"] new show ?case by (simp add: load_dec)
qed simp

lemma load_outcomes:
  "\<forall>x \<in> set xs. PlacementOutcome_ok x \<and> map_of (im_dec_by_id I) (out_decision_id x) \<noteq> None \<Longrightarrow>
   smap_ok (im_outcomes I) \<Longrightarrow> distinct (map out_decision_id xs) \<Longrightarrow>
   \<forall>x \<in> set xs. map_of (im_outcomes I) (out_decision_id x) = None \<Longrightarrow>
   load_records (map (\<lambda>x. (OutcomeRecord, body_of (write_outcome x))) xs @ rs) I n =
   load_records rs (fold put_outcome xs I) (n + length xs)"
proof (induction xs arbitrary: I n)
  case (Cons x xs)
  have "load_records (map (\<lambda>x. (OutcomeRecord, body_of (write_outcome x))) xs @ rs) (put_outcome x I) (n + 1) =
    load_records rs (fold put_outcome xs (put_outcome x I)) (n + 1 + length xs)"
  proof (rule Cons.IH)
    show "\<forall>y \<in> set xs. map_of (im_outcomes (put_outcome x I)) (out_decision_id y) = None"
    proof
      fix y assume y: "y \<in> set xs"
      then have "out_decision_id y \<noteq> out_decision_id x" using Cons.prems(3) by (metis distinct.simps(2) image_eqI list.set_map list.simps(9))
      then show "map_of (im_outcomes (put_outcome x I)) (out_decision_id y) = None"
        using Cons.prems(2,4) y by (simp add: put_outcome_def smap_lookup_put)
    qed
  qed (use Cons.prems in \<open>auto simp: put_outcome_def smap_put_ok\<close>)
  with Cons.prems show ?case by (simp add: load_outcome)
qed simp

lemma fold_recover_source:
  "im_sources (fold recover_source ds I) = smap_build (map (\<lambda>d. (src_source_id d, d)) ds) (im_sources I)"
  "im_obs (fold recover_source ds I) = im_obs I" "im_dec (fold recover_source ds I) = im_dec I"
  "im_obs_by_id (fold recover_source ds I) = im_obs_by_id I" "im_dec_by_id (fold recover_source ds I) = im_dec_by_id I"
  "im_outcomes (fold recover_source ds I) = im_outcomes I" "im_coordinator (fold recover_source ds I) = im_coordinator I"
  by (induction ds arbitrary: I) (simp_all add: smap_build_def recover_source_def Let_def split: option.split)

lemma fold_recover_obs:
  "im_obs (fold recover_obs os I) = im_obs I @ os" "im_dec (fold recover_obs os I) = im_dec I"
  "im_dec_by_id (fold recover_obs os I) = im_dec_by_id I" "im_outcomes (fold recover_obs os I) = im_outcomes I"
  "im_sources (fold recover_obs os I) = im_sources I" "im_coordinator (fold recover_obs os I) = im_coordinator I"
  by (induction os arbitrary: I) simp_all

lemma fold_store_dec:
  "im_obs (fold store_dec ds I) = im_obs I" "im_dec (fold store_dec ds I) = im_dec I @ ds"
  "im_outcomes (fold store_dec ds I) = im_outcomes I"
  "im_sources (fold store_dec ds I) = im_sources I" "im_coordinator (fold store_dec ds I) = im_coordinator I"
  by (induction ds arbitrary: I) simp_all

lemma fold_put_outcome:
  "im_obs (fold put_outcome xs I) = im_obs I" "im_dec (fold put_outcome xs I) = im_dec I"
  "im_outcomes (fold put_outcome xs I) = smap_build (map (\<lambda>x. (out_decision_id x, x)) xs) (im_outcomes I)"
  "im_sources (fold put_outcome xs I) = im_sources I" "im_coordinator (fold put_outcome xs I) = im_coordinator I"
  by (induction xs arbitrary: I) (simp_all add: smap_build_def put_outcome_def)

section \<open>Recovery keeps the observatory consistent, whatever the bytes\<close>

lemma recover_source_fields [simp]:
  "im_obs (recover_source d I) = im_obs I" "im_dec (recover_source d I) = im_dec I"
  "im_outcomes (recover_source d I) = im_outcomes I" "im_dec_by_id (recover_source d I) = im_dec_by_id I"
  "im_sources (recover_source d I) = smap_put (src_source_id d) d (im_sources I)"
  "im_src_health (recover_source d I) = im_src_health I" "im_src_last_seen (recover_source d I) = im_src_last_seen I"
  "im_src_boot (recover_source d I) = im_src_boot I"
  "obs_indexed (recover_source d I) = obs_indexed I" "dec_indexed (recover_source d I) = dec_indexed I"
  by (simp_all add: recover_source_def Let_def obs_indexed_def dec_indexed_def split: option.split)

lemma current_after_recover_source:
  "smap_ok (im_src_gen I) \<Longrightarrow> current_source_generation k (recover_source d I) =
     (if k = src_source_id d then max (src_generation d) (current_source_generation k I)
      else current_source_generation k I)"
  by (auto simp: recover_source_def Let_def current_source_generation_def smap_lookup_put max_def split: option.splits)

lemma consistent_recover_source: "consistent I \<Longrightarrow> consistent (recover_source d I)"
proof -
  assume ok: "consistent I"
  then have g: "smap_ok (im_src_gen I)" by (simp add: consistent_def authority_ok_def)
  then have "smap_ok (im_src_gen (recover_source d I))"
    by (simp add: recover_source_def Let_def smap_put_ok split: option.split)
  then have "authority_ok (recover_source d I)"
    using ok by (auto simp: consistent_def authority_ok_def current_after_recover_source [OF g] max_def)
  moreover have "sources_ok (recover_source d I)"
    using ok by (auto simp: consistent_def sources_ok_def smap_put_ok smap_lookup_put)
  ultimately show ?thesis using ok by (simp add: consistent_def outcomes_ok_def)
qed

lemma current_after_recover_obs:
  "smap_ok (im_src_gen I) \<Longrightarrow> current_source_generation k (recover_obs ob I) =
     (if k = obs_source_id ob then max (obs_source_generation ob) (current_source_generation k I)
      else current_source_generation k I)"
  by (auto simp: recover_obs_def Let_def current_source_generation_def smap_lookup_put smap_put_ok max_def
      word_gt_0 split: option.splits)

lemma recover_obs_maps:
  "smap_ok (im_src_gen I) \<Longrightarrow> smap_ok (im_src_gen (recover_obs ob I))"
  "smap_ok (im_src_boot I) \<Longrightarrow> smap_ok (im_src_boot (recover_obs ob I))"
  "obs_indexed (recover_obs ob I) = obs_indexed (store_obs ob I)"
  by (simp_all add: recover_obs_def Let_def smap_put_ok obs_indexed_def)

lemma consistent_recover_obs:
  assumes "consistent I" "map_of (im_obs_by_id I) (obs_observation_id ob) = None"
  shows "consistent (recover_obs ob I)"
proof -
  have g: "smap_ok (im_src_gen I)" using assms(1) by (simp add: consistent_def authority_ok_def)
  have "authority_ok (recover_obs ob I)"
    using assms(1) recover_obs_maps
    by (auto simp: consistent_def authority_ok_def current_after_recover_obs [OF g] max_def)
  moreover have "obs_indexed (recover_obs ob I)"
    using assms by (simp add: recover_obs_maps obs_indexed_store consistent_def)
  ultimately show ?thesis using assms(1) by (simp add: consistent_def outcomes_ok_def sources_ok_def)
qed

lemma apply_record_consistent:
  assumes "consistent I" "apply_record kind body I = Some (counted, I')"
  shows "consistent I'"
proof (cases kind)
  case ObservationRecord
  with assms show ?thesis by (auto simp: apply_record_def consistent_recover_obs split: sum.splits if_splits)
next
  case DecisionRecord
  with assms show ?thesis by (auto simp: apply_record_def consistent_store_dec split: sum.splits if_splits)
next
  case OutcomeRecord
  with assms show ?thesis by (auto simp: apply_record_def consistent_put_outcome split: sum.splits if_splits)
next
  case SourceDescriptorRecord
  with assms show ?thesis by (auto simp: apply_record_def consistent_recover_source split: sum.splits)
next
  case EpochRecord
  with assms show ?thesis
    using consistent_epoch [of I] by (auto simp: apply_record_def set_coordinator_epoch_def split: sum.splits)
qed (use assms in \<open>auto simp: apply_record_def\<close>)

lemma recover_loop_consistent: "consistent I \<Longrightarrow> consistent (snd (recover_loop data I n))"
proof (induction data I n rule: recover_loop.induct)
  case (1 data I loaded)
  show ?case
  proof (cases "data = []")
    case True
    with 1 show ?thesis by (simp add: recover_loop.simps)
  next
    case False
    show ?thesis
      using 1 apply_record_consistent False
      by (subst recover_loop.simps) (auto split: sum.split option.split prod.split)
  qed
qed

section \<open>Writing a state and reading it back\<close>

text \<open>The states whose records the formats can carry: serialisable members and bodies within the cap.\<close>

definition storable :: "Impl \<Rightarrow> bool" where
  "storable I \<longleftrightarrow>
     (\<forall>(k, d) \<in> set (im_sources I). SourceDescriptor_ok d \<and> length (body_of (write_source_descriptor d)) \<le> unat kMaxBody) \<and>
     (\<forall>ob \<in> set (im_obs I). PlacementObservation_ok ob \<and> length (body_of (write_observation ob)) \<le> unat kMaxBody) \<and>
     (\<forall>d \<in> set (im_dec I). PlacementDecision_ok d \<and> length (body_of (write_decision d)) \<le> unat kMaxBody) \<and>
     (\<forall>(k, x) \<in> set (im_outcomes I). PlacementOutcome_ok x \<and> length (body_of (write_outcome x)) \<le> unat kMaxBody)"

lemma writer_okI:
  assumes "codec wr rdr ok" "ok x" "length (body_of (wr x)) \<le> unat kMaxBody" "kind \<in> set RecordKind_all"
  shows "writer_ok (kind, wr x)"
proof -
  obtain b where "wr x [] = Inr b" using codec.written [OF assms(1,2)] by metis
  with assms(3,4) show ?thesis by (simp add: writer_ok_def body_of_def)
qed

lemma persist_writers_ok:
  assumes "storable I" "set src_order = set (im_sources I)" "set out_order = set (im_outcomes I)"
  shows "\<forall>p \<in> set (persist_writers src_order out_order I). writer_ok p"
proof -
  have e: "writer_ok (EpochRecord, w_u64 v)" for v
    by (simp add: writer_ok_def w_u64_def RecordKind_all_def kMaxBody_def)
  have k: "SourceDescriptorRecord \<in> set RecordKind_all" "ObservationRecord \<in> set RecordKind_all"
    "DecisionRecord \<in> set RecordKind_all" "OutcomeRecord \<in> set RecordKind_all"
    by (simp_all add: RecordKind_all_def)
  show ?thesis
    using assms
    by (auto simp: persist_writers_def storable_def e
        intro: writer_okI [OF cdc_source_descriptor.codec_axioms _ _ k(1)]
          writer_okI [OF cdc_observation.codec_axioms _ _ k(2)]
          writer_okI [OF cdc_decision.codec_axioms _ _ k(3)] writer_okI [OF cdc_outcome.codec_axioms _ _ k(4)])
qed

definition persist_records ::
    "(SourceId \<times> SourceDescriptor) list \<Rightarrow> (PlacementDecisionId \<times> PlacementOutcome) list \<Rightarrow> Impl \<Rightarrow>
     (RecordKind \<times> bytes) list" where
  "persist_records src_order out_order I = map written_record (persist_writers src_order out_order I)"

lemma persist_image_records:
  assumes "storable I" "mset src_order = mset (im_sources I)" "mset out_order = mset (im_outcomes I)"
  shows "persist_image src_order out_order I = Inr (image_of (persist_records src_order out_order I))"
    and "\<forall>r \<in> set (persist_records src_order out_order I). rec_ok r"
proof -
  have "set src_order = set (im_sources I)" "set out_order = set (im_outcomes I)"
    using assms(2,3) by (metis set_mset_mset)+
  note ok = persist_writers_ok [OF assms(1) this]
  from append_records_image [OF ok, of "[]"]
  show "persist_image src_order out_order I = Inr (image_of (persist_records src_order out_order I))"
    by (simp add: persist_image_def persist_records_def)
  show "\<forall>r \<in> set (persist_records src_order out_order I). rec_ok r"
    using ok by (auto simp: persist_records_def written_record_ok)
qed

text \<open>The state that loading a written image produces.\<close>

definition reloaded ::
    "(SourceId \<times> SourceDescriptor) list \<Rightarrow> (PlacementDecisionId \<times> PlacementOutcome) list \<Rightarrow> Impl \<Rightarrow> Impl \<Rightarrow> Impl" where
  "reloaded src_order out_order I J =
     fold put_outcome (map snd out_order) (fold store_dec (im_dec I) (fold recover_obs (im_obs I)
       (fold recover_source (map snd src_order) (J\<lparr>im_coordinator := im_coordinator I\<rparr>))))"

lemma unique_exact_fold_recover:
  "unique_exact obs_observation_id (im_obs I) (im_obs_by_id I) \<Longrightarrow>
   distinct (map obs_observation_id (im_obs I @ os)) \<Longrightarrow>
   unique_exact obs_observation_id (im_obs (fold recover_obs os I)) (im_obs_by_id (fold recover_obs os I))"
proof (induction os arbitrary: I)
  case (Cons ob os)
  then have "map_of (im_obs_by_id I) (obs_observation_id ob) = None" by (auto simp: unique_exact_None)
  with Cons show ?case by (simp add: unique_exact_append)
qed simp

lemma unique_exact_fold_store:
  "unique_exact dec_decision_id (im_dec I) (im_dec_by_id I) \<Longrightarrow>
   distinct (map dec_decision_id (im_dec I @ ds)) \<Longrightarrow>
   unique_exact dec_decision_id (im_dec (fold store_dec ds I)) (im_dec_by_id (fold store_dec ds I))"
proof (induction ds arbitrary: I)
  case (Cons d ds)
  then have "map_of (im_dec_by_id I) (dec_decision_id d) = None" by (auto simp: unique_exact_None)
  with Cons show ?case by (simp add: unique_exact_append)
qed simp

lemma load_persisted:
  assumes I: "consistent I" "storable I"
    and orders: "mset src_order = mset (im_sources I)" "mset out_order = mset (im_outcomes I)"
  shows "load_records (persist_records src_order out_order I) (Impl_init c) 0 =
    (1 + length (im_sources I) + length (im_obs I) + length (im_dec I) + length (im_outcomes I),
     reloaded src_order out_order I (Impl_init c))"
proof -
  let ?E = "(Impl_init c)\<lparr>im_coordinator := im_coordinator I\<rparr>"
  let ?S = "fold recover_source (map snd src_order) ?E"
  let ?O = "fold recover_obs (im_obs I) ?S"
  let ?D = "fold store_dec (im_dec I) ?O"
  have sets: "set src_order = set (im_sources I)" "set out_order = set (im_outcomes I)"
    using orders by (metis set_mset_mset)+
  have lens: "length src_order = length (im_sources I)" "length out_order = length (im_outcomes I)"
    using orders by (metis size_mset)+
  have recs: "persist_records src_order out_order I =
     (EpochRecord, body_of (w_u64 (im_coordinator I))) #
     map (\<lambda>d. (SourceDescriptorRecord, body_of (write_source_descriptor d))) (map snd src_order) @
     map (\<lambda>ob. (ObservationRecord, body_of (write_observation ob))) (im_obs I) @
     map (\<lambda>d. (DecisionRecord, body_of (write_decision d))) (im_dec I) @
     map (\<lambda>x. (OutcomeRecord, body_of (write_outcome x))) (map snd out_order) @ []"
    by (simp add: persist_records_def persist_writers_def written_record_def comp_def case_prod_beta)
  have obs_distinct: "distinct (map obs_observation_id (im_obs I))"
    using I(1) by (auto simp: consistent_def obs_indexed_def intro: unique_exact_distinct)
  have dec: "unique_exact dec_decision_id (im_dec I) (im_dec_by_id I)"
    using I(1) by (simp add: consistent_def dec_indexed_def)
  have e: "im_obs ?E = []" "im_obs_by_id ?E = []" "im_dec ?E = []" "im_dec_by_id ?E = []" "im_outcomes ?E = []"
    by (simp_all add: Impl_init_def)
  have s1: "load_records (map (\<lambda>d. (SourceDescriptorRecord, body_of (write_source_descriptor d))) (map snd src_order) @ rs) ?E 1
      = load_records rs ?S (1 + length src_order)" for rs
  proof -
    have "\<forall>d \<in> set (map snd src_order). SourceDescriptor_ok d" using I(2) sets by (auto simp: storable_def)
    from load_sources [OF this, of rs ?E 1] show ?thesis by (simp only: length_map)
  qed
  have s2: "load_records (map (\<lambda>ob. (ObservationRecord, body_of (write_observation ob))) (im_obs I) @ rs) ?S n
      = load_records rs ?O (n + length (im_obs I))" for rs n
    by (rule load_observations) (use I(2) obs_distinct in \<open>auto simp: storable_def fold_recover_source e\<close>)
  have s3: "load_records (map (\<lambda>d. (DecisionRecord, body_of (write_decision d))) (im_dec I) @ rs) ?O n
      = load_records rs ?D (n + length (im_dec I))" for rs n
    by (rule load_decisions)
       (use I(2) unique_exact_distinct [OF dec] in \<open>auto simp: storable_def fold_recover_source fold_recover_obs e\<close>)
  have "unique_exact dec_decision_id (im_dec ?D) (im_dec_by_id ?D)"
    by (rule unique_exact_fold_store)
       (use unique_exact_distinct [OF dec] in \<open>auto simp: fold_recover_source fold_recover_obs e\<close>)
  then have known: "map_of (im_dec_by_id ?D) k \<noteq> None \<longleftrightarrow> map_of (im_dec_by_id I) k \<noteq> None" for k
    using unique_exact_None [OF dec] unique_exact_None [of dec_decision_id "im_dec ?D" "im_dec_by_id ?D" k]
    by (simp add: fold_store_dec fold_recover_obs fold_recover_source e)
  have out: "out_decision_id x = k \<and> map_of (im_dec_by_id I) k \<noteq> None" if "(k, x) \<in> set out_order" for k x
    using that I(1) sets smap_distinct [of "im_outcomes I"] by (auto simp: consistent_def outcomes_ok_def)
  then have ids: "map out_decision_id (map snd out_order) = map fst out_order" by auto
  have "distinct (map fst (im_outcomes I))"
    using I(1) by (simp add: consistent_def outcomes_ok_def smap_distinct)
  moreover have "mset (map fst out_order) = mset (map fst (im_outcomes I))" using orders(2) by simp
  ultimately have "distinct (map fst out_order)" using mset_eq_imp_distinct_iff by blast
  then have s4: "load_records (map (\<lambda>x. (OutcomeRecord, body_of (write_outcome x))) (map snd out_order) @ []) ?D n
      = load_records [] (fold put_outcome (map snd out_order) ?D) (n + length (map snd out_order))" for n
  proof (intro load_outcomes)
    show "\<forall>x \<in> set (map snd out_order). PlacementOutcome_ok x \<and> map_of (im_dec_by_id ?D) (out_decision_id x) \<noteq> None"
      using I(2) sets out known by (fastforce simp: storable_def)
    show "distinct (map out_decision_id (map snd out_order))"
      using \<open>distinct (map fst out_order)\<close> by (simp only: ids)
  qed (simp_all add: fold_store_dec fold_recover_obs fold_recover_source e)
  show ?thesis
    by (simp only: recs load_records.simps fst_conv snd_conv load_epoch option.case prod.case if_True add_0
        s1 s2 s3 s4 length_map lens reloaded_def)
qed

lemma reloaded_fields:
  assumes I: "consistent I"
    and orders: "mset src_order = mset (im_sources I)" "mset out_order = mset (im_outcomes I)"
  shows "im_obs (reloaded src_order out_order I (Impl_init c)) = im_obs I"
    and "im_dec (reloaded src_order out_order I (Impl_init c)) = im_dec I"
    and "im_coordinator (reloaded src_order out_order I (Impl_init c)) = im_coordinator I"
    and "im_sources (reloaded src_order out_order I (Impl_init c)) = im_sources I"
    and "im_outcomes (reloaded src_order out_order I (Impl_init c)) = im_outcomes I"
proof -
  have sets: "set src_order = set (im_sources I)" "set out_order = set (im_outcomes I)"
    using orders by (metis set_mset_mset)+
  have ok: "smap_ok (im_sources I)" "smap_ok (im_outcomes I)"
    using I by (simp_all add: consistent_def outcomes_ok_def sources_ok_def)
  have "out_decision_id x = k" if "(k, x) \<in> set out_order" for k x
    using that I sets smap_distinct [OF ok(2)] by (auto simp: consistent_def outcomes_ok_def)
  then have o: "map (\<lambda>x. (out_decision_id x, x)) (map snd out_order) = out_order"
    by (auto simp: comp_def intro!: map_idI)
  have "src_source_id d = k" if "(k, d) \<in> set src_order" for k d
    using that I sets smap_distinct [OF ok(1)] by (auto simp: consistent_def sources_ok_def)
  then have s: "map (\<lambda>d. (src_source_id d, d)) (map snd src_order) = src_order"
    by (auto simp: comp_def intro!: map_idI)
  show "im_obs (reloaded src_order out_order I (Impl_init c)) = im_obs I"
    "im_dec (reloaded src_order out_order I (Impl_init c)) = im_dec I"
    "im_coordinator (reloaded src_order out_order I (Impl_init c)) = im_coordinator I"
    "im_sources (reloaded src_order out_order I (Impl_init c)) = im_sources I"
    "im_outcomes (reloaded src_order out_order I (Impl_init c)) = im_outcomes I"
    unfolding reloaded_def fold_put_outcome fold_store_dec fold_recover_obs fold_recover_source o s
    by (simp_all add: Impl_init_def smap_rebuild ok orders)
qed

section \<open>Loading only adds\<close>

lemma apply_record_extends:
  assumes "apply_record kind body I = Some (counted, I')" "smap_ok (im_outcomes I)"
  shows "extends I I' \<and> smap_ok (im_outcomes I')"
proof (cases kind)
  case ObservationRecord
  with assms show ?thesis by (auto simp: apply_record_def extends_def split: sum.splits if_splits)
next
  case DecisionRecord
  with assms show ?thesis by (auto simp: apply_record_def extends_def split: sum.splits if_splits)
next
  case OutcomeRecord
  with assms show ?thesis
    by (auto simp: apply_record_def extends_def map_le_def smap_lookup_put smap_put_ok split: sum.splits if_splits)
next
  case SourceDescriptorRecord
  with assms show ?thesis by (auto simp: apply_record_def extends_def split: sum.splits)
next
  case EpochRecord
  with assms show ?thesis by (auto simp: apply_record_def extends_def split: sum.splits)
qed (use assms in \<open>auto simp: apply_record_def extends_def\<close>)

lemma load_records_extends: "smap_ok (im_outcomes I) \<Longrightarrow> extends I (snd (load_records rs I n))"
proof (induction rs I n rule: load_records.induct)
  case (2 r rs I n)
  show ?case
  proof (cases "apply_record (fst r) (snd r) I")
    case None
    then show ?thesis by (simp add: extends_refl)
  next
    case (Some p)
    obtain counted I' where p: "p = (counted, I')" by fastforce
    from apply_record_extends [of "fst r" "snd r" I counted I'] Some p 2(2)
    have "extends I I'" "smap_ok (im_outcomes I')" by auto
    with 2(1) [OF Some p [symmetric]] show ?thesis
      using extends_trans [of I I'] by (simp add: Some p)
  qed
qed (simp add: extends_refl)

lemma load_records_prefix:
  "smap_ok (im_outcomes I) \<Longrightarrow> extends (snd (load_records (take j rs) I n)) (snd (load_records rs I n))"
proof (induction rs arbitrary: j I n)
  case Nil
  then show ?case by (simp add: extends_refl)
next
  case (Cons r rs)
  show ?case
  proof (cases j)
    case 0
    then show ?thesis using load_records_extends [OF Cons.prems, of "r # rs" n] by simp
  next
    case (Suc j')
    then show ?thesis
      using Cons.IH apply_record_extends [of "fst r" "snd r" I] Cons.prems
      by (auto simp: extends_refl split: option.split)
  qed
qed

section \<open>Worker boots\<close>

lemma fold_recover_source_gen:
  assumes "smap_ok (im_src_gen I)"
  shows "smap_ok (im_src_gen (fold recover_source ds I)) \<and>
    (d \<in> set ds \<longrightarrow> src_generation d \<le> current_source_generation (src_source_id d) (fold recover_source ds I)) \<and>
    current_source_generation k I \<le> current_source_generation k (fold recover_source ds I)"
  using assms
proof (induction ds arbitrary: I k)
  case (Cons e ds)
  have ok: "smap_ok (im_src_gen (recover_source e I))"
    using Cons.prems by (simp add: recover_source_def Let_def smap_put_ok split: option.split)
  have ih: "smap_ok (im_src_gen (fold recover_source ds (recover_source e I)))"
    "d \<in> set ds \<Longrightarrow> src_generation d \<le> current_source_generation (src_source_id d) (fold recover_source ds (recover_source e I))"
    "\<And>k. current_source_generation k (recover_source e I) \<le> current_source_generation k (fold recover_source ds (recover_source e I))"
    using Cons.IH [OF ok] by blast+
  have "current_source_generation k I \<le> current_source_generation k (recover_source e I)" for k
    by (simp add: current_after_recover_source [OF Cons.prems])
  moreover have "src_generation e \<le> current_source_generation (src_source_id e) (recover_source e I)"
    by (simp add: current_after_recover_source [OF Cons.prems])
  ultimately show ?case using ih by (auto intro: order_trans)
qed simp

lemma fold_recover_obs_boot:
  assumes "smap_ok (im_src_gen I)" "\<forall>ob \<in> set os. obs_source_id ob = k \<longrightarrow> obs_source_generation ob \<le> current_source_generation k I"
    and "smap_ok (im_src_boot I)"
  shows "map_of (im_src_boot (fold recover_obs os I)) k = map_of (im_src_boot I) k"
  using assms
proof (induction os arbitrary: I)
  case (Cons ob os)
  let ?I = "recover_obs ob I"
  have g: "smap_ok (im_src_gen ?I)" "smap_ok (im_src_boot ?I)" using Cons.prems by (simp_all add: recover_obs_maps)
  have "current_source_generation k I \<le> current_source_generation k ?I"
    by (simp add: current_after_recover_obs [OF Cons.prems(1)])
  with Cons.prems(2) have "\<forall>ob \<in> set os. obs_source_id ob = k \<longrightarrow> obs_source_generation ob \<le> current_source_generation k ?I"
    by fastforce
  with Cons.IH [OF g(1) _ g(2)] have "map_of (im_src_boot (fold recover_obs os ?I)) k = map_of (im_src_boot ?I) k" by blast
  also have "\<dots> = map_of (im_src_boot I) k"
    using Cons.prems
    by (auto simp: recover_obs_def Let_def current_source_generation_def smap_lookup_put not_less split: option.splits)
  finally show ?case by simp
qed simp

lemma fold_other_boot:
  "im_src_boot (fold recover_source ds I) = im_src_boot I" "im_src_boot (fold store_dec es I) = im_src_boot I"
  "im_src_boot (fold put_outcome xs I) = im_src_boot I"
proof -
  show "im_src_boot (fold recover_source ds I) = im_src_boot I" by (induction ds arbitrary: I) simp_all
  show "im_src_boot (fold store_dec es I) = im_src_boot I" by (induction es arbitrary: I) simp_all
  show "im_src_boot (fold put_outcome xs I) = im_src_boot I"
    by (induction xs arbitrary: I) (simp_all add: put_outcome_def)
qed

lemma reloaded_boot:
  assumes "consistent I" "mset src_order = mset (im_sources I)"
    and "map_of (im_sources I) k = Some d" "src_generation d = current_source_generation k I"
  shows "trusted_boot k (reloaded src_order out_order I (Impl_init c)) = None"
proof -
  let ?E = "(Impl_init c)\<lparr>im_coordinator := im_coordinator I\<rparr>"
  let ?S = "fold recover_source (map snd src_order) ?E"
  have E: "smap_ok (im_src_gen ?E)" "im_src_boot ?E = []" by (simp_all add: Impl_init_def)
  have "set src_order = set (im_sources I)" using assms(2) by (metis set_mset_mset)
  then have "d \<in> set (map snd src_order)" using map_of_SomeD [OF assms(3)] by force
  moreover have "src_source_id d = k" using assms(1,3) by (simp add: consistent_def sources_ok_def)
  ultimately have S: "smap_ok (im_src_gen ?S)" "current_source_generation k I \<le> current_source_generation k ?S"
    using fold_recover_source_gen [OF E(1), where ds = "map snd src_order" and d = d] assms(4) by auto
  have "\<forall>ob \<in> set (im_obs I). obs_source_id ob = k \<longrightarrow> obs_source_generation ob \<le> current_source_generation k ?S"
    using assms(1) S(2) by (auto simp: consistent_def authority_ok_def intro: order_trans)
  from fold_recover_obs_boot [OF S(1) this]
  show ?thesis by (simp add: trusted_boot_def reloaded_def fold_other_boot E(2))
qed

end
