(* ===== verification/Persist_Properties.thy ===== *)
theory Persist_Properties
  imports Persistence
begin

text \<open>
  The properties of persistence: what is written is read back, a cut file recovers a prefix of the
  history, no file breaks the indices, and what recovery and the replacement of the file lose.
\<close>

section \<open>A stored state\<close>

definition stored :: Impl where
  "stored = snd (ingest_outcome (sample_out 1) (snd (ingest_decision (sample_dec 1)
     (snd (ingest (sample_obs 1 5 7) (register_source (sample_source 5) Timestamp_default fresh))))))"

lemma live_stored: "live ObservatoryConfig_default stored"
  unfolding stored_def
  by (intro live_next [OF live_next [OF live_next [OF live_next [OF live_init step_register] step_ingest] step_decision] step_outcome])
     (rule prod.collapse [symmetric])+

definition stored1 :: Impl where
  "stored1 = register_source (sample_source 5) Timestamp_default fresh"

lemma stored1_simps:
  "current_source_generation (Id 1) stored1 = 5" "trusted_boot (Id 1) stored1 = None" "im_cfg stored1 = ObservatoryConfig_default"
  "im_obs stored1 = []" "im_dec stored1 = []" "im_obs_by_id stored1 = []" "im_dec_by_id stored1 = []" "im_outcomes stored1 = []"
  "im_coordinator stored1 = 0" "im_sources stored1 = [(Id 1, sample_source 5)]" "idx_dec_attempt stored1 = []"
  "im_src_gen stored1 = [(Id 1, 5)]" "im_src_boot stored1 = [(Id 1, 0)]"
  by (simp_all add: stored1_def register_source_def Let_def Impl_init_def sample_source_def SourceDescriptor_default_def
      current_source_generation_def trusted_boot_def)

lemma stored1_accepts: "obs_authorised (sample_obs 1 5 7) stored1" "obs_content_ok (sample_obs 1 5 7) stored1"
  by (simp_all add: obs_authorised_def obs_content_ok_def stale_epoch_def stored1_simps sample_simps)

lemma stored1_adopt: "adopt_authority (sample_obs 1 5 7) stored1 = stored1\<lparr>im_src_boot := [(Id 1, 7)]\<rparr>"
proof -
  have "obs_source_id (sample_obs 1 5 7) = Id 1" "obs_source_generation (sample_obs 1 5 7) = 5"
    "obs_worker_boot (sample_obs 1 5 7) = 7" by (simp_all add: sample_simps)
  then show ?thesis by (simp add: adopt_authority_def Let_def stored1_simps)
qed

definition stored2 :: Impl where
  "stored2 = snd (accept (store_obs (correlated (sample_obs 1 5 7)) (adopt_authority (sample_obs 1 5 7) stored1)))"

lemma stored2_simps:
  "current_source_generation (Id 1) stored2 = 5" "trusted_boot (Id 1) stored2 = Some 7"
  "im_obs stored2 = [correlated (sample_obs 1 5 7)]" "im_dec stored2 = []" "im_dec_by_id stored2 = []"
  "im_outcomes stored2 = []" "im_sources stored2 = [(Id 1, sample_source 5)]" "idx_dec_attempt stored2 = []"
  "im_coordinator stored2 = 0"
  by (simp_all add: stored2_def stored1_adopt accept_def Let_def stored1_simps current_source_generation_def trusted_boot_def)

lemma stored_eq:
  "stored = snd (ingest_outcome (sample_out 1) (snd (accept (store_dec (sample_dec 1) stored2))))"
proof -
  have "decision_admissible (sample_dec 1) stored2"
    by (simp add: decision_admissible_def decision_valid_def stored2_simps stale_epoch_def sample_simps finite_cost_def
        CandidateSet_default_def)
  then show ?thesis
    using ingest_accepts [OF stored1_accepts]
    by (cases rule: ingest_decision_cases [of "sample_dec 1" stored2])
       (simp_all add: stored_def stored2_def stored1_def)
qed

definition stored3 :: Impl where
  "stored3 = snd (accept (store_dec (sample_dec 1) stored2))"

lemma stored3_simps:
  "current_source_generation (Id 1) stored3 = 5" "trusted_boot (Id 1) stored3 = Some 7"
  "im_obs stored3 = [correlated (sample_obs 1 5 7)]" "im_dec stored3 = [sample_dec 1]" "im_dec_by_id stored3 = [(Id 1, 0)]"
  "im_outcomes stored3 = []" "im_sources stored3 = [(Id 1, sample_source 5)]"
  using stored2_simps(1,2)
  by (simp_all add: stored3_def accept_def Let_def stored2_simps current_source_generation_def trusted_boot_def)
     (simp add: sample_simps)

lemma stored_fields:
  "im_obs stored = [correlated (sample_obs 1 5 7)]" "im_dec stored = [sample_dec 1]"
  "im_outcomes stored = [(Id 1, sample_out 1)]" "im_sources stored = [(Id 1, sample_source 5)]"
  "current_source_generation (Id 1) stored = 5" "trusted_boot (Id 1) stored = Some 7"
proof -
  have "out_decision_id (sample_out 1) = Id 1" by (simp add: sample_simps)
  moreover have "outcome_admissible (sample_out 1) stored3"
    by (simp add: outcome_admissible_def stored3_simps) (simp add: sample_simps)
  ultimately have st: "stored = snd (accept (stored3\<lparr>im_outcomes := [(Id 1, sample_out 1)]\<rparr>))"
    by (cases rule: ingest_outcome_cases [of "sample_out 1" stored3])
       (simp_all add: stored_eq stored3_def [symmetric] stored3_simps)
  show "im_obs stored = [correlated (sample_obs 1 5 7)]" "im_dec stored = [sample_dec 1]"
    "im_outcomes stored = [(Id 1, sample_out 1)]" "im_sources stored = [(Id 1, sample_source 5)]"
    "current_source_generation (Id 1) stored = 5" "trusted_boot (Id 1) stored = Some 7"
    using stored3_simps
    by (simp_all add: st accept_def Let_def current_source_generation_def trusted_boot_def)
qed

lemma sample_source_ok: "SourceDescriptor_ok (sample_source 5)"
  by (simp add: SourceDescriptor_ok_def sample_source_def SourceDescriptor_default_def Timestamp_default_def
      wf_defs default_wf)

lemma sample_obs_ok: "PlacementObservation_ok (correlated (sample_obs 1 5 7))"
  using PlacementObservation_default_ok
  by (simp add: PlacementObservation_ok_def sample_obs_def wf_defs default_wf)

lemma sample_dec_ok: "PlacementDecision_ok (sample_dec 1)"
  using PlacementDecision_default_ok by (simp add: PlacementDecision_ok_def sample_dec_def)

lemma sample_out_ok: "PlacementOutcome_ok (sample_out 1)"
  by (simp add: PlacementOutcome_ok_def sample_out_def PlacementOutcome_default_def Provenance_default_ok
      OutcomeDisposition_wf_def OutcomeDisposition_of_def OutcomeDisposition_all_def wf_defs default_wf)

lemmas writer_simps =
  w_all.simps w_u8_def w_u32_def w_u64_def w_i64_def w_f64_def w_bool_def w_raw_def w_str_def write_vec_def write_opt_def

lemma sample_lengths:
  "length (body_of (write_source_descriptor (sample_source 5))) \<le> unat kMaxBody"
  "length (body_of (write_observation (correlated (sample_obs 1 5 7)))) \<le> unat kMaxBody"
  "length (body_of (write_outcome (sample_out 1))) \<le> unat kMaxBody"
  "length (body_of (write_decision (sample_dec 1))) \<le> unat kMaxBody"
  by (simp_all add: body_of_def writer_simps write_source_descriptor_def write_observation_def write_outcome_def
      write_decision_def write_candidate_set_def write_confidence_def write_provenance_def write_reasons_def
      sample_simps sample_source_def SourceDescriptor_default_def Timestamp_default_def Provenance_default_def
      CandidateSet_default_def Confidence_default_def kMaxBody_def)

lemma stored_storable: "storable stored"
  by (simp add: storable_def stored_fields sample_source_ok sample_obs_ok sample_dec_ok sample_out_ok sample_lengths)

lemma stored_image:
  "\<exists>bs. persist_image (im_sources stored) (im_outcomes stored) stored = Inr bs"
  using persist_image_records(1) [OF stored_storable, of "im_sources stored" "im_outcomes stored"] by blast

section \<open>Properties\<close>

text \<open>C1. Recovery inverts persistence: a reachable state whose records the formats can carry is persisted
  without an error, whatever order the unordered maps are walked in, and from the bytes a fresh
  observatory recovers the same observations, decisions, outcomes, source descriptors and coordinator
  epoch, counts every record, and has exact indices.\<close>

theorem recover_inverts_persist:
  assumes "live c I" "storable I"
    and "mset src_order = mset (im_sources I)" "mset out_order = mset (im_outcomes I)"
  shows "\<exists>bs n J. persist_image src_order out_order I = Inr bs \<and> recover bs (Impl_init c') = (n, J) \<and>
    im_obs J = im_obs I \<and> im_dec J = im_dec I \<and> im_outcomes J = im_outcomes I \<and>
    im_sources J = im_sources I \<and> im_coordinator J = im_coordinator I \<and> consistent J \<and>
    n = 1 + length (im_sources I) + length (im_obs I) + length (im_dec I) + length (im_outcomes I)"
proof -
  have I: "consistent I" by (rule live_consistent [OF assms(1)])
  note img = persist_image_records [OF assms(2-4)]
  let ?bs = "image_of (persist_records src_order out_order I)"
  have ne: "?bs \<noteq> []" by (simp add: image_of_def persist_records_def persist_writers_def)
  obtain n J where r: "recover ?bs (Impl_init c') = (n, J)" by fastforce
  then have "(n, J) = load_records (persist_records src_order out_order I) (Impl_init c') 0"
    using recover_image [OF img(2)] ne by (simp add: recover_def)
  then have "n = 1 + length (im_sources I) + length (im_obs I) + length (im_dec I) + length (im_outcomes I)"
    "J = reloaded src_order out_order I (Impl_init c')"
    using load_persisted [OF I assms(2-4), of c'] by auto
  moreover have "consistent J"
    using recover_loop_consistent [OF consistent_init, of ?bs c' 0] r ne by (simp add: recover_def)
  ultimately show ?thesis using img(1) r reloaded_fields [OF I assms(3,4)] by auto
qed

lemma recover_inverts_persist_witness:
  "\<exists>bs n J. persist_image (im_sources stored) (im_outcomes stored) stored = Inr bs \<and>
     recover bs fresh = (n, J) \<and> im_dec J = [sample_dec 1] \<and> im_outcomes J = [(Id 1, sample_out 1)] \<and> n = 5"
  using recover_inverts_persist [OF live_stored stored_storable refl refl, of ObservatoryConfig_default]
  by (auto simp: stored_fields)





text \<open>Restart loses the trusted worker boot: for a source whose registered descriptor has the current
  generation, the recovered observatory trusts no boot, although the persisted one did, so that an
  observation of any other boot is no longer refused.\<close>

theorem recovery_forgets_boot:
  assumes "live c I" "storable I"
    and "mset src_order = mset (im_sources I)" "mset out_order = mset (im_outcomes I)"
    and "persist_image src_order out_order I = Inr bs" "recover bs (Impl_init c') = (n, J)"
    and "map_of (im_sources I) k = Some d" "src_generation d = current_source_generation k I"
  shows "trusted_boot k J = None"
proof -
  have I: "consistent I" by (rule live_consistent [OF assms(1)])
  note img = persist_image_records [OF assms(2-4)]
  have bs: "bs = image_of (persist_records src_order out_order I)" using assms(5) img(1) by simp
  then have "bs \<noteq> []" by (simp add: image_of_def persist_records_def persist_writers_def)
  then have "(n, J) = load_records (persist_records src_order out_order I) (Impl_init c') 0"
    using assms(6) recover_image [OF img(2)] bs by (simp add: recover_def)
  then have "J = reloaded src_order out_order I (Impl_init c')"
    using load_persisted [OF I assms(2-4), of c'] by simp
  then show ?thesis using reloaded_boot [OF I assms(3,7,8)] by simp
qed

lemma recovery_forgets_boot_witness:
  "trusted_boot (Id 1) stored = Some 7 \<and>
   (\<exists>bs n J. persist_image (im_sources stored) (im_outcomes stored) stored = Inr bs \<and>
      recover bs fresh = (n, J) \<and> trusted_boot (Id 1) J = None)"
proof -
  obtain bs where bs: "persist_image (im_sources stored) (im_outcomes stored) stored = Inr bs" using stored_image ..
  obtain n J where r: "recover bs fresh = (n, J)" by fastforce
  have "map_of (im_sources stored) (Id 1) = Some (sample_source 5)"
    "src_generation (sample_source 5) = current_source_generation (Id 1) stored"
    by (simp_all add: stored_fields) (simp add: sample_source_def)
  from recovery_forgets_boot [OF live_stored stored_storable refl refl bs r this] bs r show ?thesis
    by (auto simp: stored_fields)
qed

text \<open>Recovery does not repeat the validation of ingest: a record of a decision that ingest refuses in
  every state is loaded into the log.\<close>

theorem recovery_skips_validation:
  assumes "PlacementDecision_ok d" "length (body_of (write_decision d)) \<le> unat kMaxBody"
    and "\<not> decision_valid d" "map_of (im_dec_by_id I) (dec_decision_id d) = None"
  shows "(\<exists>data. recover data I = (1, store_dec d I)) \<and> \<not> ing_accepted (fst (ingest_decision d I))"
proof -
  let ?r = "(DecisionRecord, body_of (write_decision d))"
  have ok: "rec_ok ?r" using assms(2) by (simp add: rec_ok_def RecordKind_all_def)
  have "recover (encode_rec ?r) I = (1, store_dec d I)"
    using recover_step [OF ok, of "[]" I 0] load_dec [OF assms(1,4)]
    by (simp add: recover_def recover_loop.simps)
  moreover have "\<not> decision_admissible d I" using assms(3) by (simp add: decision_admissible_def)
  then have "\<not> ing_accepted (fst (ingest_decision d I))"
    by (cases rule: ingest_decision_cases [of d I]) (auto simp: reject_def)
  ultimately show ?thesis by blast
qed

lemma recovery_skips_validation_witness:
  "(\<exists>data. recover data fresh = (1, store_dec (PlacementDecision_default\<lparr>dec_decision_id := Id 4\<rparr>) fresh)) \<and>
   \<not> ing_accepted (fst (ingest_decision (PlacementDecision_default\<lparr>dec_decision_id := Id 4\<rparr>) fresh))"
proof (rule recovery_skips_validation)
  show "PlacementDecision_ok (PlacementDecision_default\<lparr>dec_decision_id := Id 4\<rparr>)"
    using PlacementDecision_default_ok by (simp add: PlacementDecision_ok_def)
  show "length (body_of (write_decision (PlacementDecision_default\<lparr>dec_decision_id := Id 4\<rparr>))) \<le> unat kMaxBody"
    by (simp add: body_of_def writer_simps write_decision_def write_candidate_set_def write_confidence_def
        write_provenance_def write_reasons_def PlacementDecision_default_def Provenance_default_def
        CandidateSet_default_def Confidence_default_def Timestamp_default_def nil_id_def kMaxBody_def)
  show "\<not> decision_valid (PlacementDecision_default\<lparr>dec_decision_id := Id 4\<rparr>)"
    by (simp add: decision_valid_def PlacementDecision_default_def)
  show "map_of (im_dec_by_id fresh) (dec_decision_id (PlacementDecision_default\<lparr>dec_decision_id := Id 4\<rparr>)) = None"
    by (simp add: Impl_init_def)
qed

text \<open>The file is replaced by removing the old one before the new one is renamed into place: there is a
  moment at which no file exists under the path, although one existed before and one does after.\<close>

theorem persist_replacement_has_gap:
  "\<exists>fs1 fs2 fs3. persist_states path img fs = [fs1, fs2, fs3] \<and>
     fs1 path = fs path \<and> fs2 path = None \<and> fs3 path = Some img \<and> fs3 (path @ ''.tmp'') = None"
  by (simp add: persist_states_def Let_def)

end
