(* ===== verification/Json_Number.thy ===== *)
theory Json_Number
  imports Complex_Main Float64
begin

text \<open>
  The decimal text of a double in json.hpp: \<open>std::to_chars\<close> with \<open>chars_format::general\<close> (the fewest
  digits that read back as the same double, the nearest of these, in fixed notation for decimal
  exponents from -4 to 5 and in scientific notation otherwise) and \<open>std::strtod\<close> on a number token
  (the nearest double). The main lemma is that reading back what was written gives the same double.
\<close>

section \<open>Decimals\<close>

text \<open>The double nearest to \<open>c * 10 ^ k\<close>, and \<open>(p / q) / 10 ^ k\<close> as a pair.\<close>

definition f64_of_dec :: "bool \<Rightarrow> nat \<Rightarrow> int \<Rightarrow> f64" where
  "f64_of_dec s c k =
     (if 0 \<le> k then f64_of_ratio s (c * 10 ^ nat k) 1 else f64_of_ratio s c (10 ^ nat (- k)))"

definition scale_dec :: "nat \<Rightarrow> nat \<Rightarrow> int \<Rightarrow> nat \<times> nat" where
  "scale_dec p q k = (if 0 \<le> k then (p, q * 10 ^ nat k) else (p * 10 ^ nat (- k), q))"

text \<open>The exponent of the leading decimal digit of \<open>p / q\<close>.\<close>

definition dec_exponent :: "nat \<Rightarrow> nat \<Rightarrow> int" where
  "dec_exponent p q =
     (if q \<le> p then int (length (dec_nat (p div q))) - 1 else - int (length (dec_nat ((q - 1) div p))))"

text \<open>A decimal without trailing zeros.\<close>

fun strip_zeros :: "nat \<Rightarrow> int \<Rightarrow> nat \<times> int" where
  "strip_zeros c k = (if 0 < c \<and> c mod 10 = 0 then strip_zeros (c div 10) (k + 1) else (c, k))"

declare strip_zeros.simps [simp del]

text \<open>The magnitude of a finite double as a fraction.\<close>

definition f64_fraction :: "f64 \<Rightarrow> nat \<times> nat" where
  "f64_fraction w = scale_ratio (f64_mant w) 1 (- f64_scale w)"

text \<open>
  The decimal of \<open>n\<close> significant digits that reads back as \<open>w\<close>: one of the two around \<open>w\<close>, the nearer
  one when both do, the even one when both are equally near.
\<close>

definition nearest_dec :: "f64 \<Rightarrow> nat \<Rightarrow> (nat \<times> int) option" where
  "nearest_dec w n =
     (let (p, q) = f64_fraction w; k = dec_exponent p q + 1 - int n; (a, b) = scale_dec p q k;
          lo = a div b; r = a mod b;
          reads_back = (\<lambda>c. case strip_zeros c k of (c', k') \<Rightarrow> f64_of_dec (f64_sign w) c' k' = w)
      in if reads_back lo \<and> (\<not> reads_back (lo + 1) \<or> 2 * r < b \<or> 2 * r = b \<and> even lo) then Some (strip_zeros lo k)
         else if reads_back (lo + 1) then Some (strip_zeros (lo + 1) k)
         else None)"

fun first_some :: "('a \<Rightarrow> 'b option) \<Rightarrow> 'a list \<Rightarrow> 'b option" where
  "first_some f [] = None"
| "first_some f (x # xs) = (case f x of Some y \<Rightarrow> Some y | None \<Rightarrow> first_some f xs)"

text \<open>The fewest digits; the expansion down to \<open>10 ^ -1074\<close> is exact for every double.\<close>

definition shortest_dec :: "f64 \<Rightarrow> (nat \<times> int) option" where
  "shortest_dec w =
     (case f64_fraction w of (p, q) \<Rightarrow> first_some (nearest_dec w) [1..<nat (dec_exponent p q + 1076)])"

section \<open>Notation\<close>

definition fixed_text :: "string \<Rightarrow> int \<Rightarrow> string" where
  "fixed_text ds k =
     (if 0 \<le> k then ds @ replicate (nat k) (CHR ''0'')
      else let m = nat (- k) in
        if m < length ds then take (length ds - m) ds @ ''.'' @ drop (length ds - m) ds
        else ''0.'' @ replicate (m - length ds) (CHR ''0'') @ ds)"

definition exponent_text :: "int \<Rightarrow> string" where
  "exponent_text x =
     (let t = dec_nat (nat \<bar>x\<bar>) in (if x < 0 then ''-'' else ''+'') @ (if length t < 2 then ''0'' @ t else t))"

definition scientific_text :: "string \<Rightarrow> int \<Rightarrow> string" where
  "scientific_text ds x = [hd ds] @ (if tl ds = [] then '''' else ''.'' @ tl ds) @ ''e'' @ exponent_text x"

definition decimal_text :: "nat \<Rightarrow> int \<Rightarrow> string" where
  "decimal_text c k =
     (let ds = dec_nat c; x = int (length ds) - 1 + k
      in if -4 \<le> x \<and> x < 6 then fixed_text ds k else scientific_text ds x)"

definition double_text :: "f64 \<Rightarrow> string" where
  "double_text w =
     (if f64_sign w then ''-'' else '''') @
     (if f64_mag w = 0 then ''0''
      else case shortest_dec w of Some (c, k) \<Rightarrow> decimal_text c k | None \<Rightarrow> '''')"

section \<open>\<open>std::strtod\<close> on a number token\<close>

definition token_sign :: "string \<Rightarrow> bool \<times> string" where
  "token_sign t = (case t of c # cs \<Rightarrow> if c = CHR ''-'' then (True, cs) else if c = CHR ''+'' then (False, cs) else (False, t) | [] \<Rightarrow> (False, t))"

definition token_fraction :: "string \<Rightarrow> string \<times> string" where
  "token_fraction t =
     (case t of c # cs \<Rightarrow> if c = CHR ''.'' then (takeWhile is_digit cs, dropWhile is_digit cs) else ('''', t) | [] \<Rightarrow> ('''', t))"

definition token_exponent :: "string \<Rightarrow> int" where
  "token_exponent t =
     (case t of
        c # cs \<Rightarrow> (case token_sign cs of (neg, ds) \<Rightarrow> if neg then - int (digits_value ds) else int (digits_value ds))
      | [] \<Rightarrow> 0)"

definition strtod :: "string \<Rightarrow> f64" where
  "strtod t =
     (let (neg, t1) = token_sign t; ip = takeWhile is_digit t1; (fp, t3) = token_fraction (dropWhile is_digit t1)
      in f64_of_dec neg (digits_value (ip @ fp)) (token_exponent t3 - int (length fp)))"

section \<open>A double nearest to a fraction depends on its value only\<close>

definition in_binade :: "nat \<Rightarrow> nat \<Rightarrow> int \<Rightarrow> bool" where
  "in_binade p q e \<longleftrightarrow> (case scale_ratio p q e of (n, d) \<Rightarrow> d \<le> n \<and> n < 2 * d)"

lemma in_binade_real:
  assumes "0 < q"
  shows "in_binade p q e \<longleftrightarrow> 2 powi e \<le> real p / real q \<and> real p / real q < 2 powi (e + 1)"
proof (cases "0 \<le> e")
  case True
  then have e: "(2::real) powi e = 2 ^ nat e" "(2::real) powi (e + 1) = 2 ^ nat e * 2"
    by (simp_all add: power_int_def nat_add_distrib)
  have "q * 2 ^ nat e \<le> p \<longleftrightarrow> real q * 2 ^ nat e \<le> real p" "p < 2 * (q * 2 ^ nat e) \<longleftrightarrow> real p < 2 * (real q * 2 ^ nat e)"
    using of_nat_le_iff [of "q * 2 ^ nat e" p, where ?'a = real]
      of_nat_less_iff [of p "2 * (q * 2 ^ nat e)", where ?'a = real] by simp_all
  then show ?thesis using assms True unfolding in_binade_def scale_ratio_def e by (simp add: field_simps)
next
  case False
  then have e: "(2::real) powi e = 1 / 2 ^ nat (- e)" "(2::real) powi (e + 1) = 2 / 2 ^ nat (- e)"
    by (simp_all add: power_int_add_1) (simp_all add: power_int_def divide_simps)
  have "q \<le> p * 2 ^ nat (- e) \<longleftrightarrow> real q \<le> real p * 2 ^ nat (- e)"
    "p * 2 ^ nat (- e) < 2 * q \<longleftrightarrow> real p * 2 ^ nat (- e) < 2 * real q"
    using of_nat_le_iff [of q "p * 2 ^ nat (- e)", where ?'a = real]
      of_nat_less_iff [of "p * 2 ^ nat (- e)" "2 * q", where ?'a = real] by simp_all
  then show ?thesis using assms False unfolding in_binade_def scale_ratio_def e by (simp add: field_simps)
qed

lemma in_binade_unique: "0 < q \<Longrightarrow> in_binade p q e \<Longrightarrow> in_binade p q e' \<Longrightarrow> e = e'"
proof -
  have "e \<le> e'" if "(2::real) powi e \<le> x" "x < 2 powi (e' + 1)" for e e' x
  proof -
    have "(2::real) powi e < 2 powi (e' + 1)" using that by linarith
    then show ?thesis by (metis linorder_not_le power_int_increasing one_le_numeral zle_add1_eq_le)
  qed
  then show "0 < q \<Longrightarrow> in_binade p q e \<Longrightarrow> in_binade p q e' \<Longrightarrow> e = e'"
    by (meson in_binade_real order_antisym)
qed

lemma scale_ratio_le:
  assumes "0 < q"
  shows "(case scale_ratio p q e of (n, d) \<Rightarrow> d \<le> n) \<longleftrightarrow> 2 powi e \<le> real p / real q"
proof (cases "0 \<le> e")
  case True
  then have "(2::real) powi e = 2 ^ nat e" by (simp add: power_int_def)
  then show ?thesis
    using True assms of_nat_le_iff [of "q * 2 ^ nat e" p, where ?'a = real] by (simp add: scale_ratio_def field_simps)
next
  case False
  then have "(2::real) powi e = 1 / 2 ^ nat (- e)" by (simp add: power_int_def divide_simps)
  then show ?thesis
    using False assms of_nat_le_iff [of q "p * 2 ^ nat (- e)", where ?'a = real]
    by (simp only: scale_ratio_def) (simp add: divide_simps)
qed

lemma ratio_log2_binade:
  assumes "0 < p" "0 < q"
  shows "in_binade p q (ratio_log2 p q)"
proof -
  let ?x = "real p / real q" and ?lp = "ilog2 p" and ?lq = "ilog2 q"
  let ?a = "int ?lp - int ?lq"
  have b: "(2::real) ^ ?lp \<le> p" "real p < 2 ^ Suc ?lp" "(2::real) ^ ?lq \<le> q" "real q < 2 ^ Suc ?lq"
    using ilog2_bounds [OF assms(1)] ilog2_bounds [OF assms(2)]
      of_nat_le_iff [of "2 ^ ?lp" p, where ?'a = real] of_nat_less_iff [of p "2 ^ Suc ?lp", where ?'a = real]
      of_nat_le_iff [of "2 ^ ?lq" q, where ?'a = real] of_nat_less_iff [of q "2 ^ Suc ?lq", where ?'a = real]
    by simp_all
  have pos: "0 < real q" using assms(2) by simp
  have "?x < 2 ^ Suc ?lp / 2 ^ ?lq" using b pos by (intro frac_less) auto
  also have "\<dots> = 2 powi (int (Suc ?lp) - int ?lq)" by (subst power_int_diff) (simp_all del: of_nat_Suc)
  also have "int (Suc ?lp) - int ?lq = ?a + 1" by simp
  finally have up: "?x < 2 powi (?a + 1)" .
  have "?a - 1 = int ?lp - int (Suc ?lq)" by simp
  also have "2 powi (int ?lp - int (Suc ?lq)) = (2::real) ^ ?lp / 2 ^ Suc ?lq"
    by (subst power_int_diff) (simp_all del: of_nat_Suc)
  also have "\<dots> \<le> ?x" using b pos by (intro frac_le) auto
  finally have lo: "2 powi (?a - 1) \<le> ?x" .
  show ?thesis
  proof (cases "case scale_ratio p q ?a of (n, d) \<Rightarrow> d \<le> n")
    case True
    then have "ratio_log2 p q = ?a" by (auto simp: ratio_log2_def Let_def split: prod.splits)
    with True up show ?thesis by (simp add: in_binade_real [OF assms(2)] scale_ratio_le [OF assms(2)])
  next
    case False
    then have "ratio_log2 p q = ?a - 1" by (auto simp: ratio_log2_def Let_def split: prod.splits)
    with False lo show ?thesis by (simp add: in_binade_real [OF assms(2)] scale_ratio_le [OF assms(2)])
  qed
qed

lemma round_half_even_cong:
  assumes "n * d' = n' * d" "0 < d" "0 < d'"
  shows "round_half_even n d = round_half_even n' d'"
proof -
  have "n div d = (n * d') div (d * d')" using assms(3) by simp
  also have "\<dots> = (n' * d) div (d' * d)" by (simp only: assms(1) mult.commute [of d d'])
  also have "\<dots> = n' div d'" using assms(2) by simp
  finally have q: "n div d = n' div d'" .
  have r: "(n mod d) * d' = (n' mod d') * d"
  proof -
    have "(n mod d) * d' = (n * d') mod (d * d')" by (simp only: mult_mod_left)
    also have "\<dots> = (n' * d) mod (d' * d)" by (simp only: assms(1) mult.commute [of d d'])
    also have "\<dots> = (n' mod d') * d" by (simp only: mult_mod_left)
    finally show ?thesis .
  qed
  have "2 * (n mod d) < d \<longleftrightarrow> 2 * ((n mod d) * d') < d * d'" using assms(3) by simp
  also have "\<dots> \<longleftrightarrow> 2 * (n' mod d') < d'" unfolding r using assms(2) by simp
  finally have l: "2 * (n mod d) < d \<longleftrightarrow> 2 * (n' mod d') < d'" .
  have "d < 2 * (n mod d) \<longleftrightarrow> d * d' < 2 * ((n mod d) * d')" using assms(3) by simp
  also have "\<dots> \<longleftrightarrow> d' < 2 * (n' mod d')" unfolding r using assms(2) by simp
  finally have g: "d < 2 * (n mod d) \<longleftrightarrow> d' < 2 * (n' mod d')" .
  show ?thesis by (simp add: round_half_even_def Let_def q l g)
qed

lemma f64_of_ratio_cong:
  assumes "p * q' = p' * q" "0 < q" "0 < q'"
  shows "f64_of_ratio s p q = f64_of_ratio s p' q'"
proof (cases "p = 0")
  case True
  then have "p' = 0" using assms by simp
  then show ?thesis by (simp add: f64_of_ratio_def True)
next
  case False
  then have p: "0 < p" "0 < p'" using assms by (auto intro: Nat.gr0I)
  have "real p / real q = real p' / real q'"
    using assms arg_cong [OF assms(1), of real] by (simp add: field_simps)
  then have "in_binade p' q' (ratio_log2 p q)"
    using ratio_log2_binade [OF p(1) assms(2)] by (simp add: in_binade_real assms(2,3))
  then have r: "ratio_log2 p' q' = ratio_log2 p q"
    using ratio_log2_binade [OF p(2) assms(3)] in_binade_unique [OF assms(3)] by blast
  let ?e = "max (ratio_log2 p q - 52) (- 1074)"
  obtain n d n' d' where nd: "scale_ratio p q ?e = (n, d)" "scale_ratio p' q' ?e = (n', d')" by fastforce
  have "n * d' = n' * d" "0 < d" "0 < d'"
    using nd assms by (auto simp: scale_ratio_def split: if_splits)
  then have "round_half_even n d = round_half_even n' d'" by (rule round_half_even_cong)
  then show ?thesis using p by (simp add: f64_of_ratio_def r nd)
qed

section \<open>Every finite double is the nearest to its own value\<close>

lemma f64_pattern: "f64_make (f64_sign w) (f64_mag w) = w"
proof -
  have "unat w < 2 ^ 64" using unsigned_less [of w, where ?'a = nat] by simp
  then have "unat w mod 2 ^ 63 = (if 2 ^ 63 \<le> unat w then unat w - 2 ^ 63 else unat w)"
    by (simp add: mod_if)
  then have "(if 2 ^ 63 \<le> unat w then 2 ^ 63 else 0) + unat w mod 2 ^ 63 = unat w" by simp
  then show ?thesis by (simp add: f64_make_def f64_sign_def f64_mag_def)
qed

lemma f64_mag_fields: "f64_mag w = f64_exp w * 2 ^ 52 + f64_frac w" "f64_frac w < 2 ^ 52"
  by (simp_all add: f64_exp_def f64_frac_def)

lemma f64_exp_le: "f64_exp w \<le> 2047"
proof -
  have "f64_mag w < 2 ^ 63" by (simp add: f64_mag_def)
  then have "f64_mag w div 2 ^ 52 < 2048" by (simp add: less_mult_imp_div_less)
  then show ?thesis by (simp add: f64_exp_def)
qed

lemma f64_fraction_dyadic:
  obtains a b where "f64_fraction w = (f64_mant w * 2 ^ a, 2 ^ b)" "int a - int b = f64_scale w" "a = 0 \<or> b = 0" "b \<le> 1074"
proof (cases "0 \<le> f64_scale w")
  case True
  have "f64_fraction w = (f64_mant w * 2 ^ nat (f64_scale w), 2 ^ 0)"
    using True by (cases "f64_scale w = 0") (auto simp: f64_fraction_def scale_ratio_def)
  then show ?thesis using True by (intro that [of "nat (f64_scale w)" 0]) auto
next
  case False
  have "f64_fraction w = (f64_mant w * 2 ^ 0, 2 ^ nat (- f64_scale w))"
    using False by (auto simp: f64_fraction_def scale_ratio_def)
  moreover have "nat (- f64_scale w) \<le> 1074" by (auto simp: f64_scale_def)
  ultimately show ?thesis using False by (intro that [of 0 "nat (- f64_scale w)"]) auto
qed

lemma f64_of_fraction:
  assumes "f64_finite w" "f64_fraction w = (p, q)"
  shows "f64_of_ratio (f64_sign w) p q = w"
proof (cases "f64_mant w = 0")
  case True
  then have "f64_mag w = 0" by (auto simp: f64_mant_def f64_mag_fields split: if_splits)
  moreover have "p = 0" using assms(2) True by (auto simp: f64_fraction_def scale_ratio_def split: if_splits)
  ultimately show ?thesis using f64_pattern [of w] by (simp add: f64_of_ratio_def)
next
  case False
  then have m: "0 < f64_mant w" by simp
  let ?m = "f64_mant w" and ?e = "f64_scale w"
  obtain a b where ab: "f64_fraction w = (?m * 2 ^ a, 2 ^ b)" "int a - int b = ?e" "a = 0 \<or> b = 0" "b \<le> 1074"
    by (rule f64_fraction_dyadic)
  have r: "ratio_log2 (?m * 2 ^ a) (2 ^ b) = int (ilog2 ?m) + ?e"
    using ratio_log2_dyadic [OF m, of a b] ab(2) by simp
  have e: "max (int (ilog2 ?m) + ?e - 52) (- 1074) = ?e"
  proof (cases "f64_exp w = 0")
    case True
    then have "?m < 2 ^ 52" "?e = -1074" using f64_mag_fields(2) [of w] by (simp_all add: f64_mant_def f64_scale_def)
    then show ?thesis using ilog2_less [OF m, of 52] by simp
  next
    case False
    have "ilog2 ?m = 52" using False f64_mag_fields(2) [of w] by (intro ilog2_unique) (auto simp: f64_mant_def)
    moreover have "-1074 \<le> ?e" using False by (simp add: f64_scale_def)
    ultimately show ?thesis by simp
  qed
  obtain n d where nd: "scale_ratio (?m * 2 ^ a) (2 ^ b) ?e = (n, d)" by fastforce
  have "n = ?m * d \<and> 0 < d"
  proof (cases "0 \<le> ?e")
    case True
    then have "b = 0" "nat ?e = a" using ab(2,3) by auto
    then show ?thesis using nd True by (auto simp: scale_ratio_def)
  next
    case False
    then have "a = 0" "nat (- ?e) = b" using ab(2,3) by auto
    then show ?thesis using nd False by (auto simp: scale_ratio_def)
  qed
  then have "round_half_even n d = ?m" by (simp add: round_half_even_exact)
  moreover have "nat (?e + 1074) * 2 ^ 52 + ?m = f64_mag w"
    by (auto simp: f64_scale_def f64_mant_def f64_mag_fields algebra_simps nat_diff_distrib)
  moreover have "f64_mag w < 2047 * 2 ^ 52"
    using assms(1) f64_exp_le [of w] f64_mag_fields [of w] by (simp add: f64_finite_def)
  ultimately have "f64_of_ratio (f64_sign w) (?m * 2 ^ a) (2 ^ b) = f64_make (f64_sign w) (f64_mag w)"
    using m by (simp add: f64_of_ratio_def r e nd)
  then show ?thesis using assms(2) ab(1) f64_pattern [of w] by simp
qed

section \<open>The search succeeds\<close>

lemma f64_of_dec_ratio:
  assumes "scale_dec p q k = (a, b)" "c * b = a" "0 < q"
  shows "f64_of_dec s c k = f64_of_ratio s p q"
proof (cases "0 \<le> k")
  case True
  then have "c * 10 ^ nat k * q = p * 1" using assms by (auto simp: scale_dec_def)
  from f64_of_ratio_cong [OF this _ assms(3), of s] True show ?thesis by (simp add: f64_of_dec_def)
next
  case False
  then have "c * q = p * 10 ^ nat (- k)" using assms by (auto simp: scale_dec_def)
  from f64_of_ratio_cong [OF this _ assms(3), of s] False show ?thesis by (simp add: f64_of_dec_def)
qed

lemma f64_of_dec_shift: "f64_of_dec s (10 * c) k = f64_of_dec s c (k + 1)"
proof -
  consider "0 \<le> k" | "k = -1" | "k < -1" by linarith
  then show ?thesis
  proof cases
    case 1
    then show ?thesis by (simp add: f64_of_dec_def nat_add_distrib mult.assoc mult.left_commute [of 10])
  next
    case 2
    then show ?thesis using f64_of_ratio_cong [of "10 * c" 1 c 10 s] by (simp add: f64_of_dec_def)
  next
    case 3
    then have "nat (- k) = Suc (nat (- (k + 1)))" by simp
    then show ?thesis
      using 3 f64_of_ratio_cong [of "10 * c" "10 ^ nat (- (k + 1))" c "10 ^ nat (- k)" s] by (simp add: f64_of_dec_def)
  qed
qed

lemma f64_of_dec_strip: "strip_zeros c k = (c', k') \<Longrightarrow> f64_of_dec s c' k' = f64_of_dec s c k"
proof (induction c k arbitrary: c' k' rule: strip_zeros.induct)
  case (1 c k)
  show ?case
  proof (cases "0 < c \<and> c mod 10 = 0")
    case True
    then have "strip_zeros (c div 10) (k + 1) = (c', k')" using "1.prems" by (simp add: strip_zeros.simps [of c])
    from "1.IH" [OF True this] have "f64_of_dec s c' k' = f64_of_dec s (c div 10) (k + 1)" .
    also have "\<dots> = f64_of_dec s (10 * (c div 10)) k" by (simp only: f64_of_dec_shift)
    also have "10 * (c div 10) = c" using True by auto
    finally show ?thesis .
  next
    case False
    then show ?thesis using "1.prems" by (auto simp: strip_zeros.simps [of c])
  qed
qed

lemma first_some_Some: "first_some f xs = Some y \<Longrightarrow> \<exists>x \<in> set xs. f x = Some y"
  by (induction xs) (auto split: option.splits)

lemma first_some_exists: "x \<in> set xs \<Longrightarrow> f x \<noteq> None \<Longrightarrow> first_some f xs \<noteq> None"
  by (induction xs) (auto split: option.splits)

lemma length_dec_nat: "n < 10 ^ k \<Longrightarrow> 0 < k \<Longrightarrow> length (dec_nat n) \<le> k"
proof (induction n arbitrary: k rule: dec_nat.induct)
  case (1 n)
  show ?case
  proof (cases "n < 10")
    case True
    then show ?thesis using "1.prems" by (simp add: dec_nat.simps [of n])
  next
    case False
    then obtain j where k: "k = Suc j" "0 < j" using "1.prems" by (cases k; cases "k - 1") auto
    then have "n div 10 < 10 ^ j" using "1.prems" by (simp add: less_mult_imp_div_less)
    from "1.IH" [OF False this k(2)] show ?thesis using False k by (simp add: dec_nat.simps [of n])
  qed
qed

lemma dec_exponent_lower:
  assumes "q \<le> 2 ^ k" "0 < q" "0 < k"
  shows "- int k \<le> dec_exponent p q"
proof -
  have "(q - 1) div p \<le> q - 1" by simp
  also have "\<dots> < q" using assms by simp
  also have "q \<le> 2 ^ k" by (rule assms)
  also have "(2::nat) ^ k \<le> 10 ^ k" by (rule power_mono) simp_all
  finally have "length (dec_nat ((q - 1) div p)) \<le> k" using assms(3) by (rule length_dec_nat)
  moreover have "0 < length (dec_nat (p div q))" by simp
  ultimately show ?thesis by (simp add: dec_exponent_def del: length_greater_0_conv)
qed

lemma strip_zeros_last: "strip_zeros c k = (c', k') \<Longrightarrow> 0 < c' \<Longrightarrow> c' mod 10 \<noteq> 0"
  by (induction c k arbitrary: c' k' rule: strip_zeros.induct)
     (auto simp: strip_zeros.simps split: if_splits)

lemma nearest_dec_reads:
  assumes "nearest_dec w n = Some (c, k)"
  shows "f64_of_dec (f64_sign w) c k = w"
  using assms
  by (cases "f64_fraction w"; cases "scale_dec (fst (f64_fraction w)) (snd (f64_fraction w)) (dec_exponent (fst (f64_fraction w)) (snd (f64_fraction w)) + 1 - int n)")
     (auto simp: nearest_dec_def Let_def split: if_splits prod.splits)

lemma nearest_dec_exact:
  assumes "f64_finite w" "f64_fraction w = (p, q)" "n = nat (dec_exponent p q + 1075)"
  shows "nearest_dec w n \<noteq> None \<and> 1 \<le> n \<and> n < nat (dec_exponent p q + 1076)"
proof -
  obtain b where q: "q = 2 ^ b" "b \<le> 1074"
    using f64_fraction_dyadic [of w] assms(2) by (metis Pair_inject)
  have "q \<le> 2 ^ 1074" unfolding q(1) using q(2) by (rule power_increasing) simp
  then have x: "- 1074 \<le> dec_exponent p q" using dec_exponent_lower [of q 1074 p] q(1) by simp
  then have k: "dec_exponent p q + 1 - int n = - 1074" using assms(3) by simp
  have "(10::nat) ^ 1074 = 2 ^ b * (2 ^ (1074 - b) * 5 ^ 1074)"
  proof -
    have "(10::nat) ^ 1074 = (2 * 5) ^ 1074" by (rule arg_cong [where f = "\<lambda>x. x ^ 1074"]) simp
    also have "\<dots> = 2 ^ (b + (1074 - b)) * 5 ^ 1074" using q(2) by (simp only: power_mult_distrib le_add_diff_inverse)
    finally show ?thesis by (simp only: power_add mult.assoc)
  qed
  then obtain t where t: "(10::nat) ^ 1074 = q * t" using q(1) by blast
  have qpos: "0 < q" using q(1) by simp
  have nk: "nat (- (- 1074)) = (1074::nat)" by simp
  have sc: "scale_dec p q (- 1074) = (p * t * q, q)"
    unfolding scale_dec_def nk t by (simp add: mult.assoc mult.commute)
  obtain c k' where st: "strip_zeros (p * t) (- 1074) = (c, k')" by fastforce
  have "f64_of_dec (f64_sign w) c k' = f64_of_dec (f64_sign w) (p * t) (- 1074)" by (rule f64_of_dec_strip [OF st])
  also have "\<dots> = f64_of_ratio (f64_sign w) p q" by (rule f64_of_dec_ratio [OF sc refl qpos])
  also have "\<dots> = w" by (rule f64_of_fraction [OF assms(1,2)])
  finally have "f64_of_dec (f64_sign w) c k' = w" .
  then have "nearest_dec w n = Some (c, k')"
    using qpos by (simp add: nearest_dec_def assms(2) k sc st Let_def)
  then show ?thesis using assms(3) x by simp
qed

lemma shortest_dec_exists:
  assumes "f64_finite w"
  shows "\<exists>c k. shortest_dec w = Some (c, k) \<and> f64_of_dec (f64_sign w) c k = w"
proof -
  obtain p q where pq: "f64_fraction w = (p, q)" by fastforce
  have "nat (dec_exponent p q + 1075) \<in> set [1..<nat (dec_exponent p q + 1076)]"
    "nearest_dec w (nat (dec_exponent p q + 1075)) \<noteq> None"
    using nearest_dec_exact [OF assms pq refl] by auto
  then have "first_some (nearest_dec w) [1..<nat (dec_exponent p q + 1076)] \<noteq> None" by (rule first_some_exists)
  then have "shortest_dec w \<noteq> None" by (simp add: shortest_dec_def pq)
  then obtain c k where ck: "shortest_dec w = Some (c, k)" by (cases "shortest_dec w") auto
  then have "first_some (nearest_dec w) [1..<nat (dec_exponent p q + 1076)] = Some (c, k)"
    by (simp add: shortest_dec_def pq)
  then have "\<exists>n. nearest_dec w n = Some (c, k)" using first_some_Some by fast
  then show ?thesis using ck nearest_dec_reads by blast
qed

section \<open>Number tokens\<close>

text \<open>The shape of a number token: sign, integer part, fraction and exponent.\<close>

definition number_text :: "bool \<Rightarrow> string \<Rightarrow> string \<Rightarrow> int option \<Rightarrow> string" where
  "number_text neg ip fp ex =
     (if neg then ''-'' else '''') @ ip @ (if fp = [] then '''' else ''.'' @ fp) @
     (case ex of None \<Rightarrow> '''' | Some x \<Rightarrow> ''e'' @ exponent_text x)"

definition digits :: "string \<Rightarrow> bool" where
  "digits s \<longleftrightarrow> list_all is_digit s"

definition valid_integer :: "string \<Rightarrow> bool" where
  "valid_integer ip \<longleftrightarrow> digits ip \<and> ip \<noteq> [] \<and> (hd ip = CHR ''0'' \<longrightarrow> ip = ''0'')"

definition exponent_value :: "int option \<Rightarrow> int" where
  "exponent_value ex = (case ex of None \<Rightarrow> 0 | Some x \<Rightarrow> x)"

lemma digits_simps [simp]:
  "digits []" "digits (c # cs) \<longleftrightarrow> is_digit c \<and> digits cs" "digits (s @ t) \<longleftrightarrow> digits s \<and> digits t"
  "digits (replicate n (CHR ''0''))" "digits (dec_nat n)"
  using dec_nat_digits [of n] by (auto simp: digits_def list_all_iff is_digit_def)

lemma digit_char_zero: "n < 10 \<Longrightarrow> digit_char n = CHR ''0'' \<longleftrightarrow> n = 0"
proof -
  assume n: "n < 10"
  have "digit_char 0 = CHR ''0''" unfolding digit_char_def by code_simp
  then show ?thesis using digit_val_digit_char [OF n] digit_val_digit_char [of 0] by auto
qed

lemma digits_take [simp]: "digits s \<Longrightarrow> digits (take n s) \<and> digits (drop n s)"
  by (auto simp: digits_def list_all_iff dest: in_set_takeD in_set_dropD)

lemma is_digit_chars [simp]:
  "is_digit (CHR ''0'')" "\<not> is_digit (CHR ''-'')" "\<not> is_digit (CHR ''+'')" "\<not> is_digit (CHR ''.'')" "\<not> is_digit (CHR ''e'')"
  "\<not> is_digit (CHR ''E'')"
  by (simp_all add: is_digit_def)

lemma span_digits:
  assumes "digits s" "t = [] \<or> \<not> is_digit (hd t)"
  shows "takeWhile is_digit (s @ t) = s" "dropWhile is_digit (s @ t) = t"
  using assms by (cases t; simp add: digits_def list_all_iff takeWhile_append2 dropWhile_append2)+

lemma dec_nat_hd: "0 < n \<Longrightarrow> hd (dec_nat n) \<noteq> CHR ''0''"
proof (induction n rule: dec_nat.induct)
  case (1 n)
  show ?case
  proof (cases "n < 10")
    case True
    then show ?thesis using 1(2) by (simp add: dec_nat.simps [of n] digit_char_zero)
  next
    case False
    then have "hd (dec_nat (n div 10)) \<noteq> CHR ''0''" using "1.IH" by simp
    then show ?thesis using False by (simp add: dec_nat.simps [of n] hd_append)
  qed
qed

lemma valid_integer_dec_nat [simp]: "valid_integer (dec_nat n)"
  using dec_nat_hd [of n] by (cases "n = 0") (auto simp: valid_integer_def dec_nat.simps [of 0] digit_char_zero)

lemma digits_value_append: "digits_value (s @ t) = digits_value s * 10 ^ length t + digits_value t"
proof (induction t rule: rev_induct)
  case (snoc c t)
  have "digits_value (s @ t @ [c]) = 10 * digits_value (s @ t) + digit_val c"
    using digits_value_snoc [of "s @ t" c] by simp
  also have "\<dots> = digits_value s * 10 ^ length (t @ [c]) + digits_value (t @ [c])" by (simp add: snoc algebra_simps)
  finally show ?case .
qed (simp add: digits_value_def)

lemma digits_value_Nil [simp]: "digits_value [] = 0"
  by (simp add: digits_value_def)

lemma digits_value_zeros [simp]: "digits_value (replicate n (CHR ''0'')) = 0"
  by (induction n) (simp_all add: digits_value_def digit_val_def)

lemma digits_value_zero_cons: "digits_value (CHR ''0'' # s) = digits_value s"
  by (simp add: digits_value_def digit_val_def)

lemma exponent_text_value: "token_exponent (c # exponent_text x) = x"
proof -
  show ?thesis by (simp add: token_exponent_def exponent_text_def Let_def token_sign_def digits_value_zero_cons)
qed

lemma strtod_text:
  assumes "digits ip" "ip \<noteq> []" "digits fp"
  shows "strtod (number_text neg ip fp ex) =
    f64_of_dec neg (digits_value (ip @ fp)) (exponent_value ex - int (length fp))"
proof -
  let ?x = "case ex of None \<Rightarrow> '''' | Some x \<Rightarrow> ''e'' @ exponent_text x"
  let ?f = "(if fp = [] then '''' else ''.'' @ fp) @ ?x"
  have x: "?x = [] \<or> \<not> is_digit (hd ?x)" by (simp split: option.split)
  have f: "?f = [] \<or> \<not> is_digit (hd ?f)" using x by simp
  obtain d ds where ip: "ip = d # ds" "is_digit d" using assms(1,2) by (cases ip) auto
  then have nd: "d \<noteq> CHR ''-''" "d \<noteq> CHR ''+''" by auto
  have s: "token_sign (number_text neg ip fp ex) = (neg, ip @ ?f)"
    using nd by (simp add: number_text_def token_sign_def ip)
  have fr: "token_fraction ?f = (fp, ?x)"
    using span_digits [OF assms(3) x] by (simp add: token_fraction_def split: option.split)
  have e: "token_exponent ?x = exponent_value ex"
    by (simp add: exponent_value_def exponent_text_value split: option.split) (simp add: token_exponent_def)
  show ?thesis
    using span_digits [OF assms(1) f] by (simp only: strtod_def s fr e Let_def prod.case)
qed

lemma digits_value_less: "digits s \<Longrightarrow> digits_value s < 10 ^ length s"
proof (induction s rule: rev_induct)
  case (snoc c s)
  have "digit_val c \<le> 9" using snoc.prems by (simp add: digit_val_def is_digit_def le_diff_conv)
  moreover have "digits_value s < 10 ^ length s" using snoc by simp
  ultimately show ?case by simp
qed simp

lemma f64_of_dec_unscale: "0 \<le> k \<Longrightarrow> f64_of_dec s (c * 10 ^ nat k) 0 = f64_of_dec s c k"
  by (simp add: f64_of_dec_def)

text \<open>What a text stands for: its shape, the value of its token, and its size when it is an integer.\<close>

definition denotes :: "string \<Rightarrow> bool \<Rightarrow> nat \<Rightarrow> int \<Rightarrow> string \<Rightarrow> string \<Rightarrow> int option \<Rightarrow> bool" where
  "denotes t neg c k ip fp ex \<longleftrightarrow> t = number_text neg ip fp ex \<and> valid_integer ip \<and> digits fp \<and>
     f64_of_dec neg (digits_value (ip @ fp)) (exponent_value ex - int (length fp)) = f64_of_dec neg c k \<and>
     (fp = [] \<and> ex = None \<longrightarrow> digits_value ip < 10 ^ 6)"

lemma dec_digits:
  assumes "0 < c"
  shows "digits (dec_nat c)" "dec_nat c \<noteq> []" "hd (dec_nat c) \<noteq> CHR ''0''"
  using dec_nat_hd [OF assms] by simp_all

lemma decimal_text_denotes:
  assumes "0 < c"
  shows "\<exists>ip fp ex. denotes ((if neg then ''-'' else '''') @ decimal_text c k) neg c k ip fp ex"
proof -
  let ?ds = "dec_nat c"
  let ?L = "length ?ds"
  let ?x = "int ?L - 1 + k"
  note ds = dec_digits [OF assms]
  consider (integer) "- 4 \<le> ?x \<and> ?x < 6" "0 \<le> k" | (point) "- 4 \<le> ?x \<and> ?x < 6" "k < 0" "nat (- k) < ?L"
    | (small) "- 4 \<le> ?x \<and> ?x < 6" "k < 0" "?L \<le> nat (- k)" | (scientific) "\<not> (- 4 \<le> ?x \<and> ?x < 6)"
    by linarith
  then show ?thesis
  proof cases
    case integer
    let ?ip = "?ds @ replicate (nat k) (CHR ''0'')"
    have "length ?ip \<le> 6" using integer by simp
    then have "(10::nat) ^ length ?ip \<le> 10 ^ 6" by (intro power_increasing) simp_all
    moreover have "digits_value ?ip < 10 ^ length ?ip" by (intro digits_value_less) simp
    ultimately have "digits_value ?ip < 10 ^ 6" by linarith
    moreover have "digits_value ?ip = c * 10 ^ nat k" by (simp add: digits_value_append)
    ultimately have "denotes ((if neg then ''-'' else '''') @ decimal_text c k) neg c k ?ip [] None"
      using integer ds by (simp add: denotes_def decimal_text_def fixed_text_def number_text_def valid_integer_def
          exponent_value_def f64_of_dec_unscale Let_def)
    then show ?thesis by blast
  next
    case point
    let ?ip = "take (?L - nat (- k)) ?ds" and ?fp = "drop (?L - nat (- k)) ?ds"
    have "hd ?ip = hd ?ds" "?ip \<noteq> []" "?fp \<noteq> []" using point ds by (simp_all add: hd_take)
    then have "denotes ((if neg then ''-'' else '''') @ decimal_text c k) neg c k ?ip ?fp None"
      using point ds by (simp add: denotes_def decimal_text_def fixed_text_def number_text_def valid_integer_def
          exponent_value_def Let_def)
    then show ?thesis by blast
  next
    case small
    let ?fp = "replicate (nat (- k) - ?L) (CHR ''0'') @ ?ds"
    have "digits_value (''0'' @ ?fp) = c" by (simp add: digits_value_zero_cons digits_value_append)
    moreover have "int (length ?fp) = - k" using small by simp
    ultimately have "denotes ((if neg then ''-'' else '''') @ decimal_text c k) neg c k ''0'' ?fp None"
      using small ds by (simp add: denotes_def decimal_text_def fixed_text_def number_text_def valid_integer_def
          exponent_value_def Let_def)
    then show ?thesis by blast
  next
    case scientific
    have sci: "decimal_text c k = scientific_text ?ds ?x" by (simp only: decimal_text_def Let_def scientific if_False)
    have "[hd ?ds] @ tl ?ds = ?ds" using ds by simp
    moreover have "is_digit (hd ?ds) \<and> digits (tl ?ds)" using ds by (metis digits_simps(2) list.collapse)
    moreover have "?x - int (length (tl ?ds)) = k" using ds by (cases ?ds) simp_all
    ultimately have "denotes ((if neg then ''-'' else '''') @ decimal_text c k) neg c k [hd ?ds] (tl ?ds) (Some ?x)"
      using ds unfolding denotes_def sci
      by (simp add: scientific_text_def number_text_def valid_integer_def exponent_value_def)
    then show ?thesis by blast
  qed
qed

lemma f64_of_dec_zero: "f64_of_dec s 0 k = f64_make s 0"
  by (simp add: f64_of_dec_def f64_of_ratio_def)

lemma double_text_denotes:
  assumes "f64_finite w"
  shows "\<exists>ip fp ex c k. denotes (double_text w) (f64_sign w) c k ip fp ex \<and> f64_of_dec (f64_sign w) c k = w"
proof (cases "f64_mag w = 0")
  case True
  have "denotes (double_text w) (f64_sign w) 0 0 ''0'' [] None"
    by (simp add: denotes_def double_text_def True number_text_def valid_integer_def exponent_value_def
        digits_value_zero_cons)
  moreover have "f64_of_dec (f64_sign w) 0 0 = w" using f64_pattern [of w] by (simp add: f64_of_dec_zero True)
  ultimately show ?thesis by blast
next
  case False
  obtain c k where ck: "shortest_dec w = Some (c, k)" "f64_of_dec (f64_sign w) c k = w"
    using shortest_dec_exists [OF assms] by blast
  have "c \<noteq> 0"
  proof
    assume "c = 0"
    then have "w = f64_make (f64_sign w) 0" using ck(2) by (simp add: f64_of_dec_zero)
    then have "f64_mag w = f64_mag (f64_make (f64_sign w) 0)" by (rule arg_cong)
    with False show False by simp
  qed
  moreover have "double_text w = (if f64_sign w then ''-'' else '''') @ decimal_text c k"
    by (simp add: double_text_def False ck(1))
  ultimately show ?thesis using decimal_text_denotes [of c "f64_sign w" k] ck(2) by (metis gr0I)
qed

text \<open>Reading back what was written gives the same double.\<close>

lemma strtod_double_text:
  assumes "f64_finite w"
  shows "strtod (double_text w) = w"
proof -
  obtain ip fp ex c k where d: "denotes (double_text w) (f64_sign w) c k ip fp ex" "f64_of_dec (f64_sign w) c k = w"
    using double_text_denotes [OF assms] by blast
  then have "strtod (number_text (f64_sign w) ip fp ex) =
      f64_of_dec (f64_sign w) (digits_value (ip @ fp)) (exponent_value ex - int (length fp))"
    by (intro strtod_text) (auto simp: denotes_def valid_integer_def)
  with d show ?thesis by (simp add: denotes_def)
qed

end
