(* ===== verification/Json.thy ===== *)
theory Json
  imports Core Json_Number
begin

text \<open>
  core/json.hpp: the document type with its accessors and the canonical writer. Keys are sorted by
  \<open>std::sort\<close>; where keys are distinct, as in every object the program builds, every sorting
  algorithm gives the same list, and insertion is what the library uses for short lists.
\<close>

section \<open>Documents\<close>

datatype JsonValue =
    JNull
  | JBool bool
  | JInt i64
  | JUInt u64
  | JDouble f64
  | JString string
  | JArray "JsonValue list"
  | JObject "(string \<times> JsonValue) list"

definition is_null :: "JsonValue \<Rightarrow> bool" where "is_null v \<longleftrightarrow> (case v of JNull \<Rightarrow> True | _ \<Rightarrow> False)"
definition is_bool :: "JsonValue \<Rightarrow> bool" where "is_bool v \<longleftrightarrow> (case v of JBool _ \<Rightarrow> True | _ \<Rightarrow> False)"
definition is_int :: "JsonValue \<Rightarrow> bool" where
  "is_int v \<longleftrightarrow> (case v of JInt _ \<Rightarrow> True | JUInt _ \<Rightarrow> True | _ \<Rightarrow> False)"
definition is_double :: "JsonValue \<Rightarrow> bool" where "is_double v \<longleftrightarrow> (case v of JDouble _ \<Rightarrow> True | _ \<Rightarrow> False)"
definition is_string :: "JsonValue \<Rightarrow> bool" where "is_string v \<longleftrightarrow> (case v of JString _ \<Rightarrow> True | _ \<Rightarrow> False)"
definition is_array :: "JsonValue \<Rightarrow> bool" where "is_array v \<longleftrightarrow> (case v of JArray _ \<Rightarrow> True | _ \<Rightarrow> False)"
definition is_object :: "JsonValue \<Rightarrow> bool" where "is_object v \<longleftrightarrow> (case v of JObject _ \<Rightarrow> True | _ \<Rightarrow> False)"

text \<open>\<open>std::get\<close> on the wrong alternative throws \<open>std::bad_variant_access\<close>.\<close>

definition bad_access :: fault where "bad_access = Runtime_error ''bad variant access''"

fun as_array :: "JsonValue \<Rightarrow> fault + JsonValue list" where
  "as_array (JArray a) = Inr a"
| "as_array _ = Inl bad_access"

fun as_object :: "JsonValue \<Rightarrow> fault + (string \<times> JsonValue) list" where
  "as_object (JObject items) = Inr items"
| "as_object _ = Inl bad_access"

fun as_string :: "JsonValue \<Rightarrow> fault + string" where
  "as_string (JString s) = Inr s"
| "as_string _ = Inl bad_access"

fun as_int :: "JsonValue \<Rightarrow> fault + i64" where
  "as_int (JInt i) = Inr i"
| "as_int (JUInt u) = (if u > 0x7FFFFFFFFFFFFFFF then Inl (Runtime_error ''int overflow'') else Inr u)"
| "as_int _ = Inl (Runtime_error ''JsonValue::as_int on non-integer'')"

fun as_uint :: "JsonValue \<Rightarrow> fault + u64" where
  "as_uint (JUInt u) = Inr u"
| "as_uint (JInt i) = (if sint i < 0 then Inl (Runtime_error ''negative to uint'') else Inr i)"
| "as_uint _ = Inl (Runtime_error ''JsonValue::as_uint on non-integer'')"

fun as_double :: "JsonValue \<Rightarrow> fault + f64" where
  "as_double (JDouble d) = Inr d"
| "as_double (JInt i) = Inr (f64_of_i64 i)"
| "as_double (JUInt u) = Inr (f64_of_u64 u)"
| "as_double _ = Inl (Runtime_error ''JsonValue::as_double on non-number'')"

text \<open>\<open>find\<close>: the first member of that name (\<open>None\<close> for the null pointer).\<close>

definition json_find :: "string \<Rightarrow> JsonValue \<Rightarrow> fault + JsonValue option" where
  "json_find key v = (case as_object v of Inl e \<Rightarrow> Inl e | Inr items \<Rightarrow> Inr (map_of items key))"

fun set_item :: "string \<Rightarrow> JsonValue \<Rightarrow> (string \<times> JsonValue) list \<Rightarrow> (string \<times> JsonValue) list" where
  "set_item key val [] = [(key, val)]"
| "set_item key val ((k, v) # items) = (if k = key then (k, val) # items else (k, v) # set_item key val items)"

definition json_set :: "string \<Rightarrow> JsonValue \<Rightarrow> JsonValue \<Rightarrow> fault + JsonValue" where
  "json_set key val v = (case as_object v of Inl e \<Rightarrow> Inl e | Inr items \<Rightarrow> Inr (JObject (set_item key val items)))"

section \<open>Writer\<close>

text \<open>\<open>snprintf\<close> with \<open>%04x\<close>.\<close>

definition hex_char :: "nat \<Rightarrow> char" where
  "hex_char n = (if n < 10 then char_of (48 + n) else char_of (87 + n))"

definition hex4 :: "nat \<Rightarrow> string" where
  "hex4 n = [hex_char (n div 4096 mod 16), hex_char (n div 256 mod 16), hex_char (n div 16 mod 16), hex_char (n mod 16)]"

definition escape_char :: "char \<Rightarrow> string" where
  "escape_char c =
     (if c = CHR 0x22 then [CHR 0x5C, CHR 0x22]
      else if c = CHR 0x5C then [CHR 0x5C, CHR 0x5C]
      else if c = CHR 0x08 then [CHR 0x5C, CHR ''b'']
      else if c = CHR 0x0C then [CHR 0x5C, CHR ''f'']
      else if c = CHR 0x0A then [CHR 0x5C, CHR ''n'']
      else if c = CHR 0x0D then [CHR 0x5C, CHR ''r'']
      else if c = CHR 0x09 then [CHR 0x5C, CHR ''t'']
      else if (of_char c :: nat) < 0x20 then [CHR 0x5C, CHR ''u''] @ hex4 (of_char c)
      else [c])"

definition append_string :: "string \<Rightarrow> string" where
  "append_string s = [CHR 0x22] @ concat (map escape_char s) @ [CHR 0x22]"

definition write_number :: "f64 \<Rightarrow> string" where
  "write_number d = (if \<not> f64_finite d then ''null'' else double_text d)"

text \<open>The line break and indentation before an element at depth \<open>depth\<close> (none when \<open>indent < 0\<close>).\<close>

definition break_line :: "int \<Rightarrow> nat \<Rightarrow> string" where
  "break_line indent depth =
     (if indent \<ge> 0 then [CHR 0x0A] @ replicate (nat indent * depth) (CHR '' '') else [])"

text \<open>\<open>operator<\<close> on \<open>std::string\<close> compares characters as unsigned bytes.\<close>

fun string_less :: "string \<Rightarrow> string \<Rightarrow> bool" where
  "string_less _ [] = False"
| "string_less [] (y # ys) = True"
| "string_less (x # xs) (y # ys) =
     ((of_char x :: nat) < of_char y \<or> x = y \<and> string_less xs ys)"

definition key_less :: "string \<times> 'v \<Rightarrow> string \<times> 'v \<Rightarrow> bool" where
  "key_less a b = string_less (fst a) (fst b)"

lemma string_less_iff: "string_less s t \<longleftrightarrow> s < t"
  by (induction s t rule: string_less.induct) (auto simp: less_char_def)

interpretation json_keys: keyed_comparator "\<lambda>_. True" key_less fst
  by unfold_locales (simp add: key_less_def string_less_iff)

definition ordered_items :: "bool \<Rightarrow> (string \<times> 'v) list \<Rightarrow> (string \<times> 'v) list" where
  "ordered_items sort_keys items = (if sort_keys then stable_sort key_less items else items)"

lemma size_insert_by: "size_list f (insert_by lt x ys) = Suc (f x + size_list f ys)"
  by (induction ys) simp_all

lemma size_stable_sort: "size_list f (stable_sort lt xs) = size_list f xs"
  by (induction xs) (simp_all add: size_insert_by)

lemma size_ordered_items: "size_list f (ordered_items srt items) = size_list f items"
  by (simp add: ordered_items_def size_stable_sort)

text \<open>The order in which an object with distinct keys is written does not depend on how it was built, nor on the
  algorithm that sorts it.\<close>

lemma ordered_items_unique:
  assumes "mset xs = mset ys" "distinct (map fst xs)"
  shows "ordered_items True xs = ordered_items True ys"
  using json_keys.sorted_once [of xs ys] assms by (simp add: ordered_items_def)

text \<open>\<open>write_value\<close> with the loops over the elements of an array and the members of an object.\<close>

function (sequential) write_value :: "bool \<Rightarrow> int \<Rightarrow> nat \<Rightarrow> JsonValue \<Rightarrow> string"
  and write_elements :: "bool \<Rightarrow> int \<Rightarrow> nat \<Rightarrow> bool \<Rightarrow> JsonValue list \<Rightarrow> string"
  and write_members :: "bool \<Rightarrow> int \<Rightarrow> nat \<Rightarrow> bool \<Rightarrow> (string \<times> JsonValue) list \<Rightarrow> string" where
  "write_value srt indent depth JNull = ''null''"
| "write_value srt indent depth (JBool b) = (if b then ''true'' else ''false'')"
| "write_value srt indent depth (JInt i) = dec_int (sint i)"
| "write_value srt indent depth (JUInt u) = dec_nat (unat u)"
| "write_value srt indent depth (JDouble d) = write_number d"
| "write_value srt indent depth (JString s) = append_string s"
| "write_value srt indent depth (JArray vs) =
     ''['' @ write_elements srt indent depth True vs @
     (if vs = [] then '''' else break_line indent depth) @ '']''"
| "write_value srt indent depth (JObject items) =
     ''{'' @ write_members srt indent depth True (ordered_items srt items) @
     (if items = [] then '''' else break_line indent depth) @ ''}''"
| "write_elements srt indent depth first [] = ''''"
| "write_elements srt indent depth first (v # vs) =
     (if first then '''' else '','') @ break_line indent (depth + 1) @
     write_value srt indent (depth + 1) v @ write_elements srt indent depth False vs"
| "write_members srt indent depth first [] = ''''"
| "write_members srt indent depth first ((k, v) # items) =
     (if first then '''' else '','') @ break_line indent (depth + 1) @ append_string k @ '':'' @
     (if indent \<ge> 0 \<and> \<not> srt then '' '' else '''') @
     write_value srt indent (depth + 1) v @ write_members srt indent depth False items"
  by pat_completeness auto
termination
  by (relation "measure (\<lambda>x. case x of
        Inl (srt, indent, depth, v) \<Rightarrow> size v
      | Inr (Inl (srt, indent, depth, first, vs)) \<Rightarrow> size_list size vs
      | Inr (Inr (srt, indent, depth, first, items)) \<Rightarrow> size_list (size_prod (\<lambda>_. 0) size) items)")
     (simp_all add: size_ordered_items)

definition json_text :: "JsonValue \<Rightarrow> bool \<Rightarrow> int \<Rightarrow> string" where
  "json_text v sort_keys indent = write_value sort_keys indent 0 v"

end
