(* ===== verification/Json_Parser.thy ===== *)
theory Json_Parser
  imports Json
begin

text \<open>
  The strict parser of core/json.hpp. The position is represented by the text that is left; an
  error carries its message and the number of characters left, from which \<open>parse_json\<close> computes the
  position that \<open>JsonParseError\<close> reports.
\<close>

type_synonym 'a presult = "(string \<times> nat) + 'a \<times> string"

definition fail :: "string \<Rightarrow> string \<Rightarrow> 'a presult" where
  "fail msg rest = Inl (msg, length rest)"

section \<open>Characters\<close>

definition peek :: "string \<Rightarrow> char" where
  "peek rest = (case rest of [] \<Rightarrow> CHR 0x00 | c # _ \<Rightarrow> c)"

definition is_space :: "char \<Rightarrow> bool" where
  "is_space c \<longleftrightarrow> of_char c = (32::nat) \<or> (9 \<le> (of_char c :: nat) \<and> (of_char c :: nat) \<le> 13)"

definition skip_ws :: "string \<Rightarrow> string" where
  "skip_ws rest = dropWhile is_space rest"

definition expect :: "char \<Rightarrow> string \<Rightarrow> unit presult" where
  "expect c rest =
     (case rest of x # xs \<Rightarrow> if x = c then Inr ((), xs) else fail (''expected '' @ [CHR 0x27, c, CHR 0x27]) rest
      | [] \<Rightarrow> fail (''expected '' @ [CHR 0x27, c, CHR 0x27]) rest)"

definition expect_word :: "string \<Rightarrow> JsonValue \<Rightarrow> string \<Rightarrow> JsonValue presult" where
  "expect_word w v rest =
     (if take (length w) rest = w then Inr (v, drop (length w) rest) else fail (''expected '' @ w) rest)"

section \<open>Strings\<close>

definition hex_value :: "char \<Rightarrow> nat option" where
  "hex_value h =
     (let n = of_char h :: nat in
      if 48 \<le> n \<and> n \<le> 57 then Some (n - 48)
      else if 97 \<le> n \<and> n \<le> 102 then Some (n - 97 + 10)
      else if 65 \<le> n \<and> n \<le> 70 then Some (n - 65 + 10)
      else None)"

fun hex_loop :: "nat \<Rightarrow> nat \<Rightarrow> string \<Rightarrow> nat presult" where
  "hex_loop 0 code rest = Inr (code, rest)"
| "hex_loop (Suc n) code [] = fail ''invalid unicode escape'' []"
| "hex_loop (Suc n) code (h # rest) =
     (case hex_value h of Some d \<Rightarrow> hex_loop n (16 * code + d) rest | None \<Rightarrow> fail ''invalid unicode escape'' rest)"

text \<open>The bytes of a code point below \<open>2 ^ 16\<close> (surrogates are encoded one by one).\<close>

definition utf8 :: "nat \<Rightarrow> string" where
  "utf8 code =
     (if code < 0x80 then [char_of code]
      else if code < 0x800 then [char_of (0xC0 + code div 64), char_of (0x80 + code mod 64)]
      else [char_of (0xE0 + code div 4096), char_of (0x80 + code div 64 mod 64), char_of (0x80 + code mod 64)])"

definition simple_escape :: "char \<Rightarrow> char option" where
  "simple_escape e =
     (if e = CHR 0x22 then Some (CHR 0x22) else if e = CHR 0x5C then Some (CHR 0x5C)
      else if e = CHR ''/'' then Some (CHR ''/'') else if e = CHR ''b'' then Some (CHR 0x08)
      else if e = CHR ''f'' then Some (CHR 0x0C) else if e = CHR ''n'' then Some (CHR 0x0A)
      else if e = CHR ''r'' then Some (CHR 0x0D) else if e = CHR ''t'' then Some (CHR 0x09) else None)"

lemma hex_loop_length: "hex_loop n code rest = Inr (x, r) \<Longrightarrow> length r \<le> length rest"
  by (induction n code rest rule: hex_loop.induct) (auto simp: fail_def split: option.splits)

function string_loop :: "string \<Rightarrow> string \<Rightarrow> string presult" where
  "string_loop out rest =
     (case rest of
        [] \<Rightarrow> fail ''unterminated string'' rest
      | c # cs \<Rightarrow>
          if c = CHR 0x22 then Inr (out, cs)
          else if c = CHR 0x5C then
            (case cs of
               [] \<Rightarrow> fail ''unterminated escape'' cs
             | e # es \<Rightarrow>
                 if e = CHR ''u'' then
                   (if length es < 4 then fail ''unterminated unicode escape'' es
                    else case hex_loop 4 0 es of
                      Inl err \<Rightarrow> Inl err
                    | Inr (code, es') \<Rightarrow> string_loop (out @ utf8 code) es')
                 else (case simple_escape e of
                     Some x \<Rightarrow> string_loop (out @ [x]) es
                   | None \<Rightarrow> fail ''invalid escape'' es))
          else if (of_char c :: nat) < 0x20 then fail ''control character in string'' cs
          else string_loop (out @ [c]) cs)"
  by pat_completeness auto
termination
  by (relation "measure (\<lambda>(out, rest). length rest)") (auto dest: hex_loop_length)

declare string_loop.simps [simp del]

definition parse_string :: "string \<Rightarrow> string presult" where
  "parse_string rest =
     (case expect (CHR 0x22) rest of Inl e \<Rightarrow> Inl e | Inr (_, r) \<Rightarrow> string_loop [] r)"

section \<open>Numbers\<close>

text \<open>\<open>std::from_chars\<close> on the whole token, for the two integer types.\<close>

definition from_chars_int :: "string \<Rightarrow> i64 option" where
  "from_chars_int t =
     (let v = (if peek t = CHR ''-'' then - int (digits_value (tl t)) else int (digits_value t))
      in if - (2 ^ 63) \<le> v \<and> v < 2 ^ 63 then Some (word_of_int v) else None)"

definition from_chars_uint :: "string \<Rightarrow> u64 option" where
  "from_chars_uint t =
     (if peek t = CHR ''-'' then None
      else if digits_value t < 2 ^ 64 then Some (of_nat (digits_value t)) else None)"

definition lex_integer :: "string \<Rightarrow> unit presult" where
  "lex_integer rest =
     (let r = (if peek rest = CHR ''-'' then tl rest else rest) in
      if peek r = CHR ''0'' then Inr ((), tl r)
      else if is_digit (peek r) then Inr ((), dropWhile is_digit r)
      else fail ''invalid number'' r)"

definition lex_fraction :: "string \<Rightarrow> bool presult" where
  "lex_fraction rest =
     (if peek rest = CHR ''.'' then
        (if is_digit (peek (tl rest)) then Inr (True, dropWhile is_digit (tl rest))
         else fail ''invalid number fraction'' (tl rest))
      else Inr (False, rest))"

definition lex_exponent :: "string \<Rightarrow> bool presult" where
  "lex_exponent rest =
     (if peek rest = CHR ''e'' \<or> peek rest = CHR ''E'' then
        (let r = (if peek (tl rest) = CHR ''+'' \<or> peek (tl rest) = CHR ''-'' then tl (tl rest) else tl rest) in
         if is_digit (peek r) then Inr (True, dropWhile is_digit r) else fail ''invalid number exponent'' r)
      else Inr (False, rest))"

text \<open>The value of a token; \<open>strtod\<close> accepts every token of this grammar as a whole.\<close>

definition number_value :: "bool \<Rightarrow> string \<Rightarrow> JsonValue option" where
  "number_value is_float token =
     (if is_float then Some (JDouble (strtod token))
      else case from_chars_int token of
        Some i \<Rightarrow> Some (JInt i)
      | None \<Rightarrow> map_option JUInt (from_chars_uint token))"

definition parse_number :: "string \<Rightarrow> JsonValue presult" where
  "parse_number rest =
     (case lex_integer rest of
        Inl e \<Rightarrow> Inl e
      | Inr (_, r1) \<Rightarrow>
          (case lex_fraction r1 of
             Inl e \<Rightarrow> Inl e
           | Inr (f1, r2) \<Rightarrow>
               (case lex_exponent r2 of
                  Inl e \<Rightarrow> Inl e
                | Inr (f2, r3) \<Rightarrow>
                    (case number_value (f1 \<or> f2) (take (length rest - length r3) rest) of
                       Some v \<Rightarrow> Inr (v, r3)
                     | None \<Rightarrow> fail ''integer out of range'' r3))))"

section \<open>Documents\<close>

function parse_value :: "string \<Rightarrow> JsonValue presult"
  and array_loop :: "JsonValue list \<Rightarrow> string \<Rightarrow> JsonValue presult"
  and object_loop :: "(string \<times> JsonValue) list \<Rightarrow> string \<Rightarrow> JsonValue presult" where
  "parse_value rest =
     (case rest of
        [] \<Rightarrow> fail ''unexpected end of input'' rest
      | c # cs \<Rightarrow>
          if c = CHR 0x7B then
            (if peek (skip_ws cs) = CHR 0x7D then Inr (JObject [], tl (skip_ws cs)) else object_loop [] (skip_ws cs))
          else if c = CHR 0x5B then
            (if peek (skip_ws cs) = CHR 0x5D then Inr (JArray [], tl (skip_ws cs)) else array_loop [] (skip_ws cs))
          else if c = CHR 0x22 then
            (case parse_string rest of Inl e \<Rightarrow> Inl e | Inr (s, r) \<Rightarrow> Inr (JString s, r))
          else if c = CHR ''t'' then expect_word ''true'' (JBool True) rest
          else if c = CHR ''f'' then expect_word ''false'' (JBool False) rest
          else if c = CHR ''n'' then expect_word ''null'' JNull rest
          else if c = CHR ''-'' \<or> is_digit c then parse_number rest
          else fail (''unexpected character '' @ [CHR 0x27, c, CHR 0x27]) rest)"
| "array_loop arr rest =
     (case parse_value (skip_ws rest) of
        Inl e \<Rightarrow> Inl e
      | Inr (v, r1) \<Rightarrow>
          (case skip_ws r1 of
             c # r2 \<Rightarrow>
               if c = CHR '','' then array_loop (arr @ [v]) r2
               else if c = CHR 0x5D then Inr (JArray (arr @ [v]), r2)
               else fail ''expected ',' or ']' in array'' (c # r2)
           | [] \<Rightarrow> fail ''expected ',' or ']' in array'' []))"
| "object_loop items rest =
     (if peek (skip_ws rest) \<noteq> CHR 0x22 then fail ''expected string key in object'' (skip_ws rest)
      else case parse_string (skip_ws rest) of
        Inl e \<Rightarrow> Inl e
      | Inr (key, r1) \<Rightarrow>
          (case expect (CHR '':'') (skip_ws r1) of
             Inl e \<Rightarrow> Inl e
           | Inr (_, r2) \<Rightarrow>
               (case parse_value (skip_ws r2) of
                  Inl e \<Rightarrow> Inl e
                | Inr (v, r3) \<Rightarrow>
                    (case skip_ws r3 of
                       c # r4 \<Rightarrow>
                         if c = CHR '','' then object_loop (items @ [(key, v)]) r4
                         else if c = CHR 0x7D then Inr (JObject (items @ [(key, v)]), r4)
                         else fail ''expected ',' or '}' in object'' (c # r4)
                     | [] \<Rightarrow> fail ''expected ',' or '}' in object'' []))))"
  by pat_completeness auto

text \<open>Every step consumes: what a parser leaves is shorter than what it was given.\<close>

lemma skip_ws_length: "length (skip_ws s) \<le> length s"
  by (simp add: skip_ws_def length_dropWhile_le)

lemma expect_length: "expect c s = Inr (u, r) \<Longrightarrow> length r < length s"
  by (auto simp: expect_def fail_def split: list.splits if_splits)

lemma string_loop_length: "string_loop out s = Inr (t, r) \<Longrightarrow> length r < length s"
proof (induction out s rule: string_loop.induct)
  case (1 out s)
  note p = "1.prems" [unfolded string_loop.simps [of out s]]
  show ?case
  proof (cases s)
    case Nil
    with p show ?thesis by (simp add: fail_def)
  next
    case (Cons c cs)
    note IH = "1.IH" [OF Cons]
    show ?thesis
    proof (cases "c = CHR 0x5C")
      case True
      then show ?thesis
      proof (cases cs)
        case Nil
        with p Cons True show ?thesis by (simp add: fail_def)
      next
        fix e es assume cs: "cs = e # es"
        with IH True have IH1: "e = CHR ''u'' \<Longrightarrow> \<not> length es < 4 \<Longrightarrow> hex_loop 4 0 es = Inr (x, y) \<Longrightarrow>
            string_loop (out @ utf8 x) y = Inr (t, r) \<Longrightarrow> length r < length es"
          and IH2: "e \<noteq> CHR ''u'' \<Longrightarrow> simple_escape e = Some z \<Longrightarrow>
            string_loop (out @ [z]) es = Inr (t, r) \<Longrightarrow> length r < length es" for x y z
          using hex_loop_length [of 4 0 es x y] by fastforce+
        from p Cons True cs show ?thesis
          by (auto simp: fail_def split: if_splits sum.splits option.splits dest: IH1 IH2)
      qed
    next
      case False
      with p Cons IH(3) show ?thesis by (auto simp: fail_def split: if_splits)
    qed
  qed
qed

lemma parse_string_length: "parse_string s = Inr (t, r) \<Longrightarrow> length r < length s"
  by (auto simp: parse_string_def split: sum.splits dest!: expect_length string_loop_length)

lemma expect_word_length: "expect_word w v s = Inr (x, r) \<Longrightarrow> w \<noteq> [] \<Longrightarrow> s \<noteq> [] \<Longrightarrow> length r < length s"
  by (cases w) (auto simp: expect_word_def fail_def split: if_splits)

lemma lex_integer_length: "lex_integer s = Inr (u, r) \<Longrightarrow> length r < length s"
proof -
  assume l: "lex_integer s = Inr (u, r)"
  let ?s = "if peek s = CHR ''-'' then tl s else s"
  have "?s \<noteq> [] \<and> length r < length ?s"
    using l by (cases ?s) (auto simp: lex_integer_def Let_def peek_def fail_def is_digit_def length_dropWhile_le less_Suc_eq_le split: if_splits)
  moreover have "length ?s \<le> length s" by simp
  ultimately show ?thesis by linarith
qed

lemma lex_fraction_length: "lex_fraction s = Inr (b, r) \<Longrightarrow> length r \<le> length s"
  using length_dropWhile_le [of is_digit "tl s"]
  by (auto simp: lex_fraction_def fail_def split: if_splits)

lemma lex_exponent_length: "lex_exponent s = Inr (b, r) \<Longrightarrow> length r \<le> length s"
  using length_dropWhile_le [of is_digit "tl s"] length_dropWhile_le [of is_digit "tl (tl s)"]
  by (auto simp: lex_exponent_def Let_def fail_def split: if_splits)

lemma parse_number_length: "parse_number s = Inr (v, r) \<Longrightarrow> length r < length s"
  by (force simp: parse_number_def fail_def split: sum.splits option.splits
      dest!: lex_integer_length lex_fraction_length lex_exponent_length)

lemma skip_ws_Cons: "skip_ws s = c # r \<Longrightarrow> length r < length s"
  using skip_ws_length [of s] by simp

lemma tl_skip_ws_length: "length (tl (skip_ws s)) \<le> length s"
  using skip_ws_length [of s] by simp

lemma parse_lengths:
  "parse_value_array_loop_object_loop_dom (Inl s) \<Longrightarrow> parse_value s = Inr (v, r) \<Longrightarrow> length r < length s"
  "parse_value_array_loop_object_loop_dom (Inr (Inl (arr, s))) \<Longrightarrow> array_loop arr s = Inr (v, r) \<Longrightarrow> length r < length s"
  "parse_value_array_loop_object_loop_dom (Inr (Inr (items, s))) \<Longrightarrow> object_loop items s = Inr (v, r) \<Longrightarrow> length r < length s"
proof (induction s and arr s and items s arbitrary: v r and v r and v r
    rule: parse_value_array_loop_object_loop.pinduct)
  case (1 rest)
  note p = "1.prems" [unfolded parse_value.psimps [OF "1.hyps"]]
  show ?case
  proof (cases rest)
    case Nil
    with p show ?thesis by (simp add: fail_def)
  next
    case (Cons c cs)
    have A: "length r < length rest" if "object_loop [] (skip_ws cs) = Inr (v, r)" "c = CHR 0x7B" "peek (skip_ws cs) \<noteq> CHR 0x7D"
      using "1.IH"(1) [OF Cons that(2,3,1)] skip_ws_length [of cs] Cons by simp
    have B: "length r < length rest" if "array_loop [] (skip_ws cs) = Inr (v, r)" "c = CHR 0x5B" "peek (skip_ws cs) \<noteq> CHR 0x5D"
      using "1.IH"(2) [OF Cons _ that(2,3,1)] that(2) skip_ws_length [of cs] Cons by simp
    have C: "length r < length rest" if "expect_word (x # w) u rest = Inr (v, r)" for x w u
      using expect_word_length [OF that] Cons by simp
    have D: "length r < length rest"
      if "(case parse_string rest of Inl e \<Rightarrow> Inl e | Inr (s, r) \<Rightarrow> Inr (JString s, r)) = Inr (v, r)"
      using that by (auto split: sum.splits dest: parse_string_length)
    have E: "length r < length rest" if "Inr (u, tl (skip_ws cs)) = (Inr (v, r) :: JsonValue presult)" for u
      using that tl_skip_ws_length [of cs] Cons by auto
    from p have "(case c # cs of [] \<Rightarrow> undefined | c # cs \<Rightarrow> length r < length rest)"
      unfolding Cons list.case fail_def
      by (simp (no_asm_use) only: split: if_splits)
        (erule A [unfolded Cons] B [unfolded Cons] C [unfolded Cons] D [unfolded Cons] E [unfolded Cons]
          parse_number_length | assumption | simp)+
    then show ?thesis by simp
  qed
next
  case (2 arr rest)
  note p = "2.prems" [unfolded array_loop.psimps [OF "2.hyps"]]
  from p obtain w r1 where v: "parse_value (skip_ws rest) = Inr (w, r1)" by (auto split: sum.splits)
  then have "length r1 < length rest" using "2.IH"(1) skip_ws_length [of rest] by fastforce
  moreover from p v obtain c r2 where c: "skip_ws r1 = c # r2" by (auto simp: fail_def split: list.splits)
  moreover have "length r \<le> length r2"
    using p v c "2.IH"(2) [OF v refl c, of v r] by (auto simp: fail_def split: if_splits)
  ultimately show ?case using skip_ws_Cons [OF c] by simp
next
  case (3 items rest)
  note p = "3.prems" [unfolded object_loop.psimps [OF "3.hyps"]]
  from p obtain key r1 u r2 w r3 where k: "peek (skip_ws rest) = CHR 0x22" "parse_string (skip_ws rest) = Inr (key, r1)"
    and e: "expect (CHR '':'') (skip_ws r1) = Inr (u, r2)" and v: "parse_value (skip_ws r2) = Inr (w, r3)"
    by (auto simp: fail_def split: sum.splits if_splits)
  have "length r3 < length (skip_ws r2)" using "3.IH"(1) k e v by fastforce
  then have "length r3 < length rest"
    using skip_ws_length [of r2] expect_length [OF e] skip_ws_length [of r1] parse_string_length [OF k(2)]
      skip_ws_length [of rest] by linarith
  moreover from p k e v obtain c r4 where c: "skip_ws r3 = c # r4" by (auto simp: fail_def split: list.splits)
  moreover have "length r \<le> length r4"
    using p k e v c "3.IH"(2) [OF _ k(2) refl e refl v refl c, of v r] by (auto simp: fail_def split: if_splits)
  ultimately show ?case using skip_ws_Cons [OF c] by simp
qed

lemma key_length:
  assumes "parse_string (skip_ws s) = Inr (key, r1)" "expect c (skip_ws r1) = Inr (u, r2)"
  shows "length r2 < length s"
  using parse_string_length [OF assms(1)] expect_length [OF assms(2)] skip_ws_length [of s] skip_ws_length [of r1]
  by linarith

lemma after_value_length:
  assumes "parse_value_array_loop_object_loop_dom (Inl (skip_ws s))" "parse_value (skip_ws s) = Inr (v, r)" "skip_ws r = c # r'"
  shows "length r' < length s"
  using parse_lengths(1) [OF assms(1,2)] skip_ws_Cons [OF assms(3)] skip_ws_length [of s] by linarith

termination parse_value
proof (relation "measure (\<lambda>x. case x of Inl s \<Rightarrow> 2 * length s | Inr (Inl (arr, s)) \<Rightarrow> 2 * length s + 1
    | Inr (Inr (items, s)) \<Rightarrow> 2 * length s + 1)", goal_cases)
  case (5 arr rest b x y c r2)
  then show ?case using after_value_length [of rest x y c r2] by simp
next
  case (6 items rest b x y ba u ya)
  then show ?case using key_length [of rest x y _ u ya] skip_ws_length [of ya] by fastforce
next
  case (7 items rest b x y ba u ya bb v yb c r4)
  then show ?case using key_length [of rest x y _ u ya] after_value_length [of ya v yb c r4] by fastforce
qed (auto simp: le_imp_less_Suc skip_ws_length)

declare parse_value.simps [simp del] array_loop.simps [simp del] object_loop.simps [simp del]

definition parse_json :: "string \<Rightarrow> (string \<times> int) + JsonValue" where
  "parse_json t =
     (case parse_value (skip_ws t) of
        Inl (msg, left) \<Rightarrow> Inl (msg, int (length t) - int left)
      | Inr (v, r) \<Rightarrow>
          if skip_ws r = [] then Inr v
          else Inl (''trailing characters'', int (length t) - int (length (skip_ws r))))"

section \<open>Where errors are reported\<close>

text \<open>What a failing parser has left is no longer than what it was given.\<close>

definition left_within :: "'a presult \<Rightarrow> string \<Rightarrow> bool" where
  "left_within p s \<longleftrightarrow> (case p of Inl (_, n) \<Rightarrow> n \<le> length s | Inr (_, r) \<Rightarrow> length r \<le> length s)"

lemma left_within_simps [simp]:
  "left_within (Inr (x, r)) s \<longleftrightarrow> length r \<le> length s" "left_within (fail msg r) s \<longleftrightarrow> length r \<le> length s"
  "left_within (Inl (m, n)) s \<longleftrightarrow> n \<le> length s"
  by (simp_all add: left_within_def fail_def)

lemma left_within_mono: "left_within p s \<Longrightarrow> length s \<le> length t \<Longrightarrow> left_within p t"
  by (auto simp: left_within_def split: sum.splits)

lemma left_within_Cons [intro]: "left_within p s \<Longrightarrow> left_within p (c # s)"
  by (erule left_within_mono) simp

lemma left_within_bind:
  assumes "left_within p s" "\<And>x r. p = Inr (x, r) \<Longrightarrow> left_within (f x r) s"
  shows "left_within (case p of Inl e \<Rightarrow> Inl e | Inr (x, r) \<Rightarrow> f x r) s"
  using assms by (auto simp: left_within_def split: sum.splits)

lemma left_expect: "left_within (expect c s) s"
  by (auto simp: expect_def split: list.splits)

lemma left_expect_word: "left_within (expect_word w v s) s"
  by (simp add: expect_word_def)

lemma left_hex_loop: "left_within (hex_loop n code s) s"
  by (induction n code s rule: hex_loop.induct) (auto split: option.splits)

lemma left_string_loop: "left_within (string_loop out s) s"
proof (induction out s rule: string_loop.induct)
  case (1 out s)
  show ?case
  proof (cases s)
    case Nil
    then show ?thesis by (simp add: string_loop.simps)
  next
    case (Cons c cs)
    note IH = "1.IH" [OF Cons]
    show ?thesis
    proof (cases "c = CHR 0x5C \<and> cs \<noteq> []")
      case True
      then obtain e es where cs: "cs = e # es" by (cases cs) auto
      have "left_within (case hex_loop 4 0 es of Inl err \<Rightarrow> Inl err | Inr (code, es') \<Rightarrow> string_loop (out @ utf8 code) es') es"
        if "e = CHR ''u''" "\<not> length es < 4"
        using True cs that IH(1) hex_loop_length
        by (intro left_within_bind left_hex_loop) (fastforce elim: left_within_mono)
      moreover have "left_within (string_loop (out @ [x]) es) es" if "e \<noteq> CHR ''u''" "simple_escape e = Some x" for x
        using True cs that IH(2) by auto
      ultimately have "left_within (string_loop out s) es"
        using True unfolding string_loop.simps [of out s] by (auto simp: Cons cs split: option.split)
      then show ?thesis using Cons cs by auto
    next
      case False
      then show ?thesis
        using IH(3) unfolding string_loop.simps [of out s] by (auto simp: Cons split: list.split)
    qed
  qed
qed

lemma left_parse_string: "left_within (parse_string s) s"
  unfolding parse_string_def
  by (intro left_within_bind left_expect left_within_mono [OF left_string_loop]) (auto dest: expect_length)

lemma length_dropWhile_tl: "length (dropWhile P (tl s)) \<le> length s" "length (dropWhile P (tl (tl s))) \<le> length s"
  using length_dropWhile_le [of P "tl s"] length_dropWhile_le [of P "tl (tl s)"] by simp_all

lemma left_parse_number: "left_within (parse_number s) s"
proof -
  note len = length_dropWhile_le length_dropWhile_tl
  have i: "left_within (lex_integer s) s" by (auto simp: lex_integer_def Let_def len)
  have f: "left_within (lex_fraction r) r" for r by (simp add: lex_fraction_def len)
  have e: "left_within (lex_exponent r) r" for r by (simp add: lex_exponent_def Let_def len)
  show ?thesis
    unfolding parse_number_def
    by (intro left_within_bind i left_within_mono [OF f] left_within_mono [OF e])
      (auto split: option.split dest!: lex_integer_length lex_fraction_length lex_exponent_length)
qed

lemma parse_left:
  "left_within (parse_value s) s"
  "left_within (array_loop arr s) s"
  "left_within (object_loop items s) s"
proof (induction s and arr s and items s rule: parse_value_array_loop_object_loop.induct)
  case (1 s)
  show ?case
  proof (cases s)
    case Nil
    then show ?thesis by (simp add: parse_value.simps)
  next
    case (Cons c cs)
    have up: "left_within p (skip_ws cs) \<Longrightarrow> left_within p s" for p :: "JsonValue presult"
      using skip_ws_length [of cs] Cons by (auto intro: left_within_mono [of p "skip_ws cs"])
    have "left_within (case parse_string s of Inl e \<Rightarrow> Inl e | Inr (t, r) \<Rightarrow> Inr (JString t, r)) s"
      by (intro left_within_bind left_parse_string) (auto dest: parse_string_length)
    moreover have "left_within (object_loop [] (skip_ws cs)) s" if "c = CHR 0x7B" "peek (skip_ws cs) \<noteq> CHR 0x7D"
      by (rule up, rule 1(1) [OF Cons that])
    moreover have "left_within (array_loop [] (skip_ws cs)) s" if "c = CHR 0x5B" "peek (skip_ws cs) \<noteq> CHR 0x5D"
      by (rule up, rule 1(2) [OF Cons _ that]) (simp add: that)
    ultimately show ?thesis
      using tl_skip_ws_length [of cs] left_parse_number [of s]
      unfolding parse_value.simps [of s] by (auto simp: left_expect_word Cons)
  qed
next
  case (2 arr s)
  show ?case
    unfolding array_loop.simps [of arr s]
  proof (rule left_within_bind)
    show "left_within (parse_value (skip_ws s)) s" by (rule left_within_mono [OF 2(1) skip_ws_length])
    fix v r assume v: "parse_value (skip_ws s) = Inr (v, r)"
    have len: "length (skip_ws r) \<le> length s"
      using 2(1) v skip_ws_length [of r] skip_ws_length [of s] by simp
    show "left_within (case skip_ws r of c # r2 \<Rightarrow> if c = CHR '','' then array_loop (arr @ [v]) r2
        else if c = CHR 0x5D then Inr (JArray (arr @ [v]), r2) else fail ''expected ',' or ']' in array'' (c # r2)
      | [] \<Rightarrow> fail ''expected ',' or ']' in array'' []) s"
    proof (cases "skip_ws r")
      case (Cons c r2)
      then show ?thesis using len left_within_mono [OF 2(2) [OF v refl Cons], of s] by simp
    qed simp
  qed
next
  case (3 items s)
  show ?case
  proof (cases "peek (skip_ws s) = CHR 0x22")
    case True
    show ?thesis
      unfolding object_loop.simps [of items s] if_not_P [OF not_not [THEN iffD2, OF True]]
    proof (intro left_within_bind)
      show "left_within (parse_string (skip_ws s)) s"
        by (rule left_within_mono [OF left_parse_string skip_ws_length])
      fix key r1 assume k: "parse_string (skip_ws s) = Inr (key, r1)"
      have r1: "length r1 < length s" using parse_string_length [OF k] skip_ws_length [of s] by linarith
      show "left_within (expect (CHR '':'') (skip_ws r1)) s"
        using r1 skip_ws_length [of r1] by (intro left_within_mono [OF left_expect]) linarith
      fix u r2 assume "expect (CHR '':'') (skip_ws r1) = Inr (u, r2)"
      then have e: "expect (CHR '':'') (skip_ws r1) = Inr ((), r2)" by simp
      have r2: "length r2 < length s" by (rule key_length [OF k e])
      have IH: "left_within (parse_value (skip_ws r2)) (skip_ws r2)" using 3(1) [OF _ k refl e refl] True by simp
      show "left_within (parse_value (skip_ws r2)) s"
        using r2 skip_ws_length [of r2] by (intro left_within_mono [OF IH]) linarith
      fix v r3 assume v: "parse_value (skip_ws r2) = Inr (v, r3)"
      have len: "length (skip_ws r3) \<le> length s"
        using IH v r2 skip_ws_length [of r2] skip_ws_length [of r3] by simp
      show "left_within (case skip_ws r3 of c # r4 \<Rightarrow> if c = CHR '','' then object_loop (items @ [(key, v)]) r4
          else if c = CHR 0x7D then Inr (JObject (items @ [(key, v)]), r4)
          else fail ''expected ',' or '}' in object'' (c # r4)
        | [] \<Rightarrow> fail ''expected ',' or '}' in object'' []) s"
      proof (cases "skip_ws r3")
        case (Cons c r4)
        then show ?thesis using len left_within_mono [OF 3(2) [OF _ k refl e refl v refl Cons, simplified True], of s] by simp
      qed simp
    qed
  qed (simp add: object_loop.simps skip_ws_length)
qed


section \<open>How large a document can become\<close>

primrec weight :: "JsonValue \<Rightarrow> nat" where
  "weight JNull = 1"
| "weight (JBool b) = 1"
| "weight (JInt i) = 1"
| "weight (JUInt u) = 1"
| "weight (JDouble d) = 1"
| "weight (JString s) = 1 + length s"
| "weight (JArray vs) = 1 + sum_list (map weight vs)"
| "weight (JObject items) = 1 + sum_list (map (\<lambda>(k, n). length k + n) (map (map_prod id weight) items))"

lemma hex_loop_consumes: "hex_loop n code s = Inr (x, r) \<Longrightarrow> length r + n = length s"
  by (induction n code s rule: hex_loop.induct) (auto simp: fail_def split: option.splits)

lemma length_utf8: "length (utf8 code) \<le> 3"
  by (simp add: utf8_def)

lemma string_loop_weight: "string_loop out s = Inr (t, r) \<Longrightarrow> length t + length r < length out + length s"
proof (induction out s rule: string_loop.induct)
  case (1 out s)
  note p = "1.prems" [unfolded string_loop.simps [of out s]]
  show ?case
  proof (cases s)
    case Nil
    with p show ?thesis by (simp add: fail_def)
  next
    case (Cons c cs)
    note IH = "1.IH" [OF Cons]
    show ?thesis
    proof (cases "c = CHR 0x5C \<and> cs \<noteq> []")
      case True
      then obtain e es where cs: "cs = e # es" by (cases cs) auto
      have c: "c \<noteq> CHR 0x22" "c = CHR 0x5C" using True by auto
      show ?thesis
      proof (cases "e = CHR ''u''")
        case u: True
        with p Cons cs c obtain code es' where h: "\<not> length es < 4" "hex_loop 4 0 es = Inr (code, es')"
          "string_loop (out @ utf8 code) es' = Inr (t, r)"
          by (auto simp: fail_def split: if_splits sum.splits)
        from IH(1) [OF c cs u h(1,2) refl h(3)] hex_loop_consumes [OF h(2)] length_utf8 [of code] Cons cs
        show ?thesis by simp
      next
        case False
        with p Cons cs c obtain x where x: "simple_escape e = Some x" "string_loop (out @ [x]) es = Inr (t, r)"
          by (auto simp: fail_def split: option.splits)
        from IH(2) [OF c cs False x] Cons cs show ?thesis by simp
      qed
    next
      case False
      with p Cons IH(3) show ?thesis by (auto simp: fail_def split: if_splits list.splits)
    qed
  qed
qed

lemma parse_string_weight: "parse_string s = Inr (t, r) \<Longrightarrow> 1 + length t + length r < length s"
  by (force simp: parse_string_def split: sum.splits dest!: expect_length string_loop_weight)


lemma parse_number_weight: "parse_number s = Inr (v, r) \<Longrightarrow> weight v = 1"
  by (auto simp: parse_number_def number_value_def fail_def split: sum.splits option.splits if_splits)

lemma parse_weights:
  "parse_value s = Inr (v, r) \<Longrightarrow> weight v + length r \<le> length s"
  "array_loop arr s = Inr (v, r) \<Longrightarrow> weight v + length r \<le> weight (JArray arr) + length s"
  "object_loop items s = Inr (v, r) \<Longrightarrow> weight v + length r \<le> weight (JObject items) + length s"
proof (induction s and arr s and items s arbitrary: v r and v r and v r
    rule: parse_value_array_loop_object_loop.induct)
  case (1 s)
  note p = "1.prems" [unfolded parse_value.simps [of s]]
  show ?case
  proof (cases s)
    case Nil
    with "1.prems" show ?thesis by (simp add: parse_value.simps fail_def)
  next
    case (Cons c cs)
    have A: ?thesis if "object_loop [] (skip_ws cs) = Inr (v, r)" "c = CHR 0x7B" "peek (skip_ws cs) \<noteq> CHR 0x7D"
      using "1.IH"(1) [OF Cons that(2,3,1)] skip_ws_length [of cs] Cons by simp
    have B: ?thesis if "array_loop [] (skip_ws cs) = Inr (v, r)" "c = CHR 0x5B" "peek (skip_ws cs) \<noteq> CHR 0x5D"
      using "1.IH"(2) [OF Cons _ that(2,3,1)] that(2) skip_ws_length [of cs] Cons by simp
    have C: ?thesis if "expect_word (x # w) u s = Inr (v, r)" "weight u = 1" for x w u
      using expect_word_length [OF that(1)] that Cons by (auto simp: expect_word_def fail_def split: if_splits)
    have D: ?thesis if "(case parse_string s of Inl e \<Rightarrow> Inl e | Inr (t, r) \<Rightarrow> Inr (JString t, r)) = Inr (v, r)"
      using that by (auto split: sum.splits dest!: parse_string_weight)
    have E: ?thesis if "Inr (u, tl (skip_ws cs)) = (Inr (v, r) :: JsonValue presult)" "weight u = 1" for u
      using that tl_skip_ws_length [of cs] Cons by auto
    have N: ?thesis if "parse_number s = Inr (v, r)"
      using parse_number_weight [OF that] parse_number_length [OF that] by simp
    from p show ?thesis
      unfolding Cons list.case fail_def
      by (simp (no_asm_use) only: split: if_splits)
        (erule A [unfolded Cons] B [unfolded Cons] C [unfolded Cons] D [unfolded Cons] E [unfolded Cons]
          N [unfolded Cons] | assumption | simp)+
  qed
next
  case (2 arr s)
  note p = "2.prems" [unfolded array_loop.simps [of arr s]]
  from p obtain w r1 where v: "parse_value (skip_ws s) = Inr (w, r1)" by (auto split: sum.splits)
  then have "weight w + length r1 \<le> length s" using "2.IH"(1) skip_ws_length [of s] by fastforce
  moreover from p v obtain c r2 where c: "skip_ws r1 = c # r2" by (auto simp: fail_def split: list.splits)
  moreover have "weight v + length r \<le> weight (JArray (arr @ [w])) + length r2"
    using p v c "2.IH"(2) [OF v refl c, of v r] by (auto simp: fail_def split: if_splits)
  ultimately show ?case using skip_ws_Cons [OF c] by simp
next
  case (3 items s)
  note p = "3.prems" [unfolded object_loop.simps [of items s]]
  from p obtain key r1 r2 w r3 where k: "peek (skip_ws s) = CHR 0x22" "parse_string (skip_ws s) = Inr (key, r1)"
    and e: "expect (CHR '':'') (skip_ws r1) = Inr ((), r2)" and v: "parse_value (skip_ws r2) = Inr (w, r3)"
    by (auto simp: fail_def split: sum.splits if_splits)
  have "weight w + length r3 \<le> length (skip_ws r2)" using "3.IH"(1) k e v by fastforce
  then have "length key + weight w + length r3 < length s"
    using skip_ws_length [of r2] expect_length [OF e] skip_ws_length [of r1] parse_string_weight [OF k(2)]
      skip_ws_length [of s] by linarith
  moreover from p k e v obtain c r4 where c: "skip_ws r3 = c # r4" by (auto simp: fail_def split: list.splits)
  moreover have "weight v + length r \<le> weight (JObject (items @ [(key, w)])) + length r4"
    using p k e v c "3.IH"(2) [OF _ k(2) refl e refl v refl c, of v r] by (auto simp: fail_def split: if_splits)
  ultimately show ?case using skip_ws_Cons [OF c] by simp
qed

text \<open>What the parser returns is bounded by the text: the position that an error reports lies in the text, and a
  document weighs (values, and characters of strings and keys) at most as much as the text it was read from.
\<close>

theorem parse_json_bounds:
  "case parse_json t of
     Inl (msg, pos) \<Rightarrow> 0 \<le> pos \<and> pos \<le> int (length t)
   | Inr v \<Rightarrow> weight v \<le> length t"
proof (cases "parse_value (skip_ws t)")
  case (Inl e)
  then show ?thesis
    using parse_left(1) [of "skip_ws t"] skip_ws_length [of t] by (cases e) (simp add: parse_json_def)
next
  case (Inr p)
  then obtain v r where p: "parse_value (skip_ws t) = Inr (v, r)" by (cases p) simp
  then show ?thesis
    using parse_weights(1) [OF p] skip_ws_length [of t] skip_ws_length [of r] by (simp add: parse_json_def)
qed

end
