(* ===== verification/Json_Roundtrip.thy ===== *)
theory Json_Roundtrip
  imports Json_Parser
begin

text \<open>
  The writer and the parser of core/json.hpp against each other: the parser accepts every document
  that the writer produces, at any indentation, and what it returns is the document up to the
  spelling of numbers and the order of keys (\<open>canon\<close>).
\<close>

section \<open>What a document becomes\<close>

text \<open>The value that the token of a number stands for: a token without point and exponent is an integer.\<close>

definition is_integer_text :: "string \<Rightarrow> bool" where
  "is_integer_text t \<longleftrightarrow> list_all (\<lambda>c. c \<noteq> CHR ''.'' \<and> c \<noteq> CHR ''e'') t"

definition canon_double :: "f64 \<Rightarrow> JsonValue" where
  "canon_double d =
     (if \<not> f64_finite d then JNull
      else if is_integer_text (double_text d) then
        JInt (word_of_int (if f64_sign d then - int (digits_value (tl (double_text d)))
                           else int (digits_value (double_text d))))
      else JDouble d)"

primrec canon :: "bool \<Rightarrow> JsonValue \<Rightarrow> JsonValue" where
  "canon srt JNull = JNull"
| "canon srt (JBool b) = JBool b"
| "canon srt (JInt i) = JInt i"
| "canon srt (JUInt u) = (if unat u < 2 ^ 63 then JInt u else JUInt u)"
| "canon srt (JDouble d) = canon_double d"
| "canon srt (JString s) = JString s"
| "canon srt (JArray vs) = JArray (map (canon srt) vs)"
| "canon srt (JObject items) = JObject (ordered_items srt (map (map_prod id (canon srt)) items))"

lemma insert_by_map:
  "(\<And>x y. lt (f x) (f y) = lt x y) \<Longrightarrow> insert_by lt (f x) (map f ys) = map f (insert_by lt x ys)"
  by (induction ys) simp_all

lemma ordered_items_map:
  "ordered_items srt (map (map_prod id f) items) = map (map_prod id f) (ordered_items srt items)"
proof -
  have "insert_by key_less (map_prod id f x) (map (map_prod id f) ys) = map (map_prod id f) (insert_by key_less x ys)"
    for x ys
    by (induction ys) (simp_all add: key_less_def)
  then have "stable_sort key_less (map (map_prod id f) items) = map (map_prod id f) (stable_sort key_less items)"
    by (induction items) simp_all
  then show ?thesis by (simp add: ordered_items_def)
qed

section \<open>White space\<close>

lemma skip_ws_idem [simp]: "skip_ws (skip_ws s) = skip_ws s"
  by (simp add: skip_ws_def)

lemma skip_ws_here: "s = [] \<or> \<not> is_space (hd s) \<Longrightarrow> skip_ws s = s"
  by (cases s) (simp_all add: skip_ws_def)

lemma skip_ws_char [simp]: "\<not> is_space c \<Longrightarrow> skip_ws (c # s) = c # s"
  by (simp add: skip_ws_def)

lemma skip_break [simp]: "skip_ws (break_line indent k @ s) = skip_ws s"
proof -
  have "\<forall>c \<in> set (break_line indent k). is_space c" by (auto simp: break_line_def is_space_def)
  then show ?thesis by (simp add: skip_ws_def dropWhile_append2)
qed

lemma array_loop_skip: "array_loop arr (skip_ws s) = array_loop arr s"
  by (simp add: array_loop.simps [of arr "skip_ws s"] array_loop.simps [of arr s])

lemma object_loop_skip: "object_loop items (skip_ws s) = object_loop items s"
  by (simp add: object_loop.simps [of items "skip_ws s"] object_loop.simps [of items s])

lemma array_loop_break [simp]: "array_loop arr (break_line indent k @ s) = array_loop arr s"
  using array_loop_skip [of arr "break_line indent k @ s"] array_loop_skip [of arr s] by simp

lemma object_loop_break [simp]: "object_loop items (break_line indent k @ s) = object_loop items s"
  using object_loop_skip [of items "break_line indent k @ s"] object_loop_skip [of items s] by simp

text \<open>What may follow a value.\<close>

definition delim :: "string \<Rightarrow> bool" where
  "delim s \<longleftrightarrow> s = [] \<or> hd s \<in> {CHR 0x0A, CHR '','', CHR 0x5D, CHR 0x7D}"

lemma delim_Cons [simp]: "delim []" "delim (c # s) \<longleftrightarrow> c \<in> {CHR 0x0A, CHR '','', CHR 0x5D, CHR 0x7D}"
  by (simp_all add: delim_def)

lemma delim_break [simp]: "delim s \<Longrightarrow> delim (break_line indent k @ s)"
  by (simp add: break_line_def)

section \<open>Strings\<close>

lemma hex_value_char: "d < 16 \<Longrightarrow> hex_value (hex_char d) = Some d"
  by (simp add: hex_value_def hex_char_def Let_def)

lemma hex4_reads: "n < 65536 \<Longrightarrow> hex_loop 4 0 (hex4 n @ rest) = Inr (n, rest)"
proof -
  assume n: "n < 65536"
  have four: "(4::nat) = Suc (Suc (Suc (Suc 0)))" by simp
  have "hex_loop 4 0 (hex4 n @ rest) =
      Inr (16 * (16 * (16 * (n div 4096 mod 16) + n div 256 mod 16) + n div 16 mod 16) + n mod 16, rest)"
    unfolding four hex4_def by (simp add: hex_value_char)
  also have "n div 4096 mod 16 = n div 256 div 16" using n by (simp add: div_mult2_eq [symmetric])
  also have "16 * (n div 256 div 16) + n div 256 mod 16 = n div 16 div 16"
    using mult_div_mod_eq [of 16 "n div 256"] by (simp add: div_mult2_eq [symmetric])
  also have "16 * (n div 16 div 16) + n div 16 mod 16 = n div 16" by simp
  also have "16 * (n div 16) + n mod 16 = n" by simp
  finally show ?thesis .
qed

lemma length_hex4 [simp]: "length (hex4 n) = 4"
  by (simp add: hex4_def)

lemma escape_reads: "string_loop out (escape_char c @ rest) = string_loop (out @ [c]) rest"
proof -
  have ctl: "string_loop out (CHR 0x5C # CHR ''u'' # hex4 (of_char c) @ rest) = string_loop (out @ [c]) rest"
    if "(of_char c :: nat) < 0x20"
    using that hex4_reads [of "of_char c" rest]
    by (simp add: string_loop.simps [of out "CHR 0x5C # CHR ''u'' # hex4 (of_char c) @ rest"] utf8_def)
  show ?thesis
    using ctl by (auto simp: escape_char_def string_loop.simps [of out "_ # _"] simple_escape_def)
qed

lemma string_loop_reads: "string_loop out (concat (map escape_char s) @ CHR 0x22 # rest) = Inr (out @ s, rest)"
  by (induction s arbitrary: out) (simp_all add: escape_reads, simp add: string_loop.simps)

lemma parse_string_reads [simp]: "parse_string (append_string s @ rest) = Inr (s, rest)"
  by (simp add: parse_string_def append_string_def expect_def string_loop_reads)

section \<open>Numbers\<close>

lemma digits_delim: "delim s \<Longrightarrow> s = [] \<or> \<not> is_digit (hd s)"
  by (auto simp: delim_def is_digit_def)

lemma lex_exponent_reads:
  assumes "delim rest"
  shows "lex_exponent ((case ex of None \<Rightarrow> '''' | Some x \<Rightarrow> ''e'' @ exponent_text x) @ rest) = Inr (ex \<noteq> None, rest)"
proof (cases ex)
  case None
  then show ?thesis using assms by (cases rest) (auto simp: lex_exponent_def peek_def)
next
  case (Some x)
  have "\<exists>c ds. exponent_text x = c # ds \<and> (c = CHR ''+'' \<or> c = CHR ''-'') \<and> digits ds \<and> ds \<noteq> []"
    by (auto simp: exponent_text_def Let_def)
  then obtain c ds where e: "exponent_text x = c # ds" "c = CHR ''+'' \<or> c = CHR ''-''" "digits ds" "ds \<noteq> []"
    by blast
  then show ?thesis
    using Some span_digits(2) [OF e(3) digits_delim [OF assms]]
    by (cases ds) (auto simp: lex_exponent_def peek_def)
qed

lemma parse_number_reads:
  assumes "valid_integer ip" "digits fp" "delim rest"
  shows "parse_number (number_text neg ip fp ex @ rest) =
    (case number_value (fp \<noteq> [] \<or> ex \<noteq> None) (number_text neg ip fp ex) of
       Some v \<Rightarrow> Inr (v, rest) | None \<Rightarrow> fail ''integer out of range'' rest)"
proof -
  let ?x = "(case ex of None \<Rightarrow> '''' | Some x \<Rightarrow> ''e'' @ exponent_text x)"
  let ?f = "(if fp = [] then '''' else ''.'' @ fp) @ ?x @ rest"
  have x: "?x @ rest = [] \<or> \<not> is_digit (hd (?x @ rest))" "?x @ rest = [] \<or> hd (?x @ rest) \<noteq> CHR ''.''"
    using digits_delim [OF assms(3)] assms(3) by (auto simp: delim_def split: option.split)
  then have f: "?f = [] \<or> \<not> is_digit (hd ?f)" by simp
  have i: "lex_integer (number_text neg ip fp ex @ rest) = Inr ((), ?f)"
  proof -
    obtain d ds where ip: "ip = d # ds" "is_digit d" using assms(1) by (cases ip) (auto simp: valid_integer_def)
    then have "d \<noteq> CHR ''-''" by auto
    with ip assms(1) show ?thesis
      using span_digits(2) [OF _ f, of ip]
      by (auto simp: lex_integer_def number_text_def peek_def valid_integer_def Let_def)
  qed
  have fr: "lex_fraction ?f = Inr (fp \<noteq> [], ?x @ rest)"
  proof (cases fp)
    case Nil
    then show ?thesis using x(2) by (cases "?x @ rest") (auto simp: lex_fraction_def peek_def)
  next
    case (Cons d ds)
    then show ?thesis using assms(2) span_digits(2) [OF assms(2) x(1)] by (simp add: lex_fraction_def peek_def)
  qed
  show ?thesis
    by (simp add: parse_number_def i fr lex_exponent_reads [OF assms(3)] del: append_assoc)
qed


lemma parse_value_number:
  assumes "s \<noteq> []" "hd s = CHR ''-'' \<or> is_digit (hd s)"
  shows "parse_value s = parse_number s"
proof -
  obtain c cs where s: "s = c # cs" using assms(1) by (cases s) auto
  then have "c \<noteq> CHR 0x7B \<and> c \<noteq> CHR 0x5B \<and> c \<noteq> CHR 0x22 \<and> c \<noteq> CHR ''t'' \<and> c \<noteq> CHR ''f'' \<and> c \<noteq> CHR ''n''"
    using assms(2) by (auto simp: is_digit_def)
  with s assms(2) show ?thesis by (simp add: parse_value.simps [of "c # cs"])
qed

lemma number_text_hd:
  assumes "valid_integer ip"
  shows "number_text neg ip fp ex \<noteq> []" "hd (number_text neg ip fp ex) = CHR ''-'' \<or> is_digit (hd (number_text neg ip fp ex))"
  using assms by (cases ip; auto simp: number_text_def valid_integer_def)+

lemma parse_value_reads_number:
  assumes "valid_integer ip" "digits fp" "delim rest"
    "number_value (fp \<noteq> [] \<or> ex \<noteq> None) (number_text neg ip fp ex) = Some v"
  shows "parse_value (number_text neg ip fp ex @ rest) = Inr (v, rest)"
  using number_text_hd [OF assms(1), of neg fp ex] parse_number_reads [OF assms(1-3), of neg ex] assms(4)
  by (subst parse_value_number) auto

lemma dec_int_number: "dec_int i = number_text (i < 0) (dec_nat (nat \<bar>i\<bar>)) [] None"
  by (simp add: dec_int_def number_text_def)

lemma dec_nat_number: "dec_nat n = number_text False (dec_nat n) [] None"
  by (simp add: number_text_def)

lemma peek_integer: "valid_integer ip \<Longrightarrow> peek (number_text neg ip fp ex) = CHR ''-'' \<longleftrightarrow> neg"
  by (cases ip) (auto simp: peek_def number_text_def valid_integer_def)

lemma integer_value:
  assumes "valid_integer ip"
  shows "from_chars_int (number_text neg ip [] None) =
      (let v = (if neg then - int (digits_value ip) else int (digits_value ip)) in
       if - (2 ^ 63) \<le> v \<and> v < 2 ^ 63 then Some (word_of_int v) else None)"
    and "from_chars_uint (number_text neg ip [] None) =
      (if neg then None else if digits_value ip < 2 ^ 64 then Some (of_nat (digits_value ip)) else None)"
  using peek_integer [OF assms, of neg "[]" None]
  by (simp_all add: from_chars_int_def from_chars_uint_def number_text_def)

lemma parse_int_reads:
  fixes i :: i64
  assumes "delim rest"
  shows "parse_value (dec_int (sint i) @ rest) = Inr (JInt i, rest)"
proof -
  have "- (2 ^ 63) \<le> sint i \<and> sint i < 2 ^ 63" using sint_greater_eq [of i] sint_less [of i] by simp
  then have "number_value False (dec_int (sint i)) = Some (JInt i)"
    by (simp add: number_value_def dec_int_number integer_value Let_def)
  then show ?thesis using parse_value_reads_number [OF _ _ assms] by (simp add: dec_int_number)
qed

lemma parse_uint_reads:
  fixes u :: u64
  assumes "delim rest"
  shows "parse_value (dec_nat (unat u) @ rest) = Inr (canon srt (JUInt u), rest)"
proof -
  define n where "n = unat u"
  have n: "n < 2 ^ 64" "of_nat n = u" using unsigned_less [of u] by (simp_all add: n_def)
  have "number_value False (number_text False (dec_nat n) [] None) = Some (if n < 2 ^ 63 then JInt (of_nat n) else JUInt (of_nat n))"
    using n(1) by (simp add: number_value_def integer_value Let_def)
  then have "number_value False (number_text False (dec_nat (unat u)) [] None) = Some (canon srt (JUInt u))"
    unfolding n(2) by (simp add: n_def)
  then show ?thesis
    using parse_value_reads_number [OF valid_integer_dec_nat, of "[]" rest None False "unat u"] assms
    by (simp flip: dec_nat_number)
qed


lemma is_integer_text_number:
  assumes "valid_integer ip" "digits fp"
  shows "is_integer_text (number_text neg ip fp ex) \<longleftrightarrow> fp = [] \<and> ex = None"
proof -
  have "list_all (\<lambda>c. c \<noteq> CHR ''.'' \<and> c \<noteq> CHR ''e'') ip"
    using assms(1) by (auto simp: valid_integer_def digits_def list_all_iff)
  then show ?thesis
    by (auto simp: is_integer_text_def number_text_def split: option.splits)
qed

lemma parse_double_reads:
  assumes "delim rest"
  shows "parse_value (write_number d @ rest) = Inr (canon_double d, rest)"
proof (cases "f64_finite d")
  case False
  then show ?thesis
    by (simp add: write_number_def canon_double_def parse_value.simps [of "CHR ''n'' # _"] expect_word_def)
next
  case True
  obtain ip fp ex c k where d: "denotes (double_text d) (f64_sign d) c k ip fp ex"
    using double_text_denotes [OF True] by blast
  let ?t = "number_text (f64_sign d) ip fp ex"
  have t: "double_text d = ?t" "valid_integer ip" "digits fp" "fp = [] \<and> ex = None \<Longrightarrow> digits_value ip < 10 ^ 6"
    using d by (simp_all add: denotes_def)
  have "number_value (fp \<noteq> [] \<or> ex \<noteq> None) ?t = Some (canon_double d)"
  proof (cases "fp = [] \<and> ex = None")
    case False
    then show ?thesis
      using strtod_double_text [OF True] True t
      by (auto simp: number_value_def canon_double_def is_integer_text_number)
  next
    case [simp]: True
    have "digits_value (if f64_sign d then tl ?t else ?t) = digits_value ip" "int (digits_value ip) < 10 ^ 6"
      using t(4) by (simp_all add: number_text_def)
    then show ?thesis
      using \<open>f64_finite d\<close> t
      by (auto simp: number_value_def canon_double_def is_integer_text_number integer_value Let_def)
  qed
  then have "parse_value (?t @ rest) = Inr (canon_double d, rest)" by (rule parse_value_reads_number [OF t(2,3) assms])
  then show ?thesis using True by (simp add: write_number_def t)
qed


section \<open>Documents\<close>

text \<open>The first character of a value: never white space, never the end of an array or object.\<close>

lemma write_value_hd:
  "\<exists>c cs. write_value srt indent depth v = c # cs \<and> \<not> is_space c \<and> c \<noteq> CHR 0x5D \<and> c \<noteq> CHR 0x7D"
proof -
  have num: "\<exists>c cs. t = c # cs \<and> \<not> is_space c \<and> c \<noteq> CHR 0x5D \<and> c \<noteq> CHR 0x7D"
    if "t \<noteq> []" "hd t = CHR ''-'' \<or> is_digit (hd t)" for t
    using that by (cases t) (auto simp: is_space_def is_digit_def)
  show ?thesis
  proof (cases v)
    case (JDouble d)
    then show ?thesis
      using double_text_denotes [of d] num [OF number_text_hd]
      by (cases "f64_finite d") (auto simp: write_number_def is_space_def denotes_def)
  next
    case (JInt i)
    then show ?thesis using num [OF number_text_hd [OF valid_integer_dec_nat]] by (simp add: dec_int_number)
  next
    case (JUInt u)
    then show ?thesis
      using num [OF number_text_hd [OF valid_integer_dec_nat], of False "unat u" "[]" None]
      by (simp flip: dec_nat_number)
  qed (simp_all add: is_space_def append_string_def)
qed

lemma skip_value [simp]: "skip_ws (write_value srt indent depth v @ s) = write_value srt indent depth v @ s"
  using write_value_hd [of srt indent depth v] by auto

lemma write_elements_Cons:
  "write_elements srt indent depth True (v # w # vs) =
    break_line indent (depth + 1) @ write_value srt indent (depth + 1) v @ CHR '','' # write_elements srt indent depth True (w # vs)"
  by simp

lemma write_members_Cons:
  "write_members srt indent depth True ((k, v) # m # items) =
    break_line indent (depth + 1) @ append_string k @ CHR '':'' # (if indent \<ge> 0 \<and> \<not> srt then '' '' else '''') @
    write_value srt indent (depth + 1) v @ CHR '','' # write_members srt indent depth True (m # items)"
  by (cases m) simp

text \<open>What the loops read: the remaining elements, their separators and the closing character.\<close>

lemma read_written:
  fixes first :: bool
  shows "\<And>rest. delim rest \<Longrightarrow> parse_value (write_value srt indent depth v @ rest) = Inr (canon srt v, rest)"
  "\<And>arr rest. vs \<noteq> [] \<Longrightarrow>
    array_loop arr (write_elements srt indent depth True vs @ break_line indent depth @ CHR 0x5D # rest) =
    Inr (JArray (arr @ map (canon srt) vs), rest)"
  "\<And>acc rest. items \<noteq> [] \<Longrightarrow>
    object_loop acc (write_members srt indent depth True items @ break_line indent depth @ CHR 0x7D # rest) =
    Inr (JObject (acc @ map (map_prod id (canon srt)) items), rest)"
proof (induction srt indent depth v and srt indent depth first vs and srt indent depth first items
    rule: write_value_write_elements_write_members.induct)
  case (4 srt indent depth u)
  then show ?case by (simp only: write_value.simps parse_uint_reads)
next
  case (6 srt indent depth s)
  show ?case
    using parse_string_reads [of s rest]
    by (simp add: append_string_def parse_value.simps [of "CHR 0x22 # _"])
next
  case (7 srt indent depth vs)
  show ?case
  proof (cases vs)
    case Nil
    then show ?thesis by (simp add: parse_value.simps [of "CHR 0x5B # _"] peek_def is_space_def)
  next
    case (Cons v vs')
    obtain c cs where c: "write_value srt indent (depth + 1) v = c # cs" "\<not> is_space c" "c \<noteq> CHR 0x5D"
      using write_value_hd by blast
    have "peek (skip_ws (write_elements srt indent depth True vs @ s)) \<noteq> CHR 0x5D" for s
      using c by (simp add: Cons peek_def)
    then show ?thesis
      using 7(1) [of "[]"] Cons by (simp add: parse_value.simps [of "CHR 0x5B # _"] array_loop_skip del: write_elements.simps)
  qed
next
  case (8 srt indent depth items)
  show ?case
  proof (cases "items = []")
    case True
    then show ?thesis by (simp add: parse_value.simps [of "CHR 0x7B # _"] peek_def is_space_def ordered_items_def)
  next
    case False
    moreover have "length (ordered_items srt items) = length items" by (simp add: ordered_items_def)
    ultimately obtain k v items' where it: "ordered_items srt items = (k, v) # items'" by (cases "ordered_items srt items") auto
    have "peek (skip_ws (write_members srt indent depth True (ordered_items srt items) @ s)) \<noteq> CHR 0x7D" for s
      by (simp add: it peek_def append_string_def is_space_def)
    then show ?thesis
      using 8(1) [of "[]"] False it
      by (simp only: write_value.simps canon.simps parse_value.simps [of "CHR 0x7B # _"] ordered_items_map append.simps
          append_assoc list.case if_True if_False object_loop_skip) simp
  qed
next
  case (10 srt indent depth first v vs)
  show ?case
  proof (cases vs)
    case Nil
    then show ?thesis
      using "10.IH"(1) [of "break_line indent depth @ CHR 0x5D # rest" for rest]
      by (simp add: array_loop.simps is_space_def)
  next
    case (Cons w ws)
    then show ?thesis
      using "10.IH"
      by (simp add: array_loop.simps [of _ "write_value _ _ _ _ @ _"] write_elements_Cons is_space_def del: write_elements.simps(2))
  qed
next
  case (12 srt indent depth first k v items)
  have key: "peek (append_string k @ s) = CHR 0x22" "skip_ws (append_string k @ s) = append_string k @ s" for s
    by (simp_all add: append_string_def peek_def is_space_def)
  have val: "parse_value (skip_ws ((if indent \<ge> 0 \<and> \<not> srt then '' '' else '''') @ write_value srt indent (depth + 1) v @ s)) =
      Inr (canon srt v, s)" if "delim s" for s
    using "12.IH"(1) [OF that] by (auto simp: skip_ws_def is_space_def skip_value [unfolded skip_ws_def])
  show ?case
  proof (cases items)
    case Nil
    then show ?thesis
      using val [of "break_line indent depth @ CHR 0x7D # rest" for rest]
      by (simp add: object_loop.simps key expect_def is_space_def)
  next
    case (Cons m ms)
    then show ?thesis
      using "12.IH" val
      by (simp add: object_loop.simps [of _ "append_string _ @ _"] key expect_def write_members_Cons is_space_def
          del: write_members.simps(2))
  qed
qed (simp_all add: parse_int_reads parse_uint_reads parse_double_reads parse_value.simps [of "_ # _"] expect_word_def)


lemma parse_json_text: "parse_json (json_text v sort_keys indent) = Inr (canon sort_keys v)"
  using read_written(1) [of "[]" sort_keys indent 0 v] skip_value [of sort_keys indent 0 v "[]"]
  by (simp add: parse_json_def json_text_def skip_ws_def)

text \<open>C13. Every document the writer produces is read back: for every value, key order and indentation, parsing the
  text gives the value itself with the keys in the written order, unsigned integers that fit into 63 bits as
  signed ones, doubles written without a point as integers and non-finite doubles as null.
\<close>

theorem json_roundtrip: "parse_json (json_text v sort_keys indent) = Inr (canon sort_keys v)"
  by (rule parse_json_text)


section \<open>Numbers read back\<close>

lemma sint_word_of_small: "\<bar>v\<bar> < 2 ^ 63 \<Longrightarrow> sint (word_of_int v :: i64) = v"
  by (simp add: sint_sbintrunc' signed_take_bit_int_eq_self)

lemma as_double_canon:
  assumes "f64_finite d"
  shows "as_double (canon_double d) = Inr (if d = f64_make True 0 then f64_make False 0 else d)"
proof -
  obtain ip fp ex c k where d: "denotes (double_text d) (f64_sign d) c k ip fp ex" "f64_of_dec (f64_sign d) c k = d"
    using double_text_denotes [OF assms] by blast
  let ?t = "number_text (f64_sign d) ip fp ex"
  have t: "double_text d = ?t" "valid_integer ip" "digits fp" "fp = [] \<and> ex = None \<Longrightarrow> digits_value ip < 10 ^ 6"
    "f64_of_dec (f64_sign d) (digits_value (ip @ fp)) (exponent_value ex - int (length fp)) = d"
    using d by (simp_all add: denotes_def)
  show ?thesis
  proof (cases "fp = [] \<and> ex = None")
    case False
    then have "canon_double d = JDouble d" using assms t by (simp add: canon_double_def is_integer_text_number)
    moreover have "d \<noteq> f64_make True 0"
    proof
      assume "d = f64_make True 0"
      then have "double_text d = number_text True ''0'' [] None" by (simp add: double_text_def number_text_def)
      then have "is_integer_text (double_text d)" by (simp add: is_integer_text_def number_text_def)
      with False t show False by (simp add: is_integer_text_number)
    qed
    ultimately show ?thesis by simp
  next
    case [simp]: True
    let ?n = "digits_value ip"
    let ?v = "if f64_sign d then - int ?n else int ?n"
    have v: "canon_double d = JInt (word_of_int ?v)"
      using assms t by (simp add: canon_double_def is_integer_text_number) (simp add: number_text_def)
    have n: "\<bar>?v\<bar> < 2 ^ 63" using t(4) by simp
    have dn: "f64_of_ratio (f64_sign d) ?n 1 = d" using t(5) by (simp add: exponent_value_def f64_of_dec_def)
    have "f64_of_i64 (word_of_int ?v) = f64_of_ratio (?v < 0) (nat \<bar>?v\<bar>) 1"
      by (simp only: f64_of_i64_def sint_word_of_small [OF n])
    also have "\<dots> = f64_of_ratio (f64_sign d \<and> 0 < ?n) ?n 1" by simp
    also have "\<dots> = (if d = f64_make True 0 then f64_make False 0 else d)"
    proof (cases "?n = 0")
      case True
      then have "d = f64_make (f64_sign d) 0" using dn by (simp add: f64_of_ratio_def)
      then show ?thesis using True by (cases "f64_sign d") (auto simp: f64_of_ratio_def)
    next
      case False
      have "d \<noteq> f64_make True 0"
      proof
        assume z: "d = f64_make True 0"
        then have "double_text d = number_text True ''0'' [] None" by (simp add: double_text_def number_text_def)
        with t(1) z have "ip = ''0''" by (simp add: number_text_def)
        with False show False by (simp add: digits_value_zero_cons)
      qed
      then show ?thesis using False dn by simp
    qed
    finally show ?thesis by (simp add: v)
  qed
qed

text \<open>Doubles survive the text: every finite double is written as a number that parses, and reading it with
  \<open>as_double\<close> gives the same double bit for bit, except that minus zero comes back as zero.
\<close>

theorem double_roundtrip:
  assumes "f64_finite d"
  shows "\<exists>v. parse_json (write_number d) = Inr v \<and>
    as_double v = Inr (if d = f64_make True 0 then f64_make False 0 else d)"
proof (intro exI conjI)
  show "parse_json (write_number d) = Inr (canon_double d)"
    using read_written(1) [of "[]" True 0 0 "JDouble d"] skip_value [of True 0 0 "JDouble d" "[]"]
    by (simp add: parse_json_def skip_ws_def)
qed (rule as_double_canon [OF assms])

theorem double_roundtrip_witness:
  "\<exists>v. parse_json (write_number 0x3FF8000000000000) = Inr v \<and> as_double v = Inr 0x3FF8000000000000"
  using double_roundtrip [of "0x3FF8000000000000"] by (simp add: f64_finite_def f64_exp_def f64_mag_def f64_make_def take_bit_eq_mod)

end
