(* ===== verification/To_Json.thy ===== *)
theory To_Json
  imports Json_Roundtrip Model Sha256
begin

text \<open>
  The canonical JSON of src/serialize.cpp: one \<open>to_json\<close> per struct, its keys in the source's order,
  and the digest over the text with sorted keys (\<open>canonical_digest\<close> of serialize.hpp).
\<close>

section \<open>Structs\<close>

definition obj_or :: "(string \<times> JsonValue) list \<Rightarrow> JsonValue" where
  "obj_or items = JObject items"

definition id_json :: "u64 \<Rightarrow> JsonValue" where
  "id_json v = JUInt v"

primrec json_value :: "Value \<Rightarrow> JsonValue" where
  "json_value VNone = JNull"
| "json_value (VInt i) = JInt i"
| "json_value (VUInt u) = JUInt u"
| "json_value (VDouble d) = JDouble d"
| "json_value (VBool b) = JBool b"
| "json_value (VString s) = JString s"


definition json_provenance :: "Provenance \<Rightarrow> JsonValue" where
  "json_provenance x = obj_or [
     (''source_id'', id_json (id_value (prov_source_id x))),
     (''source_generation'', JUInt (prov_source_generation x)),
     (''source_type'', JString (SourceType_string (prov_source_type x))),
     (''method'', JInt (ucast (CollectionMethod_code (prov_method x)))),
     (''reliability'', JString (ReliabilityClass_string (prov_reliability x))),
     (''classification'', JString (Classification_string (prov_classification x))),
     (''timestamp_wall'', JInt (ts_wall (prov_timestamp x))),
     (''timestamp_mono'', JUInt (ts_mono (prov_timestamp x))),
     (''uncertainty_ns'', JInt (prov_uncertainty_ns x)),
     (''worker_boot'', JUInt (prov_worker_boot x)),
     (''coordinator_epoch'', JUInt (prov_coordinator_epoch x)),
     (''collection_error'', JString (prov_collection_error x)),
     (''normalized_field'', JString (prov_normalized_field x)),
     (''raw_field'', JString (prov_raw_field x))]"

definition json_confidence :: "Confidence \<Rightarrow> JsonValue" where
  "json_confidence x = obj_or [
     (''class'', JString (ConfidenceClass_string (conf_cls x))),
     (''numerator'', JDouble (conf_numerator x)),
     (''denominator'', JDouble (conf_denominator x)),
     (''numeric'', JDouble (confidence_numeric x)),
     (''derivation'', JString (conf_derivation x))]"

definition json_measurement :: "Measurement \<Rightarrow> JsonValue" where
  "json_measurement x = obj_or [
     (''field'', JString (meas_normalized_field x)),
     (''raw'', JString (meas_raw_field x)),
     (''value'', json_value (meas_value x)),
     (''classification'', JString (Classification_string (meas_classification x))),
     (''provenance'', json_provenance (meas_provenance x))]"

definition json_source :: "SourceDescriptor \<Rightarrow> JsonValue" where
  "json_source x = obj_or [
     (''source_id'', id_json (id_value (src_source_id x))),
     (''generation'', JUInt (src_generation x)),
     (''type'', JString (SourceType_string (src_type x))),
     (''name'', JString (src_name x)),
     (''reliability'', JString (ReliabilityClass_string (src_reliability x))),
     (''endpoint'', JString (src_endpoint x)),
     (''last_seen_wall'', JInt (ts_wall (src_last_seen x))),
     (''synthetic'', JBool (src_synthetic x))]"

definition json_device :: "DeviceDescriptor \<Rightarrow> JsonValue" where
  "json_device x = obj_or [
     (''device_id'', id_json (id_value (dev_device_id x))),
     (''node_id'', id_json (id_value (dev_node_id x))),
     (''kind'', JInt (ucast (DeviceKind_code (dev_kind x)))),
     (''vendor'', JString (dev_vendor x)),
     (''model'', JString (dev_model x)),
     (''architecture'', JString (dev_architecture x)),
     (''compute_capability_major'', JInt (scast (dev_compute_capability_major x))),
     (''compute_capability_minor'', JInt (scast (dev_compute_capability_minor x))),
     (''memory_bytes'', JUInt (dev_memory_bytes x)),
     (''free_memory_bytes'', JUInt (dev_free_memory_bytes x)),
     (''used_memory_bytes'', JUInt (dev_used_memory_bytes x)),
     (''sm_count'', JInt (scast (dev_sm_count x))),
     (''clock_mhz'', JDouble (dev_clock_mhz x)),
     (''health'', JString (HealthState_string (dev_health x))),
     (''synthetic'', JBool (dev_synthetic x))]"

definition json_node :: "NodeDescriptor \<Rightarrow> JsonValue" where
  "json_node x = obj_or [
     (''node_id'', id_json (id_value (node_node_id x))),
     (''hostname'', JString (node_hostname x)),
     (''cpu_count'', JInt (scast (node_cpu_count x))),
     (''memory_bytes'', JUInt (node_memory_bytes x)),
     (''numa_architecture'', JString (node_numa_architecture x)),
     (''devices'', JArray (map (\<lambda>i. JUInt (id_value i)) (node_devices x))),
     (''health'', JString (HealthState_string (node_health x))),
     (''region'', JString (node_region x)),
     (''synthetic'', JBool (node_synthetic x))]"

definition json_workload :: "WorkloadDescriptor \<Rightarrow> JsonValue" where
  "json_workload x = obj_or [
     (''workload_id'', id_json (id_value (wl_workload_id x))),
     (''request_id'', id_json (id_value (wl_request_id x))),
     (''tenant_id'', id_json (id_value (wl_tenant_id x))),
     (''namespace_id'', id_json (id_value (wl_namespace_id x))),
     (''name'', JString (wl_name x)),
     (''required_kind'', JInt (ucast (DeviceKind_code (wl_required_kind x)))),
     (''required_architecture'', JString (wl_required_architecture x)),
     (''memory_bytes'', JUInt (wl_memory_bytes x)),
     (''predicted_service_seconds'', JDouble (wl_predicted_service_seconds x)),
     (''priority'', JInt (ucast (PriorityClass_code (wl_priority x)))),
     (''slo'', JInt (ucast (SloClass_code (wl_slo x)))),
     (''capabilities'', JArray (map JString (wl_capabilities x))),
     (''synthetic'', JBool (wl_synthetic x))]"

definition json_queue :: "QueueDescriptor \<Rightarrow> JsonValue" where
  "json_queue x = obj_or [
     (''queue_name'', JString (queue_queue_name x)),
     (''state'', JInt (ucast (QueueState_code (queue_state x)))),
     (''depth'', JUInt (ucast (queue_depth x))),
     (''oldest_age_ns'', JUInt (queue_oldest_age_ns x)),
     (''head_wait_ns'', JUInt (queue_head_wait_ns x)),
     (''expected_wait_ns'', JUInt (queue_expected_wait_ns x)),
     (''capacity'', JUInt (ucast (queue_capacity x)))]"

definition json_memory :: "MemoryDescriptor \<Rightarrow> JsonValue" where
  "json_memory x = obj_or [
     (''total_bytes'', JUInt (mem_total_bytes x)),
     (''free_bytes'', JUInt (mem_free_bytes x)),
     (''used_bytes'', JUInt (mem_used_bytes x)),
     (''pressure'', JInt (ucast (MemoryPressureLevel_code (mem_pressure x)))),
     (''pressure_ratio'', JDouble (mem_pressure_ratio x))]"

definition json_topology :: "TopologyDescriptor \<Rightarrow> JsonValue" where
  "json_topology x = obj_or [
     (''type'', JInt (ucast (TopologyType_code (topo_type x)))),
     (''from_node'', id_json (id_value (topo_from_node x))),
     (''to_node'', id_json (id_value (topo_to_node x))),
     (''from_device'', id_json (id_value (topo_from_device x))),
     (''to_device'', id_json (id_value (topo_to_device x))),
     (''distance_units'', JUInt (topo_distance_units x)),
     (''interconnect_path'', JString (topo_interconnect_path x)),
     (''transfer_cost'', JDouble (topo_transfer_cost x))]"

definition json_locality :: "LocalityDescriptor \<Rightarrow> JsonValue" where
  "json_locality x = obj_or [
     (''type'', JInt (ucast (LocalityType_code (loc_type x)))),
     (''state_key'', JString (loc_state_key x)),
     (''device_id'', id_json (id_value (loc_device_id x))),
     (''node_id'', id_json (id_value (loc_node_id x))),
     (''present'', JBool (loc_present x)),
     (''benefit'', JDouble (loc_benefit x))]"

definition json_reservation :: "ReservationDescriptor \<Rightarrow> JsonValue" where
  "json_reservation x = obj_or [
     (''reservation_key'', JString (resv_reservation_key x)),
     (''tenant_id'', id_json (id_value (resv_tenant_id x))),
     (''device_id'', id_json (id_value (resv_device_id x))),
     (''node_id'', id_json (id_value (resv_node_id x))),
     (''reserved_bytes'', JUInt (resv_reserved_bytes x)),
     (''active'', JBool (resv_active x))]"

definition json_deadline :: "DeadlineDescriptor \<Rightarrow> JsonValue" where
  "json_deadline x = obj_or [
     (''deadline_ns'', JInt (dl_deadline_ns x)),
     (''submitted_ns'', JInt (dl_submitted_ns x)),
     (''state'', JInt (ucast (DeadlineState_code (dl_state x)))),
     (''risk'', JDouble (dl_risk x))]"

definition json_constraint :: "PlacementConstraint \<Rightarrow> JsonValue" where
  "json_constraint x = obj_or [
     (''class'', JInt (ucast (ConstraintClass_code (con_cls x)))),
     (''kind'', JInt (ucast (ConstraintKind_code (con_kind x)))),
     (''field'', JString (con_field x)),
     (''value'', json_value (con_value x)),
     (''requirement'', JString (con_requirement_text x)),
     (''classification'', JString (Classification_string (con_classification x))),
     (''provenance'', json_provenance (con_provenance x))]"

definition json_cost :: "PlacementCostComponent \<Rightarrow> JsonValue" where
  "json_cost x = obj_or [
     (''kind'', JInt (ucast (CostComponentKind_code (cost_kind x)))),
     (''label'', JString (cost_label x)),
     (''cost'', JDouble (cost_cost x)),
     (''policy_weight'', JDouble (cost_policy_weight x)),
     (''weighted'', JDouble (cost_weighted x)),
     (''classification'', JString (Classification_string (cost_classification x))),
     (''provenance'', json_provenance (cost_provenance x)),
     (''detail'', JString (cost_detail x))]"

definition json_score :: "PlacementScoreComponent \<Rightarrow> JsonValue" where
  "json_score x = obj_or [
     (''kind'', JInt (ucast (ScoreComponentKind_code (score_kind x)))),
     (''label'', JString (score_label x)),
     (''value'', JDouble (score_value x)),
     (''classification'', JString (Classification_string (score_classification x))),
     (''provenance'', json_provenance (score_provenance x))]"

definition json_candidate :: "PlacementCandidate \<Rightarrow> JsonValue" where
  "json_candidate x = obj_or [
     (''candidate_id'', id_json (id_value (cand_candidate_id x))),
     (''node_id'', id_json (id_value (cand_node_id x))),
     (''device_id'', id_json (id_value (cand_device_id x))),
     (''generation'', JUInt (cand_generation x)),
     (''architecture'', JString (cand_architecture x)),
     (''capabilities'', JArray (map JString (cand_capabilities x))),
     (''health'', JString (HealthState_string (cand_health x))),
     (''memory'', json_memory (cand_memory x)),
     (''queue'', json_queue (cand_queue x)),
     (''locality'', JArray (map json_locality (cand_locality x))),
     (''costs'', JArray (map json_cost (cand_costs x))),
     (''total_cost'', JDouble (cand_total_cost x)),
     (''rejection_reason_text'', (case cand_rejection_reason_text x of Some t \<Rightarrow> JString t | None \<Rightarrow> JNull)),
     (''rejection_reason'', (case cand_rejection_reason x of Some r \<Rightarrow> JInt (ucast (RejectionReason_code r)) | None \<Rightarrow> JNull))]"

definition json_candidate_set :: "CandidateSet \<Rightarrow> JsonValue" where
  "json_candidate_set x = obj_or [
     (''candidates'', JArray (map json_candidate (cset_candidates x))),
     (''complete'', JBool (cset_complete x)),
     (''reconstructed'', JBool (cset_reconstructed x)),
     (''classification'', JString (Classification_string (cset_classification x))),
     (''source_chain'', JArray (map json_provenance (cset_source_chain x))),
     (''missing_fields'', JArray (map JString (cset_missing_fields x)))]"

definition json_outcome :: "PlacementOutcome \<Rightarrow> JsonValue" where
  "json_outcome x = obj_or [
     (''decision_id'', id_json (id_value (out_decision_id x))),
     (''attempt_id'', id_json (id_value (out_attempt_id x))),
     (''disposition'', JInt (ucast (OutcomeDisposition_code (out_disposition x)))),
     (''start_delay_ns'', JInt (out_start_delay_ns x)),
     (''duration_ns'', JInt (out_duration_ns x)),
     (''predicted_duration_ns'', JInt (out_predicted_duration_ns x)),
     (''memory_used_bytes'', JUInt (out_memory_used_bytes x)),
     (''error'', JString (out_error x)),
     (''classification'', JString (Classification_string (out_classification x))),
     (''provenance'', json_provenance (out_provenance x))]"

definition json_observation :: "PlacementObservation \<Rightarrow> JsonValue" where
  "json_observation x = obj_or [
     (''observation_id'', id_json (id_value (obs_observation_id x))),
     (''observation_generation'', JUInt (obs_observation_generation x)),
     (''revision'', JInt (obs_revision x)),
     (''source_id'', id_json (id_value (obs_source_id x))),
     (''source_generation'', JUInt (obs_source_generation x)),
     (''source_type'', JString (SourceType_string (obs_source_type x))),
     (''timestamp_wall'', JInt (ts_wall (obs_timestamp x))),
     (''timestamp_mono'', JUInt (ts_mono (obs_timestamp x))),
     (''worker_boot'', JUInt (obs_worker_boot x)),
     (''coordinator_epoch'', JUInt (obs_coordinator_epoch x)),
     (''workload_id'', id_json (id_value (obs_workload_id x))),
     (''request_id'', id_json (id_value (obs_request_id x))),
     (''tenant_id'', id_json (id_value (obs_tenant_id x))),
     (''namespace_id'', id_json (id_value (obs_namespace_id x))),
     (''node_id'', id_json (id_value (obs_node_id x))),
     (''device_id'', id_json (id_value (obs_device_id x))),
     (''decision_id'', id_json (id_value (obs_decision_id x))),
     (''attempt_id'', id_json (id_value (obs_attempt_id x))),
     (''epoch'', JUInt (obs_epoch x)),
     (''lifecycle'', JString (LifecycleState_string (obs_lifecycle x))),
     (''fields'', JArray (map json_measurement (obs_fields x))),
     (''reliability'', JString (ReliabilityClass_string (obs_reliability x))),
     (''synthetic'', JBool (obs_synthetic x))]"

definition json_decision :: "PlacementDecision \<Rightarrow> JsonValue" where
  "json_decision x = obj_or [
     (''decision_id'', id_json (id_value (dec_decision_id x))),
     (''attempt_id'', id_json (id_value (dec_attempt_id x))),
     (''placement_generation'', JUInt (dec_placement_generation x)),
     (''observation_generation'', JUInt (dec_observation_generation x)),
     (''epoch'', JUInt (dec_epoch x)),
     (''policy_generation'', JUInt (dec_policy_generation x)),
     (''workload_id'', id_json (id_value (dec_workload_id x))),
     (''request_id'', id_json (id_value (dec_request_id x))),
     (''tenant_id'', id_json (id_value (dec_tenant_id x))),
     (''namespace_id'', id_json (id_value (dec_namespace_id x))),
     (''node_id'', id_json (id_value (dec_node_id x))),
     (''device_id'', id_json (id_value (dec_device_id x))),
     (''candidate_set'', json_candidate_set (dec_candidate_set x)),
     (''selected_candidate'', id_json (id_value (dec_selected_candidate x))),
     (''rejected_candidates'', JArray (map (\<lambda>i. JUInt (id_value i)) (dec_rejected_candidates x))),
     (''hard_constraints'', JArray (map json_constraint (dec_hard_constraints x))),
     (''soft_preferences'', JArray (map json_constraint (dec_soft_preferences x))),
     (''score_components'', JArray (map json_score (dec_score_components x))),
     (''cost_components'', JArray (map json_cost (dec_cost_components x))),
     (''tie_break'', JInt (ucast (TieBreakReason_code (dec_tie_break x)))),
     (''tie_break_reason'', JString (dec_tie_break_reason x)),
     (''selected_reason'', JString (dec_selected_reason x)),
     (''rejection_reasons'', JObject (map (\<lambda>(i, r). (dec_nat (unat (id_value i)), JString r)) (dec_rejection_reasons x))),
     (''confidence'', json_confidence (dec_confidence x)),
     (''classification'', JString (Classification_string (dec_classification x))),
     (''determinism'', JInt (ucast (DeterminismClass_code (dec_determinism x)))),
     (''provenance'', json_provenance (dec_provenance x)),
     (''outcome'', (case dec_outcome x of Some y \<Rightarrow> json_outcome y | None \<Rightarrow> JNull)),
     (''lifecycle'', JString (LifecycleState_string (dec_lifecycle x)))]"

definition json_line :: "ExplanationLine \<Rightarrow> JsonValue" where
  "json_line y = obj_or [
     (''question'', JString (line_question y)),
     (''answer'', JString (line_answer y)),
     (''influence'', JDouble (line_influence y)),
     (''classification'', JString (Classification_string (line_classification y))),
     (''evidence_fields'', JArray (map JString (line_evidence_fields y)))]"

definition json_explanation :: "PlacementExplanation \<Rightarrow> JsonValue" where
  "json_explanation x = obj_or [
     (''decision_id'', id_json (id_value (ex_decision_id x))),
     (''workload_id'', id_json (id_value (ex_workload_id x))),
     (''confidence'', json_confidence (ex_confidence x)),
     (''lines'', JArray (map json_line (ex_lines x))),
     (''next_alternative'', id_json (id_value (ex_next_alternative x))),
     (''missing_evidence'', JArray (map JString (ex_missing_evidence x))),
     (''determinism'', JInt (ucast (DeterminismClass_code (ex_determinism x)))),
     (''summary'', JString (ex_summary x))]"

definition json_mismatch :: "ReplayMismatch \<Rightarrow> JsonValue" where
  "json_mismatch y = obj_or [
     (''field'', JString (mm_field y)),
     (''expected'', JString (mm_expected y)),
     (''actual'', JString (mm_actual y))]"

definition json_replay :: "ReplayResult \<Rightarrow> JsonValue" where
  "json_replay x = obj_or [
     (''decision_id'', id_json (id_value (rep_decision_id x))),
     (''replay_digest'', JString (rep_replay_digest x)),
     (''decision_digest'', JString (rep_decision_digest x)),
     (''evidence_digest'', JString (rep_evidence_digest x)),
     (''reproduced'', JBool (rep_reproduced x)),
     (''mismatches'', JArray (map json_mismatch (rep_mismatches x))),
     (''missing_required_evidence'', JArray (map JString (rep_missing_required_evidence x))),
     (''selected'', id_json (id_value (rep_selected x))),
     (''classification'', JString (Classification_string (rep_classification x)))]"

definition json_delta :: "ComparisonDelta \<Rightarrow> JsonValue" where
  "json_delta y = obj_or [
     (''field'', JString (delta_field y)),
     (''before'', JString (delta_before y)),
     (''after'', JString (delta_after y)),
     (''changed_outcome'', JBool (delta_changed_outcome y))]"

definition json_comparison :: "ComparisonResult \<Rightarrow> JsonValue" where
  "json_comparison x = obj_or [
     (''a'', id_json (id_value (cmp_a x))),
     (''b'', id_json (id_value (cmp_b x))),
     (''deltas'', JArray (map json_delta (cmp_deltas x))),
     (''selected_changed'', JBool (cmp_selected_changed x)),
     (''changed_outcome_fields'', JArray (map JString (cmp_changed_outcome_fields x)))]"

definition json_change :: "CounterfactualChange \<Rightarrow> JsonValue" where
  "json_change y = obj_or [
     (''field'', JString (ch_field y)),
     (''value'', json_value (ch_new_value y)),
     (''relative'', JBool (ch_relative y))]"

definition json_counterfactual :: "CounterfactualResult \<Rightarrow> JsonValue" where
  "json_counterfactual x = obj_or [
     (''decision_id'', id_json (id_value (cf_decision_id x))),
     (''changed_inputs'', JArray (map json_change (cf_changed_inputs x))),
     (''resulting_ranking'', JArray (map (\<lambda>i. id_json (id_value i)) (cf_resulting_ranking x))),
     (''resulting_decision'', id_json (id_value (cf_resulting_decision x))),
     (''decision_changed'', JBool (cf_decision_changed x)),
     (''classification'', JString (Classification_string (cf_classification x))),
     (''note'', JString (cf_note x))]"

definition json_entry :: "TimelineEntry \<Rightarrow> JsonValue" where
  "json_entry y = obj_or [
     (''observation_id'', id_json (id_value (te_observation_id y))),
     (''decision_id'', id_json (id_value (te_decision_id y))),
     (''timestamp_wall'', JInt (ts_wall (te_timestamp y))),
     (''kind'', JString (te_kind y)),
     (''label'', JString (te_label y))]"

definition json_timeline :: "PlacementTimeline \<Rightarrow> JsonValue" where
  "json_timeline x = obj_or [
     (''workload_id'', id_json (id_value (tl_workload_id x))),
     (''entries'', JArray (map json_entry (tl_entries x)))]"

definition json_snapshot :: "PlacementSnapshot \<Rightarrow> JsonValue" where
  "json_snapshot x = obj_or [
     (''at_wall'', JInt (ts_wall (snap_at x))),
     (''decisions'', JArray (map json_decision (snap_decisions x))),
     (''observations'', JArray (map json_observation (snap_observations x))),
     (''source_health'', JObject (map (\<lambda>(i, r). (dec_nat (unat (id_value i)), JString (ReliabilityClass_string r))) (snap_source_health x))),
     (''observation_count'', JUInt (snap_observation_count x)),
     (''decision_count'', JUInt (snap_decision_count x)),
     (''outcome_count'', JUInt (snap_outcome_count x))]"

section \<open>Digest\<close>

text \<open>
  \<open>canonical_digest\<close> hashes the text with sorted keys and without line breaks; \<open>digest\<close> of a string
  reads its characters as bytes.
\<close>

definition canonical_text :: "JsonValue \<Rightarrow> string" where
  "canonical_text v = json_text v True (- 1)"

definition canonical_digest :: "JsonValue \<Rightarrow> bytes" where
  "canonical_digest v = sha256_digest (map of_char (canonical_text v))"

definition digest_hex :: "bytes \<Rightarrow> string" where
  "digest_hex d = hex d"

section \<open>Keys\<close>

text \<open>No object of a document has two members of the same name.\<close>

primrec distinct_keys :: "JsonValue \<Rightarrow> bool" where
  "distinct_keys JNull = True"
| "distinct_keys (JBool b) = True"
| "distinct_keys (JInt i) = True"
| "distinct_keys (JUInt u) = True"
| "distinct_keys (JDouble d) = True"
| "distinct_keys (JString s) = True"
| "distinct_keys (JArray vs) = list_all id (map distinct_keys vs)"
| "distinct_keys (JObject items) =
     (distinct (map fst items) \<and> list_all snd (map (map_prod id distinct_keys) items))"

lemma distinct_keys_value [simp]: "distinct_keys (json_value v)"
  by (cases v) simp_all

lemma distinct_keys_leaves [simp]:
  "distinct_keys (json_provenance p)" "distinct_keys (json_confidence c)" "distinct_keys (json_memory m)"
  "distinct_keys (json_queue q)" "distinct_keys (json_locality l)"
  by (simp_all add: json_provenance_def json_confidence_def json_memory_def json_queue_def json_locality_def obj_or_def id_json_def)

lemma distinct_keys_parts [simp]:
  "distinct_keys (json_measurement ms)" "distinct_keys (json_constraint con)" "distinct_keys (json_cost co)"
  "distinct_keys (json_score s)" "distinct_keys (json_outcome ot)"
  by (simp_all add: json_measurement_def json_constraint_def json_cost_def json_score_def json_outcome_def
      obj_or_def id_json_def)

lemma distinct_keys_candidate [simp]: "distinct_keys (json_candidate c)"
  by (simp add: json_candidate_def obj_or_def id_json_def list_all_iff split: option.split)

lemma distinct_keys_candidate_set [simp]: "distinct_keys (json_candidate_set c)"
  by (simp add: json_candidate_set_def obj_or_def list_all_iff)

lemma distinct_keys_observation [simp]: "distinct_keys (json_observation ob)"
  by (simp add: json_observation_def obj_or_def id_json_def list_all_iff)

text \<open>A map from identities becomes an object whose keys are the decimal identities.\<close>

lemma distinct_id_keys:
  assumes "distinct (map fst m)"
  shows "distinct (map fst (map (\<lambda>(i, r). (dec_nat (unat (id_value i)), f r)) m))"
proof -
  have "inj (\<lambda>i. dec_nat (unat (id_value i)))"
    by (rule injI) (metis digits_value_dec_nat Id.expand word_unat_eq_iff)
  then have "distinct (map (\<lambda>i. dec_nat (unat (id_value i))) (map fst m))"
    using assms distinct_map inj_on_subset subset_UNIV by blast
  then show ?thesis by (simp add: case_prod_beta comp_def)
qed

lemma distinct_keys_decision:
  assumes "distinct (map fst (dec_rejection_reasons d))"
  shows "distinct_keys (json_decision d)"
  using distinct_id_keys [OF assms, of JString]
  by (simp add: json_decision_def obj_or_def id_json_def list_all_iff case_prod_beta split: option.split)




section \<open>Reading a document back\<close>

text \<open>With distinct keys, sorting the members does not change what a key finds.\<close>

lemma map_of_same_members:
  assumes "distinct (map fst xs)" "mset xs = mset ys"
  shows "map_of xs = map_of ys"
proof -
  have "mset (map fst xs) = mset (map fst ys)" using assms(2) by simp
  then have "distinct (map fst ys)" using assms(1) by (metis mset_eq_imp_distinct_iff)
  then have "map_of xs k = Some v \<longleftrightarrow> map_of ys k = Some v" for k v
    using assms mset_eq_setD [OF assms(2)] by (simp add: map_of_eq_Some_iff)
  then show ?thesis by (intro ext) (metis option.exhaust)
qed

lemma map_of_map_members: "map_of (map (map_prod id f) items) k = map_option f (map_of items k)"
  by (induction items) auto

lemma find_canon:
  assumes "distinct (map fst items)"
  shows "json_find k (canon srt (JObject items)) = Inr (map_option (canon srt) (map_of items k))"
proof -
  have "distinct (map fst (map (map_prod id (canon srt)) items))" using assms by (simp add: comp_def)
  then have "map_of (ordered_items srt (map (map_prod id (canon srt)) items)) = map_of (map (map_prod id (canon srt)) items)"
    by (intro map_of_same_members [symmetric]) (simp_all add: ordered_items_def)
  then show ?thesis by (simp add: json_find_def map_of_map_members)
qed

lemma as_uint_canon [simp]: "as_uint (canon srt (JUInt u)) = Inr u"
proof (cases "unat u < 2 ^ 63")
  case True
  then have "int (unat u) < int (2 ^ 63)" by (simp only: of_nat_less_iff)
  then have "\<bar>int (unat u)\<bar> < 2 ^ 63" by (simp only: of_nat_power of_nat_numeral abs_of_nat)
  then have "sint (word_of_int (int (unat u)) :: i64) = int (unat u)" by (rule sint_word_of_small)
  then have "\<not> sint u < 0" using uint_ge_0 [of u] by simp
  with True show ?thesis by simp
qed simp

text \<open>C35. Identities are lossless in JSON: whatever the decision, its canonical text parses, and the eight identities,
  read with \<open>find\<close> and \<open>as_uint\<close>, are the 64-bit values of the decision.
\<close>

theorem decision_identities_lossless:
  "\<exists>v. parse_json (canonical_text (json_decision d)) = Inr v \<and>
     list_all (\<lambda>(k, i). \<exists>n. json_find k v = Inr (Some n) \<and> as_uint n = Inr i)
       [(''decision_id'', id_value (dec_decision_id d)), (''attempt_id'', id_value (dec_attempt_id d)),
        (''workload_id'', id_value (dec_workload_id d)), (''request_id'', id_value (dec_request_id d)),
        (''tenant_id'', id_value (dec_tenant_id d)), (''namespace_id'', id_value (dec_namespace_id d)),
        (''node_id'', id_value (dec_node_id d)), (''device_id'', id_value (dec_device_id d)),
        (''selected_candidate'', id_value (dec_selected_candidate d))]"
proof -
  obtain items where items: "json_decision d = JObject items" by (simp add: json_decision_def obj_or_def)
  then have "distinct (map fst items)" by (auto simp: json_decision_def obj_or_def)
  note find = find_canon [OF this, of _ True, folded items]
  have "parse_json (canonical_text (json_decision d)) = Inr (canon True (json_decision d))"
    by (simp add: canonical_text_def parse_json_text)
  moreover have "json_find k (canon True (json_decision d)) = Inr (map_option (canon True) (map_of items k))" for k
    by (rule find)
  ultimately show ?thesis
    using items by (auto simp: json_decision_def obj_or_def id_json_def simp del: canon.simps)
qed

end
