(* ===== verification/Replay.thy ===== *)
theory Replay
  imports To_Json Ranking
begin

text \<open>
  \<open>replay_decision\<close> of src/compute.cpp: the recorded selection against the one that the recorded evidence
  gives, with the three digests over canonical JSON.
\<close>

section \<open>The replay\<close>

text \<open>The document behind \<open>replay_digest\<close>: the decision with the selection of the ranking added to it.\<close>

definition replay_document :: "PlacementDecision \<Rightarrow> CandidateId \<Rightarrow> fault + JsonValue" where
  "replay_document d sel = json_set ''_reproduced_selected'' (JUInt (id_value sel)) (json_decision d)"

definition replay_mismatches :: "PlacementDecision \<Rightarrow> RankingResult \<Rightarrow> ReplayMismatch list" where
  "replay_mismatches d r =
     (let mm = (if rk_selected r = dec_selected_candidate d then []
                else [\<lparr>mm_field = ''selected_candidate'', mm_expected = id_str (dec_selected_candidate d),
                       mm_actual = id_str (rk_selected r)\<rparr>])
      in if cset_candidates (dec_candidate_set d) = [] \<and> mm = []
         then [\<lparr>mm_field = ''candidate_set'', mm_expected = ''non-empty'', mm_actual = ''empty''\<rparr>] else mm)"

definition replay_missing :: "PlacementDecision \<Rightarrow> RankingResult \<Rightarrow> string list" where
  "replay_missing d r =
     rk_missing r @ cset_missing_fields (dec_candidate_set d) @
     (if cset_candidates (dec_candidate_set d) = [] then [''empty candidate set''] else [])"

definition replay_decision :: "PlacementDecision \<Rightarrow> fault + ReplayResult" where
  "replay_decision d =
     (case rank_candidates d of
        Inl e \<Rightarrow> Inl e
      | Inr r \<Rightarrow>
          (case replay_document d (rk_selected r) of
             Inl e \<Rightarrow> Inl e
           | Inr doc \<Rightarrow>
               Inr \<lparr>rep_decision_id = dec_decision_id d,
                 rep_replay_digest = hex (sha256_digest (map of_char (canonical_text doc))),
                 rep_decision_digest = digest_hex (canonical_digest (json_decision d)),
                 rep_evidence_digest = digest_hex (canonical_digest (json_candidate_set (dec_candidate_set d))),
                 rep_reproduced = (rk_selected r = dec_selected_candidate d \<and>
                   cset_candidates (dec_candidate_set d) \<noteq> []),
                 rep_mismatches = replay_mismatches d r,
                 rep_missing_required_evidence = replay_missing d r,
                 rep_selected = dec_selected_candidate d,
                 rep_classification = Classification.Derived\<rparr>))"

section \<open>The document\<close>

lemma set_item_new: "key \<notin> fst ` set items \<Longrightarrow> set_item key val items = items @ [(key, val)]"
  by (induction key val items rule: set_item.induct) auto

definition decision_items :: "PlacementDecision \<Rightarrow> (string \<times> JsonValue) list" where
  "decision_items d = (case json_decision d of JObject items \<Rightarrow> items | _ \<Rightarrow> [])"

lemma decision_object: "json_decision d = JObject (decision_items d)"
  by (simp add: decision_items_def json_decision_def obj_or_def)

lemma decision_keys:
  "distinct (map fst (decision_items d))" "''_reproduced_selected'' \<notin> fst ` set (decision_items d)"
  by (simp_all add: decision_items_def json_decision_def obj_or_def)

lemma replay_document_items:
  "replay_document d sel = Inr (JObject (decision_items d @ [(''_reproduced_selected'', JUInt (id_value sel))]))"
  by (simp add: replay_document_def json_set_def decision_object set_item_new decision_keys)

lemma replay_document_keys:
  "distinct (map fst (decision_items d @ [(''_reproduced_selected'', v)]))"
  using decision_keys [of d] by auto

lemma replay_returns:
  "replay_decision d =
     (case rank_candidates d of
        Inl e \<Rightarrow> Inl e
      | Inr r \<Rightarrow>
          Inr \<lparr>rep_decision_id = dec_decision_id d,
            rep_replay_digest = hex (sha256_digest (map of_char (canonical_text
              (JObject (decision_items d @ [(''_reproduced_selected'', JUInt (id_value (rk_selected r)))]))))),
            rep_decision_digest = digest_hex (canonical_digest (json_decision d)),
            rep_evidence_digest = digest_hex (canonical_digest (json_candidate_set (dec_candidate_set d))),
            rep_reproduced = (rk_selected r = dec_selected_candidate d \<and> cset_candidates (dec_candidate_set d) \<noteq> []),
            rep_mismatches = replay_mismatches d r,
            rep_missing_required_evidence = replay_missing d r,
            rep_selected = dec_selected_candidate d,
            rep_classification = Classification.Derived\<rparr>)"
  by (simp add: replay_decision_def replay_document_items split: sum.split)

lemma length_hex [simp]: "length (hex d) = 2 * length d"
  by (induction d) (simp_all add: hex_def)

lemma find_in_text:
  assumes "distinct (map fst items)"
  shows "\<exists>v. parse_json (canonical_text (JObject items)) = Inr v \<and>
    (\<forall>k. json_find k v = Inr (map_option (canon True) (map_of items k)))"
  by (intro exI [of _ "canon True (JObject items)"] conjI allI find_canon [OF assms])
     (simp add: canonical_text_def parse_json_text del: canon.simps)

section \<open>Properties\<close>

text \<open>C20. Replay never fabricates success. It fails exactly when the ranking throws; otherwise the selection counts as
  reproduced exactly when the candidate set is not empty and the ranking of the recorded evidence selects the recorded
  candidate, and it is reported as reproduced exactly when there is no mismatch to report.
\<close>

theorem replay_is_honest:
  "case rank_candidates d of
     Inl e \<Rightarrow> replay_decision d = Inl e
   | Inr r \<Rightarrow> \<exists>out. replay_decision d = Inr out \<and>
       rep_reproduced out = (cset_candidates (dec_candidate_set d) \<noteq> [] \<and> rk_selected r = dec_selected_candidate d) \<and>
       rep_reproduced out = (rep_mismatches out = []) \<and>
       set (rep_missing_required_evidence out) =
         set (rk_missing r) \<union> (if cset_candidates (dec_candidate_set d) = [] then {''empty candidate set''} else {})"
proof (cases "rank_candidates d")
  case (Inr r)
  have "set (cset_missing_fields (dec_candidate_set d)) \<subseteq> set (rk_missing r)"
    using Inr by (auto simp: rank_candidates_def Let_def split: sum.splits)
  then show ?thesis
    by (auto simp: replay_returns Inr replay_mismatches_def replay_missing_def Let_def)
qed (simp add: replay_returns)

text \<open>C21. What the replay digest binds. It is the hash of a text that parses to a document in which
  \<open>_reproduced_selected\<close> is the selection of the ranking and \<open>selected_candidate\<close> and
  \<open>policy_generation\<close> are the recorded ones; the three digests have 64 characters each.
\<close>

theorem replay_digest_binds:
  assumes "replay_decision d = Inr out"
  shows "\<exists>t v r. rep_replay_digest out = hex (sha256_digest (map of_char t)) \<and> parse_json t = Inr v \<and>
    rank_candidates d = Inr r \<and>
    list_all (\<lambda>(k, u). \<exists>n. json_find k v = Inr (Some n) \<and> as_uint n = Inr u)
      [(''_reproduced_selected'', id_value (rk_selected r)),
       (''selected_candidate'', id_value (dec_selected_candidate d)),
       (''policy_generation'', dec_policy_generation d)] \<and>
    map length [rep_replay_digest out, rep_decision_digest out, rep_evidence_digest out] = [64, 64, 64]"
proof -
  from assms obtain r where r: "rank_candidates d = Inr r" by (auto simp: replay_returns split: sum.splits)
  let ?items = "decision_items d @ [(''_reproduced_selected'', JUInt (id_value (rk_selected r)))]"
  obtain v where v: "parse_json (canonical_text (JObject ?items)) = Inr v"
    "\<And>k. json_find k v = Inr (map_option (canon True) (map_of ?items k))"
    using find_in_text [OF replay_document_keys] by blast
  have "map_of ?items ''_reproduced_selected'' = Some (JUInt (id_value (rk_selected r)))"
    "map_of ?items ''selected_candidate'' = Some (JUInt (id_value (dec_selected_candidate d)))"
    "map_of ?items ''policy_generation'' = Some (JUInt (dec_policy_generation d))"
    by (simp_all add: decision_items_def json_decision_def obj_or_def id_json_def)
  then have "list_all (\<lambda>(k, u). \<exists>n. json_find k v = Inr (Some n) \<and> as_uint n = Inr u)
      [(''_reproduced_selected'', id_value (rk_selected r)),
       (''selected_candidate'', id_value (dec_selected_candidate d)),
       (''policy_generation'', dec_policy_generation d)]"
    by (simp add: v(2) del: canon.simps)
  then show ?thesis
    using assms r v(1) by (auto simp: replay_returns digest_hex_def canonical_digest_def)
qed

theorem replay_digest_binds_witness:
  "\<exists>t v out. replay_decision PlacementDecision_default = Inr out \<and>
     rep_replay_digest out = hex (sha256_digest (map of_char t)) \<and> parse_json t = Inr v \<and>
     (\<exists>n. json_find ''_reproduced_selected'' v = Inr (Some n) \<and> as_uint n = Inr 0)"
proof -
  have r: "rank_candidates PlacementDecision_default = Inr \<lparr>rk_ranked = [], rk_rejections = [], rk_totals = [],
      rk_selected = nil_id, rk_missing = [], rk_note = ''no-cost-evidence-ranked-last''\<rparr>"
    by (simp add: rank_candidates_def screen_candidates_def PlacementDecision_default_def CandidateSet_default_def)
  then obtain out where out: "replay_decision PlacementDecision_default = Inr out" by (simp add: replay_returns)
  from replay_digest_binds [OF this] r out show ?thesis by (auto simp: nil_id_def)
qed

end
