(* ===== verification/Explanation.thy ===== *)
theory Explanation
  imports Ranking
begin

text \<open>
  \<open>build_explanation\<close> of compute.cpp: the structured account of a decision, with a confidence class
  derived from the share of measured evidence.
\<close>

section \<open>Text helpers\<close>

text \<open>\<open>s.find(pat) != npos\<close>.\<close>

fun contains :: "string \<Rightarrow> string \<Rightarrow> bool" where
  "contains pat [] = (pat = [])"
| "contains pat (c # cs) = (take (length pat) (c # cs) = pat \<or> contains pat cs)"

definition line_of :: "string \<Rightarrow> string \<Rightarrow> f64 \<Rightarrow> Classification \<Rightarrow> string list \<Rightarrow> ExplanationLine" where
  "line_of q a infl cl f = \<lparr>line_question = q, line_answer = a, line_influence = infl,
     line_classification = cl, line_evidence_fields = f\<rparr>"

section \<open>Confidence\<close>

definition count_measured :: "PlacementConstraint list \<Rightarrow> nat" where
  "count_measured cs = length (filter (\<lambda>c. con_classification c = Classification.Measured) cs)"

text \<open>The two counters of the first loops.\<close>

definition total_evidence :: "PlacementDecision \<Rightarrow> u64" where
  "total_evidence d =
     of_nat (sum_list (map (\<lambda>c. 1 + length (cand_costs c)) (cset_candidates (dec_candidate_set d))) +
       (length (dec_hard_constraints d) + length (dec_soft_preferences d)))"

definition measured_evidence :: "PlacementDecision \<Rightarrow> u64" where
  "measured_evidence d =
     of_nat (length (filter (\<lambda>c. cand_costs c \<noteq> []) (cset_candidates (dec_candidate_set d))) +
       count_measured (dec_hard_constraints d) + count_measured (dec_soft_preferences d))"

definition evidence_ratio :: "PlacementDecision \<Rightarrow> f64" where
  "evidence_ratio d =
     (if total_evidence d > 0 then f64_div (f64_of_u64 (measured_evidence d)) (f64_of_u64 (total_evidence d))
      else f64_zero)"

text \<open>The constants 0.95, 0.6, 0.2 and 1e-9.\<close>

definition c095 :: f64 where "c095 = 0x3FEE666666666666"
definition c06 :: f64 where "c06 = 0x3FE3333333333333"
definition c02 :: f64 where "c02 = 0x3FC999999999999A"
definition c1e9 :: f64 where "c1e9 = 0x3E112E0BE826D695"

definition confidence_class :: "PlacementDecision \<Rightarrow> RankingResult \<Rightarrow> ConfidenceClass" where
  "confidence_class d r =
     (let cs = dec_candidate_set d; ratio = evidence_ratio d in
      if cset_complete cs \<and> f64_le c095 ratio \<and> rk_missing r = [] then ConfidenceClass.CompleteMeasured
      else if f64_le c06 ratio \<and> \<not> cset_reconstructed cs then ConfidenceClass.StrongMixedEvidence
      else if cset_reconstructed cs then ConfidenceClass.Reconstructed
      else if f64_lt c02 ratio then ConfidenceClass.PartialEvidence
      else ConfidenceClass.InsufficientEvidence)"

section \<open>Lines\<close>

definition find_candidate :: "CandidateId \<Rightarrow> PlacementDecision \<Rightarrow> PlacementCandidate option" where
  "find_candidate i d = find (\<lambda>c. cand_candidate_id c = i) (cset_candidates (dec_candidate_set d))"

definition why_line :: "PlacementDecision \<Rightarrow> ExplanationLine" where
  "why_line d =
     (case find_candidate (dec_selected_candidate d) d of
        Some sel \<Rightarrow>
          line_of ''why_candidate''
            (''workload '' @ id_str (dec_workload_id d) @ '' selected candidate '' @ id_str (dec_selected_candidate d) @
             '' on device '' @ id_str (cand_device_id sel) @ '' ('' @ cand_architecture sel @ '')'')
            f64_one Classification.Measured [''selected_candidate'', ''device'']
      | None \<Rightarrow>
          line_of ''why_candidate'' (''selected candidate '' @ id_str (dec_selected_candidate d))
            f64_one Classification.Unknown [''selected_candidate''])"

definition cut_count :: "RankingResult \<Rightarrow> u64" where
  "cut_count r = of_nat (length (filter (\<lambda>(i, reason). \<not> contains ''not-evaluable'' reason) (rk_rejections r)))"

definition hard_line :: "RankingResult \<Rightarrow> ExplanationLine" where
  "hard_line r =
     (let ncut = cut_count r in
      line_of ''hard_constraints''
        (dec_nat (unat ncut) @ '' candidate(s) eliminated by hard constraints; '' @
         dec_nat (length (rk_rejections r)) @ '' total excluded'')
        (f64_div (f64_of_u64 ncut) (f64_of_u64 (ncut + of_nat (length (rk_ranked r)) + 1)))
        (if rk_rejections r = [] then Classification.Unknown else Classification.Measured)
        [''hard_constraints'', ''rejected_candidates''])"

definition soft_lines :: "PlacementDecision \<Rightarrow> RankingResult \<Rightarrow> ExplanationLine list" where
  "soft_lines d r =
     (case (find_candidate (dec_selected_candidate d) d,
            if length (rk_ranked r) \<ge> 2 then find_candidate (rk_ranked r ! 1) d else None) of
        (Some sel, Some alt) \<Rightarrow>
          (let s = weighted_total sel; a = weighted_total alt in
           [line_of ''soft_costs''
              (''selected total weighted cost '' @ f64_text s @ '' vs next '' @ f64_text a)
              (f64_div (f64_abs (f64_sub s a)) (f64_add (f64_add (f64_abs s) (f64_abs a)) c1e9))
              Classification.Measured [''cost_components'']])
      | _ \<Rightarrow> [])"

definition best_benefit :: "LocalityDescriptor list \<Rightarrow> f64" where
  "best_benefit ls = foldl (\<lambda>best l. f64_max best (loc_benefit l)) f64_zero ls"

definition evidence_lines :: "PlacementDecision \<Rightarrow> ExplanationLine list" where
  "evidence_lines d =
     (case find_candidate (dec_selected_candidate d) d of
        None \<Rightarrow> []
      | Some sel \<Rightarrow>
          (let who = ''candidate '' @ id_str (cand_candidate_id sel); best = best_benefit (cand_locality sel) in
           (if cand_locality sel = [] then []
            else [line_of ''locality'' (who @ '' carries locality benefit '' @ f64_text best)
                    (f64_div best (f64_add f64_one best)) Classification.Measured [''locality'']]) @
           [line_of ''queue''
              (who @ '' queue depth '' @ dec_nat (unat (queue_depth (cand_queue sel))) @
               '' expected_wait_ns '' @ dec_nat (unat (queue_expected_wait_ns (cand_queue sel))))
              f64_zero Classification.Measured [''queue''],
            line_of ''memory''
              (who @ '' free_memory_bytes '' @ dec_nat (unat (mem_free_bytes (cand_memory sel))) @
               '' (ratio '' @ f64_text (mem_pressure_ratio (cand_memory sel)) @ '')'')
              f64_zero Classification.Measured [''memory'']]))"

definition build_explanation :: "PlacementDecision \<Rightarrow> RankingResult \<Rightarrow> PlacementExplanation" where
  "build_explanation d r =
     (let cls = confidence_class d r;
          missing = rk_missing r @ cset_missing_fields (dec_candidate_set d);
          partial = (cls = ConfidenceClass.InsufficientEvidence \<or> cls = ConfidenceClass.PartialEvidence)
      in \<lparr>ex_decision_id = dec_decision_id d, ex_workload_id = dec_workload_id d,
          ex_confidence = \<lparr>conf_cls = cls, conf_numerator = f64_of_u64 (measured_evidence d),
            conf_denominator = f64_of_u64 (total_evidence d),
            conf_derivation = ''measured-evidence/total-evidence over candidate set + constraints''\<rparr>,
          ex_lines = [why_line d, hard_line r] @ soft_lines d r @ evidence_lines d @
            [line_of ''tie_break'' (''tie-break rule: '' @ dec_tie_break_reason d) f64_zero Classification.Derived [''tie_break''],
             line_of ''missing_evidence'' (dec_nat (length missing) @ '' piece(s) of evidence missing'') f64_zero
               Classification.Unknown [''missing_evidence''],
             line_of ''confidence'' (''structured confidence '' @ ConfidenceClass_string cls) f64_zero
               Classification.Derived [''confidence'']],
          ex_next_alternative = (if length (rk_ranked r) \<ge> 2 then rk_ranked r ! 1 else nil_id),
          ex_missing_evidence = missing, ex_determinism = dec_determinism d,
          ex_summary = ''decision '' @ id_str (dec_decision_id d) @ '' selected '' @ id_str (dec_selected_candidate d) @
            (if partial then '' with partial/insufficient evidence'' else '''')\<rparr>)"

section \<open>A quotient of at most one half\<close>

lemma ratio_log2_upper: "0 < p \<Longrightarrow> 2 * p \<le> q \<Longrightarrow> ratio_log2 p q \<le> -1 \<and> p * 2 ^ nat (- ratio_log2 p q - 1) \<le> q"
proof -
  assume p: "0 < p" and pq: "2 * p \<le> q"
  then have q: "0 < q" by simp
  let ?lp = "ilog2 p" and ?lq = "ilog2 q"
  have "2 ^ Suc ?lp \<le> 2 * p" using ilog2_bounds [OF p] by simp
  also have "\<dots> < 2 ^ Suc ?lq" using pq ilog2_bounds [OF q] by simp
  finally have lpq: "?lp < ?lq" using power_less_imp_less_exp [of "2::nat" "Suc ?lp" "Suc ?lq"] by simp
  let ?k = "?lq - ?lp"
  have "p * 2 ^ (?k - 1) \<le> 2 ^ Suc ?lp * 2 ^ (?k - 1)" using ilog2_bounds [OF p] by simp
  also have "\<dots> = 2 ^ ?lq" using lpq by (simp flip: power_add power_Suc)
  also have "\<dots> \<le> q" using ilog2_bounds [OF q] by simp
  finally have low: "p * 2 ^ (?k - 1) \<le> q" .
  have e: "nat (- (int ?lp - int ?lq)) = ?k" "nat (- (int ?lp - int ?lq) - 1) = ?k - 1"
    "nat (- (int ?lp - int ?lq - 1) - 1) = ?k" using lpq by simp_all
  have neg: "\<not> 0 \<le> int ?lp - int ?lq" using lpq by simp
  show ?thesis
  proof (cases "q \<le> p * 2 ^ ?k")
    case True
    then have "ratio_log2 p q = int ?lp - int ?lq"
      by (simp only: ratio_log2_def Let_def scale_ratio_def neg if_False e prod.case if_True)
    then show ?thesis using low e(2) lpq by simp
  next
    case False
    then have "ratio_log2 p q = int ?lp - int ?lq - 1"
      by (simp only: ratio_log2_def Let_def scale_ratio_def neg if_False e prod.case)
    then show ?thesis using False e(3) lpq by simp
  qed
qed

lemma round_half_even_le: "n \<le> k * d \<Longrightarrow> 0 < d \<Longrightarrow> round_half_even n d \<le> k"
proof -
  assume n: "n \<le> k * d" and d: "0 < d"
  then have "n div d \<le> k" by (metis div_le_mono nonzero_mult_div_cancel_right less_not_refl)
  moreover have "n mod d = 0" if "n div d = k"
  proof -
    have "n = k * d + n mod d" using that by (metis div_mult_mod_eq)
    with n show ?thesis by simp
  qed
  ultimately show ?thesis
    using d by (cases "n div d = k") (auto simp: round_half_even_def Let_def)
qed

lemma ratio_half:
  assumes "0 < p" "2 * p \<le> q"
  shows "f64_le (f64_of_ratio False p q) 0x3FE0000000000000"
proof -
  let ?r = "ratio_log2 p q"
  let ?e = "max (?r - 52) (- 1074)"
  have q: "0 < q" using assms by simp
  note u = ratio_log2_upper [OF assms]
  have neg: "\<not> 0 \<le> ?e" using conjunct1 [OF u] by (simp add: max_def)
  have "nat (?e + 1074) * 2 ^ 52 + round_half_even (p * 2 ^ nat (- ?e)) q \<le> 1022 * 2 ^ 52"
  proof (cases "?r = -1")
    case True
    have "p * 2 ^ 53 \<le> 2 ^ 52 * q" using assms(2) by simp
    then have "round_half_even (p * 2 ^ 53) q \<le> 2 ^ 52" using q by (rule round_half_even_le)
    then show ?thesis by (simp add: True)
  next
    case False
    then have r: "?r \<le> -2" using u by simp
    have "nat (- ?e) \<le> nat (- ?r - 1) + 53"
      using r by (cases "?r - 52 \<le> -1074") (auto simp: max_def nat_le_iff)
    then have "p * 2 ^ nat (- ?e) \<le> p * 2 ^ (nat (- ?r - 1) + 53)"
      by (intro mult_le_mono2 power_increasing) auto
    also have "\<dots> = p * 2 ^ nat (- ?r - 1) * 2 ^ 53" by (simp only: power_add mult.assoc)
    also have "\<dots> \<le> q * 2 ^ 53" using u by (intro mult_le_mono1) simp
    finally have "round_half_even (p * 2 ^ nat (- ?e)) q \<le> 2 ^ 53" using q by (intro round_half_even_le) (simp_all add: mult.commute)
    moreover have "nat (?e + 1074) \<le> 1020" using r by simp
    then have "nat (?e + 1074) * 2 ^ 52 \<le> 1020 * 2 ^ 52" by (rule mult_le_mono1)
    ultimately show ?thesis by simp
  qed
  then obtain m where m: "f64_of_ratio False p q = f64_make False m" "m \<le> 1022 * 2 ^ 52"
    using assms(1) neg by (simp add: f64_of_ratio_def Let_def scale_ratio_def min_def)
  then have mag: "f64_mag (f64_of_ratio False p q) = m" "\<not> f64_sign (f64_of_ratio False p q)" by simp_all
  have "m div 2 ^ 52 \<le> 1022" using div_le_mono [OF m(2), of "2 ^ 52"] by simp
  then have "\<not> f64_is_nan (f64_of_ratio False p q)" by (simp add: f64_is_nan_def f64_exp_def mag)
  then show ?thesis using m(2) mag
    by (simp add: f64_le_def f64_key_def f64_is_nan_def f64_exp_def f64_frac_def f64_mag_def f64_sign_def)
qed

lemma ilog2_double:
  assumes "0 < p" "2 * p \<le> q"
  shows "ilog2 p < ilog2 q"
proof -
  have "2 ^ Suc (ilog2 p) \<le> 2 * p" using ilog2_bounds [OF assms(1)] by simp
  also have "\<dots> < 2 ^ Suc (ilog2 q)" using assms ilog2_bounds [of q] by simp
  finally show ?thesis using power_less_imp_less_exp [of "2::nat" "Suc (ilog2 p)" "Suc (ilog2 q)"] by simp
qed

lemma count_fields:
  assumes "0 < unat w" "unat w < 2 ^ 53"
  shows "f64_mant (f64_of_u64 w) = unat w * 2 ^ (52 - ilog2 (unat w))"
    and "f64_scale (f64_of_u64 w) = int (ilog2 (unat w)) - 52" and "\<not> f64_sign (f64_of_u64 w)"
    and "\<not> f64_is_nan (f64_of_u64 w)" and "\<not> f64_is_inf (f64_of_u64 w)"
proof -
  have l: "ilog2 (unat w) < 53" by (rule ilog2_less [OF assms])
  have e: "f64_exp (f64_of_u64 w) = 1023 + ilog2 (unat w)"
    using f64_fields_of_nat(1) [OF assms, of False] by (simp add: f64_of_u64_def)
  show "f64_mant (f64_of_u64 w) = unat w * 2 ^ (52 - ilog2 (unat w))" "\<not> f64_sign (f64_of_u64 w)"
    using f64_fields_of_nat(2,3) [OF assms, of False] by (simp_all add: f64_of_u64_def)
  show "f64_scale (f64_of_u64 w) = int (ilog2 (unat w)) - 52" by (simp add: f64_scale_def e)
  show "\<not> f64_is_nan (f64_of_u64 w)" "\<not> f64_is_inf (f64_of_u64 w)"
    using l by (simp_all add: f64_is_nan_def f64_is_inf_def e)
qed

lemma div_counts_half:
  assumes "2 * unat a \<le> unat b" "unat b < 2 ^ 53" "0 < unat b"
  shows "f64_le (f64_div (f64_of_u64 a) (f64_of_u64 b)) 0x3FE0000000000000"
proof (cases "unat a = 0")
  case True
  then have a: "f64_of_u64 a = 0"
    by (simp add: f64_of_u64_def f64_of_ratio_def f64_make_def)
  have z: "\<not> f64_is_nan 0" "\<not> f64_is_inf 0" "f64_mant 0 = 0" "\<not> f64_sign 0"
    by (simp_all add: f64_is_nan_def f64_is_inf_def f64_mant_def f64_sign_def f64_exp_def f64_frac_def f64_mag_def)
  have "f64_mant (f64_of_u64 b) \<noteq> 0" using count_fields(1) [OF assms(3,2)] assms(3) by simp
  then have "f64_div (f64_of_u64 a) (f64_of_u64 b) = 0"
    using count_fields(3-5) [OF assms(3,2)] by (simp add: f64_div_def a z Let_def f64_of_ratio_def f64_make_def)
  then show ?thesis
    by (simp add: f64_le_def f64_key_def f64_is_nan_def f64_exp_def f64_frac_def f64_mag_def f64_sign_def)
next
  case False
  then have pa: "0 < unat a" by simp
  have ba: "unat a < 2 ^ 53" using assms(1,2) by simp
  let ?lp = "ilog2 (unat a)" and ?lq = "ilog2 (unat b)"
  have l: "?lp < ?lq" "?lq \<le> 52" using ilog2_double [OF pa assms(1)] ilog2_less [OF assms(3,2)] by simp_all
  let ?P = "unat a * 2 ^ (52 - ?lp)" and ?Q = "unat b * 2 ^ (52 - ?lq) * 2 ^ (?lq - ?lp)"
  have "(2::nat) ^ (52 - ?lq) * 2 ^ (?lq - ?lp) = 2 ^ (52 - ?lp)" using l by (simp flip: power_add)
  then have Q: "?Q = unat b * 2 ^ (52 - ?lp)" by (simp only: mult.assoc)
  have le: "2 * ?P \<le> ?Q" unfolding Q using mult_le_mono1 [OF assms(1), of "2 ^ (52 - ?lp)"] by (simp only: mult.assoc)
  have P: "0 < ?P" using pa by simp
  have e: "\<not> 0 \<le> int ?lp - 52 - (int ?lq - 52)" "nat (- (int ?lp - 52 - (int ?lq - 52))) = ?lq - ?lp" using l by simp_all
  have "f64_mant (f64_of_u64 b) \<noteq> 0" using count_fields(1) [OF assms(3,2)] assms(3) by simp
  then have "f64_div (f64_of_u64 a) (f64_of_u64 b) = f64_of_ratio False ?P ?Q"
    using count_fields [OF pa ba] count_fields [OF assms(3,2)] e by (simp add: f64_div_def Let_def)
  then show ?thesis using ratio_half [OF P le] by simp
qed

lemma half_not_high: "f64_le x 0x3FE0000000000000 \<Longrightarrow> \<not> f64_le c06 x \<and> \<not> f64_le c095 x"
proof -
  assume x: "f64_le x 0x3FE0000000000000"
  have "f64_key 0x3FE0000000000000 < f64_key c06" "f64_key 0x3FE0000000000000 < f64_key c095"
    by (simp_all add: f64_key_def f64_mag_def f64_sign_def c06_def c095_def)
  with x show ?thesis by (auto simp: f64_le_def)
qed

section \<open>What it promises\<close>

definition evidence_total :: "PlacementDecision \<Rightarrow> nat" where
  "evidence_total d =
     sum_list (map (\<lambda>c. 1 + length (cand_costs c)) (cset_candidates (dec_candidate_set d))) +
       (length (dec_hard_constraints d) + length (dec_soft_preferences d))"

definition evidence_measured :: "PlacementDecision \<Rightarrow> nat" where
  "evidence_measured d =
     length (filter (\<lambda>c. cand_costs c \<noteq> []) (cset_candidates (dec_candidate_set d))) +
       count_measured (dec_hard_constraints d) + count_measured (dec_soft_preferences d)"

lemma costs_counted_twice:
  "2 * length (filter (\<lambda>c. cand_costs c \<noteq> []) cs) \<le> sum_list (map (\<lambda>c. 1 + length (cand_costs c)) cs)"
proof (induction cs)
  case (Cons c cs)
  then show ?case by (cases "cand_costs c") simp_all
qed simp

lemma count_measured_le: "count_measured cs \<le> length cs"
  by (simp add: count_measured_def)

lemma evidence_counts: "evidence_measured d \<le> evidence_total d"
  using costs_counted_twice [of "cset_candidates (dec_candidate_set d)"]
    count_measured_le [of "dec_hard_constraints d"] count_measured_le [of "dec_soft_preferences d"]
  by (simp add: evidence_measured_def evidence_total_def)

lemma unat_small: "n < 2 ^ 64 \<Longrightarrow> unat (of_nat n :: u64) = n"
  by (simp add: unat_of_nat take_bit_nat_eq_self_iff)

lemma evidence_words:
  "evidence_total d < 2 ^ 64 \<Longrightarrow>
   unat (total_evidence d) = evidence_total d \<and> unat (measured_evidence d) = evidence_measured d"
  using evidence_counts [of d] unat_small [of "evidence_total d"] unat_small [of "evidence_measured d"]
  by (simp add: total_evidence_def measured_evidence_def evidence_total_def evidence_measured_def)

lemma ratio_without_constraints:
  assumes "dec_hard_constraints d = []" "dec_soft_preferences d = []" "evidence_total d < 2 ^ 53"
  shows "f64_le (evidence_ratio d) 0x3FE0000000000000"
proof (cases "total_evidence d > 0")
  case True
  have w: "unat (total_evidence d) = evidence_total d" "unat (measured_evidence d) = evidence_measured d"
    using evidence_words [of d] assms(3) by simp_all
  have "2 * evidence_measured d \<le> evidence_total d"
    using costs_counted_twice [of "cset_candidates (dec_candidate_set d)"] assms(1,2)
    by (simp add: evidence_measured_def evidence_total_def count_measured_def)
  moreover have "0 < unat (total_evidence d)" using True by (simp add: word_less_nat_alt)
  ultimately show ?thesis
    using True div_counts_half [of "measured_evidence d" "total_evidence d"] w assms(3)
    by (simp add: evidence_ratio_def)
next
  case False
  then show ?thesis
    by (simp add: evidence_ratio_def f64_zero_def f64_le_def f64_key_def f64_is_nan_def f64_exp_def f64_frac_def
        f64_mag_def f64_sign_def)
qed

lemma rank_missing_suffix:
  "rank_candidates d = Inr r \<Longrightarrow> \<exists>xs. rk_missing r = xs @ cset_missing_fields (dec_candidate_set d)"
  by (auto simp: rank_candidates_def Let_def split: sum.splits)

section \<open>Properties\<close>

text \<open>The measured evidence never exceeds the total evidence; and because every cost component adds to the
  total while a candidate's costs add one to the measured count, a decision without constraints is
  never classified as completely measured or as strong mixed evidence, however complete its costs are.\<close>

theorem confidence_of_costs_alone:
  assumes "evidence_total d < 2 ^ 53"
  shows "measured_evidence d \<le> total_evidence d \<and>
    (dec_hard_constraints d = [] \<and> dec_soft_preferences d = [] \<longrightarrow>
       conf_cls (ex_confidence (build_explanation d r)) \<notin> {ConfidenceClass.CompleteMeasured, ConfidenceClass.StrongMixedEvidence})"
proof
  show "measured_evidence d \<le> total_evidence d"
    using evidence_words [of d] assms evidence_counts [of d] by (simp add: word_le_nat_alt)
  show "dec_hard_constraints d = [] \<and> dec_soft_preferences d = [] \<longrightarrow>
       conf_cls (ex_confidence (build_explanation d r)) \<notin> {ConfidenceClass.CompleteMeasured, ConfidenceClass.StrongMixedEvidence}"
    using ratio_without_constraints [OF _ _ assms] half_not_high
    by (auto simp: build_explanation_def confidence_class_def Let_def)
qed

definition no_ranking :: RankingResult where
  "no_ranking = \<lparr>rk_ranked = [], rk_rejections = [], rk_totals = [], rk_selected = nil_id, rk_missing = [], rk_note = ''''\<rparr>"

lemma confidence_of_costs_alone_witness:
  "conf_cls (ex_confidence (build_explanation (decision_over three []) no_ranking)) \<noteq> ConfidenceClass.CompleteMeasured"
  using confidence_of_costs_alone [of "decision_over three []" no_ranking]
  by (simp add: evidence_total_def) (simp add: three_def decision_over_def PlacementDecision_default_def)

text \<open>The fields that the candidate set reports as missing are listed twice in an explanation: the ranking
  has already added them to its missing evidence.\<close>

theorem missing_fields_listed_twice:
  assumes "rank_candidates d = Inr r"
  shows "\<exists>xs. ex_missing_evidence (build_explanation d r) =
    xs @ cset_missing_fields (dec_candidate_set d) @ cset_missing_fields (dec_candidate_set d)"
  using rank_missing_suffix [OF assms] by (auto simp: build_explanation_def Let_def)

definition unloaded :: PlacementDecision where
  "unloaded = PlacementDecision_default
     \<lparr>dec_candidate_set := CandidateSet_default\<lparr>cset_candidates := three, cset_missing_fields := [''queue.depth'']\<rparr>\<rparr>"

lemma missing_fields_listed_twice_witness:
  "\<exists>r. rank_candidates unloaded = Inr r \<and>
     count_list (ex_missing_evidence (build_explanation unloaded r)) ''queue.depth'' \<ge> 2"
proof -
  obtain s where "screen_candidates unloaded = Inr s"
    using screen_loop_total [of "[]" three] by (auto simp: screen_candidates_def unloaded_def PlacementDecision_default_def)
  then obtain r where r: "rank_candidates unloaded = Inr r" by (simp add: rank_candidates_def Let_def)
  have "cset_missing_fields (dec_candidate_set unloaded) = [''queue.depth'']" by (simp add: unloaded_def)
  with missing_fields_listed_twice [OF r] r show ?thesis by (auto simp: count_list_append)
qed

end
