(* ===== verification/Comparison.thy ===== *)
theory Comparison
  imports Ranking
begin

text \<open>
  \<open>compare_decisions\<close> of compute.cpp: the list of the fields in which two decisions differ. What it
  promises is stated against \<open>agree\<close>, the equality of the fields it looks at.
\<close>

section \<open>The comparison\<close>

text \<open>The lambda \<open>add\<close>: a delta, and its field among the changed outcome fields when \<open>co\<close> is set.\<close>

definition add_delta :: "string \<Rightarrow> string \<Rightarrow> string \<Rightarrow> bool \<Rightarrow> ComparisonResult \<Rightarrow> ComparisonResult" where
  "add_delta f before after co out =
     out\<lparr>cmp_deltas := cmp_deltas out @
           [\<lparr>delta_field = f, delta_before = before, delta_after = after, delta_changed_outcome = co\<rparr>],
         cmp_changed_outcome_fields :=
           (if co then cmp_changed_outcome_fields out @ [f] else cmp_changed_outcome_fields out)\<rparr>"

text \<open>\<open>if (x != y) add(field, show(x), show(y), true)\<close>.\<close>

definition add_when :: "bool \<Rightarrow> string \<Rightarrow> string \<Rightarrow> string \<Rightarrow> ComparisonResult \<Rightarrow> ComparisonResult" where
  "add_when differs f before after out = (if differs then add_delta f before after True out else out)"

definition candidate_field :: "nat \<Rightarrow> string \<Rightarrow> string" where
  "candidate_field i f = ''candidate['' @ dec_nat i @ '']'' @ f"

text \<open>The body of the loop over the candidates of two sets of the same size, and the loop.\<close>

definition compare_candidate ::
    "nat \<Rightarrow> PlacementCandidate \<Rightarrow> PlacementCandidate \<Rightarrow> ComparisonResult \<Rightarrow> ComparisonResult" where
  "compare_candidate i ca cb out =
     (let o1 = add_when (cand_candidate_id ca \<noteq> cand_candidate_id cb) (candidate_field i ''.id'')
            (id_str (cand_candidate_id ca)) (id_str (cand_candidate_id cb)) out;
          o2 = add_when (mem_free_bytes (cand_memory ca) \<noteq> mem_free_bytes (cand_memory cb))
            (candidate_field i ''.memory.free_bytes'')
            (dec_nat (unat (mem_free_bytes (cand_memory ca)))) (dec_nat (unat (mem_free_bytes (cand_memory cb)))) o1;
          o3 = add_when (mem_total_bytes (cand_memory ca) \<noteq> mem_total_bytes (cand_memory cb))
            (candidate_field i ''.memory.total_bytes'')
            (dec_nat (unat (mem_total_bytes (cand_memory ca)))) (dec_nat (unat (mem_total_bytes (cand_memory cb)))) o2;
          o4 = add_when (queue_depth (cand_queue ca) \<noteq> queue_depth (cand_queue cb))
            (candidate_field i ''.queue.depth'')
            (dec_nat (unat (queue_depth (cand_queue ca)))) (dec_nat (unat (queue_depth (cand_queue cb)))) o3;
          o5 = add_when (cand_architecture ca \<noteq> cand_architecture cb) (candidate_field i ''.architecture'')
            (cand_architecture ca) (cand_architecture cb) o4
      in add_when (\<not> f64_eq (weighted_total ca) (weighted_total cb)) (candidate_field i ''.total_weighted_cost'')
           (f64_text (weighted_total ca)) (f64_text (weighted_total cb)) o5)"

fun compare_candidates ::
    "nat \<Rightarrow> PlacementCandidate list \<Rightarrow> PlacementCandidate list \<Rightarrow> ComparisonResult \<Rightarrow> ComparisonResult" where
  "compare_candidates i (ca # as) (cb # bs) out =
     compare_candidates (i + 1) as bs (compare_candidate i ca cb out)"
| "compare_candidates i _ _ out = out"

definition compare_outcomes :: "PlacementOutcome option \<Rightarrow> PlacementOutcome option \<Rightarrow> ComparisonResult \<Rightarrow> ComparisonResult" where
  "compare_outcomes oa ob out =
     (case (oa, ob) of
        (None, None) \<Rightarrow> out
      | (Some x, Some y) \<Rightarrow>
          add_when (out_start_delay_ns x \<noteq> out_start_delay_ns y) ''outcome.start_delay_ns''
            (dec_int (sint (out_start_delay_ns x))) (dec_int (sint (out_start_delay_ns y)))
            (add_when (out_duration_ns x \<noteq> out_duration_ns y) ''outcome.duration_ns''
              (dec_int (sint (out_duration_ns x))) (dec_int (sint (out_duration_ns y))) out)
      | _ \<Rightarrow>
          add_delta ''outcome_present'' (if oa = None then ''false'' else ''true'')
            (if ob = None then ''false'' else ''true'') True out)"

definition compare_decisions :: "PlacementDecision \<Rightarrow> PlacementDecision \<Rightarrow> ComparisonResult" where
  "compare_decisions a b =
     (let ca = cset_candidates (dec_candidate_set a); cb = cset_candidates (dec_candidate_set b);
          o0 = ComparisonResult_default\<lparr>cmp_a := dec_decision_id a, cmp_b := dec_decision_id b\<rparr>;
          o1 = add_when (dec_policy_generation a \<noteq> dec_policy_generation b) ''policy_generation''
            (dec_nat (unat (dec_policy_generation a))) (dec_nat (unat (dec_policy_generation b))) o0;
          o2 = (if dec_selected_candidate a \<noteq> dec_selected_candidate b
                then (add_delta ''selected_candidate'' (id_str (dec_selected_candidate a))
                        (id_str (dec_selected_candidate b)) True o1)\<lparr>cmp_selected_changed := True\<rparr>
                else o1);
          o3 = (if length ca \<noteq> length cb
                then add_delta ''candidate_count'' (dec_nat (length ca)) (dec_nat (length cb)) True o2
                else compare_candidates 0 ca cb o2);
          o4 = add_when (length (dec_hard_constraints a) \<noteq> length (dec_hard_constraints b)) ''hard_constraint_count''
            (dec_nat (length (dec_hard_constraints a))) (dec_nat (length (dec_hard_constraints b))) o3;
          o5 = add_when (length (dec_cost_components a) \<noteq> length (dec_cost_components b)) ''cost_component_count''
            (dec_nat (length (dec_cost_components a))) (dec_nat (length (dec_cost_components b))) o4;
          o6 = add_when (dec_tie_break a \<noteq> dec_tie_break b) ''tie_break''
            (dec_nat (unat (TieBreakReason_code (dec_tie_break a))))
            (dec_nat (unat (TieBreakReason_code (dec_tie_break b)))) o5
      in compare_outcomes (dec_outcome a) (dec_outcome b) o6)"

section \<open>What it promises\<close>

definition agree_candidate :: "PlacementCandidate \<Rightarrow> PlacementCandidate \<Rightarrow> bool" where
  "agree_candidate x y \<longleftrightarrow>
     cand_candidate_id x = cand_candidate_id y \<and> mem_free_bytes (cand_memory x) = mem_free_bytes (cand_memory y) \<and>
     mem_total_bytes (cand_memory x) = mem_total_bytes (cand_memory y) \<and>
     queue_depth (cand_queue x) = queue_depth (cand_queue y) \<and> cand_architecture x = cand_architecture y \<and>
     f64_eq (weighted_total x) (weighted_total y)"

definition agree_outcome :: "PlacementOutcome \<Rightarrow> PlacementOutcome \<Rightarrow> bool" where
  "agree_outcome x y \<longleftrightarrow> out_duration_ns x = out_duration_ns y \<and> out_start_delay_ns x = out_start_delay_ns y"

definition agree :: "PlacementDecision \<Rightarrow> PlacementDecision \<Rightarrow> bool" where
  "agree a b \<longleftrightarrow>
     dec_policy_generation a = dec_policy_generation b \<and> dec_selected_candidate a = dec_selected_candidate b \<and>
     list_all2 agree_candidate (cset_candidates (dec_candidate_set a)) (cset_candidates (dec_candidate_set b)) \<and>
     length (dec_hard_constraints a) = length (dec_hard_constraints b) \<and>
     length (dec_cost_components a) = length (dec_cost_components b) \<and> dec_tie_break a = dec_tie_break b \<and>
     rel_option agree_outcome (dec_outcome a) (dec_outcome b)"

definition swap_delta :: "ComparisonDelta \<Rightarrow> ComparisonDelta" where
  "swap_delta d = d\<lparr>delta_before := delta_after d, delta_after := delta_before d\<rparr>"

text \<open>Two results are mirror images when their deltas are, and the changed fields follow the deltas.\<close>

definition mirror :: "ComparisonResult \<Rightarrow> ComparisonResult \<Rightarrow> bool" where
  "mirror x y \<longleftrightarrow> cmp_deltas y = map swap_delta (cmp_deltas x) \<and>
     cmp_changed_outcome_fields y = cmp_changed_outcome_fields x \<and> cmp_selected_changed y = cmp_selected_changed x"

definition fields_match :: "ComparisonResult \<Rightarrow> bool" where
  "fields_match x \<longleftrightarrow> cmp_changed_outcome_fields x = map delta_field (cmp_deltas x)"

named_theorems delta_intros "steps of the comparison that keep a relation between results"

lemma mirror_add_delta [delta_intros]:
  "mirror x y \<Longrightarrow> mirror (add_delta f s t co x) (add_delta f t s co y)"
  by (simp add: mirror_def add_delta_def swap_delta_def)

lemma mirror_add_when [delta_intros]:
  "mirror x y \<Longrightarrow> d = d' \<Longrightarrow> mirror (add_when d f s t x) (add_when d' f t s y)"
  by (simp add: add_when_def mirror_add_delta)

lemma fields_match_add_delta [delta_intros]: "fields_match x \<Longrightarrow> fields_match (add_delta f s t True x)"
  by (simp add: fields_match_def add_delta_def)

lemma fields_match_add_when [delta_intros]: "fields_match x \<Longrightarrow> fields_match (add_when d f s t x)"
  by (simp add: add_when_def fields_match_add_delta)

lemma mirror_candidates:
  "mirror x y \<Longrightarrow> mirror (compare_candidates i as bs x) (compare_candidates i bs as y)"
proof (induction i as bs x arbitrary: y rule: compare_candidates.induct)
  case (1 i ca as cb bs out)
  have "mirror (compare_candidate i ca cb out) (compare_candidate i cb ca y)"
    unfolding compare_candidate_def Let_def
    by (intro delta_intros "1.prems") (auto simp: f64_eq_sym)
  with "1.IH" show ?case by simp
qed simp_all

lemma fields_match_candidates: "fields_match x \<Longrightarrow> fields_match (compare_candidates i as bs x)"
proof (induction i as bs x rule: compare_candidates.induct)
  case (1 i ca as cb bs out)
  have "fields_match (compare_candidate i ca cb out)"
    unfolding compare_candidate_def Let_def by (intro delta_intros "1.prems")
  with "1.IH" show ?case by simp
qed simp_all

lemma mirror_outcomes: "mirror x y \<Longrightarrow> mirror (compare_outcomes oa ob x) (compare_outcomes ob oa y)"
  by (cases oa; cases ob) (auto simp: compare_outcomes_def intro!: delta_intros)

lemma fields_match_outcomes: "fields_match x \<Longrightarrow> fields_match (compare_outcomes oa ob x)"
  by (cases oa; cases ob) (auto simp: compare_outcomes_def intro!: delta_intros)

lemma mirror_selected:
  "mirror x y \<Longrightarrow> mirror (x\<lparr>cmp_selected_changed := b\<rparr>) (y\<lparr>cmp_selected_changed := b\<rparr>)"
  by (simp add: mirror_def)

lemma mirror_decisions: "mirror (compare_decisions a b) (compare_decisions b a)"
proof -
  have start: "mirror (ComparisonResult_default\<lparr>cmp_a := i, cmp_b := j\<rparr>) (ComparisonResult_default\<lparr>cmp_a := j, cmp_b := i\<rparr>)"
    for i j by (simp add: mirror_def ComparisonResult_default_def)
  have cond: "mirror (if c then x else x') (if d then y else y')"
    if "c = d" "mirror x y" "mirror x' y'" for c d x y x' y' using that by simp
  show ?thesis
    unfolding compare_decisions_def Let_def
    by (intro mirror_outcomes delta_intros cond mirror_selected mirror_candidates start) auto
qed

lemma fields_match_decisions: "fields_match (compare_decisions a b)"
proof -
  have start: "fields_match (ComparisonResult_default\<lparr>cmp_a := i, cmp_b := j\<rparr>)" for i j
    by (simp add: fields_match_def ComparisonResult_default_def)
  have sel: "fields_match (x\<lparr>cmp_selected_changed := True\<rparr>)" if "fields_match x" for x
    using that by (simp add: fields_match_def)
  have cond: "fields_match (if c then x else x')" if "fields_match x" "fields_match x'" for c x x' using that by simp
  show ?thesis
    unfolding compare_decisions_def Let_def
    by (intro fields_match_outcomes delta_intros cond sel fields_match_candidates start)
qed

text \<open>No step removes a delta, and a step adds none exactly when what it compares agrees.\<close>

lemma empty_add_delta [simp]: "cmp_deltas (add_delta f s t co x) \<noteq> []"
  by (simp add: add_delta_def)

lemma empty_add_when [simp]: "cmp_deltas (add_when d f s t x) = [] \<longleftrightarrow> \<not> d \<and> cmp_deltas x = []"
  by (simp add: add_when_def add_delta_def)

lemma empty_candidates:
  "length as = length bs \<Longrightarrow>
   cmp_deltas (compare_candidates i as bs x) = [] \<longleftrightarrow> list_all2 agree_candidate as bs \<and> cmp_deltas x = []"
  by (induction i as bs x rule: compare_candidates.induct)
     (auto simp: compare_candidate_def Let_def agree_candidate_def)

lemma empty_outcomes:
  "cmp_deltas (compare_outcomes oa ob x) = [] \<longleftrightarrow> rel_option agree_outcome oa ob \<and> cmp_deltas x = []"
  by (cases oa; cases ob) (auto simp: compare_outcomes_def agree_outcome_def)

lemma empty_decisions: "cmp_deltas (compare_decisions a b) = [] \<longleftrightarrow> agree a b"
proof -
  have start: "cmp_deltas (ComparisonResult_default\<lparr>cmp_a := i, cmp_b := j\<rparr>) = []" for i j
    by (simp add: ComparisonResult_default_def)
  show ?thesis
    unfolding compare_decisions_def Let_def agree_def
    by (simp add: empty_outcomes empty_candidates start list_all2_lengthD split: if_splits)
       (auto dest: list_all2_lengthD)
qed

lemma selected_add [simp]:
  "cmp_selected_changed (add_delta f s t co x) = cmp_selected_changed x"
  "cmp_selected_changed (add_when d f s t x) = cmp_selected_changed x"
  by (simp_all add: add_when_def add_delta_def)

lemma selected_candidates [simp]: "cmp_selected_changed (compare_candidates i as bs x) = cmp_selected_changed x"
  by (induction i as bs x rule: compare_candidates.induct) (simp_all add: compare_candidate_def Let_def)

lemma selected_outcomes [simp]: "cmp_selected_changed (compare_outcomes oa ob x) = cmp_selected_changed x"
  by (cases oa; cases ob) (simp_all add: compare_outcomes_def)

lemma selected_decisions:
  "cmp_selected_changed (compare_decisions a b) \<longleftrightarrow> dec_selected_candidate a \<noteq> dec_selected_candidate b"
  by (simp add: compare_decisions_def Let_def ComparisonResult_default_def)

section \<open>Properties\<close>

text \<open>C32. \<open>compare_decisions\<close> reports no delta exactly when the two decisions agree in the fields it compares,
  reports the selection as changed exactly when the selected candidates differ, and names every delta
  among the changed outcome fields. Comparing the other way round gives the same deltas, in the
  same order, with before and after exchanged.\<close>

theorem comparison_is_exact:
  "(cmp_deltas (compare_decisions a b) = [] \<longleftrightarrow> agree a b) \<and>
   (cmp_selected_changed (compare_decisions a b) \<longleftrightarrow> dec_selected_candidate a \<noteq> dec_selected_candidate b) \<and>
   cmp_changed_outcome_fields (compare_decisions a b) = map delta_field (cmp_deltas (compare_decisions a b)) \<and>
   cmp_deltas (compare_decisions b a) = map swap_delta (cmp_deltas (compare_decisions a b))"
  using fields_match_decisions [of a b] mirror_decisions [of a b]
  by (simp add: empty_decisions selected_decisions fields_match_def mirror_def)

text \<open>A decision compared with itself has no delta exactly when no candidate has a NaN total: with finite
  costs whose products overflow, a decision is reported as different from itself.\<close>

theorem self_comparison_nan:
  "cmp_deltas (compare_decisions d d) = [] \<longleftrightarrow>
   list_all (\<lambda>c. \<not> f64_is_nan (weighted_total c)) (cset_candidates (dec_candidate_set d))"
proof -
  have "agree_candidate c c \<longleftrightarrow> \<not> f64_is_nan (weighted_total c)" for c
    by (simp add: agree_candidate_def f64_eq_def)
  moreover have "rel_option agree_outcome x x" for x
    by (cases x) (simp_all add: agree_outcome_def)
  ultimately show ?thesis
    by (simp add: empty_decisions agree_def list_all2_same list_all_iff)
qed

end
