(* ===== verification/Counterfactual.thy ===== *)
theory Counterfactual
  imports Ranking
begin

text \<open>
  \<open>counterfactual\<close> of compute.cpp: a copy of the candidate set is perturbed field by field and ranked
  again. The record of the change names its field as \<open><field>\<close> or \<open><field>:<candidate identity>\<close>.
\<close>

section \<open>The target of a change\<close>

text \<open>\<open>rfind(':')\<close> with the text before and behind the last colon.\<close>

definition split_last_colon :: "string \<Rightarrow> (string \<times> string) option" where
  "split_last_colon s =
     (if CHR '':'' \<in> set s
      then Some (rev (tl (dropWhile (\<lambda>c. c \<noteq> CHR '':'') (rev s))), rev (takeWhile (\<lambda>c. c \<noteq> CHR '':'') (rev s)))
      else None)"

text \<open>The scope of a change, if its tail is all digits (\<open>std::stoull\<close> throws past 64 bits), and its field.\<close>

definition change_target :: "string \<Rightarrow> fault + CandidateId option \<times> string" where
  "change_target field =
     (case split_last_colon field of
        None \<Rightarrow> Inr (None, field)
      | Some (front, tail) \<Rightarrow>
          if tail \<noteq> [] \<and> list_all is_digit tail
          then if digits_value tail < 2 ^ 64 then Inr (Some (Id (of_nat (digits_value tail))), front)
               else Inl (Out_of_range ''stoull argument out of range'')
          else Inr (None, field))"

text \<open>The numeric value of a change: 0 for a value that is not a number.\<close>

definition change_value :: "Value \<Rightarrow> f64" where
  "change_value v =
     (case v of VDouble d \<Rightarrow> d | VInt i \<Rightarrow> f64_of_i64 i | VUInt u \<Rightarrow> f64_of_u64 u | _ \<Rightarrow> f64_zero)"

text \<open>\<open>static_cast<std::uint64_t>(std::max(0.0, x))\<close> and \<open>static_cast<int>(x)\<close>, undefined out of range.\<close>

definition cast_u64 :: "f64 \<Rightarrow> fault + u64" where
  "cast_u64 x = (case f64_to_u64 (f64_max f64_zero x) of Some w \<Rightarrow> Inr w | None \<Rightarrow> Inl (Undefined ''double to uint64''))"

definition cast_int :: "f64 \<Rightarrow> fault + int" where
  "cast_int x = (case f64_to_i32 x of Some i \<Rightarrow> Inr i | None \<Rightarrow> Inl (Undefined ''double to int''))"

section \<open>Applying a change\<close>

text \<open>\<open>cand.memory.free_bytes = free\<close> with the used bytes that follow from it.\<close>

definition set_free :: "u64 \<Rightarrow> PlacementCandidate \<Rightarrow> PlacementCandidate" where
  "set_free free c =
     (let m = cand_memory c; total = mem_total_bytes m in
      c\<lparr>cand_memory := m\<lparr>mem_free_bytes := free, mem_used_bytes := (if total > free then total - free else 0)\<rparr>\<rparr>)"

definition set_depth :: "int \<Rightarrow> PlacementCandidate \<Rightarrow> PlacementCandidate" where
  "set_depth n c = c\<lparr>cand_queue := (cand_queue c)\<lparr>queue_depth := word_of_int (max 0 n)\<rparr>\<rparr>"

text \<open>One change on one candidate that it is meant for.\<close>

definition perturb :: "string \<Rightarrow> bool \<Rightarrow> f64 \<Rightarrow> PlacementCandidate \<Rightarrow> fault + PlacementCandidate" where
  "perturb target relative dv c =
     (if target = ''memory.free_bytes'' then
        (case cast_u64 (if relative then f64_add (f64_of_u64 (mem_free_bytes (cand_memory c))) dv else dv) of
           Inl e \<Rightarrow> Inl e | Inr w \<Rightarrow> Inr (set_free w c))
      else if target = ''queue.depth'' then
        (case cast_int dv of
           Inl e \<Rightarrow> Inl e
         | Inr n \<Rightarrow>
             if relative then
               (let sum = sint (queue_depth (cand_queue c)) + n in
                if - (2 ^ 31) \<le> sum \<and> sum < 2 ^ 31 then Inr (set_depth sum c)
                else Inl (Undefined ''int overflow''))
             else Inr (set_depth n c))
      else if target = ''memory.total_bytes'' then
        (case cast_u64 dv of
           Inl e \<Rightarrow> Inl e
         | Inr w \<Rightarrow> Inr (c\<lparr>cand_memory := (cand_memory c)\<lparr>mem_total_bytes := w\<rparr>\<rparr>))
      else if target = ''transfer_cost'' then
        Inr (c\<lparr>cand_costs := map (\<lambda>x. if cost_kind x = CostComponentKind.TransferCost then x\<lparr>cost_cost := dv\<rparr> else x)
                 (cand_costs c)\<rparr>)
      else Inr c)"

lemma perturb_depth:
  "perturb ''queue.depth'' False dv c = (case cast_int dv of Inl e \<Rightarrow> Inl e | Inr n \<Rightarrow> Inr (set_depth n c))"
  by (simp add: perturb_def split: sum.split)

definition apply_change :: "CounterfactualChange \<Rightarrow> PlacementCandidate \<Rightarrow> fault + PlacementCandidate" where
  "apply_change ch c =
     (case change_target (ch_field ch) of
        Inl e \<Rightarrow> Inl e
      | Inr (scope, target) \<Rightarrow>
          (case scope of
             Some i \<Rightarrow>
               if cand_candidate_id c \<noteq> i then Inr c
               else perturb target (ch_relative ch) (change_value (ch_new_value ch)) c
           | None \<Rightarrow> perturb target (ch_relative ch) (change_value (ch_new_value ch)) c))"

fun apply_changes :: "CounterfactualChange list \<Rightarrow> PlacementCandidate \<Rightarrow> fault + PlacementCandidate" where
  "apply_changes [] c = Inr c"
| "apply_changes (ch # chs) c =
     (case apply_change ch c of Inl e \<Rightarrow> Inl e | Inr c' \<Rightarrow> apply_changes chs c')"

fun perturb_all :: "CounterfactualChange list \<Rightarrow> PlacementCandidate list \<Rightarrow> fault + PlacementCandidate list" where
  "perturb_all chs [] = Inr []"
| "perturb_all chs (c # cs) =
     (case apply_changes chs c of
        Inl e \<Rightarrow> Inl e
      | Inr c' \<Rightarrow> (case perturb_all chs cs of Inl e \<Rightarrow> Inl e | Inr cs' \<Rightarrow> Inr (c' # cs')))"

definition with_candidates :: "PlacementCandidate list \<Rightarrow> PlacementDecision \<Rightarrow> PlacementDecision" where
  "with_candidates cs d = d\<lparr>dec_candidate_set := (dec_candidate_set d)\<lparr>cset_candidates := cs\<rparr>\<rparr>"

definition counterfactual :: "PlacementDecision \<Rightarrow> CounterfactualChange list \<Rightarrow> fault + CounterfactualResult" where
  "counterfactual base changes =
     (case perturb_all changes (cset_candidates (dec_candidate_set base)) of
        Inl e \<Rightarrow> Inl e
      | Inr cs \<Rightarrow>
          (case rank_candidates (with_candidates cs base) of
             Inl e \<Rightarrow> Inl e
           | Inr r \<Rightarrow>
               Inr \<lparr>cf_decision_id = dec_decision_id base, cf_changed_inputs = changes,
                    cf_resulting_ranking = rk_ranked r, cf_resulting_decision = rk_selected r,
                    cf_decision_changed = (rk_selected r \<noteq> dec_selected_candidate base),
                    cf_classification = Classification.Derived, cf_note = ''counterfactual derived ranking''\<rparr>))"

section \<open>What changes and what does not\<close>

lemma perturb_id: "perturb t rel dv c = Inr c' \<Longrightarrow> cand_candidate_id c' = cand_candidate_id c"
  by (auto simp: perturb_def set_free_def set_depth_def Let_def split: sum.splits if_splits)

lemma apply_change_id: "apply_change ch c = Inr c' \<Longrightarrow> cand_candidate_id c' = cand_candidate_id c"
  by (auto simp: apply_change_def split: sum.splits option.splits if_splits dest: perturb_id)

lemma apply_changes_id: "apply_changes chs c = Inr c' \<Longrightarrow> cand_candidate_id c' = cand_candidate_id c"
  by (induction chs c rule: apply_changes.induct) (auto split: sum.splits dest: apply_change_id)

lemma perturb_all_ids: "perturb_all chs cs = Inr cs' \<Longrightarrow> map cand_candidate_id cs' = map cand_candidate_id cs"
  by (induction chs cs arbitrary: cs' rule: perturb_all.induct)
     (auto split: sum.splits dest: apply_changes_id)

text \<open>A change that is scoped to another candidate leaves a candidate alone.\<close>

definition foreign :: "CandidateId set \<Rightarrow> CounterfactualChange \<Rightarrow> bool" where
  "foreign ids ch \<longleftrightarrow> (\<exists>i t. change_target (ch_field ch) = Inr (Some i, t) \<and> i \<notin> ids)"

lemma apply_foreign:
  "\<forall>ch \<in> set chs. foreign ids ch \<Longrightarrow> cand_candidate_id c \<in> ids \<Longrightarrow> apply_changes chs c = Inr c"
  by (induction chs c rule: apply_changes.induct) (auto simp: apply_change_def foreign_def)

lemma perturb_all_foreign:
  "\<forall>ch \<in> set chs. foreign ids ch \<Longrightarrow> cand_candidate_id ` set cs \<subseteq> ids \<Longrightarrow> perturb_all chs cs = Inr cs"
  by (induction chs cs rule: perturb_all.induct) (auto simp: apply_foreign)

lemma with_candidates_same: "with_candidates (cset_candidates (dec_candidate_set d)) d = d"
  by (simp add: with_candidates_def)

lemma with_candidates_simps [simp]:
  "cset_candidates (dec_candidate_set (with_candidates cs d)) = cs"
  "dec_hard_constraints (with_candidates cs d) = dec_hard_constraints d"
  by (simp_all add: with_candidates_def)

text \<open>A bare field is applied to every candidate.\<close>

lemma perturb_all_bare:
  "change_target (ch_field ch) = Inr (None, t) \<Longrightarrow>
   (\<And>c. c \<in> set cs \<Longrightarrow> perturb t (ch_relative ch) (change_value (ch_new_value ch)) c = Inr (f c)) \<Longrightarrow>
   perturb_all [ch] cs = Inr (map f cs)"
  by (induction cs) (auto simp: apply_change_def)

lemma f64_zero_simps: "\<not> f64_is_nan f64_zero" "f64_key f64_zero = 0"
  by (simp_all add: f64_zero_def f64_is_nan_def f64_key_def f64_exp_def f64_frac_def f64_mag_def f64_sign_def)

lemma f64_of_u64_fields:
  assumes "0 < unat n" "unat n < 2 ^ 53"
  shows "\<not> f64_is_nan (f64_of_u64 n) \<and> 0 < f64_key (f64_of_u64 n) \<and> f64_finite (f64_of_u64 n)"
proof -
  have "f64_exp (f64_of_u64 n) = 1023 + ilog2 (unat n)" "\<not> f64_sign (f64_of_u64 n)"
    using f64_fields_of_nat [OF assms, of False] by (simp_all add: f64_of_u64_def)
  moreover have "ilog2 (unat n) < 53" by (rule ilog2_less [OF assms])
  moreover have "f64_mag (f64_of_u64 n) \<noteq> 0" using calculation(1) by (auto simp: f64_exp_def)
  ultimately show ?thesis by (simp add: f64_is_nan_def f64_key_def f64_finite_def)
qed

lemma f64_of_u64_zero: "f64_of_u64 0 = f64_zero"
  by (simp add: f64_of_u64_def f64_of_ratio_def f64_make_def f64_zero_def)

lemma f64_max_of_u64: "unat n < 2 ^ 53 \<Longrightarrow> f64_max f64_zero (f64_of_u64 n) = f64_of_u64 n"
  using f64_of_u64_fields [of n]
  by (cases "unat n = 0") (auto simp: unat_eq_0 f64_of_u64_zero f64_max_def f64_lt_def f64_zero_simps)

lemma cast_u64_of_u64: "unat n < 2 ^ 53 \<Longrightarrow> cast_u64 (f64_of_u64 n) = Inr n"
  by (simp add: cast_u64_def f64_max_of_u64 f64_to_u64_of_u64)

lemma uint_lessI: "unat n < k \<Longrightarrow> uint n < int k"
  by (simp only: uint_nat of_nat_less_iff)

lemma cast_int_of_u64:
  assumes "unat n < 2 ^ 31"
  shows "cast_int (f64_of_u64 n) = Inr (uint n)"
proof -
  have n: "unat n < 2 ^ 53" using assms by simp
  have "f64_finite (f64_of_u64 n)"
    using f64_of_u64_fields [OF _ n] by (cases "unat n = 0") (auto simp: unat_eq_0 f64_of_u64_zero f64_zero_def f64_finite_def f64_exp_def f64_mag_def)
  moreover have "f64_trunc (f64_of_u64 n) = uint n"
    using f64_trunc_of_nat [OF n] by (simp add: f64_of_u64_def)
  moreover have "uint n < 2 ^ 31" using uint_lessI [of n "2 ^ 31"] assms by simp
  moreover have "- (2 ^ 31) \<le> uint n" by (rule order_trans [OF _ uint_ge_0]) simp
  ultimately show ?thesis by (simp add: cast_int_def f64_to_i32_def)
qed

section \<open>Properties\<close>

text \<open>Changes that are scoped to identities outside the candidate set (in particular no change at all) leave
  the ranking, the selection and its comparison with the recorded one as they are.\<close>

theorem foreign_changes_keep_ranking:
  assumes "rank_candidates base = Inr r"
    and "\<forall>ch \<in> set changes. foreign (cand_candidate_id ` set (cset_candidates (dec_candidate_set base))) ch"
  shows "\<exists>cf. counterfactual base changes = Inr cf \<and> cf_resulting_ranking cf = rk_ranked r \<and>
    cf_resulting_decision cf = rk_selected r \<and>
    (cf_decision_changed cf \<longleftrightarrow> rk_selected r \<noteq> dec_selected_candidate base)"
  using perturb_all_foreign [OF assms(2) order_refl] assms(1)
  by (simp add: counterfactual_def with_candidates_same)

text \<open>C33. A counterfactual never invents a candidate: whatever the changes, the resulting ranking and decision
  are identities of the recorded candidates (or none), and the result is labelled derived.\<close>

theorem counterfactual_never_invents:
  assumes "counterfactual base changes = Inr cf"
  shows "set (cf_resulting_ranking cf) \<subseteq> cand_candidate_id ` set (cset_candidates (dec_candidate_set base)) \<and>
    length (cf_resulting_ranking cf) \<le> length (cset_candidates (dec_candidate_set base)) \<and>
    cf_resulting_decision cf = (case cf_resulting_ranking cf of [] \<Rightarrow> nil_id | i # _ \<Rightarrow> i) \<and>
    cf_classification cf = Classification.Derived \<and> cf_changed_inputs cf = changes"
proof -
  from assms obtain cs r where p: "perturb_all changes (cset_candidates (dec_candidate_set base)) = Inr cs"
    and r: "rank_candidates (with_candidates cs base) = Inr r"
    and cf: "cf_resulting_ranking cf = rk_ranked r" "cf_resulting_decision cf = rk_selected r"
      "cf_classification cf = Classification.Derived" "cf_changed_inputs cf = changes"
    by (auto simp: counterfactual_def split: sum.splits)
  have ids: "map cand_candidate_id cs = map cand_candidate_id (cset_candidates (dec_candidate_set base))"
    by (rule perturb_all_ids [OF p])
  then have "cand_candidate_id ` set cs = cand_candidate_id ` set (cset_candidates (dec_candidate_set base))"
    "length cs = length (cset_candidates (dec_candidate_set base))"
    by (metis set_map, metis length_map)
  moreover have "set (rk_ranked r) \<subseteq> cand_candidate_id ` set cs" "length (rk_ranked r) \<le> length cs"
    using rank_candidates_Inr(1) [OF r] by (auto simp: survivors_of_def length_filter_le)
  ultimately show ?thesis using cf rank_candidates_Inr(4) [OF r] by simp
qed

text \<open>Setting the free memory of one candidate to an amount below \<open>2 ^ 53\<close> sets exactly that candidate's
  free bytes to exactly that amount, with the used bytes as the rest of the total, and leaves every
  other candidate alone.\<close>

theorem free_memory_change_is_exact:
  assumes "change_target (ch_field ch) = Inr (Some i, ''memory.free_bytes'')" "\<not> ch_relative ch"
    and "ch_new_value ch = VUInt n" "unat n < 2 ^ 53"
  shows "perturb_all [ch] cs = Inr (map (\<lambda>c. if cand_candidate_id c = i then set_free n c else c) cs) \<and>
    (n \<le> mem_total_bytes (cand_memory c) \<longrightarrow>
       mem_used_bytes (cand_memory (set_free n c)) + mem_free_bytes (cand_memory (set_free n c)) =
         mem_total_bytes (cand_memory (set_free n c)))"
proof
  show "perturb_all [ch] cs = Inr (map (\<lambda>c. if cand_candidate_id c = i then set_free n c else c) cs)"
    using assms by (induction cs) (simp_all add: apply_change_def perturb_def change_value_def cast_u64_of_u64)
qed (simp add: set_free_def Let_def)

text \<open>A bare field name, without the identity of a candidate, changes every candidate of the set.\<close>

theorem bare_change_hits_every_candidate:
  assumes "change_target (ch_field ch) = Inr (None, ''queue.depth'')" "\<not> ch_relative ch"
    and "ch_new_value ch = VUInt n" "unat n < 2 ^ 31"
  shows "perturb_all [ch] cs = Inr (map (set_depth (uint n)) cs)"
  proof (rule perturb_all_bare [OF assms(1)])
  fix c
  show "perturb ''queue.depth'' (ch_relative ch) (change_value (ch_new_value ch)) c = Inr (set_depth (uint n) c)"
    using assms(2-4) by (simp only: perturb_depth change_value_def cast_int_of_u64 Value.case sum.case)
qed

section \<open>Witnesses\<close>

definition change_of :: "string \<Rightarrow> Value \<Rightarrow> bool \<Rightarrow> CounterfactualChange" where
  "change_of f v rel = \<lparr>ch_field = f, ch_new_value = v, ch_relative = rel\<rparr>"

lemma change_targets:
  "change_target ''memory.free_bytes:9'' = Inr (Some (Id 9), ''memory.free_bytes'')"
  "change_target ''queue.depth'' = Inr (None, ''queue.depth'')"
  by (simp_all add: change_target_def split_last_colon_def is_digit_def digits_value_def digit_val_def)

lemma change_of_simps [simp]:
  "ch_field (change_of f v rel) = f" "ch_new_value (change_of f v rel) = v" "ch_relative (change_of f v rel) = rel"
  by (simp_all add: change_of_def)

lemma foreign_changes_keep_ranking_witness:
  "\<exists>cf. counterfactual (decision_over three [depth_cap (VUInt 4)]) [change_of ''memory.free_bytes:9'' (VUInt 1) False] = Inr cf \<and>
     length (cf_resulting_ranking cf) = 3"
proof -
  obtain r where r: "rank_candidates (decision_over three [depth_cap (VUInt 4)]) = Inr r"
    using three_ranked by blast
  have f: "foreign (cand_candidate_id ` set (cset_candidates (dec_candidate_set (decision_over three [depth_cap (VUInt 4)]))))
    (change_of ''memory.free_bytes:9'' (VUInt 1) False)"
    by (simp add: foreign_def change_targets) (simp add: three_def)
  have "length (rk_ranked r) = 3"
    using rank_candidates_Inr(1) [OF r] by (simp add: three_survive) (simp add: three_def)
  with foreign_changes_keep_ranking [OF r, of "[change_of ''memory.free_bytes:9'' (VUInt 1) False]"] f show ?thesis by auto
qed

lemma counterfactual_never_invents_witness:
  "\<exists>cf. counterfactual (decision_over three [depth_cap (VUInt 4)]) [] = Inr cf \<and>
     set (cf_resulting_ranking cf) \<subseteq> {Id 2, Id 3, Id 5}"
proof -
  obtain r where r: "rank_candidates (decision_over three [depth_cap (VUInt 4)]) = Inr r"
    using three_ranked by blast
  then obtain cf where cf: "counterfactual (decision_over three [depth_cap (VUInt 4)]) [] = Inr cf"
    using perturb_all_foreign [of "[]" "cand_candidate_id ` set three" three]
    by (auto simp: counterfactual_def with_candidates_same [of "decision_over three [depth_cap (VUInt 4)]", simplified])
  from counterfactual_never_invents [OF cf] cf show ?thesis by (auto simp: three_def)
qed

lemma free_memory_change_is_exact_witness:
  "perturb_all [change_of ''memory.free_bytes:9'' (VUInt 100) False] [cand_of 9 [], cand_of 5 []] =
     Inr [set_free 100 (cand_of 9 []), cand_of 5 []]"
  using free_memory_change_is_exact [of "change_of ''memory.free_bytes:9'' (VUInt 100) False" "Id 9" 100 "[cand_of 9 [], cand_of 5 []]"]
  by (simp add: change_targets)

lemma bare_change_hits_every_candidate_witness:
  "perturb_all [change_of ''queue.depth'' (VUInt 8) False] three = Inr (map (set_depth 8) three)"
  using bare_change_hits_every_candidate [of "change_of ''queue.depth'' (VUInt 8) False" 8 three]
  by (simp add: change_targets)

end
