(* ===== verification/Analytics.thy ===== *)
theory Analytics
  imports Replay Explanation Comparison Counterfactual Obs_Properties
begin

text \<open>
  The analytics section of src/observatory.cpp: explanation, counterfactual, comparison and replay of stored
  decisions by identity, and the list of sources. Each takes the shared lock and reads one state.
\<close>

section \<open>Operations\<close>

text \<open>The stored decision that \<open>dec_by_id.find(id)\<close> leads to; the outcome table is not consulted.\<close>

definition stored_decision :: "PlacementDecisionId \<Rightarrow> Impl \<Rightarrow> PlacementDecision option" where
  "stored_decision k I = map_option (\<lambda>i. im_dec I ! i) (map_of (im_dec_by_id I) k)"

definition obs_explain :: "PlacementDecisionId \<Rightarrow> Impl \<Rightarrow> fault + PlacementExplanation" where
  "obs_explain k I =
     (case stored_decision k I of
        None \<Rightarrow> Inr (PlacementExplanation_default\<lparr>ex_decision_id := k\<rparr>)
      | Some d \<Rightarrow> (case rank_candidates d of Inl e \<Rightarrow> Inl e | Inr r \<Rightarrow> Inr (build_explanation d r)))"

definition obs_counterfactual ::
    "PlacementDecisionId \<Rightarrow> CounterfactualChange list \<Rightarrow> Impl \<Rightarrow> fault + CounterfactualResult list" where
  "obs_counterfactual k changes I =
     (case stored_decision k I of
        None \<Rightarrow> Inr []
      | Some d \<Rightarrow> (case counterfactual d changes of Inl e \<Rightarrow> Inl e | Inr c \<Rightarrow> Inr [c]))"

definition obs_compare :: "PlacementDecisionId \<Rightarrow> PlacementDecisionId \<Rightarrow> Impl \<Rightarrow> ComparisonResult" where
  "obs_compare a b I =
     (case (stored_decision a I, stored_decision b I) of
        (Some x, Some y) \<Rightarrow> compare_decisions x y
      | _ \<Rightarrow> ComparisonResult_default\<lparr>cmp_a := a, cmp_b := b\<rparr>)"

definition obs_replay :: "PlacementDecisionId \<Rightarrow> Impl \<Rightarrow> fault + ReplayResult" where
  "obs_replay k I =
     (case stored_decision k I of
        None \<Rightarrow> Inr (ReplayResult_default\<lparr>rep_decision_id := k, rep_reproduced := False,
                   rep_missing_required_evidence := [''unknown decision'']\<rparr>)
      | Some d \<Rightarrow> replay_decision d)"

text \<open>\<open>sources()\<close>: the descriptors in the iteration order of the unordered map.\<close>

definition sources :: "(Impl \<Rightarrow> (SourceId \<times> SourceDescriptor) list) \<Rightarrow> Impl \<Rightarrow> SourceDescriptor list" where
  "sources order I = map snd (order I)"

section \<open>What is analysed\<close>

lemma stored_after_ingest:
  assumes "consistent I" "ing_accepted (fst (ingest_decision d I))"
  shows "stored_decision (dec_decision_id d) (snd (ingest_decision d I)) = Some d"
proof -
  have smap: "smap_ok (im_dec_by_id I)" using assms(1) by (simp add: consistent_def dec_indexed_def unique_exact_def)
  have "snd (ingest_decision d I) = snd (accept (store_dec d I))"
    using assms(2) by (cases rule: ingest_decision_cases [of d I]) (auto simp: reject_def)
  then show ?thesis
    by (simp add: stored_decision_def accept_def Let_def smap_lookup_put [OF smap])
qed

text \<open>A decision that is accepted can be analysed at once, and what is analysed is the decision that was sent:
  replay, explanation and counterfactual by its identity are those of the decision itself.
\<close>

theorem analysis_of_ingested_decision:
  assumes "live c I" "ing_accepted (fst (ingest_decision d I))"
  shows "obs_replay (dec_decision_id d) (snd (ingest_decision d I)) = replay_decision d \<and>
    obs_explain (dec_decision_id d) (snd (ingest_decision d I)) = map_sum id (build_explanation d) (rank_candidates d) \<and>
    obs_counterfactual (dec_decision_id d) changes (snd (ingest_decision d I)) =
      map_sum id (\<lambda>x. [x]) (counterfactual d changes)"
  using stored_after_ingest [OF live_consistent [OF assms(1)] assms(2)]
  by (simp add: obs_replay_def obs_explain_def obs_counterfactual_def split: sum.split)

theorem analysis_of_ingested_decision_witness:
  "obs_replay (Id 4) (snd (ingest_decision (sample_dec 4) fresh)) = replay_decision (sample_dec 4)"
proof -
  have "ing_accepted (fst (ingest_decision (sample_dec 4) fresh))"
    using sample_dec_admissible [of 4]
    by (cases rule: ingest_decision_cases [of "sample_dec 4" fresh]) (simp_all add: accept_def Let_def)
  from analysis_of_ingested_decision [OF live_init this] show ?thesis by (simp add: sample_dec_def)
qed

lemma stored_after_outcome: "stored_decision j (snd (ingest_outcome x I)) = stored_decision j I"
  by (cases rule: ingest_outcome_cases [of x I]) (simp_all add: reject_def accept_def Let_def stored_decision_def)

text \<open>Outcomes are invisible to analytics: once an outcome is accepted, \<open>get_decision\<close> returns the decision with
  that outcome, yet every explanation, comparison and replay is what it was before. The outcome fields that
  \<open>compare_decisions\<close> looks at are those sent with the decision itself.
\<close>

theorem outcome_invisible_to_analytics:
  assumes "live c I" "ing_accepted (fst (ingest_outcome x I))"
  shows "map_option dec_outcome (get_decision (out_decision_id x) (snd (ingest_outcome x I))) = Some (Some x) \<and>
    obs_explain k (snd (ingest_outcome x I)) = obs_explain k I \<and>
    obs_compare k l (snd (ingest_outcome x I)) = obs_compare k l I \<and>
    obs_replay k (snd (ingest_outcome x I)) = obs_replay k I"
proof -
  have "smap_ok (im_outcomes I)" using live_consistent [OF assms(1)] by (simp add: consistent_def outcomes_ok_def)
  moreover have "ingest_outcome x I = accept (I\<lparr>im_outcomes := smap_put (out_decision_id x) x (im_outcomes I)\<rparr>)"
    "outcome_admissible x I"
    using assms(2) by (cases rule: ingest_outcome_cases [of x I]; simp add: reject_def)+
  ultimately have "map_option dec_outcome (get_decision (out_decision_id x) (snd (ingest_outcome x I))) = Some (Some x)"
    by (auto simp: get_decision_def accept_def Let_def smap_lookup_put outcome_admissible_def)
  then show ?thesis
    by (simp add: obs_explain_def obs_compare_def obs_replay_def stored_after_outcome split: option.split)
qed

theorem outcome_invisible_to_analytics_witness:
  "let I = snd (ingest_decision (sample_dec 4) fresh); J = snd (ingest_outcome (sample_out 4) I) in
     map_option dec_outcome (get_decision (Id 4) J) = Some (Some (sample_out 4)) \<and> obs_replay (Id 4) J = obs_replay (Id 4) I"
proof -
  let ?I = "snd (ingest_decision (sample_dec 4) fresh)"
  have acc: "ing_accepted (fst (ingest_decision (sample_dec 4) fresh))"
    using sample_dec_admissible [of 4]
    by (cases rule: ingest_decision_cases [of "sample_dec 4" fresh]) (simp_all add: accept_def Let_def)
  have l: "live ObservatoryConfig_default ?I"
    by (rule live_next [OF live_init step_decision]) (rule prod.collapse [symmetric])
  have eq: "?I = snd (accept (store_dec (sample_dec 4) fresh))"
    using acc by (cases rule: ingest_decision_cases [of "sample_dec 4" fresh]) (auto simp: reject_def)
  have "outcome_admissible (sample_out 4) ?I"
    unfolding eq by (simp add: outcome_admissible_def accept_def Let_def sample_simps)
  then have "ing_accepted (fst (ingest_outcome (sample_out 4) ?I))"
    by (cases rule: ingest_outcome_cases [of "sample_out 4" ?I]) (simp_all add: accept_def Let_def)
  from outcome_invisible_to_analytics [OF l this] show ?thesis
    by (simp add: sample_out_def)
qed

end
