(* ===== verification/Providers.thy ===== *)
theory Providers
  imports Obs_Properties Explanation Json_Number
begin

text \<open>
  src/providers.cpp: the host and the synthetic provider. What the operating system answers is an argument: the
  readings of \<open>Clock::now\<close>, of \<open>GlobalMemoryStatusEx\<close> and of \<open>GetSystemTimes\<close>.
\<close>

section \<open>Shared helpers\<close>

record ProviderContext =
  ctx_source_id :: SourceId
  ctx_source_generation :: u64
  ctx_source_type :: SourceType
  ctx_worker_boot :: u64
  ctx_coordinator_epoch :: u64
  ctx_workload_id :: WorkloadId
  ctx_request_id :: RequestId
  ctx_node_id :: NodeId
  ctx_device_id :: DeviceId
  ctx_epoch :: u64
  ctx_classification :: Classification

definition ProviderContext_default :: ProviderContext where
  "ProviderContext_default =
     \<lparr>ctx_source_id = nil_id, ctx_source_generation = 1, ctx_source_type = SourceType.Provider, ctx_worker_boot = 0,
      ctx_coordinator_epoch = 0, ctx_workload_id = nil_id, ctx_request_id = nil_id, ctx_node_id = nil_id,
      ctx_device_id = nil_id, ctx_epoch = 1, ctx_classification = Classification.Measured\<rparr>"

definition make_prov :: "ProviderContext \<Rightarrow> Timestamp \<Rightarrow> Provenance" where
  "make_prov ctx now = Provenance_default
     \<lparr>prov_source_id := ctx_source_id ctx, prov_source_generation := ctx_source_generation ctx,
      prov_source_type := ctx_source_type ctx, prov_method := CollectionMethod.Query,
      prov_reliability := ReliabilityClass.Current, prov_classification := ctx_classification ctx,
      prov_timestamp := now, prov_worker_boot := ctx_worker_boot ctx,
      prov_coordinator_epoch := ctx_coordinator_epoch ctx\<rparr>"

definition base_obs :: "ProviderContext \<Rightarrow> PlacementObservationId \<Rightarrow> Timestamp \<Rightarrow> PlacementObservation" where
  "base_obs ctx k now = PlacementObservation_default
     \<lparr>obs_observation_id := k, obs_observation_generation := 1, obs_source_id := ctx_source_id ctx,
      obs_source_generation := ctx_source_generation ctx, obs_timestamp := now,
      obs_worker_boot := ctx_worker_boot ctx, obs_coordinator_epoch := ctx_coordinator_epoch ctx,
      obs_workload_id := ctx_workload_id ctx, obs_request_id := ctx_request_id ctx,
      obs_node_id := ctx_node_id ctx, obs_device_id := ctx_device_id ctx,
      obs_epoch := ctx_epoch ctx, obs_lifecycle := LifecycleState.Collected,
      obs_synthetic := (ctx_source_type ctx = SourceType.Synthetic), obs_reliability := ReliabilityClass.Current\<rparr>"

definition meas :: "string \<Rightarrow> Value \<Rightarrow> Classification \<Rightarrow> Provenance \<Rightarrow> Measurement" where
  "meas field v cls p =
     \<lparr>meas_normalized_field = field, meas_raw_field = field, meas_value = v, meas_classification = cls,
      meas_provenance = p\<rparr>"

definition set_field ::
    "string \<Rightarrow> Value \<Rightarrow> Classification \<Rightarrow> Provenance \<Rightarrow> PlacementObservation \<Rightarrow> PlacementObservation" where
  "set_field field v c p ob = ob\<lparr>obs_fields := obs_fields ob @ [meas field v c p]\<rparr>"

section \<open>\<open>WindowsHostProvider\<close>\<close>

text \<open>A \<open>FILETIME\<close> is its high and low half; one answer of \<open>GetSystemTimes\<close> is idle, kernel and user time.\<close>

type_synonym filetime = "u32 \<times> u32"

record Host =
  host_memory :: "(u64 \<times> u64) option"
  host_threads :: u32
  host_times0 :: "(filetime \<times> filetime \<times> filetime) option"
  host_times1 :: "(filetime \<times> filetime \<times> filetime) option"

definition to64 :: "filetime \<Rightarrow> u64" where
  "to64 f = push_bit 32 (ucast (fst f)) OR ucast (snd f)"

text \<open>The quotient of the lambda \<open>sample\<close>, from the increments of the three times.\<close>

definition utilization :: "u64 \<Rightarrow> u64 \<Rightarrow> u64 \<Rightarrow> f64" where
  "utilization idle_d kern_d user_d =
     (let total_d = idle_d + kern_d + user_d in
      if total_d = 0 then f64_zero
      else f64_sub (f64_of_u64 1) (f64_div (f64_of_u64 idle_d) (f64_of_u64 total_d)))"

definition cpu_sample :: "Host \<Rightarrow> f64" where
  "cpu_sample h =
     (case host_times0 h of
        None \<Rightarrow> f64_zero
      | Some (i0, k0, u0) \<Rightarrow>
          (case host_times1 h of
             None \<Rightarrow> f64_zero
           | Some (i1, k1, u1) \<Rightarrow> utilization (to64 i1 - to64 i0) (to64 k1 - to64 k0) (to64 u1 - to64 u0)))"

definition host_collect :: "Host \<Rightarrow> Timestamp \<Rightarrow> Timestamp \<Rightarrow> ProviderContext \<Rightarrow> PlacementObservation list" where
  "host_collect h now1 now2 ctx =
     (let p = make_prov ctx now1;
          (total, free) = (case host_memory h of Some m \<Rightarrow> m | None \<Rightarrow> (0, 0));
          o0 = base_obs ctx (Id 1) now2;
          o1 = set_field ''host.memory.total_bytes'' (VUInt total) Classification.Measured p o0;
          o2 = set_field ''host.memory.free_bytes'' (VUInt free) Classification.Measured p o1;
          o3 = set_field ''host.memory.used_bytes'' (VUInt (if total > free then total - free else 0))
            Classification.Measured p o2;
          o4 = set_field ''host.cpu.count'' (VUInt (ucast (host_threads h))) Classification.Measured p o3;
          o5 = set_field ''host.cpu.utilization'' (VDouble (cpu_sample h)) Classification.Measured p o4
      in [o5\<lparr>obs_lifecycle := LifecycleState.Normalized\<rparr>])"

section \<open>\<open>SyntheticTopologyProvider\<close>\<close>

text \<open>\<open>for (int i = 1; i <= n; ++i)\<close>.\<close>

definition up_to :: "i32 \<Rightarrow> nat list" where
  "up_to n = [1..<Suc (nat (sint n))]"

definition GiB :: u64 where "GiB = push_bit 30 1"

definition node_of :: "nat \<Rightarrow> NodeDescriptor" where
  "node_of i = NodeDescriptor_default
     \<lparr>node_node_id := Id (of_nat i), node_hostname := ''node-'' @ dec_nat i, node_cpu_count := 16,
      node_memory_bytes := 256 * GiB, node_numa_architecture := ''numa-0'', node_health := HealthState.Healthy,
      node_region := ''rack-0'', node_synthetic := True\<rparr>"

definition nodes :: "i32 \<Rightarrow> NodeDescriptor list" where
  "nodes n = map node_of (up_to n)"

text \<open>The free bytes of device \<open>d\<close> of a node: \<open>(32ull << 30) - d * (2ull << 30)\<close>, modulo \<open>2 ^ 64\<close>.\<close>

definition device_free :: "nat \<Rightarrow> u64" where
  "device_free d = 32 * GiB - of_nat d * (2 * GiB)"

definition device_of :: "nat \<Rightarrow> nat \<times> nat \<Rightarrow> DeviceDescriptor" where
  "device_of k pos = DeviceDescriptor_default
     \<lparr>dev_device_id := Id (of_nat k), dev_node_id := Id (of_nat (fst pos)), dev_kind := DeviceKind.Accelerator,
      dev_vendor := ''vendor-n'', dev_model := ''gen-synth-'' @ dec_nat (snd pos),
      dev_architecture := ''arch-'' @ dec_nat (snd pos mod 2 + 1),
      dev_compute_capability_major := 12, dev_compute_capability_minor := 0,
      dev_memory_bytes := 32 * GiB, dev_free_memory_bytes := device_free (snd pos),
      dev_used_memory_bytes := 32 * GiB - device_free (snd pos),
      dev_sm_count := 120, dev_clock_mhz := f64_of_u64 2000, dev_health := HealthState.Healthy,
      dev_synthetic := True\<rparr>"

text \<open>The nested loops over nodes and devices, with the running identity.\<close>

definition grid :: "i32 \<Rightarrow> i32 \<Rightarrow> (nat \<times> nat \<times> nat) list" where
  "grid n m = enumerate 1 (List.product (up_to n) (up_to m))"

definition devices :: "i32 \<Rightarrow> i32 \<Rightarrow> DeviceDescriptor list" where
  "devices n m = map (\<lambda>(k, pos). device_of k pos) (grid n m)"

definition sum_words :: "u64 list \<Rightarrow> u64" where
  "sum_words ws = fold (\<lambda>w acc. acc + w) ws 0"

definition synthetic_collect ::
    "i32 \<Rightarrow> i32 \<Rightarrow> Timestamp \<Rightarrow> Timestamp \<Rightarrow> ProviderContext \<Rightarrow> PlacementObservation list" where
  "synthetic_collect n m now1 now2 ctx =
     (let p = (make_prov ctx now1)\<lparr>prov_method := CollectionMethod.Reconstructed, prov_reliability := ReliabilityClass.Partial\<rparr>;
          ds = devices n m;
          o0 = (base_obs ctx (Id 1) now2)\<lparr>obs_synthetic := True\<rparr>;
          o1 = set_field ''topology.node_count'' (VUInt (of_nat (length (nodes n)))) Classification.Derived p o0;
          o2 = set_field ''topology.device_count'' (VUInt (of_nat (length ds))) Classification.Derived p o1;
          o3 = set_field ''topology.total_memory_bytes'' (VUInt (sum_words (map dev_memory_bytes ds)))
            Classification.Derived p o2;
          o4 = set_field ''topology.free_memory_bytes'' (VUInt (sum_words (map dev_free_memory_bytes ds)))
            Classification.Derived p o3;
          o5 = fold (\<lambda>(k, pos). set_field (''device.'' @ dec_nat k @ ''.free_memory_bytes'')
            (VUInt (device_free (snd pos))) Classification.Derived p) (grid n m) o4
      in [o5\<lparr>obs_lifecycle := LifecycleState.Normalized\<rparr>])"

section \<open>Processor load\<close>

lemma f64_of_fraction_of:
  assumes "f64_finite w" "f64_fraction w = (p, q)" "p * q' = p' * q" "0 < q" "0 < q'"
  shows "f64_of_ratio (f64_sign w) p' q' = w"
  using f64_of_fraction [OF assms(1,2)] f64_of_ratio_cong [OF assms(3) assms(4,5)] by simp

lemma half_ratio: "f64_of_ratio False 1 2 = 0x3FE0000000000000"
  using f64_of_fraction_of [of "0x3FE0000000000000" "2 ^ 52" "2 ^ 53" 2 1]
  by (simp add: f64_finite_def f64_fields f64_fraction_def scale_ratio_def)

lemma f64_one: "f64_of_u64 1 = 0x3FF0000000000000"
  using f64_of_fraction_of [of "0x3FF0000000000000" "2 ^ 52" "2 ^ 52" 1 1]
  by (simp add: f64_finite_def f64_fields f64_fraction_def scale_ratio_def f64_of_u64_def)

lemma one_minus_half: "f64_sub 0x3FF0000000000000 0x3FE0000000000000 = 0x3FE0000000000000"
  using f64_of_fraction_of [of "0x3FE0000000000000" "2 ^ 52" "2 ^ 53" "2 ^ 53" "2 ^ 52"]
  by (simp add: f64_sub_def f64_add_def f64_fields f64_neg_def f64_signed_def f64_of_dyadic_def f64_finite_def f64_fraction_def scale_ratio_def)

lemma idle_quotient:
  assumes "0 < unat n" "unat n < 2 ^ 52" and d: "unat b = 2 * unat n"
  shows "f64_div (f64_of_u64 n) (f64_of_u64 b) = 0x3FE0000000000000"
proof -
  have b: "0 < unat b" "unat b < 2 ^ 53" using assms by simp_all
  have l: "ilog2 (2 * unat n) = Suc (ilog2 (unat n))"
    using ilog2_bounds [OF assms(1)] by (intro ilog2_unique) auto
  have m: "f64_mant (f64_of_u64 n) = unat n * 2 ^ (52 - ilog2 (unat n))"
    using count_fields(1) [of n] assms by simp
  have "ilog2 (unat n) < 52" by (rule ilog2_less [OF assms(1,2)])
  then have "52 - ilog2 (unat n) = Suc (51 - ilog2 (unat n))" by simp
  with m have "f64_mant (f64_of_u64 n) = f64_mant (f64_of_u64 b)"
    using count_fields(1) [OF b] by (simp add: d l)
  moreover have "f64_scale (f64_of_u64 n) - f64_scale (f64_of_u64 b) = -1"
    using count_fields(2) [of n] count_fields(2) [OF b] assms by (simp add: d l)
  moreover have "0 < f64_mant (f64_of_u64 n)" using m assms(1) by simp
  ultimately have "f64_div (f64_of_u64 n) (f64_of_u64 b) =
      f64_of_ratio False (f64_mant (f64_of_u64 n)) (f64_mant (f64_of_u64 n) * 2)"
    using count_fields(3-5) [of n] count_fields(3-5) [OF b] assms by (simp add: f64_div_def Let_def)
  also have "\<dots> = f64_of_ratio False 1 2"
    using \<open>0 < f64_mant (f64_of_u64 n)\<close> by (intro f64_of_ratio_cong) simp_all
  finally show ?thesis by (simp only: half_ratio)
qed

lemma unat_double: "unat n < 2 ^ 52 \<Longrightarrow> unat (n + n) = 2 * unat n" for n :: u64
  by (simp add: unat_word_ariths)

text \<open>An idle processor reads as half busy. \<open>GetSystemTimes\<close> documents that kernel time includes idle time, so
  on an idle machine both advance by the same amount and user time not at all; the sampled utilization is then
  exactly one half, because the sum counts the idle time twice.
\<close>

theorem idle_cpu_reads_half:
  assumes "host_times0 h = Some (i0, k0, u0)" "host_times1 h = Some (i1, k1, u1)"
    and "to64 k1 - to64 k0 = to64 i1 - to64 i0" "to64 u1 = to64 u0"
    and "0 < unat (to64 i1 - to64 i0)" "unat (to64 i1 - to64 i0) < 2 ^ 52"
  shows "cpu_sample h = 0x3FE0000000000000"
proof -
  let ?n = "to64 i1 - to64 i0"
  have d: "unat (?n + ?n) = 2 * unat ?n" by (rule unat_double [OF assms(6)])
  moreover from this have "?n + ?n \<noteq> 0" using assms(5) by (metis mult_is_0 neq0_conv unat_0 zero_neq_numeral)
  ultimately have "utilization ?n ?n 0 = f64_sub (f64_of_u64 1) 0x3FE0000000000000"
    unfolding utilization_def Let_def using idle_quotient [OF assms(5,6) d] by simp
  then show ?thesis using assms(1-4) by (simp add: cpu_sample_def f64_one one_minus_half)
qed

theorem idle_cpu_reads_half_witness:
  "cpu_sample \<lparr>host_memory = None, host_threads = 8, host_times0 = Some ((0, 100), (0, 200), (0, 50)),
     host_times1 = Some ((0, 300), (0, 400), (0, 50))\<rparr> = 0x3FE0000000000000"
  by (rule idle_cpu_reads_half [of _ "(0, 100)" "(0, 200)" "(0, 50)" "(0, 300)" "(0, 400)" "(0, 50)"])
     (simp_all add: to64_def)


section \<open>Synthetic topology\<close>

lemma fold_set_field:
  "obs_fields (fold (\<lambda>x. set_field (f x) (v x) c p) xs ob) = obs_fields ob @ map (\<lambda>x. meas (f x) (v x) c p) xs"
  "obs_observation_id (fold (\<lambda>x. set_field (f x) (v x) c p) xs ob) = obs_observation_id ob"
  "obs_synthetic (fold (\<lambda>x. set_field (f x) (v x) c p) xs ob) = obs_synthetic ob"
  by (induction xs arbitrary: ob) (simp_all add: set_field_def)

lemma grid_ids: "map fst (grid n m) = [1..<Suc (nat (sint n) * nat (sint m))]"
  by (simp add: grid_def up_to_def del: upt_Suc)

lemma up_to_iff: "d \<in> set (up_to m) \<longleftrightarrow> 1 \<le> d \<and> int d \<le> sint m"
  by (auto simp: up_to_def)

text \<open>Free memory of a synthetic device never exceeds its memory exactly when no node has more than sixteen devices:
  the seventeenth device of a node has \<open>32 GiB - 34 GiB\<close> free, which wraps to almost \<open>2 ^ 64\<close> bytes.
\<close>

theorem device_free_bounds:
  "list_all (\<lambda>dev. dev_free_memory_bytes dev \<le> dev_memory_bytes dev) (devices n m) \<longleftrightarrow> sint n \<le> 0 \<or> sint m \<le> 16"
proof -
  have free: "device_free d \<le> 32 * GiB \<longleftrightarrow> d \<le> 16" if "1 \<le> d" "int d \<le> sint m" for d
  proof -
    have "sint m < 2 ^ 31" using sint_less [of m] by simp
    then have "int d < 2 ^ 31" using that(2) by linarith
    then have d: "d < 2 ^ 31" by simp
    then have u: "unat (of_nat d * (2 * GiB)) = d * 2 ^ 31"
      by (simp add: GiB_def unat_word_ariths unat_of_nat take_bit_eq_mod)
    show ?thesis
      unfolding device_free_def word_le_nat_alt
      using u d by (simp add: GiB_def unat_sub_if' word_le_nat_alt) linarith
  qed
  have "list_all (\<lambda>dev. dev_free_memory_bytes dev \<le> dev_memory_bytes dev) (devices n m) \<longleftrightarrow>
      (\<forall>x \<in> snd ` set (grid n m). device_free (snd x) \<le> 32 * GiB)"
    by (auto simp: devices_def list_all_iff device_of_def)
  also have "snd ` set (grid n m) = set (up_to n) \<times> set (up_to m)"
    unfolding grid_def set_map [symmetric] map_snd_enumerate by simp
  also have "(\<forall>x \<in> set (up_to n) \<times> set (up_to m). device_free (snd x) \<le> 32 * GiB) \<longleftrightarrow>
      up_to n = [] \<or> (\<forall>d. 1 \<le> d \<and> int d \<le> sint m \<longrightarrow> d \<le> 16)"
    using free by (cases "up_to n") (auto simp: up_to_iff)
  also have "(\<forall>d. 1 \<le> d \<and> int d \<le> sint m \<longrightarrow> d \<le> 16) \<longleftrightarrow> sint m \<le> 16"
    by (auto dest: spec [of _ "17 :: nat"])
  also have "up_to n = [] \<longleftrightarrow> sint n \<le> 0" by (auto simp: up_to_def)
  finally show ?thesis .
qed


text \<open>Synthetic evidence is labelled: every field is derived and carries a provenance that says reconstructed and
  partial, the observation is marked synthetic whatever the context says, and the devices have the identities
  1 to \<open>n * m\<close>, each once.
\<close>

theorem synthetic_is_labelled:
  "list_all (\<lambda>ob. obs_synthetic ob \<and>
       list_all (\<lambda>x. meas_classification x = Classification.Derived \<and>
           prov_method (meas_provenance x) = CollectionMethod.Reconstructed \<and>
           prov_reliability (meas_provenance x) = ReliabilityClass.Partial) (obs_fields ob))
     (synthetic_collect n m now1 now2 ctx) \<and>
   list_all dev_synthetic (devices n m) \<and>
   map dev_device_id (devices n m) = map (\<lambda>k. Id (of_nat k)) [1..<Suc (nat (sint n) * nat (sint m))]"
proof -
  have "map dev_device_id (devices n m) = map (\<lambda>k. Id (of_nat k)) (map fst (grid n m))"
    by (simp add: devices_def device_of_def case_prod_beta)
  then have "map dev_device_id (devices n m) = map (\<lambda>k. Id (of_nat k)) [1..<Suc (nat (sint n) * nat (sint m))]"
    by (simp only: grid_ids)
  moreover have "list_all dev_synthetic (devices n m)"
    by (auto simp: devices_def device_of_def list_all_iff)
  ultimately show ?thesis
    by (simp add: synthetic_collect_def Let_def fold_set_field case_prod_unfold set_field_def meas_def list_all_iff
        base_obs_def PlacementObservation_default_def del: upt_Suc)
qed

section \<open>Providers and the observatory\<close>

lemma provider_ids:
  "ob \<in> set (host_collect h t1 t2 ctx) \<Longrightarrow> obs_observation_id ob = Id 1"
  "ob \<in> set (synthetic_collect n m t1 t2 ctx) \<Longrightarrow> obs_observation_id ob = Id 1"
  by (auto simp: host_collect_def synthetic_collect_def Let_def set_field_def fold_set_field case_prod_unfold base_obs_def)

lemma stored_id_refused:
  assumes "consistent I" "ob \<in> set (im_obs I)" "live_run I J" "obs_observation_id ob' = obs_observation_id ob"
  shows "\<not> ing_accepted (fst (ingest ob' J)) \<and> im_obs (snd (ingest ob' J)) = im_obs J"
proof -
  have "consistent J" by (rule live_run_consistent [OF assms(3,1)])
  then have ex: "unique_exact obs_observation_id (im_obs J) (im_obs_by_id J)"
    by (simp add: consistent_def obs_indexed_def)
  have "ob \<in> set (im_obs J)" using live_run_extends [OF assms(3,1)] assms(2) by (auto simp: extends_def)
  then have "map_of (im_obs_by_id J) (obs_observation_id ob') \<noteq> None"
    using unique_exact_None [OF ex] assms(4) by auto
  then have "\<not> obs_authorised ob' J" by (simp add: obs_authorised_def)
  then show ?thesis by (simp add: ingest_fst ingest_logs)
qed

text \<open>Two collections do not fit into one observatory: both providers give every observation the identity 1, so once
  an observation of either is accepted, what either collects later is refused in every later state, and the log stays as
  it was. \<open>po observe\<close> on a trace that already holds such an observation adds nothing.
\<close>

theorem provider_reports_once:
  assumes "live c I" "ob \<in> set (host_collect h t1 t2 ctx) \<union> set (synthetic_collect n m t1 t2 ctx)"
    and "ing_accepted (fst (ingest ob I))" "live_run (snd (ingest ob I)) J"
    and "ob' \<in> set (host_collect h' t1' t2' ctx') \<union> set (synthetic_collect n' m' t1' t2' ctx')"
  shows "\<not> ing_accepted (fst (ingest ob' J)) \<and> im_obs (snd (ingest ob' J)) = im_obs J"
proof (rule stored_id_refused [OF _ _ assms(4)])
  show "consistent (snd (ingest ob I))" by (rule consistent_ingest [OF live_consistent [OF assms(1)]])
  show "ob\<lparr>obs_lifecycle := LifecycleState.Correlated\<rparr> \<in> set (im_obs (snd (ingest ob I)))"
    using assms(3) by (simp add: ingest_logs ingest_fst)
  show "obs_observation_id ob' = obs_observation_id (ob\<lparr>obs_lifecycle := LifecycleState.Correlated\<rparr>)"
  proof -
    have "obs_observation_id ob = Id 1" using assms(2) by (elim UnE provider_ids)
    moreover have "obs_observation_id ob' = Id 1" using assms(5) by (elim UnE provider_ids)
    ultimately show ?thesis by simp
  qed
qed

definition sample_ctx :: ProviderContext where
  "sample_ctx = ProviderContext_default\<lparr>ctx_source_id := Id 5\<rparr>"

definition sample_host :: Host where
  "sample_host = \<lparr>host_memory = Some (8, 4), host_threads = 2, host_times0 = None, host_times1 = None\<rparr>"

lemma finite_zero: "f64_finite f64_zero"
  by (simp add: f64_zero_def f64_finite_def f64_fields)

theorem provider_reports_once_witness:
  "let I = snd (ingest (hd (host_collect sample_host Timestamp_default Timestamp_default sample_ctx)) fresh);
       later = hd (host_collect sample_host Timestamp_default Timestamp_default sample_ctx)
   in im_obs I \<noteq> [] \<and> \<not> ing_accepted (fst (ingest later I)) \<and> im_obs (snd (ingest later I)) = im_obs I"
proof -
  let ?ob = "hd (host_collect sample_host Timestamp_default Timestamp_default sample_ctx)"
  have m: "?ob \<in> set (host_collect sample_host Timestamp_default Timestamp_default sample_ctx)"
    by (simp add: host_collect_def Let_def case_prod_beta)
  have f: "obs_observation_id ?ob = Id 1" "obs_source_id ?ob = Id 5" "obs_source_generation ?ob = 1"
    "obs_observation_generation ?ob = 1" "obs_coordinator_epoch ?ob = 0"
    by (simp_all add: host_collect_def Let_def case_prod_unfold set_field_def base_obs_def sample_ctx_def
        ProviderContext_default_def)
  have "field_error (obs_fields ?ob) = None"
    by (simp add: host_collect_def Let_def case_prod_unfold set_field_def base_obs_def sample_host_def
        PlacementObservation_default_def meas_def memory_field_def cpu_sample_def finite_zero)
  then have "obs_authorised ?ob fresh \<and> obs_content_ok ?ob fresh"
    by (simp add: obs_authorised_def obs_content_ok_def f sample_simps trusted_boot_def current_source_generation_def
        stale_epoch_def)
  then have acc: "ing_accepted (fst (ingest ?ob fresh))" by (simp add: ingest_fst)
  then have "im_obs (snd (ingest ?ob fresh)) \<noteq> []" by (simp add: ingest_logs ingest_fst)
  with provider_reports_once [OF live_init _ acc run_refl, of sample_host Timestamp_default Timestamp_default sample_ctx
      0 0 ?ob sample_host Timestamp_default Timestamp_default sample_ctx 0 0] m
  show ?thesis by (simp add: Let_def)
qed

end
