(* ===== verification/Cli.thy ===== *)
theory Cli
  imports Analytics Persist_Properties Providers
begin

text \<open>
  The commands of src/cli/po.cpp that work on a trace. The environment is an argument: the file system, the readings of
  the clock, the order in which the unordered maps are iterated, \<open>std::sort\<close> on the timeline, and what the host
  provider reads. A command returns its exit code, what it prints, and the file system it leaves; an exception that
  leaves \<open>main\<close> is a fault.
\<close>

section \<open>Arguments\<close>

fun arg :: "string list \<Rightarrow> string \<Rightarrow> string \<Rightarrow> string" where
  "arg (x # y # zs) key def = (if x = key then y else arg (y # zs) key def)"
| "arg _ key def = def"

definition flag :: "string list \<Rightarrow> string \<Rightarrow> bool" where
  "flag a key \<longleftrightarrow> list_ex (\<lambda>s. s = key) a"

text \<open>\<open>strtoull\<close> with base 10: white space, a sign, digits; it saturates, and a minus sign negates modulo \<open>2 ^ 64\<close>.\<close>

definition au64 :: "string \<Rightarrow> u64" where
  "au64 s =
     (case token_sign (dropWhile is_space s) of
        (neg, u) \<Rightarrow>
          let n = digits_value (takeWhile is_digit u) in
          if 2 ^ 64 \<le> n then - 1 else if neg then - of_nat n else of_nat n)"

lemma au64_digits:
  assumes "digits s" "s \<noteq> []"
  shows "au64 s = (if 2 ^ 64 \<le> digits_value s then - 1 else of_nat (digits_value s))"
proof -
  obtain c cs where s: "s = c # cs" using assms(2) by (cases s) auto
  then have c: "is_digit c" "c \<noteq> CHR ''-''" "c \<noteq> CHR ''+''" using assms(1) by auto
  then have sp: "\<not> is_space c" by (auto simp: is_digit_def is_space_def)
  have t: "takeWhile is_digit cs = cs" using assms(1) s span_digits [of cs "[]"] by simp
  show ?thesis using c sp by (simp add: s au64_def token_sign_def Let_def t)
qed

section \<open>Environment and results\<close>

record Os =
  os_files :: file_system
  os_now :: "nat \<Rightarrow> Timestamp"
  os_health_order :: "Impl \<Rightarrow> (SourceId \<times> ReliabilityClass) list"
  os_source_order :: "Impl \<Rightarrow> (SourceId \<times> SourceDescriptor) list"
  os_outcome_order :: "Impl \<Rightarrow> (PlacementDecisionId \<times> PlacementOutcome) list"
  os_sort :: "(TimelineEntry \<Rightarrow> TimelineEntry \<Rightarrow> bool) \<Rightarrow> TimelineEntry list \<Rightarrow> TimelineEntry list"
  os_host :: Host

record CmdResult =
  cmd_exit :: int
  cmd_out :: string
  cmd_files :: file_system

definition newline :: string where "newline = [CHR 0x0A]"

definition prints :: "Os \<Rightarrow> int \<Rightarrow> string \<Rightarrow> fault + CmdResult" where
  "prints os code msg = Inr \<lparr>cmd_exit = code, cmd_out = msg @ newline, cmd_files = os_files os\<rparr>"

definition print_json :: "Os \<Rightarrow> JsonValue \<Rightarrow> fault + CmdResult" where
  "print_json os v = prints os 0 (json_text v True 2)"

definition fbind :: "fault + 'a \<Rightarrow> ('a \<Rightarrow> fault + 'b) \<Rightarrow> fault + 'b" where
  "fbind m k = (case m of Inl e \<Rightarrow> Inl e | Inr x \<Rightarrow> k x)"

lemma fbind_simps [simp]: "fbind (Inl e) k = Inl e" "fbind (Inr x) k = k x"
  by (simp_all add: fbind_def)

abbreviation fresh_obs :: Impl where "fresh_obs \<equiv> Impl_init ObservatoryConfig_default"

definition file_bytes :: "Os \<Rightarrow> string \<Rightarrow> bytes" where
  "file_bytes os path = (case os_files os path of Some bs \<Rightarrow> bs | None \<Rightarrow> [])"

definition load_trace :: "Os \<Rightarrow> string \<Rightarrow> Impl" where
  "load_trace os trace = (if trace \<noteq> '''' then snd (recover (file_bytes os trace) fresh_obs) else fresh_obs)"

text \<open>\<open>persist\<close>: an exception of the writers passes through; else the file holds the image.\<close>

definition persist :: "Os \<Rightarrow> string \<Rightarrow> Impl \<Rightarrow> fault + file_system" where
  "persist os path I =
     (case persist_image (os_source_order os I) (os_outcome_order os I) I of
        Inl e \<Rightarrow> Inl (Runtime_error (ser_what e))
      | Inr img \<Rightarrow> Inr (last (persist_states path img (os_files os))))"

section \<open>Commands that read\<close>

definition cmd_decisions :: "Os \<Rightarrow> string list \<Rightarrow> fault + CmdResult" where
  "cmd_decisions os a =
     (let I = load_trace os (arg a ''--trace'' '''') in
      print_json os (JArray (map json_decision (decisions QueryFilter_default I))))"

definition cmd_candidates :: "Os \<Rightarrow> string list \<Rightarrow> fault + CmdResult" where
  "cmd_candidates os a =
     (let I = load_trace os (arg a ''--trace'' '''') in
      print_json os (json_candidate_set (candidates (Id (au64 (arg a ''--decision'' ''''))) I)))"

definition cmd_timeline :: "Os \<Rightarrow> string list \<Rightarrow> fault + CmdResult" where
  "cmd_timeline os a =
     (let I = load_trace os (arg a ''--trace'' '''') in
      print_json os (json_timeline (timeline (os_sort os) (Id (au64 (arg a ''--workload'' ''''))) I)))"

definition cmd_snapshot :: "Os \<Rightarrow> string list \<Rightarrow> fault + CmdResult" where
  "cmd_snapshot os a =
     (let I = load_trace os (arg a ''--trace'' '''') in
      print_json os (json_snapshot (fst (snapshot (os_health_order os I) (os_now os 0) I))))"

definition cmd_explain :: "Os \<Rightarrow> string list \<Rightarrow> fault + CmdResult" where
  "cmd_explain os a =
     (let I = load_trace os (arg a ''--trace'' '''') in
      fbind (obs_explain (Id (au64 (arg a ''--decision'' ''''))) I) (\<lambda>e. print_json os (json_explanation e)))"

definition cmd_compare :: "Os \<Rightarrow> string list \<Rightarrow> fault + CmdResult" where
  "cmd_compare os a =
     (let I = load_trace os (arg a ''--trace'' '''') in
      print_json os (json_comparison (obs_compare (Id (au64 (arg a ''--a'' ''''))) (Id (au64 (arg a ''--b'' ''''))) I)))"

definition cmd_replay :: "Os \<Rightarrow> string list \<Rightarrow> fault + CmdResult" where
  "cmd_replay os a =
     (let I = load_trace os (arg a ''--trace'' '''') in
      fbind (obs_replay (Id (au64 (arg a ''--decision'' ''''))) I) (\<lambda>r. print_json os (json_replay r)))"

definition cmd_counterfactual :: "Os \<Rightarrow> string list \<Rightarrow> fault + CmdResult" where
  "cmd_counterfactual os a =
     (let I = load_trace os (arg a ''--trace'' ''''); field = arg a ''--field'' '''';
          changes = (if field \<noteq> ''''
            then [\<lparr>ch_field = field, ch_new_value = VUInt (au64 (arg a ''--value'' ''0'')), ch_relative = flag a ''--relative''\<rparr>]
            else [])
      in fbind (obs_counterfactual (Id (au64 (arg a ''--decision'' ''''))) changes I)
           (\<lambda>cs. print_json os (JArray (map json_counterfactual cs))))"

definition cmd_sources :: "Os \<Rightarrow> string list \<Rightarrow> fault + CmdResult" where
  "cmd_sources os a =
     (let I = load_trace os (arg a ''--trace'' '''') in
      print_json os (JArray (map json_source (sources (os_source_order os) I))))"

definition cmd_health :: "Os \<Rightarrow> string list \<Rightarrow> fault + CmdResult" where
  "cmd_health os a =
     (let I = load_trace os (arg a ''--trace'' ''''); k = Id (au64 (arg a ''--source'' '''')) in
      print_json os (JObject
        [(''source_id'', JUInt (id_value k)),
         (''health'', JString (ReliabilityClass_string (source_health k I))),
         (''current_generation'', JUInt (current_source_generation k I))]))"

definition cmd_stats :: "Os \<Rightarrow> string list \<Rightarrow> fault + CmdResult" where
  "cmd_stats os a =
     (let s = stats (ts_wall (os_now os 0)) (load_trace os (arg a ''--trace'' '''')) in
      print_json os (JObject
        [(''observation_count'', JUInt (st_observation_count s)), (''decision_count'', JUInt (st_decision_count s)),
         (''outcome_count'', JUInt (st_outcome_count s)), (''source_count'', JUInt (st_source_count s)),
         (''superseded_count'', JUInt (st_superseded_count s)), (''rejected_count'', JUInt (st_rejected_count s)),
         (''event_count'', JUInt (st_event_count s))]))"

definition cmd_recover :: "Os \<Rightarrow> string list \<Rightarrow> fault + CmdResult" where
  "cmd_recover os a =
     prints os 0 (''{\"records_loaded\":'' @
       dec_nat (fst (recover (file_bytes os (arg a ''--trace'' '''')) fresh_obs)) @ ''}'')"

definition cmd_inspect :: "Os \<Rightarrow> string list \<Rightarrow> fault + CmdResult" where
  "cmd_inspect os a =
     (case parse_json (string_of_bytes (file_bytes os (arg a ''--file'' ''''))) of
        Inl (msg, pos) \<Rightarrow> prints os 1 (''{\"error\":\"json parse failed\",\"pos\":'' @ dec_int pos @ ''}'')
      | Inr v \<Rightarrow> print_json os v)"

end
