(* ===== verification/Cli_Ingest.thy ===== *)
theory Cli_Ingest
  imports Cli
begin

text \<open>
  The commands of src/cli/po.cpp that write a trace, \<open>observe\<close> and \<open>ingest\<close>, with the built-in scenario decision,
  and the dispatch of \<open>main\<close>.
\<close>

section \<open>The built-in scenario\<close>

definition scenario_candidate :: "u64 \<Rightarrow> u64 \<Rightarrow> u64 \<Rightarrow> f64 \<Rightarrow> PlacementCandidate" where
  "scenario_candidate cid dev free cost = PlacementCandidate_default
     \<lparr>cand_candidate_id := Id cid, cand_device_id := Id dev, cand_node_id := Id 1, cand_architecture := ''sm_120'',
      cand_health := HealthState.Healthy,
      cand_memory := MemoryDescriptor_default
        \<lparr>mem_total_bytes := 32 * GiB, mem_free_bytes := free, mem_used_bytes := 32 * GiB - free,
         mem_pressure_ratio := f64_div (f64_of_u64 (32 * GiB - free)) (f64_of_u64 (32 * GiB))\<rparr>,
      cand_queue := QueueDescriptor_default\<lparr>queue_depth := 0\<rparr>,
      cand_total_cost := cost,
      cand_costs := [PlacementCostComponent_default
        \<lparr>cost_kind := CostComponentKind.MemoryHeadroom, cost_cost := cost, cost_policy_weight := f64_of_u64 1,
         cost_classification := Classification.Measured, cost_label := ''headroom''\<rparr>]\<rparr>"

definition po_scenario_memory_decision :: "Timestamp \<Rightarrow> PlacementDecisionId \<Rightarrow> WorkloadId \<Rightarrow> PlacementDecision" where
  "po_scenario_memory_decision now k wl = PlacementDecision_default
     \<lparr>dec_decision_id := k, dec_attempt_id := Id (id_value k), dec_placement_generation := 1,
      dec_observation_generation := 1, dec_epoch := 1, dec_policy_generation := 1, dec_workload_id := wl,
      dec_request_id := Id (id_value k), dec_tenant_id := Id 1, dec_namespace_id := Id 1,
      dec_candidate_set := CandidateSet_default
        \<lparr>cset_candidates := [scenario_candidate 1 1 (8 * GiB) (f64_of_u64 2),
                             scenario_candidate 2 2 (24 * GiB) 0x3FE0000000000000],
         cset_complete := True, cset_reconstructed := False\<rparr>,
      dec_selected_candidate := Id 2, dec_tie_break := TieBreakReason.LowestCost,
      dec_determinism := DeterminismClass.Deterministic,
      dec_provenance := Provenance_default
        \<lparr>prov_source_id := Id 1, prov_source_generation := 1, prov_timestamp := now\<rparr>\<rparr>"

section \<open>\<open>observe\<close>\<close>

definition observe_source :: "string list \<Rightarrow> SourceDescriptor" where
  "observe_source a = SourceDescriptor_default
     \<lparr>src_source_id := Id (au64 (arg a ''--source'' ''5'')), src_generation := 1, src_type := SourceType.System,
      src_name := ''windows-host''\<rparr>"

definition observe_ctx :: "string list \<Rightarrow> ProviderContext" where
  "observe_ctx a = ProviderContext_default
     \<lparr>ctx_source_id := src_source_id (observe_source a), ctx_source_generation := 1,
      ctx_source_type := SourceType.System, ctx_workload_id := Id (au64 (arg a ''--workload'' ''1''))\<rparr>"

definition observe_run :: "Os \<Rightarrow> string list \<Rightarrow> Impl" where
  "observe_run os a =
     fold (\<lambda>ob I. snd (ingest ob I)) (host_collect (os_host os) (os_now os 1) (os_now os 2) (observe_ctx a))
       (register_source (observe_source a) (os_now os 0) (load_trace os (arg a ''--trace'' '''')))"

text \<open>What every writing command does at its end.\<close>

definition save_and_print :: "Os \<Rightarrow> string \<Rightarrow> Impl \<Rightarrow> string \<Rightarrow> fault + CmdResult" where
  "save_and_print os trace I msg =
     fbind (if trace \<noteq> '''' then persist os trace I else Inr (os_files os))
       (\<lambda>fs. Inr \<lparr>cmd_exit = 0, cmd_out = msg @ newline, cmd_files = fs\<rparr>)"

definition cmd_observe :: "Os \<Rightarrow> string list \<Rightarrow> fault + CmdResult" where
  "cmd_observe os a =
     (let I = observe_run os a in
      save_and_print os (arg a ''--trace'' '''') I
        (''{\"observation_count\":'' @ dec_nat (length (observations QueryFilter_default I)) @ ''}''))"

section \<open>\<open>ingest\<close>\<close>

definition doc_kind :: "JsonValue \<Rightarrow> fault + string" where
  "doc_kind v =
     (if is_object v
      then fbind (json_find ''kind'' v) (\<lambda>p. case p of Some k \<Rightarrow> as_string k | None \<Rightarrow> Inr ''decision'')
      else Inr ''decision'')"

text \<open>The lambda \<open>num\<close>.\<close>

definition num :: "JsonValue \<Rightarrow> string \<Rightarrow> fault + u64" where
  "num v k = fbind (json_find k v) (\<lambda>p. case p of Some x \<Rightarrow> as_uint x | None \<Rightarrow> Inr 0)"

definition doc_field :: "JsonValue \<Rightarrow> fault + Measurement" where
  "doc_field fld =
     fbind (json_find ''field'' fld) (\<lambda>fp.
     fbind (case fp of Some x \<Rightarrow> as_string x | None \<Rightarrow> Inr '''') (\<lambda>name.
     fbind (json_find ''value'' fld) (\<lambda>vp.
     fbind (case vp of
              Some x \<Rightarrow>
                if is_double x then map_sum id VDouble (as_double x)
                else if is_int x then map_sum id VInt (as_int x)
                else if is_string x then map_sum id VString (as_string x)
                else Inr VNone
            | None \<Rightarrow> Inr VNone)
       (\<lambda>v. Inr (Measurement_default\<lparr>meas_normalized_field := name, meas_value := v\<rparr>)))))"

fun doc_fields :: "JsonValue list \<Rightarrow> fault + Measurement list" where
  "doc_fields [] = Inr []"
| "doc_fields (fld # flds) =
     (if \<not> is_object fld then doc_fields flds
      else fbind (doc_field fld) (\<lambda>m. fbind (doc_fields flds) (\<lambda>ms. Inr (m # ms))))"

definition doc_observation :: "Timestamp \<Rightarrow> JsonValue \<Rightarrow> fault + PlacementObservation" where
  "doc_observation now v =
     fbind (num v ''observation_id'') (\<lambda>oid. fbind (num v ''observation_generation'') (\<lambda>ogen.
     fbind (num v ''source_id'') (\<lambda>sid. fbind (num v ''source_generation'') (\<lambda>sgen.
     fbind (num v ''worker_boot'') (\<lambda>boot. fbind (num v ''coordinator_epoch'') (\<lambda>epoch.
     fbind (num v ''workload_id'') (\<lambda>wid. fbind (json_find ''fields'' v) (\<lambda>p.
     fbind (case p of Some (JArray flds) \<Rightarrow> doc_fields flds | _ \<Rightarrow> Inr []) (\<lambda>ms.
       Inr (PlacementObservation_default
         \<lparr>obs_observation_id := Id oid, obs_observation_generation := ogen, obs_source_id := Id sid,
          obs_source_generation := sgen, obs_worker_boot := boot, obs_coordinator_epoch := epoch,
          obs_workload_id := Id wid, obs_timestamp := now, obs_fields := ms\<rparr>))))))))))"

definition doc_decision :: "Timestamp \<Rightarrow> JsonValue \<Rightarrow> fault + PlacementDecision" where
  "doc_decision now v =
     fbind (num v ''decision_id'') (\<lambda>did. fbind (num v ''workload_id'') (\<lambda>wid.
     fbind (json_find ''selected_candidate'' v) (\<lambda>sc.
     fbind (case sc of Some x \<Rightarrow> map_sum id Some (as_uint x) | None \<Rightarrow> Inr None) (\<lambda>sel.
     fbind (json_find ''selected_reason'' v) (\<lambda>rs.
     fbind (case rs of Some x \<Rightarrow> map_sum id Some (as_string x) | None \<Rightarrow> Inr None) (\<lambda>reason.
       let d = po_scenario_memory_decision now (Id did) (Id wid) in
       Inr (d\<lparr>dec_selected_candidate := (case sel of Some i \<Rightarrow> Id i | None \<Rightarrow> dec_selected_candidate d),
              dec_selected_reason := (case reason of Some r \<Rightarrow> r | None \<Rightarrow> dec_selected_reason d)\<rparr>)))))))"

definition doc_outcome :: "Timestamp \<Rightarrow> JsonValue \<Rightarrow> fault + PlacementOutcome" where
  "doc_outcome now v =
     fbind (num v ''decision_id'') (\<lambda>did. fbind (num v ''attempt_id'') (\<lambda>aid. fbind (num v ''duration_ns'') (\<lambda>dur.
       Inr (PlacementOutcome_default
         \<lparr>out_decision_id := Id did, out_attempt_id := Id aid, out_disposition := OutcomeDisposition.Succeeded,
          out_duration_ns := dur, out_provenance := Provenance_default\<lparr>prov_timestamp := now\<rparr>\<rparr>))))"

text \<open>The document goes to the ingest operation of its kind; \<open>None\<close> for a kind that is not known.\<close>

definition ingest_document :: "Timestamp \<Rightarrow> JsonValue \<Rightarrow> Impl \<Rightarrow> fault + (IngestResult \<times> Impl) option" where
  "ingest_document now v I =
     fbind (doc_kind v) (\<lambda>kind.
       if kind = ''observation'' then fbind (doc_observation now v) (\<lambda>ob. Inr (Some (ingest ob I)))
       else if kind = ''decision'' then fbind (doc_decision now v) (\<lambda>d. Inr (Some (ingest_decision d I)))
       else if kind = ''outcome'' then fbind (doc_outcome now v) (\<lambda>x. Inr (Some (ingest_outcome x I)))
       else Inr None)"

definition cmd_ingest :: "Os \<Rightarrow> string list \<Rightarrow> fault + CmdResult" where
  "cmd_ingest os a =
     (let f = arg a ''--file'' ''''; trace = arg a ''--trace'' '''' in
      if f = '''' then prints os 1 ''{\"error\":\"--file required\"}''
      else case parse_json (string_of_bytes (file_bytes os f)) of
        Inl (msg, pos) \<Rightarrow> prints os 1 (''{\"error\":\"json\",\"pos\":'' @ dec_int pos @ ''}'')
      | Inr v \<Rightarrow>
          fbind (ingest_document (os_now os 0) v (load_trace os trace)) (\<lambda>res.
            case res of
              None \<Rightarrow> prints os 1 ''{\"error\":\"unknown kind\"}''
            | Some (r, I) \<Rightarrow>
                if \<not> ing_accepted r
                then prints os 1 (''{\"accepted\":false,\"error\":\"'' @ ing_error r @ ''\"}'')
                else save_and_print os trace I ''{\"accepted\":true}''))"

section \<open>\<open>main\<close>\<close>

definition help_lines :: "string list" where
  "help_lines =
     [''Placement Observatory CLI'',
      ''Usage: po <command> [options]'',
      '''',
      ''Commands:'',
      ''  ingest      Ingest observation/decision/outcome JSON from a file into a trace'',
      ''  observe     Emit a real host/system observation into a trace'',
      ''  decisions   List decisions in a trace (JSON)'',
      ''  candidates  Show a decision's candidate set (JSON)'',
      ''  timeline    Show a workload timeline (JSON)'',
      ''  snapshot    Show a consistent snapshot (JSON)'',
      ''  explain     Explain a decision (JSON)'',
      ''  compare     Compare two decisions (JSON)'',
      ''  replay      Deterministically replay a decision (JSON)'',
      ''  counterfactual  Evaluate a counterfactual (JSON)'',
      ''  sources     List sources (JSON)'',
      ''  health      Source health (JSON)'',
      ''  stats       Observatory statistics (JSON)'',
      ''  inspect     Inspect a record (JSON)'',
      ''  recover     Recover/verify a persisted trace'',
      ''  bench       Run a measured benchmark'',
      ''  serve       Run the multiprocess coordinator/collector'',
      ''  worker      Run a multiprocess source/worker'',
      ''  client      Run a multiprocess client/driver'',
      ''  help        This help'']"

definition help_text :: string where
  "help_text = concat (map (\<lambda>l. l @ newline) help_lines)"

definition read_commands :: "(string \<times> (Os \<Rightarrow> string list \<Rightarrow> fault + CmdResult)) list" where
  "read_commands =
     [(''decisions'', cmd_decisions), (''candidates'', cmd_candidates), (''timeline'', cmd_timeline),
      (''snapshot'', cmd_snapshot), (''explain'', cmd_explain), (''compare'', cmd_compare), (''replay'', cmd_replay),
      (''counterfactual'', cmd_counterfactual), (''sources'', cmd_sources), (''health'', cmd_health),
      (''stats'', cmd_stats), (''recover'', cmd_recover), (''inspect'', cmd_inspect)]"

text \<open>\<open>other\<close> stands for \<open>bench\<close>, \<open>serve\<close>, \<open>worker\<close> and \<open>client\<close>, which measure time or talk to the network.\<close>

definition po_main ::
    "(string \<Rightarrow> Os \<Rightarrow> string list \<Rightarrow> fault + CmdResult) \<Rightarrow> Os \<Rightarrow> string list \<Rightarrow> fault + CmdResult" where
  "po_main other os argv =
     (case argv of
        [] \<Rightarrow> Inr \<lparr>cmd_exit = 1, cmd_out = help_text, cmd_files = os_files os\<rparr>
      | cmd # a \<Rightarrow>
          if cmd = ''help'' then Inr \<lparr>cmd_exit = 0, cmd_out = help_text, cmd_files = os_files os\<rparr>
          else case map_of read_commands cmd of
            Some f \<Rightarrow> f os a
          | None \<Rightarrow>
              if cmd = ''observe'' then cmd_observe os a
              else if cmd = ''ingest'' then cmd_ingest os a
              else if cmd \<in> set [''bench'', ''serve'', ''worker'', ''client''] then other cmd os a
              else prints os 1 (''unknown command '' @ [CHR 0x27] @ cmd @ [CHR 0x27]))"

end
