(* ===== verification/Protocol.thy ===== *)
theory Protocol
  imports Prelude
begin

text \<open>
  \<open>protocol.hpp\<close> and \<open>src/protocol.cpp\<close>: the table-driven CRC-32, the frame format with its
  strict decoder, and frame transport over a socket. The operating system's \<open>::send\<close> and
  \<open>::recv\<close> are inputs of the model: the list of results the calls will return, in order
  (a received chunk of any size, an orderly close, an error). Sockets are only reached through
  \<open>send_all\<close> and \<open>recv_exact\<close>, whose loops are modelled call by call.
\<close>

unbundle bit_operations_syntax

section \<open>CRC-32\<close>

text \<open>One step of the table generator: \<open>(c & 1) ? (0xEDB88320u ^ (c >> 1)) : (c >> 1)\<close>.\<close>

definition crc_shift :: "u32 \<Rightarrow> u32" where
  "crc_shift c = (if c AND 1 \<noteq> 0 then 0xEDB88320 XOR drop_bit 1 c else drop_bit 1 c)"

definition crc_table :: "u32 list" where
  "crc_table = map (\<lambda>i. (crc_shift ^^ 8) (of_nat i)) [0..<256]"

definition crc_next :: "u32 \<Rightarrow> byte \<Rightarrow> u32" where
  "crc_next c b = crc_table ! unat ((c XOR ucast b) AND 0xFF) XOR drop_bit 8 c"

definition crc32 :: "bytes \<Rightarrow> u32" where
  "crc32 data = foldl crc_next 0xFFFFFFFF data XOR 0xFFFFFFFF"

text \<open>The definition of the checksum by polynomial division, bit by bit.\<close>

definition crc32_bitwise :: "bytes \<Rightarrow> u32" where
  "crc32_bitwise data = foldl (\<lambda>c b. (crc_shift ^^ 8) (c XOR ucast b)) 0xFFFFFFFF data XOR 0xFFFFFFFF"

lemma and_1_odd: "c AND 1 \<noteq> 0 \<longleftrightarrow> odd c" for c :: "'a::len word"
  by (simp add: and_one_eq odd_iff_mod_2_eq_one)

lemma crc_shift_alt: "crc_shift c = (if odd c then 0xEDB88320 else 0) XOR drop_bit 1 c"
  by (simp add: crc_shift_def and_1_odd)

lemma crc_shift_xor: "crc_shift (a XOR b) = crc_shift a XOR crc_shift b"
  by (cases "odd a"; cases "odd b") (simp_all add: crc_shift_alt even_xor_iff drop_bit_xor ac_simps)

lemma crc_pow_xor: "(crc_shift ^^ n) (a XOR b) = (crc_shift ^^ n) a XOR (crc_shift ^^ n) b"
  by (induction n) (simp_all add: crc_shift_xor)

lemma crc_pow_zero_bits:
  "\<forall>i < n. \<not> bit c i \<Longrightarrow> (crc_shift ^^ n) c = drop_bit n c"
proof (induction n)
  case (Suc n)
  then have "\<not> bit c n" by blast
  then have "\<not> bit (drop_bit n c) 0" by (simp add: bit_drop_bit_eq del: bit_0)
  then have "even (drop_bit n c)" by (simp add: bit_0)
  with Suc show ?case by (simp add: crc_shift_alt)
qed simp

lemma low_high_split: "c = (c AND 0xFF) XOR push_bit 8 (drop_bit 8 c)" for c :: u32
proof (rule bit_word_eqI)
  fix n assume "n < LENGTH(32)"
  then show "bit c n = bit ((c AND 0xFF) XOR push_bit 8 (drop_bit 8 c)) n"
    unfolding mask_8_word by (cases "n < 8") (auto simp: bit_simps)
qed

lemma xor_same_left: "a XOR b = a XOR c \<longleftrightarrow> b = c" for a :: "'a::len word"
  by (metis xor.assoc xor.left_neutral xor_self_eq)

lemma xor_same_right: "b XOR a = c XOR a \<longleftrightarrow> b = c" for a :: "'a::len word"
  by (metis xor.assoc xor.right_neutral xor_self_eq)

lemma crc_table_nth: "n < 256 \<Longrightarrow> crc_table ! n = (crc_shift ^^ 8) (of_nat n)"
  by (simp add: crc_table_def)

lemma drop_push_drop: "drop_bit 8 (push_bit 8 (drop_bit 8 x)) = drop_bit 8 x" for x :: u32
  by (rule bit_word_eqI) (auto simp: bit_simps dest: bit_imp_le_length)

lemma crc_next_bitwise: "crc_next c b = (crc_shift ^^ 8) (c XOR ucast b)"
proof -
  let ?x = "c XOR ucast b"
  have "?x AND 0xFF \<le> 0xFF" by (rule word_and_le1)
  then have lt: "unat (?x AND 0xFF) < 256" by (simp add: word_le_nat_alt)
  have hi: "drop_bit 8 ?x = drop_bit 8 c"
  proof (rule bit_word_eqI)
    fix n assume "n < LENGTH(32)"
    show "bit (drop_bit 8 ?x) n = bit (drop_bit 8 c) n"
    proof (cases "8 + n < 32")
      case True
      then show ?thesis using bit_imp_le_length [of b "8 + n"] by (auto simp: bit_simps)
    next
      case False
      then have "\<not> bit ?x (8 + n)" "\<not> bit c (8 + n)"
        using bit_imp_le_length [of ?x "8 + n"] bit_imp_le_length [of c "8 + n"] by auto
      then show ?thesis by (simp only: bit_drop_bit_eq comp_apply simp_thms)
    qed
  qed
  have "(crc_shift ^^ 8) ?x = (crc_shift ^^ 8) (?x AND 0xFF) XOR (crc_shift ^^ 8) (push_bit 8 (drop_bit 8 ?x))"
    by (subst low_high_split [of ?x]) (rule crc_pow_xor)
  also have "(crc_shift ^^ 8) (push_bit 8 (drop_bit 8 ?x)) = drop_bit 8 (push_bit 8 (drop_bit 8 ?x))"
    by (rule crc_pow_zero_bits) (simp add: bit_simps)
  also have "drop_bit 8 (push_bit 8 (drop_bit 8 ?x)) = drop_bit 8 ?x"
    by (rule drop_push_drop)
  also note hi
  finally show ?thesis
    using lt by (simp add: crc_next_def crc_table_nth)
qed

lemma crc32_eq_bitwise: "crc32 data = crc32_bitwise data"
  by (simp add: crc32_def crc32_bitwise_def crc_next_bitwise cong: foldl_cong)

text \<open>Each step is injective in the register and in the byte, so one changed byte is noticed.\<close>

lemma crc_shift_inj: "crc_shift a = crc_shift b \<longleftrightarrow> a = b"
proof
  assume eq: "crc_shift a = crc_shift b"
  have top: "bit (crc_shift c) 31 \<longleftrightarrow> odd c" for c
    using bit_imp_le_length [of c 32] by (auto simp: crc_shift_alt bit_simps)
  have "odd a = odd b" using eq top by metis
  with eq have d: "drop_bit 1 a = drop_bit 1 b"
    by (auto simp: crc_shift_alt xor_same_left split: if_splits)
  show "a = b"
  proof (rule bit_word_eqI)
    fix n
    show "bit a n = bit b n"
    proof (cases n)
      case 0
      then show ?thesis using \<open>odd a = odd b\<close> by (simp add: bit_0)
    next
      case (Suc m)
      then show ?thesis using d by (metis bit_drop_bit_eq comp_apply plus_1_eq_Suc)
    qed
  qed
qed simp

lemma crc_pow_inj: "(crc_shift ^^ n) a = (crc_shift ^^ n) b \<longleftrightarrow> a = b"
  by (induction n) (simp_all add: crc_shift_inj)

lemma ucast_byte_inj: "(ucast (a :: byte) :: u32) = ucast b \<longleftrightarrow> a = b"
proof
  assume eq: "(ucast a :: u32) = ucast b"
  show "a = b"
  proof (rule bit_word_eqI)
    fix n assume "n < LENGTH(8)"
    then show "bit a n = bit b n"
      using arg_cong [OF eq, of "\<lambda>w. bit w n"] by (simp add: bit_ucast_iff)
  qed
qed simp

lemma crc_next_inj_byte: "crc_next c a = crc_next c b \<longleftrightarrow> a = b"
  by (simp add: crc_next_bitwise crc_pow_inj ucast_byte_inj xor_same_left)

lemma crc_next_inj_reg: "crc_next c b = crc_next d b \<longleftrightarrow> c = d"
  by (simp add: crc_next_bitwise crc_pow_inj xor_same_right)

lemma crc_fold_inj: "foldl crc_next c bs = foldl crc_next d bs \<longleftrightarrow> c = d"
  by (induction bs arbitrary: c d) (simp_all add: crc_next_inj_reg)

lemma crc32_one_byte: "crc32 (xs @ a # ys) = crc32 (xs @ b # ys) \<longleftrightarrow> a = b"
  by (simp add: crc32_def crc_fold_inj crc_next_inj_byte xor_same_right)

section \<open>Frames\<close>

definition kFrameMagic :: u32 where "kFrameMagic = 0x504F5046"
definition kProtocolVersion :: u32 where "kProtocolVersion = 1"
definition kMaxFramePayload :: u32 where "kMaxFramePayload = 16 * 1024 * 1024"
definition kHeaderLen :: nat where "kHeaderLen = 13"

datatype MsgType =
    Hello | RegisterSource | Observation | Decision | Outcome | Ack
  | CoordinatorEpoch | Shutdown | Ping | Probe | Status | Confirm | OtherMsg byte

primrec MsgType_code :: "MsgType \<Rightarrow> byte" where
  "MsgType_code Hello = 0"
| "MsgType_code RegisterSource = 1"
| "MsgType_code Observation = 2"
| "MsgType_code Decision = 3"
| "MsgType_code Outcome = 4"
| "MsgType_code Ack = 5"
| "MsgType_code CoordinatorEpoch = 6"
| "MsgType_code Shutdown = 7"
| "MsgType_code Ping = 8"
| "MsgType_code Probe = 9"
| "MsgType_code Status = 10"
| "MsgType_code Confirm = 11"
| "MsgType_code (OtherMsg b) = b"

definition MsgType_all :: "MsgType list" where
  "MsgType_all = [Hello, RegisterSource, Observation, Decision, Outcome, Ack, CoordinatorEpoch,
                  Shutdown, Ping, Probe, Status, Confirm]"

definition MsgType_of :: "byte \<Rightarrow> MsgType" where
  "MsgType_of b = (case find (\<lambda>m. MsgType_code m = b) MsgType_all of Some m \<Rightarrow> m | None \<Rightarrow> OtherMsg b)"

record Frame =
  frame_type :: MsgType
  frame_payload :: bytes

definition valid_type :: "byte \<Rightarrow> bool" where
  "valid_type t \<longleftrightarrow> t \<le> MsgType_code Confirm"

definition read_u32 :: "bytes \<Rightarrow> nat \<Rightarrow> u32" where
  "read_u32 p k = ucast (p ! k) OR push_bit 8 (ucast (p ! (k + 1))) OR
                  push_bit 16 (ucast (p ! (k + 2))) OR push_bit 24 (ucast (p ! (k + 3)))"

definition put_u32 :: "u32 \<Rightarrow> bytes" where
  "put_u32 x = [ucast (x AND 0xff), ucast (drop_bit 8 x AND 0xff),
                ucast (drop_bit 16 x AND 0xff), ucast (drop_bit 24 x AND 0xff)]"

text \<open>\<open>encode_frame\<close>; \<open>Inl\<close> is the message of the \<open>std::runtime_error\<close> it throws.\<close>

definition frame_body :: "MsgType \<Rightarrow> bytes \<Rightarrow> u32 \<Rightarrow> bytes" where
  "frame_body t payload version =
     put_u32 kFrameMagic @ put_u32 version @ [MsgType_code t] @
     put_u32 (of_nat (length payload)) @ payload"

definition encode_frame :: "MsgType \<Rightarrow> bytes \<Rightarrow> u32 \<Rightarrow> string + bytes" where
  "encode_frame t payload version =
     (if length payload > unat kMaxFramePayload then Inl ''frame payload exceeds cap''
      else if \<not> valid_type (MsgType_code t) then Inl ''invalid message type''
      else let out = frame_body t payload version in Inr (out @ put_u32 (crc32 out)))"

text \<open>\<open>decode_frame\<close>: the frame at the front of the buffer and the number of bytes it occupies.\<close>

definition decode_frame :: "bytes \<Rightarrow> string + Frame \<times> nat" where
  "decode_frame data =
     (if length data < kHeaderLen + 4 then Inl ''truncated frame header''
      else if read_u32 data 0 \<noteq> kFrameMagic then Inl ''bad frame magic''
      else if read_u32 data 4 \<noteq> kProtocolVersion then Inl ''unknown protocol version''
      else if \<not> valid_type (data ! 8) then Inl ''unknown message type''
      else let plen = read_u32 data 9 in
        if plen > kMaxFramePayload then Inl ''oversized frame''
        else let total = kHeaderLen + unat plen + 4 in
          if length data < total then Inl ''truncated frame''
          else if read_u32 data (kHeaderLen + unat plen) \<noteq> crc32 (take (kHeaderLen + unat plen) data)
          then Inl ''frame checksum mismatch''
          else Inr (\<lparr>frame_type = MsgType_of (data ! 8),
                     frame_payload = take (unat plen) (drop kHeaderLen data)\<rparr>, total))"

section \<open>Frame lemmas\<close>

lemma put_u32_le: "put_u32 x = le_bytes 4 x"
  by (simp add: put_u32_def le_bytes_def upt_rec)

lemma length_put_u32 [simp]: "length (put_u32 x) = 4"
  by (simp add: put_u32_def)

lemma read_u32_le: "k + 4 \<le> length p \<Longrightarrow> read_u32 p k = le_word (take 4 (drop k p))"
proof -
  assume "k + 4 \<le> length p"
  then have "take 4 (drop k p) = [p ! k, p ! (k + 1), p ! (k + 2), p ! (k + 3)]"
    by (intro nth_equalityI) (auto simp: nth_Cons' less_Suc_eq numeral_eq_Suc)
  then show ?thesis
    by (simp add: read_u32_def le_word_horner push_bit_or)
qed

lemma read_put_u32:
  "length a = k \<Longrightarrow> read_u32 (a @ put_u32 x @ b) k = x"
  using le_word_bytes [of 4 x] by (simp add: read_u32_le put_u32_le take_bit_word_eq_self)

lemma put_read_u32:
  "k + 4 \<le> length p \<Longrightarrow> put_u32 (read_u32 p k) = take 4 (drop k p)"
  using le_bytes_word [where ?'a = 32, of "take 4 (drop k p)"] by (simp add: read_u32_le put_u32_le)

lemma MsgType_code_of [simp]: "MsgType_code (MsgType_of b) = b"
  by (auto simp: MsgType_of_def find_Some_iff split: option.split)

lemma MsgType_of_code: "m \<in> set MsgType_all \<Longrightarrow> MsgType_of (MsgType_code m) = m"
  by (auto simp: MsgType_all_def MsgType_of_def)

lemma valid_type_named: "m \<in> set MsgType_all \<Longrightarrow> valid_type (MsgType_code m)"
  by (auto simp: MsgType_all_def valid_type_def)

lemma length_frame_body [simp]: "length (frame_body t p v) = kHeaderLen + length p"
  by (simp add: frame_body_def kHeaderLen_def)


lemma bytes_split_frame:
  assumes "kHeaderLen + n + 4 \<le> length data"
  shows "data = (take 4 data @ take 4 (drop 4 data) @ [data ! 8] @ take 4 (drop 9 data) @ take n (drop kHeaderLen data))
                @ take 4 (drop (kHeaderLen + n) data) @ drop (kHeaderLen + n + 4) data"
proof -
  have cut: "drop k data = take m (drop k data) @ drop (k + m) data" for k m
    by (metis append_take_drop_id drop_drop add.commute)
  have "drop 8 data = [data ! 8] @ drop 9 data"
    using assms Cons_nth_drop_Suc [of 8 data] by (simp add: kHeaderLen_def)
  then show ?thesis
    using cut [of 0 4] cut [of 4 4] cut [of 9 4] cut [of 13 n] cut [of "13 + n" 4]
    by (simp add: kHeaderLen_def ac_simps)
qed

lemma frame_body_take:
  assumes "length p \<le> unat kMaxFramePayload"
  shows "read_u32 (frame_body t p v @ rest) 0 = kFrameMagic"
    and "read_u32 (frame_body t p v @ rest) 4 = v"
    and "(frame_body t p v @ rest) ! 8 = MsgType_code t"
    and "unat (read_u32 (frame_body t p v @ rest) 9) = length p"
proof -
  have len: "unat (of_nat (length p) :: u32) = length p"
    using assms by (simp add: unsigned_of_nat take_bit_nat_eq_self kMaxFramePayload_def)
  show "read_u32 (frame_body t p v @ rest) 0 = kFrameMagic"
    using read_put_u32 [of "[]" 0 kFrameMagic] by (simp add: frame_body_def)
  show "read_u32 (frame_body t p v @ rest) 4 = v"
    using read_put_u32 [of "put_u32 kFrameMagic" 4 v] by (simp add: frame_body_def)
  show "(frame_body t p v @ rest) ! 8 = MsgType_code t"
    by (simp add: frame_body_def nth_append)
  show "unat (read_u32 (frame_body t p v @ rest) 9) = length p"
    using read_put_u32 [of "put_u32 kFrameMagic @ put_u32 v @ [MsgType_code t]" 9 "of_nat (length p)"] len
    by (simp add: frame_body_def)
qed

lemma drop_frame_body: "drop kHeaderLen (frame_body t p v @ rest) = p @ rest"
  by (simp add: frame_body_def kHeaderLen_def)

lemma encode_frame_Inr:
  "encode_frame t p v = Inr bs \<longleftrightarrow>
     length p \<le> unat kMaxFramePayload \<and> valid_type (MsgType_code t) \<and>
     bs = frame_body t p v @ put_u32 (crc32 (frame_body t p v))"
  by (auto simp: encode_frame_def Let_def)

lemma valid_type_iff: "valid_type b \<longleftrightarrow> b \<in> MsgType_code ` set MsgType_all"
proof -
  have "valid_type b \<longleftrightarrow> unat b \<in> set [0..<12]"
    by (auto simp: valid_type_def word_le_nat_alt)
  also have "set [0..<12] = {0, 1, 2, 3, 4, 5, 6, 7, 8, 9, 10, 11 :: nat}" by (auto simp: upt_rec)
  also have "unat b \<in> \<dots> \<longleftrightarrow> b \<in> {0, 1, 2, 3, 4, 5, 6, 7, 8, 9, 10, 11}"
    by (simp add: word_unat_eq_iff)
  finally show ?thesis by (simp add: MsgType_all_def)
qed

lemma MsgType_of_valid: "valid_type b \<Longrightarrow> MsgType_of b \<in> set MsgType_all"
  by (auto simp: valid_type_iff MsgType_of_code)


lemma decode_encode_frame:
  assumes "encode_frame t p kProtocolVersion = Inr bs" "t \<in> set MsgType_all"
  shows "decode_frame (bs @ rest) = Inr (\<lparr>frame_type = t, frame_payload = p\<rparr>, length bs)"
proof -
  let ?b = "frame_body t p kProtocolVersion"
  from assms(1) have cap: "length p \<le> unat kMaxFramePayload" and v: "valid_type (MsgType_code t)"
    and bs: "bs = ?b @ put_u32 (crc32 ?b)"
    by (auto simp: encode_frame_Inr)
  note hdr = frame_body_take [OF cap, of t kProtocolVersion "put_u32 (crc32 ?b) @ rest"]
  have "\<not> read_u32 (?b @ put_u32 (crc32 ?b) @ rest) 9 > kMaxFramePayload"
    using hdr(4) cap by (simp add: word_less_nat_alt)
  moreover have "read_u32 (?b @ put_u32 (crc32 ?b) @ rest) (kHeaderLen + length p) = crc32 ?b"
    by (rule read_put_u32) simp
  ultimately show ?thesis
    using hdr v assms(2)
    by (simp add: bs decode_frame_def Let_def drop_frame_body drop_frame_body [where rest = "[]", simplified] MsgType_of_code)
qed

text \<open>Strictness: whatever the decoder accepts is byte for byte what the encoder writes.\<close>

lemma decode_frame_strict:
  assumes "decode_frame data = Inr (f, n)"
  shows "encode_frame (frame_type f) (frame_payload f) kProtocolVersion = Inr (take n data)"
    and "n \<le> length data" and "frame_type f \<in> set MsgType_all"
    and "n = kHeaderLen + unat (read_u32 data 9) + 4"
proof -
  define m where "m = unat (read_u32 data 9)"
  from assms have magic: "read_u32 data 0 = kFrameMagic" and ver: "read_u32 data 4 = kProtocolVersion"
    and ty: "valid_type (data ! 8)" and cap: "\<not> read_u32 data 9 > kMaxFramePayload"
    and n: "n = kHeaderLen + m + 4" and len: "n \<le> length data"
    and crc: "read_u32 data (kHeaderLen + m) = crc32 (take (kHeaderLen + m) data)"
    and f: "f = \<lparr>frame_type = MsgType_of (data ! 8), frame_payload = take m (drop kHeaderLen data)\<rparr>"
    by (auto simp: decode_frame_def Let_def m_def split: if_splits)
  have lenp: "length (frame_payload f) = m" using f n len by simp
  have body: "take (kHeaderLen + m) data = frame_body (frame_type f) (frame_payload f) kProtocolVersion"
  proof -
    have "put_u32 (of_nat m) = take 4 (drop 9 data)"
      using put_read_u32 [of 9 data] n len by (simp add: m_def kHeaderLen_def)
    moreover have "put_u32 kFrameMagic = take 4 data" "put_u32 kProtocolVersion = take 4 (drop 4 data)"
      using put_read_u32 [of 0 data] put_read_u32 [of 4 data] magic ver n len by (simp_all add: kHeaderLen_def)
    ultimately have "frame_body (frame_type f) (frame_payload f) kProtocolVersion =
        take 4 data @ take 4 (drop 4 data) @ [data ! 8] @ take 4 (drop 9 data) @ take m (drop kHeaderLen data)"
      using lenp f by (simp add: frame_body_def)
    then show ?thesis
      using bytes_split_frame [of m data] n len
      by (metis append.assoc append_eq_conv_conj lenp length_frame_body)
  qed
  have "take n data = take (kHeaderLen + m) data @ take 4 (drop (kHeaderLen + m) data)"
    using n by (simp add: take_add)
  also have "take 4 (drop (kHeaderLen + m) data) = put_u32 (crc32 (take (kHeaderLen + m) data))"
    using put_read_u32 [of "kHeaderLen + m" data] crc n len by simp
  finally show "encode_frame (frame_type f) (frame_payload f) kProtocolVersion = Inr (take n data)"
    using body lenp cap ty f by (simp add: encode_frame_Inr m_def word_le_nat_alt not_less)
  show "n \<le> length data" "frame_type f \<in> set MsgType_all" "n = kHeaderLen + unat (read_u32 data 9) + 4"
    using len f ty n by (simp_all add: MsgType_of_valid m_def)
qed


text \<open>A damaged byte outside the length field is always noticed.\<close>

lemma decode_frame_damaged:
  assumes enc: "encode_frame t p kProtocolVersion = Inr bs"
    and k: "k < length bs" "k \<notin> {9..12}" and b: "b \<noteq> bs ! k"
  shows "\<exists>e. decode_frame (bs[k := b]) = Inl e"
proof (rule ccontr)
  assume "\<nexists>e. decode_frame (bs[k := b]) = Inl e"
  then obtain f n where dec: "decode_frame (bs[k := b]) = Inr (f, n)" by (metis sumE surj_pair)
  from enc have cap: "length p \<le> unat kMaxFramePayload"
    and bs: "bs = frame_body t p kProtocolVersion @ put_u32 (crc32 (frame_body t p kProtocolVersion))"
    by (auto simp: encode_frame_Inr)
  define body where "body = frame_body t p kProtocolVersion"
  have lbs: "length bs = kHeaderLen + length p + 4" by (simp add: bs)
  have "read_u32 (bs[k := b]) 9 = read_u32 bs 9"
    using k by (subgoal_tac "k \<noteq> 9 \<and> k \<noteq> 10 \<and> k \<noteq> 11 \<and> k \<noteq> 12") (simp add: read_u32_def, auto)
  moreover have "unat (read_u32 bs 9) = length p" unfolding bs by (rule frame_body_take(4) [OF cap])
  ultimately have n: "n = length bs" using decode_frame_strict(4) [OF dec] lbs by simp
  define body' where "body' = frame_body (frame_type f) (frame_payload f) kProtocolVersion"
  from decode_frame_strict(1) [OF dec] n have bs': "bs[k := b] = body' @ put_u32 (crc32 body')"
    by (simp add: encode_frame_Inr body'_def)
  have len: "length body' = length body"
    using arg_cong [OF bs', of length] lbs by (simp add: body_def)
  show False
  proof (cases "k < length body")
    case True
    then have "body' = body[k := b]" and crc: "put_u32 (crc32 body') = put_u32 (crc32 body)"
      using bs' len by (simp_all add: bs body_def [symmetric] list_update_append1)
    moreover have "crc32 body' = crc32 body"
      using crc read_put_u32 [of "[]" 0 _ "[]"] by (metis append_Nil append_Nil2 list.size(3))
    ultimately have "crc32 (take k body @ b # drop (Suc k) body) = crc32 (take k body @ (body ! k) # drop (Suc k) body)"
      using True by (simp add: upd_conv_take_nth_drop id_take_nth_drop [symmetric])
    then have "b = body ! k" by (simp add: crc32_one_byte)
    then show False using b True by (simp add: bs body_def nth_append)
  next
    case False
    then have "body' = body"
      using bs' len by (simp add: bs body_def [symmetric] list_update_append split: if_splits)
    then have "bs[k := b] = bs" using bs' by (simp add: bs body_def)
    then show False using b k by (metis nth_list_update_eq)
  qed
qed


section \<open>Transport\<close>

text \<open>
  What \<open>::recv\<close> and \<open>::send\<close> will do, call by call: bytes that have arrived (at most the
  requested number is handed over, the rest stays), an orderly close, an error; and for a
  send, how many bytes the system takes. An exhausted list is a peer that has closed.
\<close>

datatype net_in = Arrived bytes | Closed_in | Error_in
datatype net_out = Taken nat | Error_out

record TcpSocket =
  sock_raw :: u64
  sock_ok :: bool
  inbound :: "net_in list"
  outbound :: "net_out list"
  wire :: bytes

fun os_recv :: "nat \<Rightarrow> net_in list \<Rightarrow> bytes option \<times> net_in list" where
  "os_recv n [] = (Some [], [])"
| "os_recv n (Arrived bs # es) =
     (if length bs \<le> n then (Some bs, es) else (Some (take n bs), Arrived (drop n bs) # es))"
| "os_recv n (Closed_in # es) = (Some [], Closed_in # es)"
| "os_recv n (Error_in # es) = (None, es)"

text \<open>The loop of \<open>recv_exact\<close>: \<open>need\<close> is \<open>n - got\<close>.\<close>

function recv_loop :: "nat \<Rightarrow> net_in list \<Rightarrow> bytes option \<times> net_in list" where
  "recv_loop need es =
     (if need = 0 then (Some [], es)
      else case os_recv need es of
        (None, es') \<Rightarrow> (None, es')
      | (Some bs, es') \<Rightarrow>
          if bs = [] then (None, es')
          else case recv_loop (need - length bs) es' of
            (None, es'') \<Rightarrow> (None, es'')
          | (Some bs', es'') \<Rightarrow> (Some (bs @ bs'), es''))"
  by auto
termination
  by (relation "measure fst") auto

declare recv_loop.simps [simp del]

definition recv_exact :: "TcpSocket \<Rightarrow> nat \<Rightarrow> bytes option \<times> TcpSocket" where
  "recv_exact s n =
     (if \<not> sock_ok s then (None, s)
      else case recv_loop n (inbound s) of (r, es) \<Rightarrow> (r, s\<lparr>inbound := es\<rparr>))"

text \<open>The loop of \<open>send_all\<close>; the second component is what reached the wire.\<close>

fun send_loop :: "bytes \<Rightarrow> net_out list \<Rightarrow> bool \<times> bytes \<times> net_out list" where
  "send_loop [] es = (True, [], es)"
| "send_loop (b # bs) [] = (False, [], [])"
| "send_loop (b # bs) (Error_out # es) = (False, [], es)"
| "send_loop (b # bs) (Taken k # es) =
     (if k = 0 then (False, [], es)
      else case send_loop (drop k (b # bs)) es of
        (ok, out, es') \<Rightarrow> (ok, take k (b # bs) @ out, es'))"

definition send_all :: "TcpSocket \<Rightarrow> bytes \<Rightarrow> bool \<times> TcpSocket" where
  "send_all s bs =
     (if \<not> sock_ok s then (False, s)
      else case send_loop bs (outbound s) of
        (ok, out, es) \<Rightarrow> (ok, s\<lparr>outbound := es, wire := wire s @ out\<rparr>))"

definition assign_socket :: "TcpSocket \<Rightarrow> u64 \<Rightarrow> bool \<times> TcpSocket" where
  "assign_socket s raw = (raw \<noteq> 0, s\<lparr>sock_raw := raw, sock_ok := raw \<noteq> 0\<rparr>)"

definition socket_valid :: "TcpSocket \<Rightarrow> bool" where
  "socket_valid s \<longleftrightarrow> sock_ok s \<and> sock_raw s \<noteq> 0"

definition close_socket :: "TcpSocket \<Rightarrow> TcpSocket" where
  "close_socket s = s\<lparr>sock_raw := 0, sock_ok := False\<rparr>"

text \<open>\<open>send_frame\<close>: the exception of \<open>encode_frame\<close> passes through.\<close>

definition send_frame :: "TcpSocket \<Rightarrow> Frame \<Rightarrow> string + bool \<times> TcpSocket" where
  "send_frame s f =
     (case encode_frame (frame_type f) (frame_payload f) kProtocolVersion of
        Inl e \<Rightarrow> Inl e
      | Inr bs \<Rightarrow> Inr (send_all s bs))"

definition recv_frame :: "TcpSocket \<Rightarrow> (string + Frame) \<times> TcpSocket" where
  "recv_frame s =
     (case recv_exact s kHeaderLen of
        (None, s1) \<Rightarrow> (Inl ''peer closed reading header'', s1)
      | (Some hdr, s1) \<Rightarrow>
          let magic = read_u32 hdr 0; version = read_u32 hdr 4; ty = hdr ! 8; plen = read_u32 hdr 9 in
          if magic \<noteq> kFrameMagic then (Inl ''bad frame magic'', s1)
          else if version \<noteq> kProtocolVersion then (Inl ''unknown protocol version'', s1)
          else if \<not> valid_type ty then (Inl ''unknown message type'', s1)
          else if plen > kMaxFramePayload then (Inl ''oversized frame'', s1)
          else case (if plen > 0 then recv_exact s1 (unat plen) else (Some [], s1)) of
            (None, s2) \<Rightarrow> (Inl ''truncated frame payload'', s2)
          | (Some payload, s2) \<Rightarrow>
              (case recv_exact s2 4 of
                 (None, s3) \<Rightarrow> (Inl ''truncated frame checksum'', s3)
               | (Some crcbuf, s3) \<Rightarrow>
                   if read_u32 crcbuf 0 \<noteq> crc32 (hdr @ payload) then (Inl ''frame checksum mismatch'', s3)
                   else (Inr \<lparr>frame_type = MsgType_of ty, frame_payload = payload\<rparr>, s3)))"

text \<open>
  All that matters of the input is the bytes it delivers before it ends, not how they were cut.
\<close>

fun delivered :: "net_in list \<Rightarrow> bytes" where
  "delivered (Arrived bs # es) = (if bs = [] then [] else bs @ delivered es)"
| "delivered _ = []"

lemma os_recv_data:
  "0 < n \<Longrightarrow> os_recv n es = (Some bs, es') \<Longrightarrow> bs \<noteq> [] \<Longrightarrow>
   delivered es = bs @ delivered es' \<and> length bs \<le> n"
  by (cases "(n, es)" rule: os_recv.cases) (auto split: if_splits)

lemma os_recv_end: "0 < n \<Longrightarrow> os_recv n es = (r, es') \<Longrightarrow> r = None \<or> r = Some [] \<Longrightarrow> delivered es = []"
  by (cases "(n, es)" rule: os_recv.cases) (auto split: if_splits)

lemma recv_loop_spec:
  "if n \<le> length (delivered es)
   then \<exists>es'. recv_loop n es = (Some (take n (delivered es)), es') \<and> delivered es' = drop n (delivered es)
   else fst (recv_loop n es) = None"
proof (induction n es rule: recv_loop.induct)
  case (1 need es)
  show ?case
  proof (cases "need = 0")
    case True then show ?thesis by (simp add: recv_loop.simps)
  next
    case False
    obtain r es1 where os: "os_recv need es = (r, es1)" by (cases "os_recv need es")
    show ?thesis
    proof (cases "r = None \<or> r = Some []")
      case True
      then have "delivered es = []" using os_recv_end [OF _ os] False by simp
      then show ?thesis using True False os by (auto simp: recv_loop.simps [of need es])
    next
      case r: False
      then obtain bs where bs: "r = Some bs" "bs \<noteq> []" by auto
      then have d: "delivered es = bs @ delivered es1" "length bs \<le> need"
        using os_recv_data [of need es bs es1] False os by auto
      show ?thesis
        using 1 [OF False os [symmetric], of bs] bs d False os
        by (auto simp: recv_loop.simps [of need es] split: if_splits prod.splits)
    qed
  qed
qed


abbreviation stream :: "TcpSocket \<Rightarrow> bytes" where
  "stream s \<equiv> delivered (inbound s)"

lemma recv_exact_some:
  assumes "sock_ok s" "n \<le> length (stream s)"
  obtains s' where "recv_exact s n = (Some (take n (stream s)), s')" "stream s' = drop n (stream s)" "sock_ok s'"
  using recv_loop_spec [of n "inbound s"] assms by (auto simp: recv_exact_def)

lemma recv_exact_none:
  assumes "\<not> n \<le> length (stream s)"
  obtains s' where "recv_exact s n = (None, s')"
proof -
  have "fst (recv_exact s n) = None"
    using recv_loop_spec [of n "inbound s"] assms by (auto simp: recv_exact_def split: prod.splits)
  then show thesis using that by (metis prod.collapse)
qed

lemma recv_exact_dest:
  assumes "recv_exact s n = (Some bs, s')"
  shows "sock_ok s \<and> n \<le> length (stream s) \<and> bs = take n (stream s) \<and> stream s' = drop n (stream s) \<and> sock_ok s'"
proof -
  have ok: "sock_ok s" using assms by (auto simp: recv_exact_def split: if_splits)
  moreover have len: "n \<le> length (stream s)"
    using recv_exact_none [of n s] assms by (metis option.distinct(1) prod.inject)
  ultimately show ?thesis using recv_exact_some [OF ok len] assms by (metis option.inject prod.inject)
qed

lemma send_loop_prefix:
  "send_loop bs es = (ok, out, es') \<Longrightarrow> \<exists>r. bs = out @ r \<and> (ok \<longleftrightarrow> r = [])"
proof (induction bs es arbitrary: ok out es' rule: send_loop.induct)
  case (4 b bs k es)
  show ?case
  proof (cases "k = 0")
    case True then show ?thesis using 4 by auto
  next
    case False
    obtain ok1 out1 es1 where r: "send_loop (drop k (b # bs)) es = (ok1, out1, es1)"
      by (cases "send_loop (drop k (b # bs)) es")
    then obtain r where "drop k (b # bs) = out1 @ r" "ok1 \<longleftrightarrow> r = []" using 4(1) [OF False r] by blast
    then have "b # bs = (take k (b # bs) @ out1) @ r" by (metis append_take_drop_id append.assoc)
    moreover have "out = take k (b # bs) @ out1" "ok = ok1" using 4(2) False r by (simp_all del: take_Cons drop_Cons)
    ultimately show ?thesis using \<open>ok1 \<longleftrightarrow> r = []\<close> by blast
  qed
qed auto

lemma read_u32_take: "k + 4 \<le> n \<Longrightarrow> read_u32 (take n d) k = read_u32 d k"
  by (simp add: read_u32_def)

lemma recv_frame_of_decode:
  assumes ok: "sock_ok s" and dec: "decode_frame (stream s) = Inr (f, n)"
  shows "\<exists>s'. recv_frame s = (Inr f, s') \<and> stream s' = drop n (stream s) \<and> sock_ok s'"
proof -
  let ?d = "stream s"
  define m where "m = unat (read_u32 ?d 9)"
  from dec have len: "kHeaderLen + m + 4 \<le> length ?d"
    and hdr: "read_u32 ?d 0 = kFrameMagic" "read_u32 ?d 4 = kProtocolVersion" "valid_type (?d ! 8)"
             "\<not> read_u32 ?d 9 > kMaxFramePayload"
    and crc: "read_u32 ?d (kHeaderLen + m) = crc32 (take (kHeaderLen + m) ?d)"
    and n: "n = kHeaderLen + m + 4"
    and f: "f = \<lparr>frame_type = MsgType_of (?d ! 8), frame_payload = take m (drop kHeaderLen ?d)\<rparr>"
    by (auto simp: decode_frame_def Let_def m_def split: if_splits)
  obtain s1 where s1: "recv_exact s kHeaderLen = (Some (take kHeaderLen ?d), s1)"
      "stream s1 = drop kHeaderLen ?d" "sock_ok s1"
    using recv_exact_some [of s kHeaderLen] ok len by auto
  obtain s2 where s2: "recv_exact s1 m = (Some (take m (drop kHeaderLen ?d)), s2)"
      "stream s2 = drop (kHeaderLen + m) ?d" "sock_ok s2"
    using recv_exact_some [of s1 m] s1 len by (auto simp: add.commute le_diff_conv2)
  obtain s3 where s3: "recv_exact s2 4 = (Some (take 4 (drop (kHeaderLen + m) ?d)), s3)"
      "stream s3 = drop (kHeaderLen + m + 4) ?d" "sock_ok s3"
    using recv_exact_some [of s2 4] s2 len by (auto simp: add.commute le_diff_conv2)
  have pay: "(if read_u32 ?d 9 > 0 then recv_exact s1 m else (Some [], s1)) =
      (Some (take m (drop kHeaderLen ?d)), s2)"
    using s2(1) s1(3) by (auto simp: word_gt_0 m_def recv_exact_def recv_loop.simps split: if_splits)
  have full: "take kHeaderLen ?d @ take m (drop kHeaderLen ?d) = take (kHeaderLen + m) ?d"
    by (simp add: take_add)
  have c: "read_u32 (take 4 (drop (kHeaderLen + m) ?d)) 0 = read_u32 ?d (kHeaderLen + m)"
    using len by (simp add: read_u32_def add.commute)
  have h: "read_u32 (take kHeaderLen ?d) k = read_u32 ?d k" if "k + 4 \<le> 13" for k
    using that by (simp add: read_u32_take kHeaderLen_def)
  have t: "take kHeaderLen ?d ! 8 = ?d ! 8" by (simp add: kHeaderLen_def)
  show ?thesis
    unfolding recv_frame_def s1(1) prod.case option.case Let_def t h[of 0, simplified] h[of 4, simplified] h[of 9, simplified] m_def [symmetric] pay s3(1)
    using hdr full c crc s3 f n by simp
qed

lemma decode_of_recv_frame:
  assumes "recv_frame s = (Inr f, s')"
  shows "\<exists>n. decode_frame (stream s) = Inr (f, n)"
proof -
  let ?d = "stream s"
  define m where "m = unat (read_u32 ?d 9)"
  from assms obtain hdr s1 where r1: "recv_exact s kHeaderLen = (Some hdr, s1)"
    by (auto simp: recv_frame_def split: prod.splits option.splits)
  from recv_exact_dest [OF r1] have len1: "kHeaderLen \<le> length ?d" and hdr: "hdr = take kHeaderLen ?d"
    and st1: "stream s1 = drop kHeaderLen ?d" by auto
  have h: "read_u32 hdr k = read_u32 ?d k" if "k + 4 \<le> 13" for k
    using that hdr by (simp add: read_u32_take kHeaderLen_def)
  have t: "hdr ! 8 = ?d ! 8" by (simp add: hdr kHeaderLen_def)
  note unf = assms [unfolded recv_frame_def r1 prod.case option.case Let_def t h [of 0, simplified]
      h [of 4, simplified] h [of 9, simplified]]
  from unf have ok: "read_u32 ?d 0 = kFrameMagic" "read_u32 ?d 4 = kProtocolVersion" "valid_type (?d ! 8)"
      "\<not> read_u32 ?d 9 > kMaxFramePayload"
    by (auto split: if_splits)
  with unf obtain payload s2 crcbuf s3 where
      r2: "(if read_u32 ?d 9 > 0 then recv_exact s1 m else (Some [], s1)) = (Some payload, s2)"
      and r3: "recv_exact s2 4 = (Some crcbuf, s3)"
      and crc: "read_u32 crcbuf 0 = crc32 (hdr @ payload)"
      and f: "f = \<lparr>frame_type = MsgType_of (?d ! 8), frame_payload = payload\<rparr>"
    by (auto simp: m_def split: prod.splits option.splits if_splits)
  have p: "m \<le> length ?d - kHeaderLen \<and> payload = take m (drop kHeaderLen ?d) \<and> stream s2 = drop (kHeaderLen + m) ?d"
  proof (cases "read_u32 ?d 9 > 0")
    case True
    then show ?thesis using r2 recv_exact_dest [of s1 m payload s2] st1 by (simp add: add.commute)
  next
    case False
    then show ?thesis using r2 st1 by (simp add: m_def word_gt_0)
  qed
  from recv_exact_dest [OF r3] p have len: "kHeaderLen + m + 4 \<le> length ?d"
    and cb: "crcbuf = take 4 (drop (kHeaderLen + m) ?d)" using len1 by auto
  have "read_u32 crcbuf 0 = read_u32 ?d (kHeaderLen + m)"
    using len cb by (simp add: read_u32_def add.commute)
  moreover have "hdr @ payload = take (kHeaderLen + m) ?d"
    using p hdr by (simp add: take_add)
  ultimately have "decode_frame ?d = Inr (f, kHeaderLen + m + 4)"
    using ok crc len f p by (simp add: decode_frame_def Let_def m_def [symmetric])
  then show ?thesis by blast
qed


lemma send_frame_true:
  assumes "send_frame s f = Inr (True, s')"
  obtains bs where "encode_frame (frame_type f) (frame_payload f) kProtocolVersion = Inr bs"
    and "wire s' = wire s @ bs"
proof -
  from assms obtain bs where enc: "encode_frame (frame_type f) (frame_payload f) kProtocolVersion = Inr bs"
    and snd: "send_all s bs = (True, s')"
    by (auto simp: send_frame_def split: sum.splits)
  from snd obtain out es where "send_loop bs (outbound s) = (True, out, es)" "wire s' = wire s @ out"
    by (auto simp: send_all_def split: if_splits prod.splits)
  with send_loop_prefix have "wire s' = wire s @ bs" by fastforce
  with enc that show thesis by blast
qed

section \<open>A frame to try the properties on\<close>

definition ping_bytes :: bytes where
  "ping_bytes = frame_body Ping [7] kProtocolVersion @ put_u32 (crc32 (frame_body Ping [7] kProtocolVersion))"

lemma encode_ping: "encode_frame Ping [7] kProtocolVersion = Inr ping_bytes"
  by (simp add: encode_frame_Inr ping_bytes_def kMaxFramePayload_def valid_type_def)

lemma length_ping: "length ping_bytes = 18"
  by (simp add: ping_bytes_def kHeaderLen_def)

lemma ping_not_nil: "ping_bytes \<noteq> []" "take 10 ping_bytes \<noteq> []" "drop 10 ping_bytes \<noteq> []"
  using length_ping by auto

lemma send_ping:
  "send_loop ping_bytes [Taken 10, Taken 8] = (True, ping_bytes, [])"
proof -
  have 1: "send_loop bs (Taken k # es) = (case send_loop (drop k bs) es of (ok, out, es') \<Rightarrow> (ok, take k bs @ out, es'))"
    if "bs \<noteq> []" "k \<noteq> 0" for bs k es
    using that by (cases bs) auto
  show ?thesis using length_ping by (simp add: 1 ping_not_nil)
qed

section \<open>Properties of the transport\<close>

text \<open>C6. A frame that \<open>send_frame\<close> reports as sent is the frame that \<open>recv_frame\<close> returns,
  however the network cuts the bytes into chunks, and it consumes exactly the bytes sent.\<close>

theorem sent_frame_is_received:
  assumes "send_frame a f = Inr (True, a')" "frame_type f \<in> set MsgType_all"
    and "sock_ok b" "wire a @ stream b = wire a' @ rest"
  shows "\<exists>b'. recv_frame b = (Inr f, b') \<and> stream b' = rest \<and> sock_ok b'"
proof -
  from send_frame_true [OF assms(1)] obtain bs where
    enc: "encode_frame (frame_type f) (frame_payload f) kProtocolVersion = Inr bs" and w: "wire a' = wire a @ bs" .
  from w assms(4) have st: "stream b = bs @ rest" by simp
  from decode_encode_frame [OF enc assms(2)] have "decode_frame (stream b) = Inr (f, length bs)" by (simp add: st)
  from recv_frame_of_decode [OF assms(3) this] show ?thesis by (simp add: st)
qed

lemma sent_frame_is_received_witness:
  "\<exists>b'. recv_frame \<lparr>sock_raw = 1, sock_ok = True, inbound = [Arrived (take 3 ping_bytes), Arrived (drop 3 ping_bytes @ [1])],
                    outbound = [], wire = []\<rparr> = (Inr \<lparr>frame_type = Ping, frame_payload = [7]\<rparr>, b') \<and>
        stream b' = [1] \<and> sock_ok b'"
proof (rule sent_frame_is_received)
  show "send_frame \<lparr>sock_raw = 2, sock_ok = True, inbound = [], outbound = [Taken 10, Taken 8], wire = []\<rparr>
          \<lparr>frame_type = Ping, frame_payload = [7]\<rparr> =
        Inr (True, \<lparr>sock_raw = 2, sock_ok = True, inbound = [], outbound = [], wire = ping_bytes\<rparr>)"
    by (simp add: send_frame_def encode_ping send_all_def send_ping)
qed (use length_ping in \<open>auto simp: MsgType_all_def\<close>)

text \<open>The streaming receiver and the strict buffer decoder accept the same frames.\<close>

theorem recv_frame_iff_decode_frame:
  "sock_ok s \<Longrightarrow> (\<exists>s'. recv_frame s = (Inr f, s')) \<longleftrightarrow> (\<exists>n. decode_frame (stream s) = Inr (f, n))"
  using recv_frame_of_decode decode_of_recv_frame by blast

lemma recv_frame_iff_decode_frame_witness:
  "(\<exists>s'. recv_frame \<lparr>sock_raw = 1, sock_ok = True, inbound = [Arrived ping_bytes], outbound = [], wire = []\<rparr>
       = (Inr \<lparr>frame_type = Ping, frame_payload = [7]\<rparr>, s'))"
  by (subst recv_frame_iff_decode_frame)
     (use decode_encode_frame [OF encode_ping, of "[]"] ping_not_nil in \<open>auto simp: MsgType_all_def\<close>)

text \<open>C37. \<open>decode_frame\<close> is strict: it accepts a buffer exactly when the buffer starts with the
  encoding of a frame with a known type, and it returns that frame and its length.\<close>

theorem decode_frame_iff_encoded:
  "decode_frame data = Inr (f, n) \<longleftrightarrow>
   (\<exists>bs rest. encode_frame (frame_type f) (frame_payload f) kProtocolVersion = Inr bs \<and>
      frame_type f \<in> set MsgType_all \<and> data = bs @ rest \<and> n = length bs)"
proof
  assume d: "decode_frame data = Inr (f, n)"
  note decode_frame_strict [OF d]
  then show "\<exists>bs rest. encode_frame (frame_type f) (frame_payload f) kProtocolVersion = Inr bs \<and>
      frame_type f \<in> set MsgType_all \<and> data = bs @ rest \<and> n = length bs"
    by (intro exI [of _ "take n data"] exI [of _ "drop n data"]) simp
next
  assume "\<exists>bs rest. encode_frame (frame_type f) (frame_payload f) kProtocolVersion = Inr bs \<and>
      frame_type f \<in> set MsgType_all \<and> data = bs @ rest \<and> n = length bs"
  then show "decode_frame data = Inr (f, n)"
    using decode_encode_frame [of "frame_type f" "frame_payload f"] by auto
qed

text \<open>Changing any one byte of an encoded frame outside its length field makes it rejected.\<close>

theorem damaged_frame_rejected:
  assumes "encode_frame t p kProtocolVersion = Inr bs" "k < length bs" "k \<notin> {9..12}" "b \<noteq> bs ! k"
  shows "\<exists>e. decode_frame (bs[k := b]) = Inl e"
  by (rule decode_frame_damaged [OF assms])

lemma damaged_frame_rejected_witness:
  "\<exists>e. decode_frame (ping_bytes[13 := 8]) = Inl e"
  by (rule damaged_frame_rejected [OF encode_ping])
     (simp_all add: length_ping, simp add: ping_bytes_def frame_body_def put_u32_def)

text \<open>The table-driven checksum is the bit-by-bit polynomial division for every input.\<close>

theorem crc32_is_bitwise: "crc32 data = crc32_bitwise data"
  by (rule crc32_eq_bitwise)

end
