(* ===== verification/Server.thy ===== *)
theory Server
  imports Protocol Bin_Codec Obs_Properties
begin

text \<open>
  The coordinator of src/cli/po.cpp: \<open>serve_handle_conn\<close>, which runs in one thread per connection, and the shared
  observatory and running flag of \<open>cmd_serve\<close>. An exception of a handler leaves the thread function and ends the
  process (\<open>std::terminate\<close>); \<open>crash\<close> says which one.
\<close>

section \<open>One frame\<close>

datatype handled = Acked string | Answered bytes | Stopped

datatype crash = Bad_payload SerializationError | Bad_frame string

definition ack_of :: "IngestResult \<Rightarrow> string" where
  "ack_of res = (if \<not> ing_accepted res then ''REJECT:'' @ ing_error res else ''accepted'')"

definition decoded :: "'a reader \<Rightarrow> bytes \<Rightarrow> ('a \<Rightarrow> crash + 'b) \<Rightarrow> crash + 'b" where
  "decoded rdr payload k = (case run_reader rdr payload of Inl e \<Rightarrow> Inl (Bad_payload e) | Inr (x, r) \<Rightarrow> k x)"

definition handle_frame :: "Frame \<Rightarrow> Timestamp \<Rightarrow> Impl \<Rightarrow> crash + handled \<times> Impl" where
  "handle_frame f now I =
     (case frame_type f of
        MsgType.RegisterSource \<Rightarrow>
          decoded read_source_descriptor (frame_payload f) (\<lambda>d. Inr (Acked ''registered'', register_source d now I))
      | MsgType.CoordinatorEpoch \<Rightarrow>
          decoded r_u64 (frame_payload f) (\<lambda>e. Inr (Acked ''epoch'', set_coordinator_epoch e I))
      | MsgType.Observation \<Rightarrow>
          decoded read_observation (frame_payload f)
            (\<lambda>ob. case ingest ob I of (res, I') \<Rightarrow> Inr (Acked (ack_of res), I'))
      | MsgType.Decision \<Rightarrow>
          decoded read_decision (frame_payload f)
            (\<lambda>d. case ingest_decision d I of (res, I') \<Rightarrow> Inr (Acked (ack_of res), I'))
      | MsgType.Outcome \<Rightarrow>
          decoded read_outcome (frame_payload f)
            (\<lambda>x. case ingest_outcome x I of (res, I') \<Rightarrow> Inr (Acked (ack_of res), I'))
      | MsgType.Status \<Rightarrow>
          decoded r_u64 (frame_payload f) (\<lambda>want.
            case w_all [w_u64 (coordinator_epoch I), w_u64 (current_source_generation (Id want) I)] [] of
              Inl e \<Rightarrow> Inl (Bad_payload e)
            | Inr bs \<Rightarrow> Inr (Answered bs, I))
      | MsgType.Shutdown \<Rightarrow> Inr (Stopped, I)
      | _ \<Rightarrow> Inr (Acked ''ok'', I))"

text \<open>The frame sent back; the result of \<open>send_frame\<close> is ignored, its exception is not caught.\<close>

definition reply :: "handled \<Rightarrow> TcpSocket \<Rightarrow> crash + TcpSocket" where
  "reply h s =
     (let send = (\<lambda>t payload. case send_frame s \<lparr>frame_type = t, frame_payload = payload\<rparr> of
                    Inl e \<Rightarrow> Inl (Bad_frame e) | Inr (ok, s') \<Rightarrow> Inr s')
      in case h of
           Acked text \<Rightarrow> (case w_str text [] of Inl e \<Rightarrow> Inl (Bad_payload e) | Inr bs \<Rightarrow> send MsgType.Ack bs)
         | Answered bs \<Rightarrow> send MsgType.Status bs
         | Stopped \<Rightarrow> Inr s)"

definition serve_frame :: "Frame \<Rightarrow> Timestamp \<Rightarrow> TcpSocket \<Rightarrow> Impl \<Rightarrow> crash + bool \<times> TcpSocket \<times> Impl" where
  "serve_frame f now s I =
     (case handle_frame f now I of
        Inl c \<Rightarrow> Inl c
      | Inr (h, I') \<Rightarrow> (case reply h s of Inl c \<Rightarrow> Inl c | Inr s' \<Rightarrow> Inr (h \<noteq> Stopped, s', I')))"

section \<open>One connection\<close>

lemma recv_frame_shrinks:
  assumes "recv_frame s = (Inr f, s1)"
  shows "sock_ok s1 \<and> length (stream s1) < length (stream s)"
proof -
  obtain n where n: "decode_frame (stream s) = Inr (f, n)" using decode_of_recv_frame [OF assms] by blast
  have ok: "sock_ok s" using assms by (auto simp: recv_frame_def recv_exact_def split: if_splits)
  have "0 < n \<and> n \<le> length (stream s)" using n by (auto simp: decode_frame_def Let_def split: if_splits)
  then show ?thesis using recv_frame_of_decode [OF ok n] assms by auto
qed

lemma reply_keeps_input: "reply h s = Inr s' \<Longrightarrow> inbound s' = inbound s \<and> sock_ok s' = sock_ok s"
  by (auto simp: reply_def send_frame_def send_all_def Let_def split: handled.splits sum.splits prod.splits if_splits)

datatype conn_end = Peer_gone string | Shut_down | Crashed crash

text \<open>The loop, for a connection that is served alone: the end, the closed socket and the observatory.\<close>

function serve_conn :: "(nat \<Rightarrow> Timestamp) \<Rightarrow> nat \<Rightarrow> TcpSocket \<Rightarrow> Impl \<Rightarrow> conn_end \<times> TcpSocket \<times> Impl" where
  "serve_conn clock k s I =
     (case recv_frame s of
        (Inl err, s1) \<Rightarrow> (Peer_gone err, close_socket s1, I)
      | (Inr f, s1) \<Rightarrow>
          (case serve_frame f (clock k) s1 I of
             Inl c \<Rightarrow> (Crashed c, s1, I)
           | Inr (continue, s2, I') \<Rightarrow>
               if continue then serve_conn clock (Suc k) s2 I' else (Shut_down, close_socket s2, I')))"
  by pat_completeness auto
termination
  by (relation "measure (\<lambda>(clock, k, s, I). length (stream s))")
     (auto simp: serve_frame_def split: sum.splits prod.splits dest!: reply_keeps_input recv_frame_shrinks [OF sym])

declare serve_conn.simps [simp del]

section \<open>All connections\<close>

datatype phase = Checking | Receiving | Finished

record Server =
  srv_obs :: Impl
  srv_running :: bool
  srv_conns :: "(phase \<times> TcpSocket) list"
  srv_crash :: "crash option"

text \<open>
  A step of the process: the main thread accepts a connection, or the thread of one connection tests the running flag, or
  it receives a frame, handles it and replies. Each handler makes one call that changes the observatory, under its lock,
  and the sockets belong to one thread, so that such a step stands for its interleavings. A thread that is already
  waiting for a frame when another one clears the flag still handles that frame.
\<close>

inductive srv_step :: "Server \<Rightarrow> Server \<Rightarrow> bool" where
  srv_accept:
    "srv_crash S = None \<Longrightarrow> srv_running S \<Longrightarrow> srv_step S (S\<lparr>srv_conns := srv_conns S @ [(Checking, s)]\<rparr>)"
| srv_check:
    "srv_crash S = None \<Longrightarrow> i < length (srv_conns S) \<Longrightarrow> srv_conns S ! i = (Checking, s) \<Longrightarrow>
     srv_step S (S\<lparr>srv_conns := (srv_conns S)[i := if srv_running S then (Receiving, s) else (Finished, close_socket s)]\<rparr>)"
| srv_frame:
    "srv_crash S = None \<Longrightarrow> i < length (srv_conns S) \<Longrightarrow> srv_conns S ! i = (Receiving, s) \<Longrightarrow>
     recv_frame s = (Inr f, s1) \<Longrightarrow> serve_frame f now s1 (srv_obs S) = Inr (True, s2, I') \<Longrightarrow>
     srv_step S (S\<lparr>srv_obs := I', srv_conns := (srv_conns S)[i := (Checking, s2)]\<rparr>)"
| srv_stop:
    "srv_crash S = None \<Longrightarrow> i < length (srv_conns S) \<Longrightarrow> srv_conns S ! i = (Receiving, s) \<Longrightarrow>
     recv_frame s = (Inr f, s1) \<Longrightarrow> serve_frame f now s1 (srv_obs S) = Inr (False, s2, I') \<Longrightarrow>
     srv_step S (S\<lparr>srv_obs := I', srv_running := False, srv_conns := (srv_conns S)[i := (Finished, close_socket s2)]\<rparr>)"
| srv_gone:
    "srv_crash S = None \<Longrightarrow> i < length (srv_conns S) \<Longrightarrow> srv_conns S ! i = (Receiving, s) \<Longrightarrow>
     recv_frame s = (Inl err, s1) \<Longrightarrow>
     srv_step S (S\<lparr>srv_conns := (srv_conns S)[i := (Finished, close_socket s1)]\<rparr>)"
| srv_dies:
    "srv_crash S = None \<Longrightarrow> i < length (srv_conns S) \<Longrightarrow> srv_conns S ! i = (Receiving, s) \<Longrightarrow>
     recv_frame s = (Inr f, s1) \<Longrightarrow> serve_frame f now s1 (srv_obs S) = Inl c \<Longrightarrow>
     srv_step S (S\<lparr>srv_crash := Some c\<rparr>)"

inductive srv_run :: "Server \<Rightarrow> Server \<Rightarrow> bool" where
  srv_refl: "srv_run S S"
| srv_next: "srv_run S T \<Longrightarrow> srv_step T U \<Longrightarrow> srv_run S U"


inductive_cases srv_stepE: "srv_step S T"

section \<open>Frames to try the properties on\<close>

definition frame_bytes :: "MsgType \<Rightarrow> bytes \<Rightarrow> bytes" where
  "frame_bytes t payload =
     frame_body t payload kProtocolVersion @ put_u32 (crc32 (frame_body t payload kProtocolVersion))"

lemma encode_frame_bytes:
  "length payload \<le> 1000 \<Longrightarrow> t \<in> set MsgType_all \<Longrightarrow> encode_frame t payload kProtocolVersion = Inr (frame_bytes t payload)"
  by (simp add: encode_frame_Inr frame_bytes_def kMaxFramePayload_def valid_type_named)

lemma length_frame_bytes [simp]: "length (frame_bytes t payload) = 17 + length payload"
  by (simp add: frame_bytes_def kHeaderLen_def)

lemma frame_bytes_not_nil [simp]: "frame_bytes t payload \<noteq> []"
  using length_frame_bytes [of t payload] by (metis add_is_0 list.size(3) zero_neq_numeral)

lemma send_loop_one: "bs \<noteq> [] \<Longrightarrow> length bs \<le> n \<Longrightarrow> send_loop bs [Taken n] = (True, bs, [])"
  by (cases bs) auto

definition peer_with :: "bytes \<Rightarrow> TcpSocket" where
  "peer_with bs = \<lparr>sock_raw = 1, sock_ok = True, inbound = [Arrived bs], outbound = [Taken 2000], wire = []\<rparr>"

lemma peer_with_stream [simp]:
  "sock_ok (peer_with bs)" "wire (peer_with bs) = []" "inbound (peer_with bs) = [Arrived bs]" "stream (peer_with bs) = bs"
  by (simp_all add: peer_with_def)

lemma decode_frame_bytes:
  "length payload \<le> 1000 \<Longrightarrow> t \<in> set MsgType_all \<Longrightarrow>
   decode_frame (frame_bytes t payload @ rest) = Inr (\<lparr>frame_type = t, frame_payload = payload\<rparr>, 17 + length payload)"
  using decode_encode_frame [OF encode_frame_bytes, of payload t rest] by simp

lemma epoch_payload: "run_reader r_u64 (le_bytes 8 e) = Inr (e, \<lparr>br_data = le_bytes 8 e, br_pos = 8\<rparr>)"
  using le_word_bytes [of 8 e]
  by (simp add: run_reader_def r_u64_def rd_def r_take_def rd_return_def take_bit_word_eq_self)

lemma handle_epoch:
  "handle_frame \<lparr>frame_type = MsgType.CoordinatorEpoch, frame_payload = le_bytes 8 e\<rparr> now I =
     Inr (Acked ''epoch'', set_coordinator_epoch e I)"
  by (simp add: handle_frame_def decoded_def epoch_payload)

section \<open>Replies\<close>

text \<open>Replies are short, so sending them throws nothing.\<close>

lemma field_error_short: "field_error ms = Some m \<Longrightarrow> length m \<le> 64"
  by (induction ms) (auto split: Value.splits if_splits)

lemma ingest_error_short: "length (ing_error (fst (ingest ob I))) \<le> 64"
  using field_error_short [of "obs_fields ob"]
  by (simp add: ingest_def reject_def accept_def Let_def split: option.split)

lemma ingest_decision_error_short: "length (ing_error (fst (ingest_decision d I))) \<le> 64"
  by (simp add: ingest_decision_def reject_def accept_def Let_def)

lemma ingest_outcome_error_short: "length (ing_error (fst (ingest_outcome x I))) \<le> 64"
  by (simp add: ingest_outcome_def reject_def accept_def Let_def split: option.split)

lemma reply_acked:
  assumes "length text \<le> 100"
  shows "\<exists>s'. reply (Acked text) s = Inr s'"
proof -
  let ?bs = "le_bytes 4 (of_nat (length text) :: u32) @ bytes_of_string text"
  have "w_str text [] = Inr ?bs"
    using assms by (simp add: w_str_def w_all.simps w_u32_def w_raw_def)
  moreover have "encode_frame MsgType.Ack ?bs kProtocolVersion \<noteq> Inl e" for e
    using assms by (simp add: encode_frame_def Let_def kMaxFramePayload_def valid_type_def bytes_of_string_def)
  ultimately show ?thesis
    by (cases "encode_frame MsgType.Ack ?bs kProtocolVersion") (auto simp: reply_def send_frame_def split: prod.split)
qed

lemma reply_answered:
  assumes "length bs \<le> 100"
  shows "\<exists>s'. reply (Answered bs) s = Inr s'"
proof -
  have "encode_frame MsgType.Status bs kProtocolVersion \<noteq> Inl e" for e
    using assms by (simp add: encode_frame_def Let_def kMaxFramePayload_def valid_type_def)
  then show ?thesis
    by (cases "encode_frame MsgType.Status bs kProtocolVersion") (auto simp: reply_def send_frame_def split: prod.split)
qed

lemma handled_short:
  assumes "handle_frame f now I = Inr (h, J)"
  shows "case h of Acked text \<Rightarrow> length text \<le> 100 | Answered bs \<Rightarrow> length bs \<le> 100 | Stopped \<Rightarrow> True"
proof -
  have "length (ack_of (fst (ingest ob I))) \<le> 100" "length (ack_of (fst (ingest_decision d I))) \<le> 100"
    "length (ack_of (fst (ingest_outcome x I))) \<le> 100" for ob d x
    using ingest_error_short [of ob I] ingest_decision_error_short [of d I] ingest_outcome_error_short [of x I]
    by (simp_all add: ack_of_def)
  then show ?thesis
    using assms
    by (auto simp: handle_frame_def decoded_def w_all.simps w_u64_def case_prod_beta split: MsgType.splits sum.splits)
qed

section \<open>The server only runs observatory operations\<close>

lemma live_run_one: "live_step I J \<Longrightarrow> live_run I J"
  by (rule run_step [OF run_refl])

lemma handle_frame_live:
  assumes "handle_frame f now I = Inr (h, J)"
  shows "live_run I J"
proof -
  have ing: "ingest ob I = (res, J) \<Longrightarrow> live_run I J" "ingest_decision d I = (res, J) \<Longrightarrow> live_run I J"
    "ingest_outcome x I = (res, J) \<Longrightarrow> live_run I J" for ob d x res
    by (auto intro: live_run_one live_step.intros)
  have "live_run I (register_source d now I)" "live_run I (set_coordinator_epoch e I)" for d e
    by (auto intro: live_run_one live_step.intros)
  then show ?thesis
    using assms ing
    by (auto simp: handle_frame_def decoded_def split: MsgType.splits sum.splits prod.splits intro: run_refl)
qed

lemma serve_frame_live: "serve_frame f now s I = Inr (b, s', J) \<Longrightarrow> live_run I J"
  by (auto simp: serve_frame_def split: sum.splits prod.splits intro: handle_frame_live)

lemma live_run_trans: "live_run J K \<Longrightarrow> live_run I J \<Longrightarrow> live_run I K"
  by (induction rule: live_run.induct) (auto intro: run_step)

lemma srv_step_live: "srv_step S T \<Longrightarrow> live_run (srv_obs S) (srv_obs T)"
  by (induction rule: srv_step.induct) (auto intro: run_refl serve_frame_live)

lemma server_run_live: "srv_run S T \<Longrightarrow> live_run (srv_obs S) (srv_obs T)"
  by (induction rule: srv_run.induct) (auto intro: run_refl live_run_trans srv_step_live)



section \<open>Shutdown\<close>

text \<open>How many steps the threads can still take once the running flag is cleared.\<close>

definition pending :: "Server \<Rightarrow> nat" where
  "pending S =
     (if srv_crash S = None
      then 1 + sum_list (map (\<lambda>(p, s). case p of Checking \<Rightarrow> 1 | Receiving \<Rightarrow> 2 | Finished \<Rightarrow> 0) (srv_conns S))
      else 0)"

lemma sum_list_smaller:
  fixes f :: "'a \<Rightarrow> nat"
  shows "i < length xs \<Longrightarrow> f x < f (xs ! i) \<Longrightarrow> sum_list (map f (xs[i := x])) < sum_list (map f xs)"
  by (induction xs arbitrary: i) (auto split: nat.splits simp: less_Suc_eq_0_disj)

lemma pending_decreases: "srv_step S T \<Longrightarrow> \<not> srv_running S \<Longrightarrow> pending T < pending S \<and> \<not> srv_running T"
  by (induction rule: srv_step.induct) (auto simp: pending_def intro!: sum_list_smaller)

lemma pending_bound: "pending S \<le> 1 + 2 * length (srv_conns S)"
proof -
  have "sum_list (map (\<lambda>(p, s). case p of Checking \<Rightarrow> 1 | Receiving \<Rightarrow> 2 | Finished \<Rightarrow> (0 :: nat)) xs) \<le> 2 * length xs" for xs :: "(phase \<times> TcpSocket) list"
    by (induction xs) (auto split: phase.split)
  then show ?thesis by (simp add: pending_def)
qed

lemma thread_proceeds:
  assumes "srv_crash S = None" "(p, s) \<in> set (srv_conns S)" "p \<noteq> Finished"
  shows "\<exists>T. srv_step S T"
proof -
  obtain i where i: "i < length (srv_conns S)" "srv_conns S ! i = (p, s)" using assms(2) by (metis in_set_conv_nth)
  show ?thesis
  proof (cases p)
    case Checking
    then show ?thesis using srv_check [OF assms(1) i(1)] i(2) by blast
  next
    case Receiving
    obtain r s1 where r: "recv_frame s = (r, s1)" by fastforce
    show ?thesis
    proof (cases r)
      case (Inl e)
      then show ?thesis using srv_gone [OF assms(1) i(1)] i(2) Receiving r by blast
    next
      case (Inr f)
      show ?thesis
      proof (cases "serve_frame f Timestamp_default s1 (srv_obs S)")
        case c: (Inl c)
        then show ?thesis using srv_dies [OF assms(1) i(1)] i(2) Receiving r Inr by blast
      next
        case (Inr q)
        then obtain b s2 J where q: "serve_frame f Timestamp_default s1 (srv_obs S) = Inr (b, s2, J)" by (cases q) auto
        show ?thesis
        proof (cases b)
          case True
          with q have "serve_frame f Timestamp_default s1 (srv_obs S) = Inr (True, s2, J)" by simp
          then show ?thesis using srv_frame [OF assms(1) i(1)] i(2) Receiving r \<open>r = Inr f\<close> by blast
        next
          case False
          with q have "serve_frame f Timestamp_default s1 (srv_obs S) = Inr (False, s2, J)" by simp
          then show ?thesis using srv_stop [OF assms(1) i(1)] i(2) Receiving r \<open>r = Inr f\<close> by blast
        qed
      qed
    qed
  qed (use assms(3) in simp)
qed

lemma step_has_thread:
  "srv_step S T \<Longrightarrow> \<not> srv_running S \<Longrightarrow>
   srv_crash S = None \<and> (\<exists>i < length (srv_conns S). fst (srv_conns S ! i) \<noteq> Finished)"
  by (induction rule: srv_step.induct) (auto intro: exI [of _ "_ :: nat"])



section \<open>End to end\<close>



section \<open>Every frame is served\<close>

text \<open>The frames that the bytes of a stream begin with.\<close>

function frames_of :: "bytes \<Rightarrow> Frame list" where
  "frames_of data =
     (case decode_frame data of Inl e \<Rightarrow> [] | Inr (f, n) \<Rightarrow> f # frames_of (drop n data))"
  by pat_completeness auto
termination
  by (relation "measure length") (auto simp: decode_frame_def Let_def split: if_splits)

declare frames_of.simps [simp del]

text \<open>The handlers one after the other, up to a shutdown or an exception.\<close>

fun handle_all :: "(nat \<Rightarrow> Timestamp) \<Rightarrow> nat \<Rightarrow> Frame list \<Rightarrow> Impl \<Rightarrow> Impl" where
  "handle_all clock k [] I = I"
| "handle_all clock k (f # fs) I =
     (case handle_frame f (clock k) I of
        Inl c \<Rightarrow> I
      | Inr (h, I') \<Rightarrow> if h = Stopped then I' else handle_all clock (Suc k) fs I')"


lemma frames_of_recv:
  assumes "sock_ok s"
  shows "frames_of (stream s) =
    (case recv_frame s of (Inl e, s1) \<Rightarrow> [] | (Inr f, s1) \<Rightarrow> f # frames_of (stream s1))"
proof (cases "decode_frame (stream s)")
  case (Inl e)
  then have "\<nexists>f s1. recv_frame s = (Inr f, s1)" using decode_of_recv_frame by fastforce
  with Inl show ?thesis by (auto simp: frames_of.simps [of "stream s"] split: prod.split sum.split)
next
  case (Inr p)
  then obtain f n where d: "decode_frame (stream s) = Inr (f, n)" by (cases p) simp
  obtain s1 where "recv_frame s = (Inr f, s1)" "stream s1 = drop n (stream s)"
    using recv_frame_of_decode [OF assms d] by blast
  with d show ?thesis by (simp add: frames_of.simps [of "stream s"])
qed

lemma serve_frame_handles:
  "serve_frame f now s I =
     (case handle_frame f now I of Inl c \<Rightarrow> Inl c
      | Inr (h, J) \<Rightarrow> Inr (h \<noteq> Stopped, (SOME s'. reply h s = Inr s'), J))"
proof (cases "handle_frame f now I")
  case (Inr p)
  then obtain h J where h: "handle_frame f now I = Inr (h, J)" by (cases p) simp
  have "\<exists>s'. reply h s = Inr s'"
    using handled_short [OF h] by (cases h) (auto intro: reply_acked reply_answered, simp add: reply_def)
  then obtain s' where "reply h s = Inr s'" by blast
  then show ?thesis by (simp add: serve_frame_def h)
qed (simp add: serve_frame_def)

lemma serve_conn_all:
  "sock_ok s \<Longrightarrow> snd (snd (serve_conn clock k s I)) = handle_all clock k (frames_of (stream s)) I"
proof (induction clock k s I rule: serve_conn.induct)
  case (1 clock k s I)
  obtain r s1 where r: "recv_frame s = (r, s1)" by (cases "recv_frame s")
  show ?case
  proof (cases r)
    case (Inl e)
    then show ?thesis using r "1.prems" by (simp add: serve_conn.simps [of clock k s] frames_of_recv)
  next
    case (Inr f)
    note fr = frames_of_recv [OF "1.prems", unfolded r Inr prod.case sum.case]
    have ok: "sock_ok s1" using recv_frame_shrinks [of s f s1] r Inr by simp
    show ?thesis
    proof (cases "handle_frame f (clock k) I")
      case c: (Inl c)
      then show ?thesis using r Inr fr by (simp add: serve_conn.simps [of clock k s] serve_frame_def)
    next
      case (Inr p)
      then obtain h J where h: "handle_frame f (clock k) I = Inr (h, J)" by (cases p) simp
      obtain s2 where s2: "serve_frame f (clock k) s1 I = Inr (h \<noteq> Stopped, s2, J)"
        using serve_frame_handles [of f "clock k" s1 I] by (simp add: h)
      then have in2: "inbound s2 = inbound s1" "sock_ok s2"
        using ok h by (auto simp: serve_frame_def split: sum.splits dest: reply_keeps_input)
      show ?thesis
      proof (cases "h = Stopped")
        case True
        then show ?thesis using r \<open>r = Inr f\<close> fr s2 h by (simp add: serve_conn.simps [of clock k s])
      next
        case False
        have "snd (snd (serve_conn clock (Suc k) s2 J)) = handle_all clock (Suc k) (frames_of (stream s2)) J"
          using "1.IH" [OF r [symmetric] \<open>r = Inr f\<close> s2 refl refl] False in2 by simp
        then show ?thesis
          using False r \<open>r = Inr f\<close> fr s2 h in2 by (simp add: serve_conn.simps [of clock k s])
      qed
    qed
  qed
qed

text \<open>C9. Every frame that arrives is served. On a connection that is served alone, the loop ends and the observatory it
  leaves is that of handling, once and in order, all frames the bytes of the connection begin with, up to a shutdown or
  an exception, whatever the network does with the replies.
\<close>

theorem every_frame_is_served:
  assumes "sock_ok s"
  shows "\<exists>e s'. serve_conn clock k s I = (e, s', handle_all clock k (frames_of (stream s)) I)"
  using serve_conn_all [OF assms, of clock k I] by (metis prod.collapse)

theorem every_frame_is_served_witness:
  "\<exists>e s'. serve_conn (\<lambda>_. Timestamp_default) 0 (peer_with (frame_bytes MsgType.CoordinatorEpoch (le_bytes 8 (5 :: u64)))) fresh =
     (e, s', set_coordinator_epoch 5 fresh)"
proof -
  let ?fb = "frame_bytes MsgType.CoordinatorEpoch (le_bytes 8 (5 :: u64))"
  have "decode_frame (?fb @ []) = Inr (\<lparr>frame_type = MsgType.CoordinatorEpoch, frame_payload = le_bytes 8 (5 :: u64)\<rparr>, 25)"
    by (subst decode_frame_bytes) (simp_all add: MsgType_all_def)
  then have "frames_of ?fb = \<lparr>frame_type = MsgType.CoordinatorEpoch, frame_payload = le_bytes 8 (5 :: u64)\<rparr> # frames_of (drop 25 ?fb)"
    by (simp add: frames_of.simps [of ?fb])
  moreover have "drop 25 ?fb = []" by simp
  moreover have "frames_of [] = []" by (simp add: frames_of.simps [of "[]"] decode_frame_def)
  ultimately have "frames_of ?fb = [\<lparr>frame_type = MsgType.CoordinatorEpoch, frame_payload = le_bytes 8 (5 :: u64)\<rparr>]" by metis
  with every_frame_is_served [of "peer_with ?fb" "\<lambda>_. Timestamp_default" 0 fresh] show ?thesis
    by (simp add: handle_epoch)
qed

section \<open>A payload that does not decode\<close>

text \<open>C40. Any peer can stop the coordinator: a well-formed frame of a type that carries a record, but with an empty payload,
  makes the handler throw; nothing catches the exception, so the process ends with the observatory as it was, and without
  the call of \<open>persist\<close> that follows the accept loop.
\<close>

theorem empty_payload_crashes:
  assumes "sock_ok s" "decode_frame (stream s) = Inr (\<lparr>frame_type = t, frame_payload = []\<rparr>, n)"
    and "t \<in> {MsgType.RegisterSource, MsgType.CoordinatorEpoch, MsgType.Observation, MsgType.Decision,
             MsgType.Outcome, MsgType.Status}"
  shows "\<exists>m s'. serve_conn clock k s I = (Crashed (Bad_payload (SerializationError Truncated m)), s', I)"
proof -
  obtain s1 where s1: "recv_frame s = (Inr \<lparr>frame_type = t, frame_payload = []\<rparr>, s1)"
    using recv_frame_of_decode [OF assms(1,2)] by blast
  have "r_take (Suc j) \<lparr>br_data = [], br_pos = 0\<rparr> = Inl (SerializationError Truncated ''binary truncated'')" for j
    by (simp add: r_take_def)
  then have "r_u64 \<lparr>br_data = [], br_pos = 0\<rparr> = Inl (SerializationError Truncated ''binary truncated'')"
    by (simp add: r_u64_def rd_def r_take_def)
  then have "\<exists>m. handle_frame \<lparr>frame_type = t, frame_payload = []\<rparr> (clock k) I =
      Inl (Bad_payload (SerializationError Truncated m))"
    using assms(3)
    by (auto simp: handle_frame_def decoded_def run_reader_def read_source_descriptor_def read_observation_def
        read_decision_def read_outcome_def rd_def)
  with s1 show ?thesis by (auto simp: serve_conn.simps [of clock k s] serve_frame_def)
qed


theorem empty_payload_crashes_witness:
  "\<exists>m s'. serve_conn (\<lambda>_. Timestamp_default) 0 (peer_with (frame_bytes MsgType.Decision [])) fresh =
     (Crashed (Bad_payload (SerializationError Truncated m)), s', fresh)"
  by (rule empty_payload_crashes [where t = MsgType.Decision and n = 17])
     (use decode_frame_bytes [of "[]" MsgType.Decision "[]"] in \<open>simp_all add: MsgType_all_def\<close>)

end
