(* ===== verification/Sockets.thy ===== *)
theory Sockets
  imports Protocol "HOL-Library.Multiset"
begin

text \<open>
  The ownership of sockets in src/protocol.cpp: \<open>TcpServer\<close>, \<open>TcpClient\<close>, and the constructor, destructor, move and
  close of \<open>TcpSocket\<close>. The results of the Winsock calls are arguments (records \<open>Binding\<close>, \<open>Arrival\<close> and \<open>Dial\<close>).
  The multiset of handles that the system has given and not been given back is threaded through the operations, so that
  a leak is visible.
\<close>

section \<open>Handles\<close>

type_synonym u16 = "16 word"
type_synonym handles = "u64 multiset"

definition INVALID_SOCKET :: u64 where "INVALID_SOCKET = - 1"

definition closesocket :: "u64 \<Rightarrow> handles \<Rightarrow> handles" where
  "closesocket h H = H - {#h#}"

text \<open>The handle that a call returned, if it returned one.\<close>

definition obtained :: "u64 \<Rightarrow> handles \<Rightarrow> handles" where
  "obtained h H = (if h = INVALID_SOCKET then H else add_mset h H)"

section \<open>\<open>TcpSocket\<close>\<close>

definition TcpSocket_init :: TcpSocket where
  "TcpSocket_init = \<lparr>sock_raw = 0, sock_ok = False, inbound = [], outbound = [], wire = []\<rparr>"

text \<open>\<open>close\<close>, which is also the destructor.\<close>

definition socket_close :: "TcpSocket \<Rightarrow> handles \<Rightarrow> TcpSocket \<times> handles" where
  "socket_close s H = (close_socket s, if socket_valid s then closesocket (sock_raw s) H else H)"

text \<open>Move construction gives the new and the old object; move assignment closes the target first.\<close>

definition socket_move :: "TcpSocket \<Rightarrow> TcpSocket \<times> TcpSocket" where
  "socket_move s = (s, s\<lparr>sock_raw := 0, sock_ok := False\<rparr>)"

definition socket_move_assign :: "TcpSocket \<Rightarrow> TcpSocket \<Rightarrow> handles \<Rightarrow> TcpSocket \<times> TcpSocket \<times> handles" where
  "socket_move_assign target s H = (s, s\<lparr>sock_raw := 0, sock_ok := False\<rparr>, snd (socket_close target H))"

section \<open>\<open>TcpServer\<close>\<close>

record TcpServer =
  listen_sock :: u64
  listen_ok :: bool
  listen_port :: u16

definition TcpServer_init :: TcpServer where
  "TcpServer_init = \<lparr>listen_sock = 0, listen_ok = False, listen_port = 0\<rparr>"

text \<open>What the calls of \<open>listen\<close> return: start-up, \<open>socket\<close>, \<open>bind\<close> to a port, \<open>listen\<close>, the port of \<open>getsockname\<close>.\<close>

record Binding =
  bd_started :: bool
  bd_socket :: u64
  bd_bind :: "u16 \<Rightarrow> bool"
  bd_listen :: bool
  bd_name :: "u16 \<Rightarrow> u16"

definition tcp_listen :: "Binding \<Rightarrow> u16 \<Rightarrow> TcpServer \<Rightarrow> handles \<Rightarrow> bool \<times> TcpServer \<times> handles" where
  "tcp_listen b port S H =
     (if \<not> bd_started b then (False, S, H)
      else let s = bd_socket b; H1 = obtained s H in
        if s = INVALID_SOCKET then (False, S, H1)
        else if \<not> bd_bind b port then (False, S, closesocket s H1)
        else if \<not> bd_listen b then (False, S, closesocket s H1)
        else (True, \<lparr>listen_sock = s, listen_ok = True, listen_port = bd_name b port\<rparr>, H1))"

text \<open>\<open>select\<close> gets the handle and the microseconds to wait.\<close>

definition wait_accept :: "(u64 \<Rightarrow> int \<Rightarrow> int) \<Rightarrow> TcpServer \<Rightarrow> int \<Rightarrow> bool" where
  "wait_accept sel S ms \<longleftrightarrow> listen_ok S \<and> listen_sock S \<noteq> 0 \<and> sel (listen_sock S) (ms * 1000) > 0"

text \<open>What \<open>accept\<close> returns, and the traffic of the new connection.\<close>

record Arrival =
  ar_sock :: u64
  ar_in :: "net_in list"
  ar_out :: "net_out list"

definition tcp_accept :: "Arrival \<Rightarrow> TcpServer \<Rightarrow> TcpSocket \<Rightarrow> handles \<Rightarrow> bool \<times> TcpSocket \<times> handles" where
  "tcp_accept x S out H =
     (if \<not> listen_ok S then (False, out, H)
      else let client = ar_sock x; H1 = obtained client H in
        if client = INVALID_SOCKET then (False, out, H1)
        else case assign_socket (out\<lparr>inbound := ar_in x, outbound := ar_out x, wire := []\<rparr>) client of
          (ok, out') \<Rightarrow> (ok, out', H1))"

definition server_close :: "TcpServer \<Rightarrow> handles \<Rightarrow> TcpServer \<times> handles" where
  "server_close S H =
     (TcpServer_init, if listen_ok S \<and> listen_sock S \<noteq> 0 then closesocket (listen_sock S) H else H)"

section \<open>\<open>TcpClient\<close>\<close>

record TcpClient =
  cli_sock :: TcpSocket

definition TcpClient_init :: TcpClient where
  "TcpClient_init = \<lparr>cli_sock = TcpSocket_init\<rparr>"

text \<open>
  What the calls of \<open>connect\<close> return: start-up, \<open>socket\<close>, the address of \<open>inet_pton\<close> if the text is one, \<open>connect\<close> to an
  address and port; and the traffic of the connection.
\<close>

record Dial =
  dl_started :: bool
  dl_socket :: u64
  dl_addr :: "string \<Rightarrow> u32 option"
  dl_connect :: "u32 \<Rightarrow> u16 \<Rightarrow> bool"
  dl_in :: "net_in list"
  dl_out :: "net_out list"

text \<open>\<open>c_str()\<close> as C sees it.\<close>

definition c_str :: "string \<Rightarrow> string" where
  "c_str s = takeWhile (\<lambda>c. c \<noteq> CHR 0x00) s"

text \<open>The address is zero before \<open>inet_pton\<close>, whose result is not looked at.\<close>

definition dial_address :: "Dial \<Rightarrow> string \<Rightarrow> u32" where
  "dial_address d host = (case dl_addr d (c_str host) of Some ip \<Rightarrow> ip | None \<Rightarrow> 0)"

definition tcp_connect :: "Dial \<Rightarrow> string \<Rightarrow> u16 \<Rightarrow> TcpClient \<Rightarrow> handles \<Rightarrow> bool \<times> TcpClient \<times> handles" where
  "tcp_connect d host port C H =
     (if \<not> dl_started d then (False, C, H)
      else let s = dl_socket d; H1 = obtained s H in
        if s = INVALID_SOCKET then (False, C, H1)
        else if \<not> dl_connect d (dial_address d host) port then (False, C, closesocket s H1)
        else case assign_socket ((cli_sock C)\<lparr>inbound := dl_in d, outbound := dl_out d, wire := []\<rparr>) s of
          (ok, sock) \<Rightarrow>
            if \<not> ok then (False, C\<lparr>cli_sock := sock\<rparr>, closesocket s H1) else (True, C\<lparr>cli_sock := sock\<rparr>, H1))"

definition client_close :: "TcpClient \<Rightarrow> handles \<Rightarrow> TcpClient \<times> handles" where
  "client_close C H = (case socket_close (cli_sock C) H of (s, H') \<Rightarrow> (C\<lparr>cli_sock := s\<rparr>, H'))"

section \<open>Objects that own a handle\<close>

text \<open>The contract of an owner: closing it gives back exactly what it owns, and then it owns nothing.\<close>

locale owner =
  fixes owned :: "'o \<Rightarrow> u64 multiset" and shut :: "'o \<Rightarrow> u64 multiset \<Rightarrow> 'o \<times> u64 multiset"
  assumes shut_returns: "snd (shut x H) = H - owned x"
    and shut_empties: "owned (fst (shut x H)) = {#}"
begin

lemma shut_again: "snd (shut (fst (shut x H)) H') = H'"
  by (simp add: shut_returns shut_empties)

lemma shut_all: "fold (\<lambda>x H. snd (shut x H)) xs H = H - sum_list (map owned xs)"
  by (induction xs arbitrary: H) (simp_all add: shut_returns)

lemma shut_all_acquired: "fold (\<lambda>x H. snd (shut x H)) xs (H + sum_list (map owned xs)) = H"
  by (simp add: shut_all)

end

definition socket_owned :: "TcpSocket \<Rightarrow> handles" where
  "socket_owned s = (if socket_valid s then {#sock_raw s#} else {#})"

definition server_owned :: "TcpServer \<Rightarrow> handles" where
  "server_owned S = (if listen_ok S \<and> listen_sock S \<noteq> 0 then {#listen_sock S#} else {#})"

interpretation socket: owner socket_owned socket_close
  by unfold_locales
     (simp_all add: socket_owned_def socket_close_def close_socket_def closesocket_def socket_valid_def)

interpretation server: owner server_owned server_close
  by unfold_locales (simp_all add: server_owned_def server_close_def closesocket_def TcpServer_init_def)

interpretation client: owner "\<lambda>C. socket_owned (cli_sock C)" client_close
  by unfold_locales
     (simp_all add: client_close_def split_def socket.shut_returns socket.shut_empties)

section \<open>What the operations acquire\<close>

lemma no_handle_init [simp]: "socket_owned TcpSocket_init = {#}" "server_owned TcpServer_init = {#}"
  by (simp_all add: socket_owned_def server_owned_def socket_valid_def TcpSocket_init_def TcpServer_init_def)

text \<open>
  From an object that owns nothing, the system's handle ends up in the object or is given back, unless it is 0: the
  classes take 0 for no handle, and only \<open>connect\<close> gives such a handle back.
\<close>

definition nonzero :: "handles \<Rightarrow> handles" where
  "nonzero H = filter_mset (\<lambda>h. h \<noteq> 0) H"

lemma nonzero_simps [simp]:
  "nonzero (A + B) = nonzero A + nonzero B" "nonzero (A - B) = nonzero A - nonzero B"
  "nonzero (socket_owned s) = socket_owned s" "nonzero (server_owned S) = server_owned S"
  "nonzero {#} = {#}" "nonzero (add_mset h A) = (if h = 0 then nonzero A else add_mset h (nonzero A))"
  by (simp_all add: nonzero_def socket_owned_def server_owned_def socket_valid_def)

lemma listen_acquires:
  "tcp_listen b port S H = (ok, S', H') \<Longrightarrow> server_owned S = {#} \<Longrightarrow> nonzero H' = nonzero H + server_owned S'"
  by (auto simp: tcp_listen_def Let_def obtained_def closesocket_def server_owned_def split: if_splits)

lemma listen_result:
  "tcp_listen b port TcpServer_init H = (ok, S, H') \<Longrightarrow>
   listen_ok S = ok \<and> (ok \<longrightarrow> listen_port S = bd_name b port) \<and> (\<not> ok \<longrightarrow> S = TcpServer_init \<and> H' = H)"
  by (auto simp: tcp_listen_def Let_def obtained_def closesocket_def TcpServer_init_def split: if_splits)

lemma accept_acquires:
  "tcp_accept x S out H = (ok, out', H') \<Longrightarrow> socket_owned out = {#} \<Longrightarrow>
   nonzero H' = nonzero H + socket_owned out' \<and> (\<not> ok \<longrightarrow> socket_owned out' = {#})"
  by (auto simp: tcp_accept_def Let_def obtained_def assign_socket_def socket_owned_def socket_valid_def split: if_splits)

lemma connect_acquires:
  "tcp_connect d host port C H = (ok, C', H') \<Longrightarrow> socket_owned (cli_sock C) = {#} \<Longrightarrow>
   H' = H + socket_owned (cli_sock C') \<and> ok = socket_valid (cli_sock C')"
  by (auto simp: tcp_connect_def Let_def obtained_def closesocket_def assign_socket_def socket_owned_def socket_valid_def
      split: if_splits)

text \<open>A second \<open>listen\<close> or \<open>connect\<close> forgets the handle of the first.\<close>

lemma listen_again_leaks:
  "tcp_listen b port S H = (True, S', H') \<Longrightarrow> server_owned S \<subseteq># H \<Longrightarrow>
   server_owned S \<subseteq># snd (server_close S' H')"
  by (auto simp: tcp_listen_def Let_def obtained_def server_owned_def server_close_def closesocket_def split: if_splits
      intro: mset_subset_eq_add_right)

lemma connect_again_leaks:
  "tcp_connect d host port C H = (True, C', H') \<Longrightarrow> socket_owned (cli_sock C) \<subseteq># H \<Longrightarrow>
   socket_owned (cli_sock C) \<subseteq># snd (client_close C' H')"
  by (auto simp: tcp_connect_def Let_def obtained_def socket_owned_def socket_valid_def client_close_def socket_close_def
      closesocket_def assign_socket_def split: if_splits)

text \<open>Moving does not duplicate: one of the two objects owns what the old one owned.\<close>

lemma move_keeps_owned: "socket_owned (fst (socket_move s)) = socket_owned s \<and> socket_owned (snd (socket_move s)) = {#}"
  by (simp add: socket_move_def socket_owned_def socket_valid_def)

lemma move_assign_returns:
  "socket_move_assign target s H = (t, s', H') \<Longrightarrow>
   socket_owned t = socket_owned s \<and> socket_owned s' = {#} \<and> H' = H - socket_owned target"
  by (auto simp: socket_move_assign_def socket_owned_def socket_valid_def socket_close_def closesocket_def)

text \<open>A name that is not an address in dotted form is dialled as \<open>0.0.0.0\<close>.\<close>

lemma unresolved_host:
  "dl_addr d (c_str host) = None \<Longrightarrow> dl_addr d ''0.0.0.0'' = Some 0 \<Longrightarrow>
   tcp_connect d host port C H = tcp_connect d ''0.0.0.0'' port C H"
proof -
  assume "dl_addr d (c_str host) = None" "dl_addr d ''0.0.0.0'' = Some 0"
  then have "dial_address d host = dial_address d ''0.0.0.0''" by (simp add: dial_address_def c_str_def)
  then show ?thesis by (simp add: tcp_connect_def Let_def)
qed


end
