(* ===== verification/Coordinator.thy ===== *)
theory Coordinator
  imports Cli Server Sockets
begin

text \<open>
  The process commands of src/cli/po.cpp: \<open>cmd_serve\<close> around the connections of theory \<open>Server\<close>, and the peers
  \<open>cmd_client\<close> and \<open>cmd_worker\<close>. What the operating system answers to binding, waiting, accepting and connecting is an
  argument.
\<close>

section \<open>The coordinator process\<close>

definition serve_start :: "Os \<Rightarrow> string list \<Rightarrow> Impl" where
  "serve_start os a = set_coordinator_epoch (au64 (arg a ''--epoch'' ''0'')) (load_trace os (arg a ''--trace'' ''''))"

definition serve_begin :: "Os \<Rightarrow> string list \<Rightarrow> Server" where
  "serve_begin os a = \<lparr>srv_obs = serve_start os a, srv_running = True, srv_conns = [], srv_crash = None\<rparr>"

text \<open>After the accept loop and the joins.\<close>

definition serve_end :: "Os \<Rightarrow> string list \<Rightarrow> Server \<Rightarrow> fault + file_system" where
  "serve_end os a S =
     (let trace = arg a ''--trace'' '''' in
      if trace \<noteq> '''' then persist os trace (srv_obs S) else Inr (os_files os))"

text \<open>
  The accept loop: one element for every iteration, with what \<open>select\<close> and \<open>accept\<close> return in it; it ends when the
  running flag is found cleared. The sockets handed to threads, in order. Otherwise the local socket is destroyed.
\<close>

record Poll =
  po_ready :: int
  po_arrival :: Arrival

fun accept_loop :: "Poll list \<Rightarrow> TcpServer \<Rightarrow> handles \<Rightarrow> TcpSocket list \<times> handles" where
  "accept_loop [] S H = ([], H)"
| "accept_loop (p # ps) S H =
     (if \<not> wait_accept (\<lambda>h usec. po_ready p) S 50 then accept_loop ps S H
      else case tcp_accept (po_arrival p) S TcpSocket_init H of (ok, conn, H1) \<Rightarrow>
        if ok then case socket_move conn of (moved, rest) \<Rightarrow>
          (case accept_loop ps S (snd (socket_close rest H1)) of (conns, H2) \<Rightarrow> (moved # conns, H2))
        else accept_loop ps S (snd (socket_close conn H1)))"

text \<open>What a thread does with its socket before it closes it.\<close>

inductive conn_uses :: "TcpSocket \<Rightarrow> TcpSocket \<Rightarrow> bool" where
  uses_start: "conn_uses s s"
| uses_recv: "conn_uses s s1 \<Longrightarrow> recv_frame s1 = (r, s2) \<Longrightarrow> conn_uses s s2"
| uses_reply: "conn_uses s s1 \<Longrightarrow> reply h s1 = Inr s2 \<Longrightarrow> conn_uses s s2"

text \<open>
  The handles of the process after \<open>cmd_serve\<close>, from those before: \<open>ends\<close> gives the sockets of the threads when their
  loops end; each is closed by its thread, and the server by its destructor.
\<close>

definition serve_handles :: "Binding \<Rightarrow> u16 \<Rightarrow> Poll list \<Rightarrow> (TcpSocket \<Rightarrow> TcpSocket) \<Rightarrow> handles \<Rightarrow> handles" where
  "serve_handles b port polls ends H =
     (case tcp_listen b port TcpServer_init H of (ok, S, H1) \<Rightarrow>
        case (if ok then accept_loop polls S H1 else ([], H1)) of (conns, H2) \<Rightarrow>
          snd (server_close S (fold (\<lambda>s H. snd (socket_close s H)) (map ends conns) H2)))"

text \<open>The whole command; \<open>S\<close> is the process when its threads have been joined.\<close>

definition port_digits :: "u16 \<Rightarrow> string" where
  "port_digits p = dec_nat (unat p)"

definition serve_files :: "Os \<Rightarrow> string list \<Rightarrow> u16 \<Rightarrow> file_system" where
  "serve_files os a p =
     (let portfile = arg a ''--portfile'' '''' in
      if portfile \<noteq> '''' then (os_files os)(portfile \<mapsto> bytes_of_string (port_digits p)) else os_files os)"

definition cmd_serve :: "Os \<Rightarrow> string list \<Rightarrow> Binding \<Rightarrow> Server \<Rightarrow> fault + CmdResult" where
  "cmd_serve os a b S =
     (case tcp_listen b (ucast (au64 (arg a ''--port'' ''3377''))) TcpServer_init {#} of (ok, server, H) \<Rightarrow>
        if \<not> ok then prints os 1 ''ERR: cannot listen''
        else fbind (serve_end (os\<lparr>os_files := serve_files os a (listen_port server)\<rparr>) a S) (\<lambda>fs.
          Inr \<lparr>cmd_exit = 0,
               cmd_out = ''PORT '' @ port_digits (listen_port server) @ newline @
                         ''EPOCH '' @ dec_nat (unat (au64 (arg a ''--epoch'' ''0''))) @ newline,
               cmd_files = fs\<rparr>))"

section \<open>The peers\<close>

definition peer_source :: "string list \<Rightarrow> string \<Rightarrow> SourceDescriptor" where
  "peer_source a name = SourceDescriptor_default
     \<lparr>src_source_id := Id (au64 (arg a ''--source'' ''1'')), src_generation := au64 (arg a ''--gen'' ''1''),
      src_type := SourceType.Multiprocess, src_name := name\<rparr>"

definition client_probe :: "string list \<Rightarrow> Timestamp \<Rightarrow> PlacementObservation" where
  "client_probe a now = PlacementObservation_default
     \<lparr>obs_observation_id := Id 9001, obs_observation_generation := 1,
      obs_source_id := Id (au64 (arg a ''--source'' ''1'')), obs_source_generation := au64 (arg a ''--gen'' ''1''),
      obs_source_type := SourceType.Multiprocess, obs_worker_boot := au64 (arg a ''--boot'' ''1''),
      obs_coordinator_epoch := au64 (arg a ''--epoch'' ''0''), obs_timestamp := now, obs_workload_id := Id 9001,
      obs_lifecycle := LifecycleState.Collected,
      obs_fields := [\<lparr>meas_normalized_field = ''probe'', meas_raw_field = '''', meas_value = VInt 1,
        meas_classification = Classification.Measured, meas_provenance = Provenance_default\<rparr>]\<rparr>"

definition worker_obs :: "u64 \<Rightarrow> u64 \<Rightarrow> u64 \<Rightarrow> u64 \<Rightarrow> u64 \<Rightarrow> Timestamp \<Rightarrow> u64 \<Rightarrow> PlacementObservation" where
  "worker_obs sid gen boot epoch wid now i = PlacementObservation_default
     \<lparr>obs_observation_id := Id (sid * 10000 + gen * 100 + i), obs_observation_generation := gen,
      obs_source_id := Id sid, obs_source_generation := gen, obs_source_type := SourceType.Multiprocess,
      obs_worker_boot := boot, obs_coordinator_epoch := epoch, obs_timestamp := now, obs_workload_id := Id wid,
      obs_epoch := 1, obs_lifecycle := LifecycleState.Collected,
      obs_fields := [\<lparr>meas_normalized_field = ''state.memory.free'', meas_raw_field = '''', meas_value = VUInt (24 * GiB),
        meas_classification = Classification.Measured, meas_provenance = Provenance_default\<rparr>]\<rparr>"

definition worker_decision :: "u64 \<Rightarrow> u64 \<Rightarrow> u64 \<Rightarrow> u64 \<Rightarrow> Timestamp \<Rightarrow> PlacementDecision" where
  "worker_decision sid gen epoch wid now = PlacementDecision_default
     \<lparr>dec_decision_id := Id (wid * 100 + 1), dec_attempt_id := Id (wid * 100 + 1), dec_placement_generation := 1,
      dec_observation_generation := 1, dec_epoch := 1, dec_policy_generation := 1, dec_workload_id := Id wid,
      dec_request_id := Id wid,
      dec_candidate_set := CandidateSet_default
        \<lparr>cset_candidates := [PlacementCandidate_default
           \<lparr>cand_candidate_id := Id 1, cand_device_id := Id 1, cand_node_id := Id 1, cand_architecture := ''sm_120'',
            cand_health := HealthState.Healthy,
            cand_memory := MemoryDescriptor_default\<lparr>mem_free_bytes := 24 * GiB\<rparr>,
            cand_queue := QueueDescriptor_default\<lparr>queue_depth := 0\<rparr>\<rparr>],
         cset_complete := True\<rparr>,
      dec_selected_candidate := Id 1, dec_tie_break := TieBreakReason.LowestCost,
      dec_determinism := DeterminismClass.Deterministic,
      dec_provenance := Provenance_default
        \<lparr>prov_source_id := Id sid, prov_source_generation := gen, prov_coordinator_epoch := epoch,
         prov_source_type := SourceType.Multiprocess, prov_timestamp := now\<rparr>\<rparr>"

text \<open>
  One request of a peer: the record is written and sent, then a reply is read; whether either succeeded is the result,
  which the callers ignore except for the client's last reply.
\<close>

definition request :: "MsgType \<Rightarrow> writer \<Rightarrow> TcpSocket \<Rightarrow> crash + (string + Frame) \<times> TcpSocket" where
  "request t wr s =
     (case wr [] of
        Inl e \<Rightarrow> Inl (Bad_payload e)
      | Inr bs \<Rightarrow>
          (case send_frame s \<lparr>frame_type = t, frame_payload = bs\<rparr> of
             Inl e \<Rightarrow> Inl (Bad_frame e) | Inr (sent, s') \<Rightarrow> Inr (recv_frame s')))"

fun requests :: "(MsgType \<times> writer) list \<Rightarrow> TcpSocket \<Rightarrow> crash + TcpSocket" where
  "requests [] s = Inr s"
| "requests ((t, wr) # rs) s =
     (case request t wr s of Inl c \<Rightarrow> Inl c | Inr (r, s') \<Rightarrow> requests rs s')"

definition worker_script :: "Os \<Rightarrow> string list \<Rightarrow> (MsgType \<times> writer) list" where
  "worker_script os a =
     (let sid = au64 (arg a ''--source'' ''1''); gen = au64 (arg a ''--gen'' ''1''); boot = au64 (arg a ''--boot'' ''1'');
          epoch = au64 (arg a ''--epoch'' ''0''); wid = au64 (arg a ''--workload'' ''1'')
      in [(MsgType.RegisterSource, write_source_descriptor (peer_source a (arg a ''--role'' ''worker''))),
          (MsgType.Observation, write_observation (worker_obs sid gen boot epoch wid (os_now os 0) 0)),
          (MsgType.Observation, write_observation (worker_obs sid gen boot epoch wid (os_now os 1) 1)),
          (MsgType.Decision, write_decision (worker_decision sid gen epoch wid (os_now os 2)))])"

text \<open>Exit code and output; an exception is a crash.\<close>

definition peer_port :: "string list \<Rightarrow> u16" where
  "peer_port a = ucast (au64 (arg a ''--port'' ''3377''))"

text \<open>\<open>client.connect(host, port)\<close> of a new client: the connected socket, if it succeeded.\<close>

definition peer_socket :: "Dial \<Rightarrow> string list \<Rightarrow> TcpSocket option" where
  "peer_socket d a =
     (case tcp_connect d (arg a ''--coord'' ''127.0.0.1'') (peer_port a) TcpClient_init {#} of
        (ok, client, H) \<Rightarrow> if ok then Some (cli_sock client) else None)"

definition cmd_worker :: "Os \<Rightarrow> string list \<Rightarrow> Dial \<Rightarrow> crash + int \<times> string" where
  "cmd_worker os a d =
     (case peer_socket d a of
        None \<Rightarrow> Inr (1, ''ERR connect'' @ newline)
      | Some s \<Rightarrow> (case requests (worker_script os a) s of Inl c \<Rightarrow> Inl c | Inr s' \<Rightarrow> Inr (0, '''')))"

datatype client_fault = Wire crash | Bad_probes "string \<times> int"

definition client_report :: "string + Frame \<Rightarrow> crash + string" where
  "client_report r =
     (case r of
        Inl e \<Rightarrow> Inr (''NOACK '' @ c_str e @ newline)
      | Inr f \<Rightarrow> decoded r_str (frame_payload f) (\<lambda>ack. Inr (''ACK '' @ c_str ack @ newline)))"

definition cmd_client :: "Os \<Rightarrow> string list \<Rightarrow> Dial \<Rightarrow> client_fault + int \<times> string" where
  "cmd_client os a d =
     (case peer_socket d a of
        None \<Rightarrow> Inr (1, ''ERR: connect'' @ newline)
      | Some s \<Rightarrow>
          (case request MsgType.RegisterSource (write_source_descriptor (peer_source a (arg a ''--name'' ''client''))) s of
             Inl c \<Rightarrow> Inl (Wire c)
           | Inr (r, s1) \<Rightarrow>
               let probes = arg a ''--probes'' '''' in
               case (if probes \<noteq> '''' then map_sum Bad_probes (\<lambda>v. ()) (parse_json probes) else Inr ()) of
                 Inl e \<Rightarrow> Inl e
               | Inr u \<Rightarrow>
                   (case request MsgType.Observation (write_observation (client_probe a (os_now os 0))) s1 of
                      Inl c \<Rightarrow> Inl (Wire c)
                    | Inr (r2, s2) \<Rightarrow>
                        (case client_report r2 of Inl c \<Rightarrow> Inl (Wire c) | Inr msg \<Rightarrow> Inr (0, msg)))))"

end
