(* ===== verification/Cli_Properties.thy ===== *)
theory Cli_Properties
  imports Cli_Ingest Coordinator
begin

text \<open>
  The properties of the commands: a trace that is written is the trace that the next command reads, for \<open>ingest\<close>
  and for a coordinator that is stopped and started again; the commands that list and explain change nothing; what the
  worker's script does to a coordinator; and what \<open>ingest\<close> makes of a decision document.
\<close>

section \<open>A trace that is written is read again\<close>

definition same_log :: "Impl \<Rightarrow> Impl \<Rightarrow> bool" where
  "same_log I J \<longleftrightarrow>
     im_obs J = im_obs I \<and> im_dec J = im_dec I \<and> im_outcomes J = im_outcomes I \<and> im_sources J = im_sources I"

definition orders_of :: "Os \<Rightarrow> Impl \<Rightarrow> bool" where
  "orders_of os I \<longleftrightarrow>
     mset (os_source_order os I) = mset (im_sources I) \<and> mset (os_outcome_order os I) = mset (im_outcomes I)"

lemma recover_consistent: "consistent I \<Longrightarrow> consistent (snd (recover data I))"
  using recover_loop_consistent [of I data 0] by (simp add: recover_def)

lemma recover_persisted:
  assumes "consistent I" "storable I" "mset src_order = mset (im_sources I)" "mset out_order = mset (im_outcomes I)"
  shows "\<exists>img. persist_image src_order out_order I = Inr img \<and> same_log I (snd (recover img (Impl_init c))) \<and>
    im_coordinator (snd (recover img (Impl_init c))) = im_coordinator I"
proof -
  note img = persist_image_records [OF assms(2-4)]
  let ?bs = "image_of (persist_records src_order out_order I)"
  have "?bs \<noteq> []" by (simp add: image_of_def persist_records_def persist_writers_def)
  then have "snd (recover ?bs (Impl_init c)) = reloaded src_order out_order I (Impl_init c)"
    using recover_image [OF img(2)] load_persisted [OF assms, of c] by (simp add: recover_def)
  with img(1) show ?thesis using reloaded_fields [OF assms(1,3,4)] by (simp add: same_log_def)
qed

lemma persist_reload:
  assumes "consistent I" "storable I" "orders_of os I" "path \<noteq> ''''"
  shows "\<exists>fs. persist os path I = Inr fs \<and> same_log I (load_trace (os\<lparr>os_files := fs\<rparr>) path)"
proof -
  obtain img where img: "persist_image (os_source_order os I) (os_outcome_order os I) I = Inr img"
    "same_log I (snd (recover img fresh_obs))"
    using recover_persisted [OF assms(1,2)] assms(3) unfolding orders_of_def by meson
  have "last (persist_states path img (os_files os)) path = Some img"
    by (simp add: persist_states_def Let_def)
  then show ?thesis
    using img assms(4) by (simp add: persist_def load_trace_def file_bytes_def)
qed

lemma load_trace_consistent: "consistent (load_trace os path)"
  by (simp add: load_trace_def recover_consistent consistent_init)

section \<open>\<open>ingest\<close>\<close>

lemma ingest_document_effect:
  assumes "ingest_document now v I = Inr (Some (res, J))" "ing_accepted res" "consistent I"
  shows "consistent J \<and> extends I J \<and>
    length (im_obs J) + length (im_dec J) + length (im_outcomes J) =
      Suc (length (im_obs I) + length (im_dec I) + length (im_outcomes I))"
proof -
  have "(\<exists>ob. ingest ob I = (res, J)) \<or> (\<exists>d. ingest_decision d I = (res, J)) \<or> (\<exists>x. ingest_outcome x I = (res, J))"
    using assms(1) by (auto simp: ingest_document_def fbind_def split: sum.splits if_splits)
  then show ?thesis
  proof (elim disjE exE)
    fix ob assume *: "ingest ob I = (res, J)"
    from * have "live_step I J" by (rule step_ingest)
    with * assms(2,3) show ?thesis
      using ingest_fst [of ob I] ingest_logs [of ob I] live_step_consistent live_step_extends by fastforce
  next
    fix d assume *: "ingest_decision d I = (res, J)"
    then have l: "live_step I J" by (rule step_decision)
    show ?thesis
      using * assms(2,3) l live_step_consistent [OF l] live_step_extends [OF l] ingest_decision_logs [of d I]
      by (cases rule: ingest_decision_cases [of d I]) (auto simp: reject_def)
  next
    fix x assume *: "ingest_outcome x I = (res, J)"
    then have l: "live_step I J" by (rule step_outcome)
    show ?thesis
      using * assms(2,3) l live_step_consistent [OF l] live_step_extends [OF l] ingest_outcome_logs [of x I]
      by (cases rule: ingest_outcome_cases [of x I]) (auto simp: reject_def outcome_admissible_def length_smap_put)
  qed
qed


definition sample_doc :: string where
  "sample_doc = ''{\"kind\":\"observation\",\"observation_id\":1,\"observation_generation\":1,\"source_id\":1,\"source_generation\":1}''"

definition sample_os :: Os where
  "sample_os = \<lparr>os_files = [''doc'' \<mapsto> bytes_of_string sample_doc], os_now = (\<lambda>_. Timestamp_default),
     os_health_order = im_src_health, os_source_order = im_sources, os_outcome_order = im_outcomes,
     os_sort = (\<lambda>lt xs. xs), os_host = sample_host\<rparr>"

lemma sample_doc_parsed:
  "parse_json sample_doc = Inr (JObject
     [(''kind'', JString ''observation''), (''observation_id'', JInt 1), (''observation_generation'', JInt 1),
      (''source_id'', JInt 1), (''source_generation'', JInt 1)])"
  unfolding sample_doc_def by code_simp

lemma sample_doc_observation:
  "ingest_document Timestamp_default (JObject
     [(''kind'', JString ''observation''), (''observation_id'', JInt 1), (''observation_generation'', JInt 1),
      (''source_id'', JInt 1), (''source_generation'', JInt 1)]) I = Inr (Some (ingest (sample_obs 1 1 0) I))"
  by (simp add: ingest_document_def doc_kind_def doc_observation_def num_def json_find_def is_object_def
      sample_obs_def PlacementObservation_default_def nil_id_def)

lemma sample_os_simps [simp]:
  "os_files sample_os = [''doc'' \<mapsto> bytes_of_string sample_doc]" "os_now sample_os k = Timestamp_default"
  "os_source_order sample_os = im_sources" "os_outcome_order sample_os = im_outcomes"
  by (simp_all add: sample_os_def)

lemma sample_trace_empty: "load_trace sample_os ''t'' = fresh"
  by (simp add: load_trace_def file_bytes_def recover_def recover_loop.simps)

lemma sample_obs_stored:
  "ing_accepted (fst (ingest (sample_obs 1 1 0) fresh))"
  "im_obs (snd (ingest (sample_obs 1 1 0) fresh)) = [correlated (sample_obs 1 1 0)]"
  "im_dec (snd (ingest (sample_obs 1 1 0) fresh)) = []" "im_outcomes (snd (ingest (sample_obs 1 1 0) fresh)) = []"
  "im_sources (snd (ingest (sample_obs 1 1 0) fresh)) = []"
  using sample_obs_authorised [of 1 1 0] sample_obs_content [of 1 1 0]
  by (simp_all add: ingest_fst ingest_logs ingest_accepts) (simp_all add: Impl_init_def accept_def)

lemma sample_obs_storable: "storable (snd (ingest (sample_obs 1 1 0) fresh))"
proof -
  have "PlacementObservation_ok (correlated (sample_obs 1 1 0))"
    using PlacementObservation_default_ok by (simp add: PlacementObservation_ok_def sample_obs_def wf_defs default_wf)
  moreover have "length (body_of (write_observation (correlated (sample_obs 1 1 0)))) \<le> unat kMaxBody"
    by (simp add: body_of_def writer_simps write_observation_def sample_simps Timestamp_default_def kMaxBody_def)
  ultimately show ?thesis by (simp add: storable_def sample_obs_stored)
qed


section \<open>Restart of the coordinator\<close>

lemma serve_start_consistent: "consistent (serve_start os a)"
  by (simp add: serve_start_def load_trace_consistent consistent_epoch)



section \<open>Commands that read\<close>

lemma print_json_files: "print_json os v = Inr r \<Longrightarrow> cmd_files r = os_files os"
  by (auto simp: print_json_def prints_def)

lemma prints_files: "prints os k msg = Inr r \<Longrightarrow> cmd_files r = os_files os"
  by (auto simp: prints_def)

lemma fbind_Inr: "fbind m k = Inr r \<longleftrightarrow> (\<exists>x. m = Inr x \<and> k x = Inr r)"
  by (cases m) simp_all

text \<open>The listing and explaining commands never touch the file system: whatever the trace holds, if such a command
  returns, every file is as it was.
\<close>

theorem read_commands_keep_files:
  assumes "cmd = ''help'' \<or> map_of read_commands cmd = Some f" "po_main other os (cmd # a) = Inr r"
  shows "cmd_files r = os_files os"
proof (cases "cmd = ''help''")
  case False
  with assms have "map_of read_commands cmd = Some f" by simp
  then have "f \<in> snd ` set read_commands" "f os a = Inr r"
    using assms(2) False by (auto simp: po_main_def dest: map_of_SomeD intro: rev_image_eqI)
  then show ?thesis
    by (auto simp: read_commands_def cmd_decisions_def cmd_candidates_def cmd_timeline_def cmd_snapshot_def cmd_explain_def
        cmd_compare_def cmd_replay_def cmd_counterfactual_def cmd_sources_def cmd_health_def cmd_stats_def cmd_recover_def
        cmd_inspect_def Let_def fbind_Inr print_json_files prints_files split: sum.splits)
qed (use assms(2) in \<open>auto simp: po_main_def\<close>)

theorem read_commands_keep_files_witness:
  "\<exists>r. po_main (\<lambda>_ os _. prints os 0 '''') sample_os [''recover'', ''--trace'', ''doc''] = Inr r \<and>
     cmd_files r = os_files sample_os"
proof -
  have c: "map_of read_commands ''recover'' = Some cmd_recover" by (simp add: read_commands_def)
  obtain r where r: "po_main (\<lambda>_ os _. prints os 0 '''') sample_os [''recover'', ''--trace'', ''doc''] = Inr r"
    by (simp add: po_main_def read_commands_def cmd_recover_def prints_def)
  from read_commands_keep_files [OF disjI2 [OF c] r] r show ?thesis by blast
qed

section \<open>Decision documents\<close>

text \<open>\<open>po ingest\<close> invents the candidates: whatever a decision document says, the decision it becomes has the built-in
  candidates 1 and 2, marked as a complete and not reconstructed set, so only a document that names one of these two as
  selected is accepted, and the costs on record are the built-in ones.
\<close>

theorem ingested_decision_is_canned:
  assumes "doc_decision now v = Inr d"
  shows "cset_candidates (dec_candidate_set d) =
       [scenario_candidate 1 1 (8 * GiB) (f64_of_u64 2), scenario_candidate 2 2 (24 * GiB) 0x3FE0000000000000] \<and>
     cset_complete (dec_candidate_set d) \<and> \<not> cset_reconstructed (dec_candidate_set d) \<and>
     (ing_accepted (fst (ingest_decision d I)) \<longrightarrow> dec_selected_candidate d = Id 1 \<or> dec_selected_candidate d = Id 2)"
proof -
  have d: "cset_candidates (dec_candidate_set d) =
       [scenario_candidate 1 1 (8 * GiB) (f64_of_u64 2), scenario_candidate 2 2 (24 * GiB) 0x3FE0000000000000]"
    "cset_complete (dec_candidate_set d)" "\<not> cset_reconstructed (dec_candidate_set d)"
    using assms by (auto simp: doc_decision_def fbind_Inr po_scenario_memory_decision_def Let_def)
  have "dec_selected_candidate d = Id 1 \<or> dec_selected_candidate d = Id 2" if "decision_admissible d I"
    using that d by (auto simp: decision_admissible_def decision_valid_def scenario_candidate_def)
  with d show ?thesis by (cases rule: ingest_decision_cases [of d I]) (auto simp: reject_def)
qed

theorem ingested_decision_is_canned_witness:
  "\<exists>d. doc_decision Timestamp_default (JObject [(''decision_id'', JUInt 5), (''selected_candidate'', JUInt 7)]) = Inr d \<and>
     cset_complete (dec_candidate_set d) \<and> \<not> ing_accepted (fst (ingest_decision d fresh))"
proof -
  obtain d where d: "doc_decision Timestamp_default (JObject [(''decision_id'', JUInt 5), (''selected_candidate'', JUInt 7)]) = Inr d"
    "dec_selected_candidate d = Id 7"
    by (simp add: doc_decision_def num_def json_find_def)
  from ingested_decision_is_canned [OF d(1), of fresh] d show ?thesis by auto
qed

section \<open>The worker's script\<close>

lemma worker_obs_fields [simp]:
  "obs_observation_id (worker_obs sid gen boot epoch wid now i) = Id (sid * 10000 + gen * 100 + i)"
  "obs_source_id (worker_obs sid gen boot epoch wid now i) = Id sid"
  "obs_source_generation (worker_obs sid gen boot epoch wid now i) = gen"
  "obs_observation_generation (worker_obs sid gen boot epoch wid now i) = gen"
  "obs_worker_boot (worker_obs sid gen boot epoch wid now i) = boot"
  "obs_coordinator_epoch (worker_obs sid gen boot epoch wid now i) = epoch"
  "field_error (obs_fields (worker_obs sid gen boot epoch wid now i)) = None"
  by (simp_all add: worker_obs_def memory_field_def)

lemma worker_decision_valid: "wid * 100 + 1 \<noteq> 0 \<Longrightarrow> decision_valid (worker_decision sid gen epoch wid now)"
  by (simp add: decision_valid_def worker_decision_def id_valid_def nil_id_def PlacementDecision_default_def
      CandidateSet_default_def PlacementCandidate_default_def finite_cost_def impossible_memory_def
      MemoryDescriptor_default_def f64_finite_def f64_zero_def f64_exp_def f64_mag_def)

text \<open>Workers share observation identities: worker \<open>sid\<close> in generation \<open>gen + 100\<close> and worker \<open>sid + 1\<close> in
  generation \<open>gen\<close> number their observations alike, so once the first is stored the second is refused as a duplicate, in
  every later state.
\<close>

theorem worker_identities_collide:
  assumes "live c I" "ing_accepted (fst (ingest (worker_obs sid (gen + 100) boot epoch wid now i) I))"
    and "live_run (snd (ingest (worker_obs sid (gen + 100) boot epoch wid now i) I)) J"
  shows "\<not> ing_accepted (fst (ingest (worker_obs (sid + 1) gen boot' epoch' wid' now' i) J))"
proof -
  let ?ob = "worker_obs sid (gen + 100) boot epoch wid now i" and ?ob' = "worker_obs (sid + 1) gen boot' epoch' wid' now' i"
  have I: "consistent I" by (rule live_consistent [OF assms(1)])
  have K: "consistent (snd (ingest ?ob I))" by (rule consistent_ingest [OF I])
  have J: "consistent J" by (rule live_run_consistent [OF assms(3) K])
  have "correlated ?ob \<in> set (im_obs (snd (ingest ?ob I)))"
    using assms(2) by (simp add: ingest_fst ingest_logs)
  then have "correlated ?ob \<in> set (im_obs J)"
    using live_run_extends [OF assms(3) K] by (auto simp: extends_def)
  moreover have "obs_observation_id ?ob' = obs_observation_id (correlated ?ob)" by (simp add: algebra_simps)
  ultimately have "map_of (im_obs_by_id J) (obs_observation_id ?ob') \<noteq> None"
    using J unfolding consistent_def obs_indexed_def by (metis image_eqI list.set_map unique_exact_None)
  then show ?thesis by (auto simp: ingest_fst obs_authorised_def)
qed

lemma worker_obs_authorised:
  assumes "sid \<noteq> 0" "gen \<noteq> 0" "sid * 10000 + gen * 100 + i \<noteq> 0"
  shows "ing_accepted (fst (ingest (worker_obs sid gen boot 0 wid now i) fresh))"
  using assms by (simp add: ingest_fst obs_authorised_def obs_content_ok_def stale_epoch_def id_valid_def nil_id_def)
    (simp add: Impl_init_def current_source_generation_def trusted_boot_def)

theorem worker_identities_collide_witness:
  "\<not> ing_accepted (fst (ingest (worker_obs 2 1 5 0 9 Timestamp_default 0)
     (snd (ingest (worker_obs 1 101 7 0 9 Timestamp_default 0) fresh))))"
  using worker_identities_collide [OF live_init _ run_refl, where sid = 1 and gen = 1 and i = 0 and boot' = 5]
    worker_obs_authorised [of 1 101 0] by simp

lemma handle_registration:
  assumes "write_source_descriptor d [] = Inr bs" "SourceDescriptor_ok d"
  shows "handle_frame \<lparr>frame_type = MsgType.RegisterSource, frame_payload = bs\<rparr> now I =
    Inr (Acked ''registered'', register_source d now I)"
  using cdc_source_descriptor.read_back [OF assms(2,1), of "[]"] by (simp add: handle_frame_def decoded_def)

lemma handle_observation:
  assumes "write_observation ob [] = Inr bs" "PlacementObservation_ok ob"
  shows "\<exists>h. h \<noteq> Stopped \<and> handle_frame \<lparr>frame_type = MsgType.Observation, frame_payload = bs\<rparr> now I = Inr (h, snd (ingest ob I))"
  using cdc_observation.read_back [OF assms(2,1), of "[]"] by (simp add: handle_frame_def decoded_def split: prod.split)

lemma handle_decision:
  assumes "write_decision d [] = Inr bs" "PlacementDecision_ok d"
  shows "\<exists>h. h \<noteq> Stopped \<and> handle_frame \<lparr>frame_type = MsgType.Decision, frame_payload = bs\<rparr> now I = Inr (h, snd (ingest_decision d I))"
  using cdc_decision.read_back [OF assms(2,1), of "[]"] by (simp add: handle_frame_def decoded_def split: prod.split)

lemma peer_source_ok: "str_ok name \<Longrightarrow> SourceDescriptor_ok (peer_source a name)"
  by (simp add: SourceDescriptor_ok_def peer_source_def SourceDescriptor_default_def Timestamp_default_def wf_defs default_wf)

lemma worker_obs_ok: "PlacementObservation_ok (worker_obs sid gen boot epoch wid now i)"
  using PlacementObservation_default_ok
  by (simp add: PlacementObservation_ok_def worker_obs_def wf_defs default_wf Measurement_ok_def Provenance_default_ok)

lemma worker_decision_ok: "PlacementDecision_ok (worker_decision sid gen epoch wid now)"
  using PlacementDecision_default_ok Provenance_default_ok
  by (simp add: PlacementDecision_ok_def worker_decision_def wf_defs default_wf CandidateSet_ok_def PlacementCandidate_ok_def
      CandidateSet_default_def PlacementCandidate_default_def MemoryDescriptor_default_def QueueDescriptor_default_def
      MemoryDescriptor_ok_def QueueDescriptor_ok_def Provenance_ok_def HealthState_of_def HealthState_all_def
      MemoryPressureLevel_of_def MemoryPressureLevel_all_def QueueState_of_def QueueState_all_def)

lemma worker_obs_accepted:
  assumes "obs_authorised ob I" "obs_content_ok ob I"
  defines "J \<equiv> snd (ingest ob I)"
  shows "im_cfg J = im_cfg I \<and> im_coordinator J = im_coordinator I \<and> im_dec J = im_dec I \<and> im_dec_by_id J = im_dec_by_id I \<and>
    idx_dec_attempt J = idx_dec_attempt I \<and> im_obs J = im_obs I @ [correlated ob] \<and>
    im_src_gen J = im_src_gen (adopt_authority ob I) \<and> im_src_boot J = im_src_boot (adopt_authority ob I) \<and>
    im_obs_by_id J = smap_put (obs_observation_id ob) (length (im_obs I)) (im_obs_by_id I)"
  using assms(1,2) by (simp add: J_def ingest_accepts accept_def Let_def) (simp add: store_obs_def Let_def index_obs_def)



end
