(* ===== verification/Net_Properties.thy ===== *)
theory Net_Properties
  imports Cli_Properties
begin

text \<open>
  The properties of the network side of the coordinator: the process gives its socket handles back, and the port that it
  announces is the port that a peer dials.
\<close>

section \<open>Handles\<close>

lemma recv_frame_handle: "recv_frame s = (r, s') \<Longrightarrow> sock_raw s' = sock_raw s \<and> sock_ok s' = sock_ok s"
  by (auto simp: recv_frame_def recv_exact_def Let_def split: if_splits prod.splits option.splits)

lemma reply_handle: "reply h s = Inr s' \<Longrightarrow> sock_raw s' = sock_raw s \<and> sock_ok s' = sock_ok s"
  by (auto simp: reply_def send_frame_def send_all_def Let_def split: handled.splits sum.splits prod.splits if_splits)

lemma conn_uses_handle: "conn_uses s s' \<Longrightarrow> sock_raw s' = sock_raw s \<and> sock_ok s' = sock_ok s"
  by (induction rule: conn_uses.induct) (simp_all add: recv_frame_handle reply_handle)

lemma conn_uses_owned: "conn_uses s s' \<Longrightarrow> socket_owned s' = socket_owned s"
  using conn_uses_handle [of s s'] by (simp add: socket_owned_def socket_valid_def)

lemma accept_loop_acquires:
  "accept_loop ps S H = (conns, H') \<Longrightarrow> nonzero H' = nonzero H + sum_list (map socket_owned conns)"
proof (induction ps S H arbitrary: conns H' rule: accept_loop.induct)
  case (2 p ps S H)
  show ?case
  proof (cases "wait_accept (\<lambda>h usec. po_ready p) S 50")
    case False
    with 2 show ?thesis by simp
  next
    case True
    obtain ok conn H1 where acc: "tcp_accept (po_arrival p) S TcpSocket_init H = (ok, conn, H1)"
      by (metis prod_cases3)
    note got = accept_acquires [OF acc no_handle_init(1)]
    show ?thesis
    proof (cases ok)
      case False
      then have "accept_loop ps S H1 = (conns, H')"
        using 2(4) True acc got by (simp add: socket.shut_returns)
      with 2(3) [OF _ acc [symmetric] refl False] True got False show ?thesis
        by (simp add: socket.shut_returns)
    next
      case ok: True
      let ?rest = "conn\<lparr>sock_raw := 0, sock_ok := False\<rparr>"
      have none: "socket_owned ?rest = {#}" by (simp add: socket_owned_def socket_valid_def)
      then obtain cs where cs: "accept_loop ps S H1 = (cs, H')" "conns = conn # cs"
        using 2(4) True acc ok by (auto simp: socket_move_def socket.shut_returns split: prod.splits)
      have "nonzero H' = nonzero H1 + sum_list (map socket_owned cs)"
        using 2(2) [OF _ acc [symmetric] refl ok socket_move_def [symmetric]] True cs(1) none
        by (simp add: socket.shut_returns)
      with got cs(2) show ?thesis by simp
    qed
  qed
qed simp

text \<open>C23. The coordinator gives its sockets back: however often it polls, whatever arrives, whether listening succeeds or
  not, and whatever its threads receive and reply on their connections, when \<open>cmd_serve\<close> is left the process holds the
  handles that it held before, except perhaps handles with the number 0, which the classes take for no handle.
\<close>

theorem serve_gives_handles_back:
  assumes "\<And>s. conn_uses s (ends s)"
  shows "nonzero (serve_handles b port polls ends H) = nonzero H"
proof -
  obtain ok S H1 where l: "tcp_listen b port TcpServer_init H = (ok, S, H1)" by (metis prod_cases3)
  obtain conns H2 where a: "(if ok then accept_loop polls S H1 else ([], H1)) = (conns, H2)" by (metis surj_pair)
  have "nonzero H2 = nonzero H1 + sum_list (map socket_owned conns)"
    using a accept_loop_acquires by (cases ok) auto
  then have n: "nonzero H2 = nonzero H + server_owned S + sum_list (map socket_owned conns)"
    using listen_acquires [OF l no_handle_init(2)] by simp
  have e: "map socket_owned (map ends conns) = map socket_owned conns"
    using conn_uses_owned [OF assms] by simp
  have z: "nonzero (sum_list (map socket_owned conns)) = sum_list (map socket_owned conns)"
    by (induction conns) simp_all
  show ?thesis
    by (simp add: serve_handles_def l a server.shut_returns socket.shut_all e n z del: map_map)
qed

definition sample_binding :: Binding where
  "sample_binding = \<lparr>bd_started = True, bd_socket = 300, bd_bind = (\<lambda>p. True), bd_listen = True,
     bd_name = (\<lambda>p. if p = 0 then 49152 else p)\<rparr>"

definition sample_poll :: "int \<Rightarrow> u64 \<Rightarrow> Poll" where
  "sample_poll ready h = \<lparr>po_ready = ready, po_arrival = \<lparr>ar_sock = h, ar_in = [], ar_out = []\<rparr>\<rparr>"

lemma serve_gives_handles_back_witness:
  "serve_handles sample_binding 0 [sample_poll 0 1, sample_poll 1 301, sample_poll 1 302] id {#7#} = {#7#} \<and>
   fst (accept_loop [sample_poll 0 1, sample_poll 1 301, sample_poll 1 302]
     \<lparr>listen_sock = 300, listen_ok = True, listen_port = 49152\<rparr> {#7#}) \<noteq> []"
proof -
  let ?H = "serve_handles sample_binding 0 [sample_poll 0 1, sample_poll 1 301, sample_poll 1 302] id {#7#}"
  have "nonzero ?H = nonzero {#7#}" by (rule serve_gives_handles_back) (simp add: uses_start)
  moreover have "0 \<notin># ?H"
    by (simp add: serve_handles_def sample_binding_def sample_poll_def tcp_listen_def obtained_def INVALID_SOCKET_def
        wait_accept_def tcp_accept_def assign_socket_def TcpSocket_init_def socket_move_def socket_close_def
        socket_valid_def server_close_def closesocket_def Let_def)
  moreover have "0 \<notin># A \<Longrightarrow> nonzero A = A" for A :: handles
    by (auto simp: nonzero_def filter_mset_eq_conv)
  ultimately have "?H = {#7#}" by simp
  then show ?thesis
    by (simp add: sample_poll_def obtained_def INVALID_SOCKET_def wait_accept_def tcp_accept_def assign_socket_def
        TcpSocket_init_def socket_move_def Let_def split: prod.splits)
qed

section \<open>The announced port\<close>

lemma au64_port_digits: "ucast (au64 (port_digits p)) = p"
proof -
  have d: "digits (port_digits p)" "port_digits p \<noteq> []"
    by (simp_all add: port_digits_def digits_def list_all_iff dec_nat_digits)
  have "unat p < 2 ^ 16" using unsigned_less [of p, where ?'a = nat] by simp
  then have "\<not> 2 ^ 64 \<le> unat p" by simp
  then have "au64 (port_digits p) = of_nat (unat p)"
    using au64_digits [OF d] by (simp add: port_digits_def)
  then show ?thesis by (simp add: ucast_up_ucast_id is_up)
qed

lemma persist_other_file:
  "persist os trace I = Inr fs \<Longrightarrow> f \<noteq> trace \<Longrightarrow> f \<noteq> trace @ ''.tmp'' \<Longrightarrow> fs f = os_files os f"
  by (auto simp: persist_def persist_states_def Let_def split: sum.splits)

text \<open>C24. The announced port is the port that peers reach: if the coordinator exits in order, the port file holds a text that
  \<open>worker\<close> and \<open>client\<close>, given it as \<open>--port\<close>, turn into the port that the operating system bound, also when
  the requested port was 0 or too large for 16 bits, and the same text is in the first line of the output. (Unless
  the port file is also the trace or its temporary file.)
\<close>

theorem port_file_is_dialled:
  assumes "cmd_serve os a b S = Inr res" "cmd_exit res = 0"
    and "arg a ''--portfile'' '''' = pf" "pf \<noteq> ''''" "arg a ''--trace'' '''' = trace" "pf \<noteq> trace" "pf \<noteq> trace @ ''.tmp''"
  shows "\<exists>port rest. cmd_files res pf = Some (bytes_of_string port) \<and> cmd_out res = ''PORT '' @ port @ newline @ rest \<and>
    peer_port [''--port'', port] = bd_name b (ucast (au64 (arg a ''--port'' ''3377'')))"
proof -
  let ?p = "ucast (au64 (arg a ''--port'' ''3377'')) :: u16"
  obtain ok server H where l: "tcp_listen b ?p TcpServer_init {#} = (ok, server, H)" by (metis prod_cases3)
  from assms(1,2) l have ok: "ok" by (auto simp: cmd_serve_def prints_def split: if_splits)
  then have port: "listen_port server = bd_name b ?p" using listen_result [OF l] by simp
  let ?os = "os\<lparr>os_files := serve_files os a (listen_port server)\<rparr>"
  obtain fs where fs: "serve_end ?os a S = Inr fs" using assms(1) l ok by (auto simp: cmd_serve_def fbind_def split: sum.splits)
  have "fs pf = os_files ?os pf"
    using fs assms(5-7) persist_other_file [of ?os trace "srv_obs S" fs pf] by (auto simp: serve_end_def Let_def split: if_splits)
  then have "fs pf = Some (bytes_of_string (port_digits (listen_port server)))"
    using assms(3,4) by (simp add: serve_files_def Let_def)
  moreover have "cmd_files res = fs" "cmd_out res = ''PORT '' @ port_digits (listen_port server) @ newline @
      ''EPOCH '' @ dec_nat (unat (au64 (arg a ''--epoch'' ''0''))) @ newline"
    using assms(1) l ok fs by (auto simp: cmd_serve_def)
  ultimately show ?thesis
    using port
    by (intro exI [of _ "port_digits (listen_port server)"]
          exI [of _ "''EPOCH '' @ dec_nat (unat (au64 (arg a ''--epoch'' ''0''))) @ newline"])
       (simp add: peer_port_def au64_port_digits)
qed

text \<open>A coordinator without a trace that lets the system choose the port.\<close>

lemma port_file_is_dialled_witness:
  "\<exists>res port. cmd_serve sample_os [''--port'', ''0'', ''--portfile'', ''p''] sample_binding
       (serve_begin sample_os [''--port'', ''0'', ''--portfile'', ''p'']) = Inr res \<and>
     cmd_files res ''p'' = Some (bytes_of_string port) \<and> peer_port [''--port'', port] = 49152"
proof -
  let ?a = "[''--port'', ''0'', ''--portfile'', ''p'']"
  have z: "au64 ''0'' = 0" by (simp add: au64_digits digits_value_def digit_val_def)
  have arg: "arg ?a ''--port'' ''3377'' = ''0''" "arg ?a ''--portfile'' '''' = ''p''" "arg ?a ''--trace'' '''' = ''''" by simp_all
  obtain res where res: "cmd_serve sample_os ?a sample_binding (serve_begin sample_os ?a) = Inr res" "cmd_exit res = 0"
    by (simp only: cmd_serve_def arg z serve_end_def Let_def)
       (simp add: tcp_listen_def sample_binding_def obtained_def INVALID_SOCKET_def Let_def)
  have n: "''p'' \<noteq> ''''" "''p'' \<noteq> '''' @ ''.tmp''" by simp_all
  from port_file_is_dialled [OF res arg(2) n(1) arg(3) n] obtain port where
    "cmd_files res ''p'' = Some (bytes_of_string port)" "peer_port [''--port'', port] = bd_name sample_binding (ucast (au64 ''0''))"
    by (auto simp only: arg)
  with res(1) show ?thesis by (intro exI [of _ res] exI [of _ port]) (simp add: z sample_binding_def)
qed


end
