(* ===== verification/Workload.thy ===== *)
theory Workload
  imports Cli_Properties
begin

text \<open>
  Facts that the scenarios and the benchmarks share: the evaluation of double arithmetic on numerals, the ranking and the
  replay of decisions without constraints, and what an observatory holds after a sequence of decisions.
\<close>

section \<open>Doubles\<close>

text \<open>Evaluation of double arithmetic on numerals, and addition to zero, which it does not reach.\<close>

lemmas f64_eval =
  f64_mul_def f64_add_def f64_signed_def f64_fields Let_def f64_of_dyadic_def f64_of_ratio_def f64_make_def ratio_log2_def
  scale_ratio_def round_half_even_def ilog2.simps f64_of_u64_def

lemma f64_of_own_dyadic:
  assumes "f64_finite x" "- 1074 \<le> f64_scale x"
  shows "f64_of_dyadic (f64_sign x) (f64_mant x * 2 ^ nat (f64_scale x + 1074)) (- 1074) = x"
proof -
  obtain a b where ab: "f64_fraction x = (f64_mant x * 2 ^ a, 2 ^ b)" "int a - int b = f64_scale x" "b \<le> 1074"
    by (rule f64_fraction_dyadic)
  have n: "nat (f64_scale x + 1074) + b = a + 1074" using ab(2) assms(2) by linarith
  have "f64_mant x * 2 ^ nat (f64_scale x + 1074) * 2 ^ b = f64_mant x * 2 ^ a * 2 ^ 1074"
    by (simp only: mult.assoc power_add [symmetric] n)
  then have "f64_of_ratio (f64_sign x) (f64_mant x * 2 ^ nat (f64_scale x + 1074)) (2 ^ 1074) =
      f64_of_ratio (f64_sign x) (f64_mant x * 2 ^ a) (2 ^ b)"
    by (rule f64_of_ratio_cong) simp_all
  also have "\<dots> = x" by (rule f64_of_fraction [OF assms(1) ab(1)])
  finally show ?thesis by (simp add: f64_of_dyadic_def del: power_numeral)
qed

lemma f64_scale_ge: "- 1074 \<le> f64_scale x"
  by (simp add: f64_scale_def)

lemma f64_add_zero:
  assumes "f64_finite x" "f64_mant x \<noteq> 0"
  shows "f64_add 0 x = x" "f64_add x 0 = x"
proof -
  have z: "f64_scale 0 = - 1074" "f64_signed 0 = 0" "\<not> f64_is_nan 0" "\<not> f64_is_inf 0"
    by (simp_all add: f64_signed_def f64_fields)
  have n: "\<not> f64_is_nan x" "\<not> f64_is_inf x"
    using assms(1) by (auto simp: f64_is_nan_def f64_is_inf_def f64_finite_def f64_exp_def)
  let ?k = "nat (f64_scale x + 1074)"
  have m: "min (- 1074) (f64_scale x) = - 1074" "min (f64_scale x) (- 1074) = - 1074"
    using f64_scale_ge [of x] by simp_all
  have t: "f64_signed x * 2 ^ ?k \<noteq> 0" using assms(2) by (simp add: f64_signed_def)
  have s: "(f64_signed x * 2 ^ ?k < 0) = f64_sign x" using assms(2) by (simp add: f64_signed_def mult_less_0_iff)
  have a: "nat \<bar>f64_signed x * 2 ^ ?k\<bar> = f64_mant x * 2 ^ ?k"
    by (simp add: f64_signed_def abs_mult nat_mult_distrib nat_power_eq)
  note own = f64_of_own_dyadic [OF assms(1) f64_scale_ge]
  show "f64_add 0 x = x" "f64_add x 0 = x"
    using n t s a own by (simp_all add: f64_add_def z m Let_def del: power_numeral)
qed

section \<open>Ranking without constraints\<close>

lemma screen_loop_free:
  "screen_loop [] cs s = Inr (s\<lparr>sc_survivors := sc_survivors s @ cs,
     sc_has_costs := (sc_has_costs s \<or> (\<exists>c \<in> set cs. cand_costs c \<noteq> []))\<rparr>)"
  by (induction cs arbitrary: s) (auto simp: screen_step_def)

lemma rank_free:
  assumes "dec_hard_constraints d = []"
  obtains r where "rank_candidates d = Inr r"
    "rk_ranked r = map cand_candidate_id (stable_sort cand_before (cset_candidates (dec_candidate_set d)))"
    "rk_selected r = (case rk_ranked r of [] \<Rightarrow> nil_id | i # is \<Rightarrow> i)"
proof -
  obtain r where r: "rank_candidates d = Inr r"
    by (simp add: rank_candidates_def screen_candidates_def assms screen_loop_free Let_def)
  have "survivors_of d = cset_candidates (dec_candidate_set d)"
    by (simp add: survivors_of_def assms rejected_by_def)
  then show thesis using that [OF r] rank_candidates_Inr(1,4) [OF r] by simp
qed

lemma result_loop_missing:
  "rk_missing (result_loop cs res) = rk_missing res @
     map (\<lambda>c. ''candidate '' @ id_str (cand_candidate_id c) @ '' has no cost evidence'')
       (filter (\<lambda>c. \<not> has_cost_evidence c) cs)"
  by (induction cs res rule: result_loop.induct) simp_all

lemma rank_free_missing:
  assumes "dec_hard_constraints d = []" "rank_candidates d = Inr r"
  shows "rk_missing r = map (\<lambda>c. ''candidate '' @ id_str (cand_candidate_id c) @ '' has no cost evidence'')
      (filter (\<lambda>c. \<not> has_cost_evidence c) (stable_sort cand_before (cset_candidates (dec_candidate_set d)))) @
    cset_missing_fields (dec_candidate_set d)"
  using assms(2)
  by (auto simp: rank_candidates_def screen_candidates_def assms(1) screen_loop_free Let_def result_loop_missing)

lemma replay_free:
  assumes "dec_hard_constraints d = []" "stable_sort cand_before (cset_candidates (dec_candidate_set d)) = c # cs"
  obtains out where "replay_decision d = Inr out" "rep_selected out = dec_selected_candidate d"
    "rep_reproduced out = (cand_candidate_id c = dec_selected_candidate d)"
proof -
  obtain r where r: "rank_candidates d = Inr r" "rk_selected r = cand_candidate_id c"
    by (rule rank_free [OF assms(1)]) (simp add: assms(2))
  have "cset_candidates (dec_candidate_set d) \<noteq> []" using assms(2) by auto
  then show thesis using that r by (simp add: replay_returns)
qed

lemma stored_admissible:
  assumes "decision_admissible d I" "consistent I"
  shows "stored_decision (dec_decision_id d) (snd (ingest_decision d I)) = Some d"
proof -
  have "ing_accepted (fst (ingest_decision d I))"
    using assms(1) by (cases rule: ingest_decision_cases [of d I]) (auto simp: accept_def Let_def)
  then show ?thesis by (rule stored_after_ingest [OF assms(2)])
qed

lemma replay_ingested:
  assumes "decision_admissible d I" "consistent I" "dec_hard_constraints d = []"
    and "stable_sort cand_before (cset_candidates (dec_candidate_set d)) = c # cs"
  obtains out where "obs_replay (dec_decision_id d) (snd (ingest_decision d I)) = Inr out"
    "rep_selected out = dec_selected_candidate d" "rep_reproduced out = (cand_candidate_id c = dec_selected_candidate d)"
proof -
  obtain out where "replay_decision d = Inr out" "rep_selected out = dec_selected_candidate d"
    "rep_reproduced out = (cand_candidate_id c = dec_selected_candidate d)"
    by (rule replay_free [OF assms(3,4)])
  then show thesis using that stored_admissible [OF assms(1,2)] by (simp add: obs_replay_def)
qed

lemma explain_ingested:
  assumes "decision_admissible d I" "consistent I" "rank_candidates d = Inr r"
  shows "obs_explain (dec_decision_id d) (snd (ingest_decision d I)) = Inr (build_explanation d r)"
  using stored_admissible [OF assms(1,2)] assms(3) by (simp add: obs_explain_def)

section \<open>Ingesting many decisions\<close>

definition ingest_all :: "PlacementDecision list \<Rightarrow> Impl \<Rightarrow> Impl" where
  "ingest_all ds I = fold (\<lambda>d I. snd (ingest_decision d I)) ds I"

definition own_attempt :: "PlacementDecision \<Rightarrow> bool" where
  "own_attempt d \<longleftrightarrow> dec_attempt_id d = Id (id_value (dec_decision_id d))"

lemma attempt_lookup:
  assumes "dec_indexed I" "k \<notin> dec_attempt_id ` set (im_dec I)"
  shows "map_of (idx_dec_attempt I) k = None"
proof -
  have "set (positions (valid_key dec_attempt_id) (im_dec I) k) = {}"
    using assms(2) by (auto simp: set_positions valid_key_def split: if_splits)
  then have "positions (valid_key dec_attempt_id) (im_dec I) k = []" by simp
  then show ?thesis using assms(1) by (simp add: dec_indexed_def last_exact_def)
qed

lemma own_attempt_admissible:
  assumes "consistent I" "list_all own_attempt (im_dec I)" "im_coordinator I = 0"
    and "decision_valid d" "own_attempt d" "dec_decision_id d \<notin> dec_decision_id ` set (im_dec I)"
  shows "decision_admissible d I"
proof -
  have i: "dec_indexed I" using assms(1) by (simp add: consistent_def)
  have "map_of (im_dec_by_id I) (dec_decision_id d) = None"
    using i assms(6) unique_exact_None unfolding dec_indexed_def by blast
  moreover have "dec_attempt_id d \<notin> dec_attempt_id ` set (im_dec I)"
  proof
    assume "dec_attempt_id d \<in> dec_attempt_id ` set (im_dec I)"
    then obtain e where "e \<in> set (im_dec I)" "dec_attempt_id e = dec_attempt_id d" by auto
    then have "dec_decision_id e = dec_decision_id d"
      using assms(2,5) by (auto simp: list_all_iff own_attempt_def intro: Id.expand)
    with \<open>e \<in> set (im_dec I)\<close> assms(6) show False by (metis image_eqI)
  qed
  ultimately show ?thesis
    using assms(3,4) attempt_lookup [OF i] by (simp add: decision_admissible_def stale_epoch_def)
qed

lemma ingest_all_new:
  assumes "consistent I" "list_all own_attempt (im_dec I)" "im_coordinator I = 0"
    and "list_all decision_valid ds" "list_all own_attempt ds" "distinct (map dec_decision_id (im_dec I @ ds))"
  shows "consistent (ingest_all ds I) \<and> im_dec (ingest_all ds I) = im_dec I @ ds \<and>
    im_obs (ingest_all ds I) = im_obs I \<and> im_outcomes (ingest_all ds I) = im_outcomes I \<and>
    im_sources (ingest_all ds I) = im_sources I \<and> im_coordinator (ingest_all ds I) = 0 \<and>
    im_rejected (ingest_all ds I) = im_rejected I"
  using assms
proof (induction ds arbitrary: I)
  case (Cons d ds)
  let ?J = "snd (ingest_decision d I)"
  have adm: "decision_admissible d I" by (rule own_attempt_admissible) (use Cons.prems in auto)
  then have J: "?J = snd (accept (store_dec d I))"
    by (cases rule: ingest_decision_cases [of d I]) auto
  have f: "im_dec ?J = im_dec I @ [d]" "im_obs ?J = im_obs I" "im_outcomes ?J = im_outcomes I"
    "im_sources ?J = im_sources I" "im_coordinator ?J = im_coordinator I" "im_rejected ?J = im_rejected I"
    unfolding J by (simp_all add: accept_def Let_def)
  have "consistent ?J" using Cons.prems(1) by (rule consistent_ingest_decision)
  from Cons.IH [OF this] Cons.prems show ?case by (simp add: ingest_all_def f)
qed (simp add: ingest_all_def)

lemma ingest_all_fresh:
  assumes "list_all decision_valid ds" "list_all own_attempt ds" "distinct (map dec_decision_id ds)"
  shows "consistent (ingest_all ds fresh)" "im_dec (ingest_all ds fresh) = ds" "im_obs (ingest_all ds fresh) = []"
    "im_outcomes (ingest_all ds fresh) = []" "im_sources (ingest_all ds fresh) = []" "im_rejected (ingest_all ds fresh) = 0"
  using ingest_all_new [of fresh ds] assms by (simp_all add: consistent_init) (simp_all add: Impl_init_def)

text \<open>What a consistent observatory has stored at a position.\<close>

lemma stored_at:
  assumes "consistent I" "i < length (im_dec I)"
  shows "stored_decision (dec_decision_id (im_dec I ! i)) I = Some (im_dec I ! i)"
proof -
  have "unique_exact dec_decision_id (im_dec I) (im_dec_by_id I)"
    using assms(1) by (simp add: consistent_def dec_indexed_def)
  then have "map_of (im_dec_by_id I) (dec_decision_id (im_dec I ! i)) = Some i"
    using assms(2) by (simp add: unique_exact_def)
  then show ?thesis by (simp add: stored_decision_def)
qed

lemma stored_two:
  assumes "consistent I" "im_dec I = [a, b]"
  shows "stored_decision (dec_decision_id a) I = Some a" "stored_decision (dec_decision_id b) I = Some b"
  using stored_at [OF assms(1), of 0] stored_at [OF assms(1), of 1] by (simp_all add: assms(2))

text \<open>A persisted observatory is read back in full, one record per entry and one for the header.\<close>

lemma recover_count:
  assumes "consistent I" "storable I" "orders_of os I" "trace \<noteq> ''''"
  obtains fs K where "persist os trace I = Inr fs"
    "recover (file_bytes (os\<lparr>os_files := fs\<rparr>) trace) fresh =
       (1 + length (im_sources I) + length (im_obs I) + length (im_dec I) + length (im_outcomes I), K)"
    "consistent K" "same_log I K"
proof -
  let ?so = "os_source_order os I" and ?oo = "os_outcome_order os I"
  have ord: "mset ?so = mset (im_sources I)" "mset ?oo = mset (im_outcomes I)"
    using assms(3) by (simp_all add: orders_of_def)
  let ?bs = "image_of (persist_records ?so ?oo I)"
  have img: "persist_image ?so ?oo I = Inr ?bs" by (rule persist_image_records(1) [OF assms(2) ord])
  have "?bs \<noteq> []" by (simp add: image_of_def persist_records_def persist_writers_def)
  then have rec: "recover ?bs fresh = (1 + length (im_sources I) + length (im_obs I) + length (im_dec I) + length (im_outcomes I),
      reloaded ?so ?oo I fresh)"
    using recover_image [OF persist_image_records(2) [OF assms(2) ord]] load_persisted [OF assms(1,2) ord]
    by (simp add: recover_def)
  have "last (persist_states trace ?bs (os_files os)) trace = Some ?bs" by (simp add: persist_states_def Let_def)
  then have "persist os trace I = Inr (last (persist_states trace ?bs (os_files os)))"
    "file_bytes (os\<lparr>os_files := last (persist_states trace ?bs (os_files os))\<rparr>) trace = ?bs"
    by (simp_all add: persist_def img file_bytes_def)
  moreover have "consistent (reloaded ?so ?oo I fresh)"
    using recover_consistent [OF consistent_init, of ?bs ObservatoryConfig_default] rec by simp
  moreover have "same_log I (reloaded ?so ?oo I fresh)"
    using reloaded_fields [OF assms(1) ord] by (simp add: same_log_def)
  ultimately show thesis using that rec by simp
qed

end
