(* ===== verification/Scenarios.thy ===== *)
theory Scenarios
  imports Workload
begin

text \<open>
  The deterministic scenarios of src/tests/scenarios.hpp and the demonstration programs of src/examples that run them
  against an observatory: each program is a function from the readings of the clock to what it prints. The theorems
  say what that is.
\<close>

section \<open>scenarios.hpp\<close>

definition po_prov :: "Timestamp \<Rightarrow> SourceId \<Rightarrow> u64 \<Rightarrow> Classification \<Rightarrow> u64 \<Rightarrow> u64 \<Rightarrow> Provenance" where
  "po_prov now sid gen cls boot epoch = Provenance_default
     \<lparr>prov_source_id := sid, prov_source_generation := gen, prov_source_type := SourceType.Synthetic,
      prov_method := CollectionMethod.Reconstructed, prov_reliability := ReliabilityClass.Current,
      prov_classification := cls, prov_timestamp := now, prov_worker_boot := boot, prov_coordinator_epoch := epoch\<rparr>"

definition po_candidate :: "CandidateId \<Rightarrow> DeviceId \<Rightarrow> u64 \<Rightarrow> u32 \<Rightarrow> string \<Rightarrow> f64 \<Rightarrow> PlacementCandidate" where
  "po_candidate i dev free_mem depth arch total_cost =
     (let used = 32 * GiB - free_mem in
      PlacementCandidate_default
        \<lparr>cand_candidate_id := i, cand_device_id := dev, cand_generation := 1, cand_architecture := arch,
         cand_health := HealthState.Healthy,
         cand_memory := MemoryDescriptor_default
           \<lparr>mem_total_bytes := 32 * GiB, mem_free_bytes := free_mem, mem_used_bytes := used,
            mem_pressure_ratio := f64_div (f64_of_u64 used) (f64_of_u64 (32 * GiB))\<rparr>,
         cand_queue := QueueDescriptor_default\<lparr>queue_depth := depth\<rparr>, cand_total_cost := total_cost\<rparr>)"

definition po_add_cost :: "CostComponentKind \<Rightarrow> f64 \<Rightarrow> f64 \<Rightarrow> PlacementCandidate \<Rightarrow> PlacementCandidate" where
  "po_add_cost kind cost w c =
     c\<lparr>cand_costs := cand_costs c @ [PlacementCostComponent_default
         \<lparr>cost_kind := kind, cost_cost := cost, cost_policy_weight := w,
          cost_classification := Classification.Measured,
          cost_label := ''cost:'' @ dec_nat (unat (CostComponentKind_code kind))\<rparr>]\<rparr>"

definition po_decision ::
    "Timestamp \<Rightarrow> PlacementDecisionId \<Rightarrow> WorkloadId \<Rightarrow> RequestId \<Rightarrow> PlacementCandidate list \<Rightarrow> CandidateId \<Rightarrow> u64 \<Rightarrow> u64 \<Rightarrow>
     PlacementDecision" where
  "po_decision now k wl req cands selected pol epoch =
     (let p = po_prov now (Id 1) 1 Classification.Measured 0 epoch in
      PlacementDecision_default
        \<lparr>dec_decision_id := k, dec_attempt_id := Id (id_value k), dec_placement_generation := 1,
         dec_observation_generation := 1, dec_epoch := 1, dec_policy_generation := pol, dec_workload_id := wl,
         dec_request_id := req, dec_tenant_id := Id 1, dec_namespace_id := Id 1,
         dec_candidate_set := CandidateSet_default
           \<lparr>cset_candidates := cands, cset_complete := True, cset_reconstructed := False\<rparr>,
         dec_selected_candidate := selected, dec_tie_break := TieBreakReason.LowestCost,
         dec_tie_break_reason :=
           ''lowest computed weighted cost; ties broken by cost-component vector then candidate id'',
         dec_determinism := DeterminismClass.Deterministic, dec_provenance := p,
         dec_lifecycle := LifecycleState.DecisionLinked,
         dec_confidence := \<lparr>conf_cls = ConfidenceClass.CompleteMeasured, conf_numerator = f64_of_u64 1,
           conf_denominator = f64_of_u64 1, conf_derivation = ''complete measured evidence''\<rparr>,
         dec_cost_components := map (\<lambda>c. \<lparr>cost_kind = CostComponentKind.Custom,
             cost_label = ''total_cost:'' @ id_str (cand_candidate_id c), cost_cost = cand_total_cost c,
             cost_policy_weight = f64_of_u64 1, cost_classification = Classification.Measured,
             cost_provenance = p, cost_detail = ''''\<rparr>) cands\<rparr>)"

text \<open>The doubles of the scenarios: 0.2, 0.5, 0.8, 0.9, 1.5 and the integers.\<close>

definition dbl02 :: f64 where "dbl02 = 0x3FC999999999999A"
definition dbl05 :: f64 where "dbl05 = 0x3FE0000000000000"
definition dbl08 :: f64 where "dbl08 = 0x3FE999999999999A"
definition dbl09 :: f64 where "dbl09 = 0x3FECCCCCCCCCCCCD"
definition dbl1 :: f64 where "dbl1 = 0x3FF0000000000000"
definition dbl15 :: f64 where "dbl15 = 0x3FF8000000000000"
definition dbl2 :: f64 where "dbl2 = 0x4000000000000000"
definition dbl3 :: f64 where "dbl3 = 0x4008000000000000"
definition dbl4 :: f64 where "dbl4 = 0x4010000000000000"
definition dblm1 :: f64 where "dblm1 = 0xBFF0000000000000"

definition po_memory_decision :: "Timestamp \<Rightarrow> PlacementDecisionId \<Rightarrow> WorkloadId \<Rightarrow> PlacementDecision" where
  "po_memory_decision now k wl = po_decision now k wl (Id (id_value k))
     [po_add_cost CostComponentKind.MemoryHeadroom dbl2 dbl1 (po_candidate (Id 1) (Id 1) (8 * GiB) 0 ''sm_120'' dbl3),
      po_add_cost CostComponentKind.MemoryHeadroom dbl05 dbl1 (po_candidate (Id 2) (Id 2) (24 * GiB) 5 ''sm_120'' dbl1)]
     (Id 2) 1 0"

section \<open>Programs that replay one decision\<close>

definition digit01 :: "bool \<Rightarrow> string" where
  "digit01 b = (if b then ''1'' else ''0'')"

definition replay_report :: "string \<Rightarrow> ReplayResult \<Rightarrow> string" where
  "replay_report what rep =
     what @ ''selected='' @ id_str (rep_selected rep) @ '' reproduced='' @ digit01 (rep_reproduced rep) @ newline"

definition ex_memory_placement :: "Timestamp \<Rightarrow> fault + string" where
  "ex_memory_placement now =
     (let I = snd (ingest_decision (po_memory_decision now (Id 4) (Id 4)) fresh_obs) in
      fbind (obs_explain (Id 4) I) (\<lambda>ex. fbind (obs_replay (Id 4) I) (\<lambda>rep.
        Inr (''memory-driven selected='' @ dec_int (sint (id_value (ex_decision_id ex))) @ newline @ replay_report '''' rep))))"

definition ex_queue_placement :: "Timestamp \<Rightarrow> fault + string" where
  "ex_queue_placement now =
     (let c1 = po_add_cost CostComponentKind.QueueCost dbl05 dbl1 (po_candidate (Id 1) (Id 1) (24 * GiB) 0 ''sm_120'' dbl05);
          c2 = po_add_cost CostComponentKind.QueueCost dbl4 dbl1 (po_candidate (Id 2) (Id 2) (24 * GiB) 50 ''sm_120'' dbl4);
          I = snd (ingest_decision (po_decision now (Id 3) (Id 3) (Id 3) [c1, c2] (Id 1) 1 0) fresh_obs)
      in fbind (obs_replay (Id 3) I) (\<lambda>rep. Inr (replay_report ''queue-driven '' rep)))"

definition ex_deadline_placement :: "Timestamp \<Rightarrow> fault + string" where
  "ex_deadline_placement now =
     (let c1 = po_add_cost CostComponentKind.DeadlineRisk dbl02 dbl1 (po_candidate (Id 1) (Id 1) (24 * GiB) 0 ''sm_120'' dbl05);
          c2 = po_add_cost CostComponentKind.DeadlineRisk dbl09 dbl1 (po_candidate (Id 2) (Id 2) (24 * GiB) 0 ''sm_120'' dbl08);
          I = snd (ingest_decision (po_decision now (Id 6) (Id 6) (Id 6) [c1, c2] (Id 1) 1 0) fresh_obs)
      in fbind (obs_replay (Id 6) I) (\<lambda>rep. Inr (replay_report ''deadline-driven '' rep)))"

definition ex_locality_placement :: "Timestamp \<Rightarrow> fault + string" where
  "ex_locality_placement now =
     (let c1 = po_add_cost CostComponentKind.StateLocalityBenefit dblm1 dbl1
                 (po_candidate (Id 1) (Id 1) (24 * GiB) 0 ''sm_120'' dbl05);
          c2 = po_add_cost CostComponentKind.StateLocalityBenefit dbl02 dbl1
                 (po_candidate (Id 2) (Id 2) (24 * GiB) 0 ''sm_120'' dbl15);
          loc = LocalityDescriptor_default\<lparr>loc_type := LocalityType.Model, loc_state_key := ''weights:abc'',
                  loc_device_id := Id 1, loc_present := True, loc_benefit := dbl1\<rparr>;
          c1' = c1\<lparr>cand_locality := cand_locality c1 @ [loc]\<rparr>;
          I = snd (ingest_decision (po_decision now (Id 5) (Id 5) (Id 5) [c1', c2] (Id 1) 1 0) fresh_obs)
      in fbind (obs_replay (Id 5) I) (\<lambda>rep. Inr (replay_report ''locality-driven '' rep)))"

section \<open>Programs that query an observatory\<close>

definition ex_counterfactual :: "Timestamp \<Rightarrow> fault + string" where
  "ex_counterfactual now =
     (let c1 = po_add_cost CostComponentKind.TransferCost dbl05 dbl1 (po_candidate (Id 1) (Id 1) (24 * GiB) 0 ''sm_120'' dbl05);
          c2 = po_add_cost CostComponentKind.TransferCost dbl3 dbl1 (po_candidate (Id 2) (Id 2) (24 * GiB) 0 ''sm_120'' dbl3);
          I = snd (ingest_decision (po_decision now (Id 7) (Id 7) (Id 7) [c1, c2] (Id 1) 1 0) fresh_obs);
          ch = [\<lparr>ch_field = ''transfer_cost:2'', ch_new_value = VDouble f64_zero, ch_relative = False\<rparr>]
      in fbind (obs_counterfactual (Id 7) ch I) (\<lambda>cr.
        case cr of
          [] \<Rightarrow> Inl (Undefined ''cr[0]'')
        | c # cs \<Rightarrow> Inr (''counterfactual classification='' @ Classification_string (cf_classification c) @
            '' decision_changed='' @ digit01 (cf_decision_changed c) @
            '' resulting='' @ id_str (cf_resulting_decision c) @ newline)))"

definition ex_partial_evidence :: "Timestamp \<Rightarrow> fault + string" where
  "ex_partial_evidence now =
     (let d = po_decision now (Id 2) (Id 2) (Id 2) [po_candidate (Id 1) (Id 1) (24 * GiB) 0 ''sm_120'' f64_zero] (Id 1) 1 0;
          cs = dec_candidate_set d;
          d' = d\<lparr>dec_candidate_set := cs\<lparr>cset_complete := False, cset_reconstructed := True,
                  cset_classification := Classification.Derived,
                  cset_missing_fields := cset_missing_fields cs @ [''memory.used_bytes'']\<rparr>\<rparr>;
          I = snd (ingest_decision d' fresh_obs)
      in fbind (obs_explain (Id 2) I) (\<lambda>ex.
        Inr (''partial evidence confidence='' @ ConfidenceClass_string (conf_cls (ex_confidence ex)) @
             '' missing='' @ dec_nat (length (ex_missing_evidence ex)) @ newline)))"

definition ex_deterministic_replay :: "Timestamp \<Rightarrow> fault + string" where
  "ex_deterministic_replay now =
     (let I = snd (ingest_decision (po_memory_decision now (Id 8) (Id 8)) fresh_obs) in
      fbind (obs_replay (Id 8) I) (\<lambda>r1. fbind (obs_replay (Id 8) I) (\<lambda>r2.
        Inr (''replay digest='' @ rep_replay_digest r1 @ newline @ ''reproduced='' @ digit01 (rep_reproduced r1) @
             '' identical='' @ digit01 (rep_replay_digest r1 = rep_replay_digest r2) @ newline))))"

definition ex_trace_comparison :: "Timestamp \<Rightarrow> Timestamp \<Rightarrow> string" where
  "ex_trace_comparison now1 now2 =
     (let d1 = po_memory_decision now1 (Id 9) (Id 9);
          d2 = po_memory_decision now2 (Id 10) (Id 9);
          cs = cset_candidates (dec_candidate_set d2);
          c = cs ! 1;
          d2' = d2\<lparr>dec_policy_generation := 2, dec_selected_candidate := Id 1,
                  dec_candidate_set := (dec_candidate_set d2)\<lparr>cset_candidates :=
                    cs[1 := c\<lparr>cand_memory := (cand_memory c)\<lparr>mem_free_bytes := 8 * GiB\<rparr>\<rparr>]\<rparr>\<rparr>;
          I = snd (ingest_decision d2' (snd (ingest_decision d1 fresh_obs)));
          cmp = obs_compare (Id 9) (Id 10) I
      in ''compare selected_changed='' @ digit01 (cmp_selected_changed cmp) @
         '' deltas='' @ dec_nat (length (cmp_deltas cmp)) @ newline @
         concat (map (\<lambda>x. ''  ['' @ delta_field x @ ''] '' @ delta_before x @ '' -> '' @ delta_after x @ newline) (cmp_deltas cmp)))"

section \<open>Programs about authority and conflicting sources\<close>

definition free_report :: "Timestamp \<Rightarrow> u64 \<Rightarrow> u64 \<Rightarrow> u64 \<Rightarrow> PlacementObservation" where
  "free_report now k src free = PlacementObservation_default
     \<lparr>obs_observation_id := Id k, obs_observation_generation := 1, obs_source_id := Id src, obs_source_generation := 1,
      obs_timestamp := now, obs_workload_id := Id 40, obs_lifecycle := LifecycleState.Collected,
      obs_fields := [\<lparr>meas_normalized_field = ''device.memory.free_bytes'', meas_raw_field = '''', meas_value = VUInt free,
        meas_classification = Classification.Measured, meas_provenance = Provenance_default\<rparr>]\<rparr>"

definition ex_conflicting_evidence :: "Timestamp \<Rightarrow> Timestamp \<Rightarrow> fault + string" where
  "ex_conflicting_evidence now1 now2 =
     (let I = snd (ingest (free_report now2 2 2 (16 * GiB)) (snd (ingest (free_report now1 1 1 (24 * GiB)) fresh_obs)));
          obslist = observations QueryFilter_default I;
          hits = concat (map (\<lambda>ob. map (\<lambda>f. (ob, f))
            (filter (\<lambda>f. meas_normalized_field f = ''device.memory.free_bytes'') (obs_fields ob))) obslist);
          line = (\<lambda>(ob, f). fbind (value_as_uint (meas_value f)) (\<lambda>n.
            Inr (''  source '' @ id_str (obs_source_id ob) @ '' reports '' @ dec_nat (unat n) @ newline)))
      in foldl (\<lambda>out h. fbind out (\<lambda>t. fbind (line h) (\<lambda>l. Inr (t @ l))))
           (Inr (''conflicting evidence preserved: '' @ dec_nat (length obslist) @
                 '' observations, both sources retained'' @ newline)) hits)"

definition restart_obs :: "Timestamp \<Rightarrow> u64 \<Rightarrow> u64 \<Rightarrow> u64 \<Rightarrow> PlacementObservation" where
  "restart_obs now k gen boot = PlacementObservation_default
     \<lparr>obs_observation_id := Id k, obs_observation_generation := 1, obs_source_id := Id 21, obs_source_generation := gen,
      obs_worker_boot := boot, obs_timestamp := now, obs_workload_id := Id 21, obs_lifecycle := LifecycleState.Collected\<rparr>"

definition ex_source_restart :: "(nat \<Rightarrow> Timestamp) \<Rightarrow> string" where
  "ex_source_restart now =
     (let sd = SourceDescriptor_default\<lparr>src_source_id := Id 21, src_generation := 1, src_type := SourceType.Multiprocess,
                 src_name := ''src''\<rparr>;
          (a, I1) = ingest (restart_obs (now 1) 1 1 11) (register_source sd (now 0) fresh_obs);
          (rst, I2) = ingest (restart_obs (now 2) 2 2 22) I1;
          (stale, I3) = ingest (restart_obs (now 3) 3 1 11) I2;
          (oldboot, I4) = ingest (restart_obs (now 4) 4 2 11) I3;
          (new, I5) = ingest (restart_obs (now 5) 5 2 22) I4
      in ''initial accepted='' @ digit01 (ing_accepted a) @ newline @
         ''restart accepted='' @ digit01 (ing_accepted rst) @
           '' gen='' @ dec_nat (unat (current_source_generation (Id 21) I2)) @ newline @
         ''stale-gen rejected='' @ digit01 (\<not> ing_accepted stale) @ '' reason='' @ ing_error stale @ newline @
         ''old-boot rejected='' @ digit01 (\<not> ing_accepted oldboot) @ '' reason='' @ ing_error oldboot @ newline @
         ''fresh accepted='' @ digit01 (ing_accepted new) @ newline)"

section \<open>A program that persists and recovers\<close>

definition ex_persistence_recovery :: "Os \<Rightarrow> string \<Rightarrow> fault + string" where
  "ex_persistence_recovery os trace =
     (let I = snd (ingest_decision (po_memory_decision (os_now os 0) (Id 30) (Id 30)) fresh_obs);
          out = PlacementOutcome_default\<lparr>out_decision_id := Id 30, out_attempt_id := Id 30,
                  out_disposition := OutcomeDisposition.Succeeded, out_duration_ns := 777,
                  out_provenance := po_prov (os_now os 1) (Id 1) 1 Classification.Measured 0 0\<rparr>;
          J = snd (ingest_outcome out I)
      in fbind (persist os trace J) (\<lambda>fs.
         case recover (file_bytes (os\<lparr>os_files := fs\<rparr>) trace) fresh_obs of (n, K) \<Rightarrow>
           let d = get_decision (Id 30) K in
           fbind (obs_replay (Id 30) K) (\<lambda>rep.
             Inr (''recovery records='' @ dec_nat n @ '' decision_present='' @ digit01 (d \<noteq> None) @
                  '' selected='' @ (case d of Some x \<Rightarrow> id_str (dec_selected_candidate x) | None \<Rightarrow> '''') @
                  '' reproduced='' @ digit01 (rep_reproduced rep) @ newline))))"

section \<open>Doubles\<close>

lemma f64_of_u64_one: "f64_of_u64 1 = dbl1"
  by (simp add: f64_eval dbl1_def)

lemmas dbl_defs = dbl02_def dbl05_def dbl08_def dbl09_def dbl1_def dbl15_def dbl2_def dbl3_def dbl4_def dblm1_def

lemma times_one:
  "f64_mul dbl02 dbl1 = dbl02" "f64_mul dbl05 dbl1 = dbl05" "f64_mul dbl09 dbl1 = dbl09" "f64_mul dbl2 dbl1 = dbl2"
  "f64_mul dbl3 dbl1 = dbl3" "f64_mul dbl4 dbl1 = dbl4" "f64_mul dblm1 dbl1 = dblm1" "f64_mul dbl1 dbl1 = dbl1"
  "f64_mul 0 dbl1 = 0"
  by (simp_all add: dbl_defs f64_eval)

lemma zero_plus:
  "f64_add 0 dbl02 = dbl02" "f64_add 0 dbl05 = dbl05" "f64_add 0 dbl09 = dbl09" "f64_add 0 dbl2 = dbl2"
  "f64_add 0 dbl3 = dbl3" "f64_add 0 dbl4 = dbl4" "f64_add 0 dblm1 = dblm1" "f64_add 0 dbl1 = dbl1"
  by (rule f64_add_zero; simp add: dbl_defs f64_finite_def f64_fields)+

lemma dbl_finite:
  "f64_finite dbl02" "f64_finite dbl05" "f64_finite dbl08" "f64_finite dbl09" "f64_finite dbl1" "f64_finite dbl15"
  "f64_finite dbl2" "f64_finite dbl3" "f64_finite dbl4" "f64_finite dblm1" "f64_finite f64_zero"
  by (simp_all add: dbl_defs f64_finite_def f64_fields f64_zero_def)

section \<open>What the programs print\<close>

lemma po_decision_fields [simp]:
  "dec_decision_id (po_decision now k wl req cs sel pol epoch) = k"
  "dec_selected_candidate (po_decision now k wl req cs sel pol epoch) = sel"
  "dec_hard_constraints (po_decision now k wl req cs sel pol epoch) = []"
  "cset_candidates (dec_candidate_set (po_decision now k wl req cs sel pol epoch)) = cs"
  "dec_attempt_id (po_decision now k wl req cs sel pol epoch) = Id (id_value k)"
  "prov_coordinator_epoch (dec_provenance (po_decision now k wl req cs sel pol epoch)) = epoch"
  by (simp_all add: po_decision_def po_prov_def PlacementDecision_default_def CandidateSet_default_def Provenance_default_def Let_def)

lemma po_candidate_fields [simp]:
  "cand_candidate_id (po_candidate i dev free depth arch cost) = i"
  "cand_costs (po_candidate i dev free depth arch cost) = []"
  "cand_total_cost (po_candidate i dev free depth arch cost) = cost"
  "mem_free_bytes (cand_memory (po_candidate i dev free depth arch cost)) = free"
  "cand_candidate_id (po_add_cost kind v w c) = cand_candidate_id c"
  "cand_total_cost (po_add_cost kind v w c) = cand_total_cost c"
  "cand_memory (po_add_cost kind v w c) = cand_memory c"
  "cand_device_id (po_add_cost kind v w c) = cand_device_id c"
  by (simp_all add: po_candidate_def po_add_cost_def PlacementCandidate_default_def MemoryDescriptor_default_def Let_def)

lemma po_memory_possible:
  "\<not> impossible_memory (po_candidate i dev (24 * GiB) depth arch cost)"
  "\<not> impossible_memory (po_candidate i dev (8 * GiB) depth arch cost)"
  "impossible_memory (po_add_cost kind v w c) = impossible_memory c"
  by (simp_all add: impossible_memory_def po_candidate_def PlacementCandidate_default_def MemoryDescriptor_default_def
      Let_def GiB_def)

text \<open>A decision of the scenarios over candidates with finite costs is admitted by a new observatory.\<close>

lemma po_decision_valid:
  assumes "id_valid k" "id_valid sel" "sel \<in> cand_candidate_id ` set cs"
    and "list_all (\<lambda>c. f64_finite (cand_total_cost c) \<and> \<not> impossible_memory c \<and>
          list_all (\<lambda>x. f64_finite (cost_cost x) \<and> f64_finite (cost_policy_weight x)) (cand_costs c)) cs"
  shows "decision_valid (po_decision now k wl req cs sel pol epoch)"
  using assms
  by (auto simp: decision_valid_def finite_cost_def po_decision_def po_prov_def PlacementDecision_default_def
      CandidateSet_default_def Let_def list_all_iff list_ex_iff f64_of_u64_one dbl_finite)

lemma po_decision_admissible:
  "decision_valid (po_decision now k wl req cs sel pol epoch) \<Longrightarrow>
   decision_admissible (po_decision now k wl req cs sel pol epoch) fresh"
  by (simp add: decision_admissible_def Impl_init_def stale_epoch_def)

lemma po_cost_fields [simp]:
  "cand_costs (po_add_cost kind v w (po_candidate i dev free depth arch cost)) =
     [PlacementCostComponent_default\<lparr>cost_kind := kind, cost_cost := v, cost_policy_weight := w,
        cost_classification := Classification.Measured,
        cost_label := ''cost:'' @ dec_nat (unat (CostComponentKind_code kind))\<rparr>]"
  by (simp add: po_add_cost_def)

lemma po_total:
  "weighted_total (po_add_cost kind v dbl1 (po_candidate i dev free depth arch cost)) = f64_add 0 (f64_mul v dbl1)"
  by (simp add: weighted_total_def f64_zero_def)

lemma dbl_less:
  "f64_lt dbl05 dbl2 \<and> \<not> f64_lt dbl2 dbl05 \<and> \<not> f64_eq dbl05 dbl2 \<and> \<not> f64_eq dbl2 dbl05"
  "f64_lt dbl05 dbl4 \<and> \<not> f64_lt dbl4 dbl05 \<and> \<not> f64_eq dbl05 dbl4 \<and> \<not> f64_eq dbl4 dbl05"
  "f64_lt dbl02 dbl09 \<and> \<not> f64_lt dbl09 dbl02 \<and> \<not> f64_eq dbl02 dbl09 \<and> \<not> f64_eq dbl09 dbl02"
  "f64_lt dblm1 dbl02 \<and> \<not> f64_lt dbl02 dblm1 \<and> \<not> f64_eq dblm1 dbl02 \<and> \<not> f64_eq dbl02 dblm1"
  by (simp_all add: dbl_defs f64_lt_def f64_eq_def f64_key_def f64_fields)

lemma with_evidence [simp]:
  "impossible_memory (c\<lparr>cand_locality := l\<rparr>) = impossible_memory c"
  "weighted_total (c\<lparr>cand_locality := l\<rparr>) = weighted_total c"
  "weighted_total (c\<lparr>cand_memory := m\<rparr>) = weighted_total c"
  by (simp_all add: impossible_memory_def weighted_total_def)

lemma dec_texts: "dec_nat (Suc 0) = ''1''" "dec_nat (Suc (Suc 0)) = ''2''" "dec_nat (Suc (Suc (Suc 0))) = ''3''" "dec_nat 2 = ''2''" "dec_nat 3 = ''3''" "dec_nat 4 = ''4''" "dec_nat 6 = ''6''"
  by code_simp+

lemma stable_sort_nonempty: "stable_sort lt xs = [] \<longleftrightarrow> xs = []"
proof -
  have "insert_by lt x ys \<noteq> []" for x ys by (cases ys) auto
  then show ?thesis by (cases xs) auto
qed

lemma po_replay:
  assumes "decision_valid (po_decision now k wl req cs sel pol epoch)" "cs \<noteq> []"
  shows "fbind (obs_replay k (snd (ingest_decision (po_decision now k wl req cs sel pol epoch) fresh)))
      (\<lambda>rep. Inr (replay_report what rep)) =
    Inr (what @ ''selected='' @ id_str sel @ '' reproduced='' @
      digit01 (cand_candidate_id (hd (stable_sort cand_before cs)) = sel) @ newline)"
proof -
  obtain c cs' where c: "stable_sort cand_before cs = c # cs'"
    using assms(2) by (metis neq_Nil_conv stable_sort_nonempty)
  obtain out where "obs_replay k (snd (ingest_decision (po_decision now k wl req cs sel pol epoch) fresh)) = Inr out"
    "rep_selected out = sel" "rep_reproduced out = (cand_candidate_id c = sel)"
    using replay_ingested [OF po_decision_admissible [OF assms(1)] consistent_init _ , of c cs'] c by auto
  then show ?thesis by (simp add: replay_report_def c)
qed

lemmas po_eval =
  po_decision_valid id_valid_def po_memory_possible dbl_finite po_total times_one zero_plus dbl_less cand_before_def
  has_cost_evidence_def cost_less_def digit01_def id_str_def dec_texts

lemma ex_queue_output: "ex_queue_placement now = Inr (''queue-driven selected=1 reproduced=1'' @ newline)"
  by (simp only: ex_queue_placement_def Let_def, subst po_replay) (simp_all add: po_eval)

lemma ex_deadline_output: "ex_deadline_placement now = Inr (''deadline-driven selected=1 reproduced=1'' @ newline)"
  by (simp only: ex_deadline_placement_def Let_def, subst po_replay) (simp_all add: po_eval)

lemma ex_locality_output: "ex_locality_placement now = Inr (''locality-driven selected=1 reproduced=1'' @ newline)"
  by (simp only: ex_locality_placement_def Let_def, subst po_replay) (simp_all add: po_eval)

lemma po_memory_valid: "id_valid k \<Longrightarrow> decision_valid (po_memory_decision now k wl)"
  by (simp add: po_memory_decision_def po_eval)

lemma po_memory_id: "dec_decision_id (po_memory_decision now k wl) = k"
  by (simp add: po_memory_decision_def)

lemma po_memory_replay:
  assumes "id_valid k"
  obtains rep where "obs_replay k (snd (ingest_decision (po_memory_decision now k wl) fresh)) = Inr rep"
    "replay_decision (po_memory_decision now k wl) = Inr rep" "rep_selected rep = Id 2" "rep_reproduced rep"
proof -
  let ?d = "po_memory_decision now k wl"
  have adm: "decision_admissible ?d fresh"
    using po_memory_valid [OF assms, of now wl] by (simp add: po_memory_decision_def po_decision_admissible)
  obtain cs c where c: "stable_sort cand_before (cset_candidates (dec_candidate_set ?d)) = c # cs" "cand_candidate_id c = Id 2"
    by (simp add: po_memory_decision_def po_eval)
  have h: "dec_hard_constraints ?d = []" "dec_selected_candidate ?d = Id 2" by (simp_all add: po_memory_decision_def)
  obtain rep where "replay_decision ?d = Inr rep" "rep_selected rep = Id 2" "rep_reproduced rep"
    by (rule replay_free [OF h(1) c(1)]) (simp add: c(2) h(2))
  then show thesis
    using that stored_admissible [OF adm consistent_init] by (simp add: obs_replay_def po_memory_id)
qed

lemma ex_memory_output:
  "ex_memory_placement now = Inr (''memory-driven selected=4'' @ newline @ ''selected=2 reproduced=1'' @ newline)"
proof -
  let ?d = "po_memory_decision now (Id 4) (Id 4)"
  have adm: "decision_admissible ?d fresh"
    using po_memory_valid [of "Id 4" now "Id 4"] by (simp add: po_memory_decision_def po_decision_admissible id_valid_def)
  obtain r where r: "rank_candidates ?d = Inr r" by (rule rank_free [of ?d]) (auto simp: po_memory_decision_def)
  have ex: "obs_explain (Id 4) (snd (ingest_decision ?d fresh)) = Inr (build_explanation ?d r)"
    using explain_ingested [OF adm consistent_init r] by (simp add: po_memory_id)
  obtain rep where "obs_replay (Id 4) (snd (ingest_decision ?d fresh)) = Inr rep" "rep_selected rep = Id 2" "rep_reproduced rep"
    by (rule po_memory_replay [of "Id 4" now "Id 4"]) (simp add: id_valid_def)
  then show ?thesis
    by (simp add: ex_memory_placement_def ex build_explanation_def Let_def po_memory_id dec_int_def dec_texts
        replay_report_def digit01_def id_str_def)
qed

lemma f64_zero_ratio: "f64_div 0 dbl1 = 0" "f64_div 0 0x3FF0000000000000 = 0"
  by (simp_all add: dbl1_def f64_div_def f64_eval)

lemma ex_partial_output:
  "ex_partial_evidence now = Inr (''partial evidence confidence=reconstructed missing=3'' @ newline)"
proof -
  let ?c = "po_candidate (Id 1) (Id 1) (24 * GiB) 0 ''sm_120'' f64_zero"
  let ?d = "po_decision now (Id 2) (Id 2) (Id 2) [?c] (Id 1) 1 0"
  let ?d' = "?d\<lparr>dec_candidate_set := (dec_candidate_set ?d)\<lparr>cset_complete := False, cset_reconstructed := True,
      cset_classification := Classification.Derived,
      cset_missing_fields := [''memory.used_bytes'']\<rparr>\<rparr>"
  have mf: "cset_missing_fields (dec_candidate_set ?d) = []"
    by (simp add: po_decision_def CandidateSet_default_def Let_def)
  have "decision_valid ?d" by (simp add: po_eval)
  then have "decision_valid ?d'" by (simp add: decision_valid_def finite_cost_def)
  then have adm: "decision_admissible ?d' fresh"
    by (simp add: decision_admissible_def Impl_init_def stale_epoch_def)
  have h: "dec_hard_constraints ?d' = []" by simp
  obtain r where r: "rank_candidates ?d' = Inr r" by (rule rank_free [OF h])
  have m: "rk_missing r = [''candidate 1 has no cost evidence'', ''memory.used_bytes'']"
    using rank_free_missing [OF h r] by (simp add: has_cost_evidence_def mf id_str_def dec_texts)
  have te: "total_evidence ?d' = 1"
    by (simp add: total_evidence_def) (simp add: po_decision_def PlacementDecision_default_def Let_def)
  have me: "measured_evidence ?d' = 0"
    by (simp add: measured_evidence_def count_measured_def) (simp add: po_decision_def PlacementDecision_default_def Let_def)
  have cls: "confidence_class ?d' r = ConfidenceClass.Reconstructed"
    by (simp add: confidence_class_def evidence_ratio_def te me f64_of_u64_zero f64_of_u64_one f64_zero_def f64_zero_ratio
        Let_def c06_def f64_le_def f64_key_def f64_fields)
  have "obs_explain (Id 2) (snd (ingest_decision ?d' fresh)) = Inr (build_explanation ?d' r)"
    using explain_ingested [OF adm consistent_init r] by simp
  then show ?thesis
    by (simp add: ex_partial_evidence_def Let_def build_explanation_def cls m mf dec_texts)
qed


lemma ex_deterministic_output:
  "\<exists>digest. length digest = 64 \<and> ex_deterministic_replay now =
     Inr (''replay digest='' @ digest @ newline @ ''reproduced=1 identical=1'' @ newline)"
proof -
  let ?d = "po_memory_decision now (Id 8) (Id 8)"
  obtain rep where rep: "obs_replay (Id 8) (snd (ingest_decision ?d fresh)) = Inr rep" "replay_decision ?d = Inr rep"
    "rep_reproduced rep"
    by (rule po_memory_replay [of "Id 8" now "Id 8"]) (simp add: id_valid_def)
  have "length (rep_replay_digest rep) = 64" using rep(2) by (auto simp: replay_returns split: sum.splits)
  then show ?thesis
    using rep by (intro exI [of _ "rep_replay_digest rep"]) (simp add: ex_deterministic_replay_def digit01_def)
qed

lemma ex_counterfactual_output:
  "ex_counterfactual now = Inr (''counterfactual classification=derived decision_changed=1 resulting=2'' @ newline)"
proof -
  let ?c1 = "po_add_cost CostComponentKind.TransferCost dbl05 dbl1 (po_candidate (Id 1) (Id 1) (24 * GiB) 0 ''sm_120'' dbl05)"
  let ?c2 = "po_add_cost CostComponentKind.TransferCost dbl3 dbl1 (po_candidate (Id 2) (Id 2) (24 * GiB) 0 ''sm_120'' dbl3)"
  let ?c2' = "po_add_cost CostComponentKind.TransferCost 0 dbl1 (po_candidate (Id 2) (Id 2) (24 * GiB) 0 ''sm_120'' dbl3)"
  let ?d = "po_decision now (Id 7) (Id 7) (Id 7) [?c1, ?c2] (Id 1) 1 0"
  let ?ch = "[\<lparr>ch_field = ''transfer_cost:2'', ch_new_value = VDouble f64_zero, ch_relative = False\<rparr>]"
  have t: "change_target ''transfer_cost:2'' = Inr (Some (Id 2), ''transfer_cost'')"
    by (simp add: change_target_def split_last_colon_def is_digit_def digits_value_def digit_val_def)
  have p: "perturb_all ?ch [?c1, ?c2] = Inr [?c1, ?c2']"
    by (simp add: apply_change_def t change_value_def perturb_def) (simp add: po_add_cost_def f64_zero_def)
  have "decision_valid ?d" by (simp add: po_eval)
  then have adm: "decision_admissible ?d fresh" by (rule po_decision_admissible)
  have h: "dec_hard_constraints (with_candidates [?c1, ?c2'] ?d) = []" by simp
  have before: "cand_before ?c2' ?c1"
    by (simp add: po_eval add_zero) (simp add: dbl_defs f64_lt_def f64_eq_def f64_key_def f64_fields)
  obtain r where r: "rank_candidates (with_candidates [?c1, ?c2'] ?d) = Inr r" "rk_selected r = Id 2"
    by (rule rank_free [OF h]) (simp add: before)
  have "obs_counterfactual (Id 7) ?ch (snd (ingest_decision ?d fresh)) = map_sum id (\<lambda>x. [x]) (counterfactual ?d ?ch)"
    using stored_admissible [OF adm consistent_init] by (simp add: obs_counterfactual_def split: sum.split)
  then show ?thesis
    by (simp add: ex_counterfactual_def Let_def counterfactual_def p r digit01_def id_str_def dec_texts
        del: perturb_all.simps)
qed

lemma dec_gib: "dec_nat 25769803776 = ''25769803776''" "dec_nat 17179869184 = ''17179869184''"
  by (simp_all add: dec_nat.simps digit_char_def char_of_def bit_0)

lemma ex_conflicting_output:
  "ex_conflicting_evidence now1 now2 = Inr (''conflicting evidence preserved: 2 observations, both sources retained'' @ newline @
     ''  source 1 reports 25769803776'' @ newline @ ''  source 2 reports 17179869184'' @ newline)"
proof -
  let ?o1 = "free_report now1 1 1 (24 * GiB)" and ?o2 = "free_report now2 2 2 (16 * GiB)"
  let ?I = "snd (ingest ?o1 fresh)"
  have f: "obs_observation_id (free_report now k src free) = Id k" "obs_source_id (free_report now k src free) = Id src"
    "obs_source_generation (free_report now k src free) = 1" "obs_observation_generation (free_report now k src free) = 1"
    "obs_coordinator_epoch (free_report now k src free) = 0" "obs_worker_boot (free_report now k src free) = 0"
    "field_error (obs_fields (free_report now k src free)) = None" for now k src free
    by (simp_all add: free_report_def PlacementObservation_default_def memory_field_def)
  have z: "im_cfg fresh = ObservatoryConfig_default" "im_coordinator fresh = 0" "im_obs fresh = []" "im_obs_by_id fresh = []"
    "im_src_gen fresh = []" "im_src_boot fresh = []"
    by (simp_all add: Impl_init_def)
  have a1: "obs_authorised ?o1 fresh" "obs_content_ok ?o1 fresh"
    by (simp_all add: obs_authorised_def obs_content_ok_def f z current_source_generation_def trusted_boot_def stale_epoch_def id_valid_def)
  note I = worker_obs_accepted [OF a1]
  have ad: "im_src_gen (adopt_authority ?o1 fresh) = [(Id 1, 1)]" "im_src_boot (adopt_authority ?o1 fresh) = [(Id 1, 0)]"
    by (simp_all add: adopt_authority_def Let_def current_source_generation_def f z)
  have a2: "obs_authorised ?o2 ?I" "obs_content_ok ?o2 ?I"
    using I by (simp_all add: obs_authorised_def obs_content_ok_def f z ad current_source_generation_def trusted_boot_def
        stale_epoch_def id_valid_def)
  have "im_obs (snd (ingest ?o2 ?I)) = [correlated ?o1, correlated ?o2]"
    using a1 a2 by (simp add: ingest_logs z)
  then show ?thesis
    by (simp add: ex_conflicting_evidence_def Let_def observations_def)
       (simp add: obs_passes_def id_passes_def num_passes_def QueryFilter_default_def free_report_def id_valid_def nil_id_def
         id_str_def dec_texts dec_gib GiB_def)
qed

lemma restart_obs_fields:
  "obs_observation_id (restart_obs now k gen boot) = Id k" "obs_source_id (restart_obs now k gen boot) = Id 21"
  "obs_source_generation (restart_obs now k gen boot) = gen" "obs_observation_generation (restart_obs now k gen boot) = 1"
  "obs_coordinator_epoch (restart_obs now k gen boot) = 0" "obs_worker_boot (restart_obs now k gen boot) = boot"
  "obs_fields (restart_obs now k gen boot) = []"
  by (simp_all add: restart_obs_def PlacementObservation_default_def)

text \<open>What \<open>ingest\<close> looks at, in a state whose only source is 21: its generation, its boot and the identities in use.\<close>

definition source21 :: "u64 \<Rightarrow> u64 \<Rightarrow> u64 set \<Rightarrow> Impl \<Rightarrow> bool" where
  "source21 gen boot ids I \<longleftrightarrow>
     im_cfg I = ObservatoryConfig_default \<and> im_coordinator I = 0 \<and> im_src_gen I = [(Id 21, gen)] \<and>
     im_src_boot I = [(Id 21, boot)] \<and> smap_ok (im_obs_by_id I) \<and> (\<forall>k. map_of (im_obs_by_id I) (Id k) \<noteq> None \<longleftrightarrow> k \<in> ids)"

lemma source21_accepts:
  assumes "source21 gen boot ids I" "k \<notin> ids" "k \<noteq> 0" "gen \<noteq> 0"
  shows "boot = 0 \<or> boot = b \<Longrightarrow> ing_accepted (fst (ingest (restart_obs now k gen b) I)) \<and>
      source21 gen b (insert k ids) (snd (ingest (restart_obs now k gen b) I))"
    and "gen < g \<Longrightarrow> ing_accepted (fst (ingest (restart_obs now k g b) I)) \<and>
      source21 g b (insert k ids) (snd (ingest (restart_obs now k g b) I))"
    and "g < gen \<Longrightarrow> g \<noteq> 0 \<Longrightarrow> ingest (restart_obs now k g b) I = reject ''stale source generation'' I"
    and "boot \<noteq> 0 \<Longrightarrow> boot \<noteq> b \<Longrightarrow> ingest (restart_obs now k gen b) I = reject ''stale worker boot'' I"
proof -
  note s = assms(1) [unfolded source21_def]
  have n: "map_of (im_obs_by_id I) (Id k) = None" using s assms(2) by blast
  note eval = restart_obs_fields current_source_generation_def trusted_boot_def stale_epoch_def id_valid_def
    id_nil_def ObservatoryConfig_default_def
  { assume b: "boot = 0 \<or> boot = b"
    have a: "obs_authorised (restart_obs now k gen b) I" "obs_content_ok (restart_obs now k gen b) I"
      using s n assms(3,4) b by (auto simp: obs_authorised_def obs_content_ok_def eval)
    have ad: "im_src_gen (adopt_authority (restart_obs now k gen b) I) = [(Id 21, gen)]"
      "im_src_boot (adopt_authority (restart_obs now k gen b) I) = [(Id 21, b)]"
      using s b by (auto simp: adopt_authority_def Let_def eval)
    show "ing_accepted (fst (ingest (restart_obs now k gen b) I)) \<and>
      source21 gen b (insert k ids) (snd (ingest (restart_obs now k gen b) I))"
      using s a worker_obs_accepted [OF a]
      by (auto simp: ingest_fst source21_def ad smap_put_ok smap_lookup_put restart_obs_fields) }
  { assume g: "gen < g"
    have a: "obs_authorised (restart_obs now k g b) I" "obs_content_ok (restart_obs now k g b) I"
      using s n assms(3,4) g by (auto simp: obs_authorised_def obs_content_ok_def eval)
    have ad: "im_src_gen (adopt_authority (restart_obs now k g b) I) = [(Id 21, g)]"
      "im_src_boot (adopt_authority (restart_obs now k g b) I) = [(Id 21, b)]"
      using s g by (auto simp: adopt_authority_def Let_def eval)
    show "ing_accepted (fst (ingest (restart_obs now k g b) I)) \<and>
      source21 g b (insert k ids) (snd (ingest (restart_obs now k g b) I))"
      using s a worker_obs_accepted [OF a]
      by (auto simp: ingest_fst source21_def ad smap_put_ok smap_lookup_put restart_obs_fields) }
  show "g < gen \<Longrightarrow> g \<noteq> 0 \<Longrightarrow> ingest (restart_obs now k g b) I = reject ''stale source generation'' I"
    using s n assms(3) by (simp add: ingest_def Let_def eval)
  show "boot \<noteq> 0 \<Longrightarrow> boot \<noteq> b \<Longrightarrow> ingest (restart_obs now k gen b) I = reject ''stale worker boot'' I"
    using s n assms(3,4) by (simp add: ingest_def Let_def eval)
qed

lemma source21_reject: "source21 gen boot ids (snd (reject msg I)) = source21 gen boot ids I"
  by (simp add: source21_def reject_def)

lemma ex_restart_output:
  "ex_source_restart now = ''initial accepted=1'' @ newline @ ''restart accepted=1 gen=2'' @ newline @
     ''stale-gen rejected=1 reason=stale source generation'' @ newline @
     ''old-boot rejected=1 reason=stale worker boot'' @ newline @ ''fresh accepted=1'' @ newline"
proof -
  let ?sd = "SourceDescriptor_default\<lparr>src_source_id := Id 21, src_generation := 1, src_type := SourceType.Multiprocess,
      src_name := ''src''\<rparr>"
  let ?I0 = "register_source ?sd (now 0) fresh"
  let ?I1 = "snd (ingest (restart_obs (now 1) 1 1 11) ?I0)"
  let ?I2 = "snd (ingest (restart_obs (now 2) 2 2 22) ?I1)"
  have I0: "source21 1 0 {} ?I0"
    by (simp add: source21_def register_source_def Impl_init_def Let_def)
  have I1: "ing_accepted (fst (ingest (restart_obs (now 1) 1 1 11) ?I0)) \<and> source21 1 11 {1} ?I1"
    using source21_accepts(1) [OF I0] by simp
  have I2: "ing_accepted (fst (ingest (restart_obs (now 2) 2 2 22) ?I1)) \<and> source21 2 22 {1, 2} ?I2"
    using source21_accepts(2) [of 1 11 "{1}" ?I1 2 2] I1 by (simp add: insert_commute)
  have s3: "ingest (restart_obs (now 3) 3 1 11) ?I2 = reject ''stale source generation'' ?I2"
    using source21_accepts(3) [of 2 22 "{1, 2}" ?I2 3 1] I2 by simp
  let ?I3 = "snd (reject ''stale source generation'' ?I2)"
  have I3: "source21 2 22 {1, 2} ?I3" using I2 by (simp add: source21_reject)
  have s4: "ingest (restart_obs (now 4) 4 2 11) ?I3 = reject ''stale worker boot'' ?I3"
    using source21_accepts(4) [OF I3] by simp
  let ?I4 = "snd (reject ''stale worker boot'' ?I3)"
  have I4: "source21 2 22 {1, 2} ?I4" using I3 by (simp add: source21_reject)
  have s5: "ing_accepted (fst (ingest (restart_obs (now 5) 5 2 22) ?I4))"
    using source21_accepts(1) [OF I4] by simp
  have g: "current_source_generation (Id 21) ?I2 = 2"
    using I2 by (simp add: source21_def current_source_generation_def)
  have rj: "fst (reject msg I) = \<lparr>ing_accepted = False, ing_error = msg, ing_operation_count = im_events I\<rparr>" for msg I
    by (simp add: reject_def)
  show ?thesis
    by (simp only: ex_source_restart_def Let_def case_prod_beta s3 s4 g rj)
       (use I1 I2 s5 in \<open>simp add: digit01_def dec_texts\<close>)
qed

lemma dec_gib8: "dec_nat 8589934592 = ''8589934592''"
  by (simp add: dec_nat.simps digit_char_def char_of_def bit_0)

lemma ex_comparison_output:
  "ex_trace_comparison now1 now2 = ''compare selected_changed=1 deltas=3'' @ newline @
     ''  [policy_generation] 1 -> 2'' @ newline @ ''  [selected_candidate] 2 -> 1'' @ newline @
     ''  [candidate[1].memory.free_bytes] 25769803776 -> 8589934592'' @ newline"
proof -
  let ?c1 = "po_add_cost CostComponentKind.MemoryHeadroom dbl2 dbl1 (po_candidate (Id 1) (Id 1) (8 * GiB) 0 ''sm_120'' dbl3)"
  let ?c2 = "po_add_cost CostComponentKind.MemoryHeadroom dbl05 dbl1 (po_candidate (Id 2) (Id 2) (24 * GiB) 5 ''sm_120'' dbl1)"
  let ?c2' = "?c2\<lparr>cand_memory := (cand_memory ?c2)\<lparr>mem_free_bytes := 8 * GiB\<rparr>\<rparr>"
  let ?d1 = "po_memory_decision now1 (Id 9) (Id 9)" and ?d2 = "po_memory_decision now2 (Id 10) (Id 9)"
  let ?d2' = "?d2\<lparr>dec_policy_generation := 2, dec_selected_candidate := Id 1,
      dec_candidate_set := (dec_candidate_set ?d2)\<lparr>cset_candidates := [?c1, ?c2']\<rparr>\<rparr>"
  let ?I = "snd (ingest_decision ?d1 fresh)" and ?J = "snd (ingest_decision ?d2' (snd (ingest_decision ?d1 fresh)))"
  have v1: "decision_valid ?d1" by (rule po_memory_valid) (simp add: id_valid_def)
  have "\<not> impossible_memory ?c2'"
    by (simp add: impossible_memory_def po_add_cost_def po_candidate_def PlacementCandidate_default_def
        MemoryDescriptor_default_def Let_def GiB_def)
  moreover have "decision_valid ?d2" by (rule po_memory_valid) (simp add: id_valid_def)
  ultimately have v2: "decision_valid ?d2'"
    by (simp add: decision_valid_def finite_cost_def po_memory_decision_def po_memory_possible id_valid_def)
  have own: "list_all own_attempt [?d1, ?d2']"
    by (simp add: own_attempt_def po_memory_decision_def)
  have valid: "list_all decision_valid [?d1, ?d2']" using v1 v2 by simp
  have dist: "distinct (map dec_decision_id [?d1, ?d2'])" by (simp add: po_memory_id)
  have all: "ingest_all [?d1, ?d2'] fresh = ?J" by (simp add: ingest_all_def)
  have J: "consistent ?J" "im_dec ?J = [?d1, ?d2']"
    using ingest_all_fresh(1,2) [OF valid own dist] unfolding all by blast+
  have ids: "dec_decision_id ?d1 = Id 9" "dec_decision_id ?d2' = Id 10" by (simp_all add: po_memory_id)
  have s: "stored_decision (Id 9) ?J = Some ?d1" "stored_decision (Id 10) ?J = Some ?d2'"
    using stored_two [OF J] unfolding ids by blast+
  have cs: "cset_candidates (dec_candidate_set ?d2) = [?c1, ?c2]" "cset_candidates (dec_candidate_set ?d1) = [?c1, ?c2]"
    by (simp_all add: po_memory_decision_def)
  have f: "dec_policy_generation ?d1 = 1" "dec_selected_candidate ?d1 = Id 2" "dec_outcome ?d1 = None" "dec_outcome ?d2 = None"
    "dec_tie_break ?d1 = dec_tie_break ?d2" "length (dec_cost_components ?d1) = length (dec_cost_components ?d2)"
    "dec_hard_constraints ?d1 = []" "dec_hard_constraints ?d2 = []"
    by (simp_all add: po_memory_decision_def po_decision_def PlacementDecision_default_def Let_def)
  have w: "f64_eq dbl2 dbl2" "f64_eq dbl05 dbl05" by (simp_all add: dbl_defs f64_eq_def f64_key_def f64_fields)
  have cmp: "cmp_selected_changed (compare_decisions ?d1 ?d2')" "cmp_deltas (compare_decisions ?d1 ?d2') =
    [\<lparr>delta_field = ''policy_generation'', delta_before = ''1'', delta_after = ''2'', delta_changed_outcome = True\<rparr>,
     \<lparr>delta_field = ''selected_candidate'', delta_before = ''2'', delta_after = ''1'', delta_changed_outcome = True\<rparr>,
     \<lparr>delta_field = ''candidate[1].memory.free_bytes'', delta_before = ''25769803776'', delta_after = ''8589934592'',
      delta_changed_outcome = True\<rparr>]"
    by (simp_all add: compare_decisions_def cs f w po_total times_one zero_plus compare_candidate_def compare_outcomes_def add_when_def add_delta_def
        candidate_field_def Let_def id_str_def dec_texts dec_gib dec_gib8 GiB_def ComparisonResult_default_def)
  have "?d2\<lparr>dec_policy_generation := 2, dec_selected_candidate := Id 1,
      dec_candidate_set := (dec_candidate_set ?d2)\<lparr>cset_candidates := (cset_candidates (dec_candidate_set ?d2))[1 :=
        (cset_candidates (dec_candidate_set ?d2) ! 1)\<lparr>cand_memory :=
          (cand_memory (cset_candidates (dec_candidate_set ?d2) ! 1))\<lparr>mem_free_bytes := 8 * GiB\<rparr>\<rparr>]\<rparr>\<rparr> = ?d2'"
    by (simp add: cs)
  then have "ex_trace_comparison now1 now2 =
      ''compare selected_changed='' @ digit01 (cmp_selected_changed (compare_decisions ?d1 ?d2')) @
      '' deltas='' @ dec_nat (length (cmp_deltas (compare_decisions ?d1 ?d2'))) @ newline @
      concat (map (\<lambda>x. ''  ['' @ delta_field x @ ''] '' @ delta_before x @ '' -> '' @ delta_after x @ newline)
        (cmp_deltas (compare_decisions ?d1 ?d2')))"
    by (simp only: ex_trace_comparison_def Let_def obs_compare_def s option.case prod.case)
  then show ?thesis by (simp only: cmp) (simp add: digit01_def dec_texts)
qed


lemmas po_defs =
  po_memory_decision_def po_decision_def po_prov_def po_candidate_def po_add_cost_def PlacementDecision_default_def
  CandidateSet_default_def PlacementCandidate_default_def MemoryDescriptor_default_def QueueDescriptor_default_def
  PlacementCostComponent_default_def id_str_def dec_texts

lemma po_memory_storable:
  "PlacementDecision_ok (po_memory_decision now k wl)"
  "length (body_of (write_decision (po_memory_decision now k wl))) \<le> unat kMaxBody"
proof -
  show "PlacementDecision_ok (po_memory_decision now k wl)"
    using PlacementDecision_default_ok Provenance_default_ok
    by (simp add: po_defs Let_def PlacementDecision_ok_def wf_defs default_wf CandidateSet_ok_def PlacementCandidate_ok_def
        MemoryDescriptor_ok_def QueueDescriptor_ok_def Provenance_ok_def Confidence_ok_def PlacementCostComponent_ok_def
        HealthState_of_def HealthState_all_def MemoryPressureLevel_of_def MemoryPressureLevel_all_def QueueState_of_def
        QueueState_all_def CostComponentKind_of_def CostComponentKind_all_def)
  show "length (body_of (write_decision (po_memory_decision now k wl))) \<le> unat kMaxBody"
    by (simp add: po_defs Let_def body_of_def writer_simps write_decision_def write_candidate_set_def write_confidence_def
        write_provenance_def write_reasons_def write_candidate_def write_memory_descriptor_def write_queue_descriptor_def
        write_cost_component_def Provenance_default_def kMaxBody_def)
qed

definition po_outcome :: "Timestamp \<Rightarrow> PlacementOutcome" where
  "po_outcome now = PlacementOutcome_default\<lparr>out_decision_id := Id 30, out_attempt_id := Id 30,
     out_disposition := OutcomeDisposition.Succeeded, out_duration_ns := 777,
     out_provenance := po_prov now (Id 1) 1 Classification.Measured 0 0\<rparr>"

lemma po_outcome_storable:
  "PlacementOutcome_ok (po_outcome now)" "length (body_of (write_outcome (po_outcome now))) \<le> unat kMaxBody"
proof -
  show "PlacementOutcome_ok (po_outcome now)"
    using Provenance_default_ok
    by (simp add: PlacementOutcome_ok_def po_outcome_def PlacementOutcome_default_def po_prov_def Provenance_ok_def
        OutcomeDisposition_wf_def OutcomeDisposition_of_def OutcomeDisposition_all_def wf_defs default_wf)
  show "length (body_of (write_outcome (po_outcome now))) \<le> unat kMaxBody"
    by (simp add: po_outcome_def po_prov_def body_of_def writer_simps write_outcome_def write_provenance_def
        PlacementOutcome_default_def Provenance_default_def kMaxBody_def)
qed

lemma po_outcome_fields:
  "out_decision_id (po_outcome now) = Id 30" "out_attempt_id (po_outcome now) = Id 30"
  "out_disposition (po_outcome now) = OutcomeDisposition.Succeeded"
  by (simp_all add: po_outcome_def)

lemma po_memory_fields:
  "dec_decision_id (po_memory_decision now k wl) = k" "dec_attempt_id (po_memory_decision now k wl) = Id (id_value k)"
  "dec_selected_candidate (po_memory_decision now k wl) = Id 2"
  by (simp_all add: po_memory_decision_def)

text \<open>Persisting a state and recovering it into a new observatory: the number of records, and the log.\<close>

lemma ingest_outcome_sources: "im_sources (snd (ingest_outcome x I)) = im_sources I"
  by (cases rule: ingest_outcome_cases [of x I]) (simp_all add: reject_def accept_def Let_def)

lemma persistence_steps:
  fixes t0 t1 :: Timestamp
  defines "J \<equiv> snd (ingest_outcome (po_outcome t1) (snd (ingest_decision (po_memory_decision t0 (Id 30) (Id 30)) fresh)))"
  assumes "orders_of os J" "trace \<noteq> ''''"
  obtains fs K rep where "persist os trace J = Inr fs" "recover (file_bytes (os\<lparr>os_files := fs\<rparr>) trace) fresh = (3, K)"
    "\<exists>d. get_decision (Id 30) K = Some d \<and> dec_selected_candidate d = Id 2" "obs_replay (Id 30) K = Inr rep" "rep_reproduced rep"
proof -
  let ?d = "po_memory_decision t0 (Id 30) (Id 30)" and ?x = "po_outcome t1"
  let ?I = "snd (ingest_decision ?d fresh)"
  let ?J = "snd (ingest_outcome ?x ?I)"
  have v: "decision_valid ?d" by (rule po_memory_valid) (simp add: id_valid_def)
  have all: "ingest_all [?d] fresh = ?I" by (simp add: ingest_all_def)
  have own: "list_all own_attempt [?d]" by (simp add: own_attempt_def po_memory_decision_def)
  have I: "consistent ?I" "im_dec ?I = [?d]" "im_obs ?I = []" "im_outcomes ?I = []" "im_sources ?I = []"
    using ingest_all_fresh [of "[?d]"] v own unfolding all by simp_all
  have at: "map_of (im_dec_by_id ?I) (Id 30) = Some 0"
    using I(1,2) by (auto simp: consistent_def dec_indexed_def unique_exact_def po_memory_id)
  have adm: "outcome_admissible ?x ?I"
    unfolding outcome_admissible_def
    by (intro conjI exI [of _ 0]) (simp_all add: at I(2,4) po_outcome_fields po_memory_fields id_valid_def)
  have J: "consistent ?J" "im_dec ?J = [?d]" "im_obs ?J = []" "im_outcomes ?J = [(Id 30, ?x)]" "im_sources ?J = []"
    using consistent_ingest_outcome [OF I(1)] adm I ingest_outcome_logs [of ?x ?I]
    by (auto simp: po_outcome_fields ingest_outcome_sources)
  have st: "storable ?J" by (simp add: storable_def J po_memory_storable po_outcome_storable)
  obtain fs K where K: "persist os trace ?J = Inr fs" "recover (file_bytes (os\<lparr>os_files := fs\<rparr>) trace) fresh = (3, K)"
    "consistent K" "same_log ?J K"
    by (rule recover_count [OF J(1) st assms(2) [unfolded J_def] assms(3)]) (simp add: J)
  have k: "im_dec K = [?d]" "im_outcomes K = [(Id 30, ?x)]" using K(4) J by (simp_all add: same_log_def)
  have s: "stored_decision (Id 30) K = Some ?d"
    using stored_at [OF K(3), of 0] by (simp add: k po_memory_fields)
  then have g: "get_decision (Id 30) K = Some (?d\<lparr>dec_outcome := Some ?x\<rparr>)"
    by (auto simp: get_decision_def stored_decision_def k)
  obtain rep where rep: "replay_decision ?d = Inr rep" "rep_reproduced rep"
    by (rule po_memory_replay [of "Id 30" t0 "Id 30"]) (simp add: id_valid_def)
  have "obs_replay (Id 30) K = Inr rep" by (simp add: obs_replay_def s rep)
  then show thesis using that [unfolded J_def] K(1,2) g rep(2) by (simp add: po_memory_fields)
qed

text \<open>The program recovers three records from the trace that it wrote (the header, the decision and the outcome), finds
  the decision with its selection, and the replay of the recovered decision selects the same candidate.\<close>

theorem ex_persistence_output:
  assumes "\<And>I. orders_of os I" "trace \<noteq> ''''"
  shows "ex_persistence_recovery os trace =
    Inr (''recovery records=3 decision_present=1 selected=2 reproduced=1'' @ newline)"
proof -
  obtain fs K rep where r: "persist os trace (snd (ingest_outcome (po_outcome (os_now os 1))
      (snd (ingest_decision (po_memory_decision (os_now os 0) (Id 30) (Id 30)) fresh)))) = Inr fs"
    "recover (file_bytes (os\<lparr>os_files := fs\<rparr>) trace) fresh = (3, K)"
    "\<exists>d. get_decision (Id 30) K = Some d \<and> dec_selected_candidate d = Id 2" "obs_replay (Id 30) K = Inr rep" "rep_reproduced rep"
    by (rule persistence_steps [OF assms])
  then obtain d where d: "get_decision (Id 30) K = Some d" "dec_selected_candidate d = Id 2" by blast
  show ?thesis
    by (simp only: ex_persistence_recovery_def Let_def po_outcome_def [symmetric] r(1) fbind_simps)
       (simp add: r(2,4,5) d digit01_def id_str_def dec_texts)
qed

lemma ex_persistence_output_witness:
  "ex_persistence_recovery sample_os ''t'' =
    Inr (''recovery records=3 decision_present=1 selected=2 reproduced=1'' @ newline)"
  by (rule ex_persistence_output) (simp_all add: orders_of_def)

section \<open>Programs that observe the host and explain a decision\<close>

definition basic_ctx :: ProviderContext where
  "basic_ctx = ProviderContext_default\<lparr>ctx_source_id := Id 1, ctx_source_generation := 1, ctx_workload_id := Id 10\<rparr>"

definition ex_basic_observation :: "Os \<Rightarrow> string" where
  "ex_basic_observation os =
     (let I = fold (\<lambda>ob I. snd (ingest ob I)) (host_collect (os_host os) (os_now os 0) (os_now os 1) basic_ctx) fresh_obs in
      ''basic observation: '' @ dec_nat (length (observations QueryFilter_default I)) @ '' observation(s) ingested'' @ newline)"

definition ex_decision_explanation :: "Timestamp \<Rightarrow> fault + string" where
  "ex_decision_explanation now =
     (let I = snd (ingest_decision (po_memory_decision now (Id 1) (Id 1)) fresh_obs) in
      fbind (obs_explain (Id 1) I) (\<lambda>ex.
        Inr (concat (map (\<lambda>l. ''['' @ Classification_string (line_classification l) @ ''] '' @ line_question l @ '' -> '' @
               line_answer l @ newline) (ex_lines ex)) @
             ''confidence='' @ ConfidenceClass_string (conf_cls (ex_confidence ex)) @
             '' summary='' @ ex_summary ex @ newline)))"

text \<open>The host observation is admitted unless the processor load is not a number.\<close>

lemma ex_basic_output:
  "ex_basic_observation os = ''basic observation: '' @ (if f64_finite (cpu_sample (os_host os)) then ''1'' else ''0'') @
     '' observation(s) ingested'' @ newline"
proof -
  obtain ob where ob: "host_collect (os_host os) (os_now os 0) (os_now os 1) basic_ctx = [ob]"
    by (simp add: host_collect_def Let_def case_prod_unfold)
  have f: "obs_observation_id ob = Id 1" "obs_source_id ob = Id 1" "obs_source_generation ob = 1"
    "obs_observation_generation ob = 1" "obs_coordinator_epoch ob = 0"
    "field_error (obs_fields ob) = None \<longleftrightarrow> f64_finite (cpu_sample (os_host os))"
    using ob
    by (auto simp: host_collect_def Let_def case_prod_unfold set_field_def base_obs_def basic_ctx_def ProviderContext_default_def
        PlacementObservation_default_def meas_def memory_field_def split: if_splits)
  have a: "obs_authorised ob fresh"
    by (simp add: obs_authorised_def f Impl_init_def current_source_generation_def trusted_boot_def id_valid_def)
  have c: "obs_content_ok ob fresh \<longleftrightarrow> f64_finite (cpu_sample (os_host os))"
    by (simp add: obs_content_ok_def f Impl_init_def stale_epoch_def)
  have all: "obs_passes QueryFilter_default x" for x
    by (simp add: obs_passes_def id_passes_def num_passes_def QueryFilter_default_def id_valid_def nil_id_def)
  have "im_obs (snd (ingest ob fresh)) = (if f64_finite (cpu_sample (os_host os)) then [correlated ob] else [])"
    by (simp add: ingest_logs a c) (simp add: Impl_init_def)
  then show ?thesis
    by (simp only: ex_basic_observation_def ob Let_def) (simp add: observations_def all dec_texts dec_nat.simps [of 0] digit_char_zero)
qed

lemma f64_half_ratio: "f64_div dbl2 dbl4 = dbl05"
  by (simp add: dbl_defs f64_div_def f64_eval)

lemma f64_of_u64_even: "f64_of_u64 2 = dbl2" "f64_of_u64 4 = dbl4"
  by (simp_all add: f64_eval dbl_defs)

text \<open>A complete, measured decision is explained as partial evidence: each of its cost components counts in the total
  and only one item per candidate in what is measured.\<close>

lemma ex_explanation_output:
  "\<exists>lines. ex_decision_explanation now = Inr (lines @
     ''confidence=partial-evidence summary=decision 1 selected 2 with partial/insufficient evidence'' @ newline)"
proof -
  let ?d = "po_memory_decision now (Id 1) (Id 1)"
  have adm: "decision_admissible ?d fresh"
    using po_memory_valid [of "Id 1" now "Id 1"] by (simp add: po_memory_decision_def po_decision_admissible id_valid_def)
  have h: "dec_hard_constraints ?d = []" by (simp add: po_memory_decision_def)
  obtain r where r: "rank_candidates ?d = Inr r" by (rule rank_free [OF h])
  have cs: "length (cset_candidates (dec_candidate_set ?d)) = 2" "\<not> cset_reconstructed (dec_candidate_set ?d)"
    "dec_soft_preferences ?d = []"
    by (simp_all add: po_defs Let_def)
  have te: "total_evidence ?d = 4" "measured_evidence ?d = 2"
    by (simp_all add: total_evidence_def measured_evidence_def count_measured_def h cs(3)) (simp_all add: po_memory_decision_def)
  have "evidence_ratio ?d = dbl05" by (simp add: evidence_ratio_def te f64_of_u64_even f64_half_ratio)
  then have cls: "confidence_class ?d r = ConfidenceClass.PartialEvidence"
    by (simp add: confidence_class_def cs Let_def dbl05_def c095_def c06_def c02_def f64_le_def f64_lt_def f64_key_def f64_fields)
  have "obs_explain (Id 1) (snd (ingest_decision ?d fresh)) = Inr (build_explanation ?d r)"
    using explain_ingested [OF adm consistent_init r] by (simp add: po_memory_fields)
  then show ?thesis
    by (simp add: ex_decision_explanation_def Let_def build_explanation_def cls po_memory_fields id_str_def dec_texts)
qed

end
