(* ===== verification/Bench.thy ===== *)
theory Bench
  imports Workload
begin

text \<open>
  The workloads of the benchmarks: src/bench/bench.cpp and \<open>cmd_bench\<close> of src/cli/po.cpp. What they do to observatories,
  buffers and files is modelled; the times that they measure and print are not. The clock readings are an argument.
\<close>

section \<open>\<open>cmd_bench\<close>\<close>

definition cmd_bench_state :: "(u64 \<Rightarrow> Timestamp) \<Rightarrow> string list \<Rightarrow> Impl" where
  "cmd_bench_state now a =
     (let n = au64 (arg a ''--iterations'' ''10000'') in
      ingest_all (map (\<lambda>i. let i = of_nat i in po_scenario_memory_decision (now i) (Id (100000 + i)) (Id (100000 + i)))
        [0..<unat n]) fresh_obs)"

section \<open>bench.cpp\<close>

text \<open>The body of the loop in \<open>mk_dec\<close>; the costs are those of \<open>0.5 + i * 0.25\<close> for \<open>i\<close> below 3.\<close>

definition bench_cost :: "u64 \<Rightarrow> f64" where
  "bench_cost i = f64_add 0x3FE0000000000000 (f64_mul (f64_of_u64 i) 0x3FD0000000000000)"

definition bench_candidate :: "PlacementDecisionId \<Rightarrow> u64 \<Rightarrow> PlacementCandidate" where
  "bench_candidate k i = PlacementCandidate_default
     \<lparr>cand_candidate_id := Id (id_value k * 10 + i + 1), cand_device_id := Id (id_value k * 10 + i + 1),
      cand_node_id := Id 1, cand_architecture := ''sm_120'', cand_health := HealthState.Healthy,
      cand_memory := MemoryDescriptor_default
        \<lparr>mem_total_bytes := 32 * GiB, mem_free_bytes := 24 * GiB - i * (2 * GiB),
         mem_used_bytes := 8 * GiB + i * (2 * GiB)\<rparr>,
      cand_queue := QueueDescriptor_default\<lparr>queue_depth := ucast (i * 3)\<rparr>,
      cand_total_cost := bench_cost i,
      cand_costs := [\<lparr>cost_kind = CostComponentKind.MemoryHeadroom, cost_label = ''headroom'', cost_cost = bench_cost i,
        cost_policy_weight = f64_of_u64 1, cost_classification = Classification.Measured,
        cost_provenance = Provenance_default, cost_detail = ''''\<rparr>]\<rparr>"

definition mk_dec :: "Timestamp \<Rightarrow> PlacementDecisionId \<Rightarrow> WorkloadId \<Rightarrow> PlacementDecision" where
  "mk_dec now k wl = PlacementDecision_default
     \<lparr>dec_decision_id := k, dec_attempt_id := Id (id_value k), dec_placement_generation := 1,
      dec_observation_generation := 1, dec_epoch := 1, dec_policy_generation := 1, dec_workload_id := wl,
      dec_request_id := Id (id_value k), dec_tenant_id := Id 1, dec_namespace_id := Id 1,
      dec_candidate_set := CandidateSet_default
        \<lparr>cset_candidates := map (bench_candidate k) [0, 1, 2], cset_complete := True\<rparr>,
      dec_selected_candidate := Id (id_value k * 10 + 1), dec_tie_break := TieBreakReason.LowestCost,
      dec_determinism := DeterminismClass.Deterministic,
      dec_provenance := Provenance_default
        \<lparr>prov_source_id := Id 1, prov_source_generation := 1, prov_timestamp := now\<rparr>\<rparr>"

text \<open>The decisions of one phase; each phase makes them again, with later timestamps.\<close>

definition bench_decisions :: "(u64 \<Rightarrow> Timestamp) \<Rightarrow> u64 \<Rightarrow> PlacementDecision list" where
  "bench_decisions now n =
     map (\<lambda>i. let i = of_nat i in mk_dec (now i) (Id (1000 + i)) (Id (1000 + i))) [0..<unat n]"

definition thrown :: "SerializationError + 'a \<Rightarrow> fault + 'a" where
  "thrown r = (case r of Inl e \<Rightarrow> Inl (Runtime_error (ser_what e)) | Inr x \<Rightarrow> Inr x)"

text \<open>A loop that collects the results of a call that may throw.\<close>

fun collect_all :: "('a \<Rightarrow> fault + 'b) \<Rightarrow> 'a list \<Rightarrow> fault + 'b list" where
  "collect_all f [] = Inr []"
| "collect_all f (x # xs) = fbind (f x) (\<lambda>y. fbind (collect_all f xs) (\<lambda>ys. Inr (y # ys)))"

record BenchRun =
  run_obs :: Impl
  run_bin_bytes :: nat
  run_json_bytes :: nat
  run_decoded :: "PlacementDecision list"
  run_replays :: "ReplayResult list"
  run_explanations :: "PlacementExplanation list"
  run_recovered :: Impl
  run_files :: file_system

definition hundred_snapshots :: "Os \<Rightarrow> Impl \<Rightarrow> Impl" where
  "hundred_snapshots os I = fold (\<lambda>t I. snd (snapshot (os_health_order os I) (os_now os t) I)) [0..<100] I"

text \<open>\<open>now\<close> is the clock by phase and iteration; the trace is removed at the end.\<close>

definition benchmark :: "Os \<Rightarrow> (nat \<Rightarrow> u64 \<Rightarrow> Timestamp) \<Rightarrow> string \<Rightarrow> u64 \<Rightarrow> fault + BenchRun" where
  "benchmark os now trace n =
     (let I = ingest_all (bench_decisions (now 0) n) fresh_obs;
          ids = map (\<lambda>i. Id (1000 + of_nat i)) [0..<unat n];
          written = (\<lambda>d. thrown (write_decision d []))
      in fbind (collect_all written (bench_decisions (now 1) n)) (\<lambda>bins.
         let texts = map (\<lambda>d. json_text (json_decision d) True (- 1)) (bench_decisions (now 2) n) in
         fbind (collect_all written (bench_decisions (now 3) n)) (\<lambda>blobs.
         fbind (collect_all (\<lambda>b. thrown (map_sum id fst (run_reader read_decision b))) blobs) (\<lambda>decoded.
         fbind (collect_all (\<lambda>k. obs_replay k I) ids) (\<lambda>replays.
         fbind (collect_all (\<lambda>k. obs_explain k I) ids) (\<lambda>explanations.
         let J = hundred_snapshots os I in
         fbind (persist os trace J) (\<lambda>fs.
           Inr \<lparr>run_obs = J, run_bin_bytes = sum_list (map length bins), run_json_bytes = sum_list (map length texts),
                run_decoded = decoded, run_replays = replays, run_explanations = explanations,
                run_recovered = snd (recover (file_bytes (os\<lparr>os_files := fs\<rparr>) trace) fresh_obs),
                run_files = fs(trace := None)\<rparr>)))))))"

text \<open>\<open>main\<close>: the number of decisions is the first argument or 5000; then four times as many (modulo \<open>2 ^ 64\<close>).\<close>

definition bench_main :: "Os \<Rightarrow> (nat \<Rightarrow> u64 \<Rightarrow> Timestamp) \<Rightarrow> (nat \<Rightarrow> u64 \<Rightarrow> Timestamp) \<Rightarrow> string \<Rightarrow> string list \<Rightarrow>
    fault + BenchRun \<times> BenchRun" where
  "bench_main os now now' trace argv =
     (let n = (case argv of [] \<Rightarrow> 5000 | x # xs \<Rightarrow> au64 x) in
      fbind (benchmark os now trace n) (\<lambda>r1.
      fbind (benchmark (os\<lparr>os_files := run_files r1\<rparr>) now' trace (n * 4)) (\<lambda>r2. Inr (r1, r2))))"

section \<open>The decisions of the benchmark\<close>

lemma f64_one_eval: "f64_of_u64 1 = 0x3FF0000000000000"
  by (simp add: f64_eval)
lemma f64_two_eval: "f64_of_u64 2 = 0x4000000000000000"
  by (simp add: f64_eval)

lemma f64_quarters:
  "f64_mul 0 0x3FD0000000000000 = 0"
  "f64_mul 0x3FF0000000000000 0x3FD0000000000000 = 0x3FD0000000000000"
  "f64_mul 0x4000000000000000 0x3FD0000000000000 = 0x3FE0000000000000"
  by (simp_all add: f64_eval)

lemma f64_sums:
  "f64_add 0x3FE0000000000000 0 = 0x3FE0000000000000"
  "f64_add 0x3FE0000000000000 0x3FD0000000000000 = 0x3FE8000000000000"
  "f64_add 0x3FE0000000000000 0x3FE0000000000000 = 0x3FF0000000000000"
  by (rule f64_add_zero; simp add: f64_finite_def f64_fields) (simp_all add: f64_eval)

lemma bench_costs: "bench_cost 0 = 0x3FE0000000000000" "bench_cost 1 = 0x3FE8000000000000" "bench_cost 2 = 0x3FF0000000000000"
  by (simp_all only: bench_cost_def f64_of_u64_zero f64_zero_def f64_one_eval f64_two_eval f64_quarters f64_sums)

lemma mk_dec_own: "own_attempt (mk_dec now k wl)" "dec_decision_id (mk_dec now k wl) = k"
  by (simp_all add: own_attempt_def mk_dec_def)

lemma bench_memory:
  "i \<in> {0, 1, 2} \<Longrightarrow> \<not> impossible_memory (bench_candidate k i)"
  by (auto simp: impossible_memory_def bench_candidate_def MemoryDescriptor_default_def PlacementCandidate_default_def
      GiB_def Let_def)

lemma odd_nonzero: "(k :: u64) * 10 + 1 \<noteq> 0"
  by (metis even_mult_iff even_numeral even_plus_one_iff even_zero)

lemma mk_dec_valid: "id_valid k \<Longrightarrow> decision_valid (mk_dec now k wl)"
  using odd_nonzero [of "id_value k"]
  by (simp add: decision_valid_def mk_dec_def finite_cost_def bench_memory PlacementDecision_default_def CandidateSet_default_def)
     (simp add: bench_candidate_def bench_costs f64_one_eval id_valid_def nil_id_def f64_finite_def f64_exp_def f64_mag_def)

lemma mk_dec_storable:
  "PlacementDecision_ok (mk_dec now k wl)" "length (body_of (write_decision (mk_dec now k wl))) \<le> unat kMaxBody"
proof -
  show "PlacementDecision_ok (mk_dec now k wl)"
    using PlacementDecision_default_ok Provenance_default_ok
    by (simp add: mk_dec_def bench_candidate_def PlacementDecision_ok_def wf_defs default_wf CandidateSet_ok_def
        CandidateSet_default_def PlacementCandidate_ok_def PlacementCandidate_default_def MemoryDescriptor_ok_def
        MemoryDescriptor_default_def QueueDescriptor_ok_def QueueDescriptor_default_def Provenance_ok_def Confidence_ok_def
        PlacementCostComponent_ok_def TieBreakReason_of_def TieBreakReason_all_def DeterminismClass_of_def DeterminismClass_all_def
        HealthState_of_def HealthState_all_def MemoryPressureLevel_of_def MemoryPressureLevel_all_def QueueState_of_def
        QueueState_all_def CostComponentKind_of_def CostComponentKind_all_def)
  show "length (body_of (write_decision (mk_dec now k wl))) \<le> unat kMaxBody"
    by (simp add: mk_dec_def bench_candidate_def PlacementDecision_default_def CandidateSet_default_def
        PlacementCandidate_default_def MemoryDescriptor_default_def QueueDescriptor_default_def Let_def body_of_def writer_simps
        write_decision_def write_candidate_set_def write_confidence_def
        write_provenance_def write_reasons_def write_candidate_def write_memory_descriptor_def write_queue_descriptor_def
        write_cost_component_def Provenance_default_def Confidence_default_def kMaxBody_def)
qed

lemma bench_total:
  "weighted_total (bench_candidate k 0) = 0x3FE0000000000000"
  "weighted_total (bench_candidate k 1) = 0x3FE8000000000000"
  "weighted_total (bench_candidate k 2) = 0x3FF0000000000000"
proof -
  have m: "f64_mul 0x3FE0000000000000 0x3FF0000000000000 = 0x3FE0000000000000"
    "f64_mul 0x3FE8000000000000 0x3FF0000000000000 = 0x3FE8000000000000"
    "f64_mul 0x3FF0000000000000 0x3FF0000000000000 = 0x3FF0000000000000"
    by (simp_all add: f64_eval)
  have w: "weighted_total (bench_candidate k i) = f64_add 0 (f64_mul (bench_cost i) 0x3FF0000000000000)" for i
    by (simp add: weighted_total_def bench_candidate_def f64_zero_def f64_one_eval)
  show "weighted_total (bench_candidate k 0) = 0x3FE0000000000000"
    "weighted_total (bench_candidate k 1) = 0x3FE8000000000000"
    "weighted_total (bench_candidate k 2) = 0x3FF0000000000000"
    unfolding w bench_costs m by (rule f64_add_zero; simp add: f64_finite_def f64_fields)+
qed

lemma bench_has_evidence: "has_cost_evidence (bench_candidate k i)"
  by (simp add: has_cost_evidence_def bench_candidate_def)

lemma mk_dec_sorted:
  "stable_sort cand_before (cset_candidates (dec_candidate_set (mk_dec now k wl))) = map (bench_candidate k) [0, 1, 2]"
proof -
  have "cand_before (bench_candidate k 0) (bench_candidate k 1)" "cand_before (bench_candidate k 0) (bench_candidate k 2)"
    "cand_before (bench_candidate k 1) (bench_candidate k 2)" "\<not> cand_before (bench_candidate k 1) (bench_candidate k 0)"
    "\<not> cand_before (bench_candidate k 2) (bench_candidate k 0)" "\<not> cand_before (bench_candidate k 2) (bench_candidate k 1)"
    by (simp_all add: cand_before_def bench_has_evidence cost_less_def bench_total f64_lt_def f64_eq_def f64_key_def f64_fields)
  then show ?thesis by (simp add: mk_dec_def)
qed

section \<open>The benchmark loses nothing\<close>

lemma collect_all_some:
  assumes "\<And>x. x \<in> set xs \<Longrightarrow> \<exists>y. f x = Inr y \<and> P x y"
  obtains ys where "collect_all f xs = Inr ys" "list_all2 P xs ys"
proof -
  have "\<exists>ys. collect_all f xs = Inr ys \<and> list_all2 P xs ys"
    using assms
  proof (induction xs)
    case (Cons x xs)
    then obtain y ys where "f x = Inr y" "P x y" "collect_all f xs = Inr ys" "list_all2 P xs ys"
      by (metis list.set_intros(1,2))
    then show ?case by simp
  qed simp
  then show thesis using that by blast
qed

lemma bench_decisions_nth:
  "i < unat n \<Longrightarrow> bench_decisions now n ! i = mk_dec (now (of_nat i)) (Id (1000 + of_nat i)) (Id (1000 + of_nat i))"
  by (simp add: bench_decisions_def Let_def)

lemma length_bench_decisions [simp]: "length (bench_decisions now n) = unat n"
  by (simp add: bench_decisions_def)

lemma bench_decision_cases:
  assumes "d \<in> set (bench_decisions now n)"
  obtains t k wl where "d = mk_dec t k wl"
  using assms by (auto simp: bench_decisions_def Let_def)

lemma bench_id_valid:
  assumes "unat (n :: u64) \<le> 2 ^ 64 - 1000" "i < unat n"
  shows "(1000 :: u64) + of_nat i \<noteq> 0"
proof
  assume "(1000 :: u64) + of_nat i = 0"
  then have "unat (of_nat (1000 + i) :: u64) = 0" by simp
  then have "(1000 + i) mod 2 ^ 64 = 0" by (simp only: unat_of_nat) simp
  moreover have "(1000 + i) mod 2 ^ 64 = 1000 + i" using assms by (intro mod_less) linarith
  ultimately show False by simp
qed

lemma bench_decisions_ingestible:
  assumes "unat n \<le> 2 ^ 64 - 1000"
  shows "list_all decision_valid (bench_decisions now n)" "list_all own_attempt (bench_decisions now n)"
    "distinct (map dec_decision_id (bench_decisions now n))"
proof -
  have v: "decision_valid (bench_decisions now n ! i)" if "i < unat n" for i
    using mk_dec_valid bench_id_valid [OF assms that] that by (simp add: bench_decisions_nth id_valid_def)
  then show "list_all decision_valid (bench_decisions now n)" by (simp add: list_all_length)
  show "list_all own_attempt (bench_decisions now n)"
    by (auto simp: list_all_iff mk_dec_own elim: bench_decision_cases)
  have own: "unat (of_nat i :: u64) = i" if "i < unat n" for i
    using less_trans [OF that unsigned_less] by (simp add: unat_of_nat)
  have "(of_nat i :: u64) \<noteq> of_nat j" if "i < unat n" "j < unat n" "i \<noteq> j" for i j
    using own [OF that(1)] own [OF that(2)] that(3) by metis
  then show "distinct (map dec_decision_id (bench_decisions now n))"
    by (simp add: distinct_conv_nth bench_decisions_nth mk_dec_own)
qed

lemma hundred_snapshots_consistent:
  assumes "consistent I"
  shows "consistent (hundred_snapshots os I)"
proof -
  have "consistent (fold (\<lambda>t I. snd (snapshot (h I) (f t) I)) ts I)" for f h ts
    using assms by (induction ts arbitrary: I) (simp_all add: consistent_snapshot)
  then show ?thesis by (simp add: hundred_snapshots_def)
qed

lemma hundred_snapshots_fields:
  "im_obs (hundred_snapshots os I) = im_obs I" "im_dec (hundred_snapshots os I) = im_dec I"
  "im_outcomes (hundred_snapshots os I) = im_outcomes I" "im_sources (hundred_snapshots os I) = im_sources I"
  "im_rejected (hundred_snapshots os I) = im_rejected I"
proof -
  have "im_obs (fold (\<lambda>t I. snd (snapshot (h I) (f t) I)) ts I) = im_obs I \<and>
    im_dec (fold (\<lambda>t I. snd (snapshot (h I) (f t) I)) ts I) = im_dec I \<and>
    im_outcomes (fold (\<lambda>t I. snd (snapshot (h I) (f t) I)) ts I) = im_outcomes I \<and>
    im_sources (fold (\<lambda>t I. snd (snapshot (h I) (f t) I)) ts I) = im_sources I \<and>
    im_rejected (fold (\<lambda>t I. snd (snapshot (h I) (f t) I)) ts I) = im_rejected I" for f h ts
    by (induction ts arbitrary: I) (simp_all add: snapshot_def)
  from this [of "os_health_order os" "os_now os" "[0..<100]"] show "im_obs (hundred_snapshots os I) = im_obs I" "im_dec (hundred_snapshots os I) = im_dec I"
    "im_outcomes (hundred_snapshots os I) = im_outcomes I" "im_sources (hundred_snapshots os I) = im_sources I"
    "im_rejected (hundred_snapshots os I) = im_rejected I"
    unfolding hundred_snapshots_def by blast+
qed

text \<open>What is written is read back.\<close>

lemma bench_blobs:
  fixes now n
  defines "written \<equiv> \<lambda>d. thrown (write_decision d [])"
  obtains blobs where "collect_all written (bench_decisions now n) = Inr blobs"
    "collect_all (\<lambda>b. thrown (map_sum id fst (run_reader read_decision b))) blobs = Inr (bench_decisions now n)"
proof -
  have "\<exists>b. written d = Inr b \<and> thrown (map_sum id fst (run_reader read_decision b)) = Inr d"
    if "d \<in> set (bench_decisions now n)" for d
  proof -
    have ok: "PlacementDecision_ok d" using that by (auto elim: bench_decision_cases simp: mk_dec_storable)
    obtain b where b: "write_decision d [] = Inr b" using cdc_decision.written [OF ok] by metis
    then show ?thesis using cdc_decision.read_back [OF ok b, of "[]"] by (simp add: written_def thrown_def)
  qed
  then obtain blobs where blobs: "collect_all written (bench_decisions now n) = Inr blobs"
    "list_all2 (\<lambda>d b. thrown (map_sum id fst (run_reader read_decision b)) = Inr d) (bench_decisions now n) blobs"
    by (rule collect_all_some [where P = "\<lambda>d b. thrown (map_sum id fst (run_reader read_decision b)) = Inr d"])
  from blobs(2) have "collect_all (\<lambda>b. thrown (map_sum id fst (run_reader read_decision b))) blobs = Inr (bench_decisions now n)"
    by (induction rule: list_all2_induct) (simp_all add: id_def)
  with blobs(1) show thesis by (rule that)
qed

lemma mk_dec_replay:
  obtains out where "replay_decision (mk_dec now k wl) = Inr out" "rep_reproduced out"
proof -
  have h: "dec_hard_constraints (mk_dec now k wl) = []" by (simp add: mk_dec_def PlacementDecision_default_def)
  have c: "stable_sort cand_before (cset_candidates (dec_candidate_set (mk_dec now k wl))) =
      bench_candidate k 0 # map (bench_candidate k) [1, 2]"
    by (simp only: mk_dec_sorted) simp
  have "cand_candidate_id (bench_candidate k 0) = dec_selected_candidate (mk_dec now k wl)"
    by (simp add: mk_dec_def bench_candidate_def)
  then show thesis by (metis replay_free [OF h c] that)
qed

lemma mk_dec_explain:
  obtains r where "rank_candidates (mk_dec now k wl) = Inr r"
proof -
  have "dec_hard_constraints (mk_dec now k wl) = []" by (simp add: mk_dec_def PlacementDecision_default_def)
  then show thesis by (rule rank_free) (rule that)
qed

lemma bench_stored:
  assumes "consistent I" "im_dec I = bench_decisions now n" "i < unat n"
  shows "stored_decision (Id (1000 + of_nat i)) I = Some (mk_dec (now (of_nat i)) (Id (1000 + of_nat i)) (Id (1000 + of_nat i)))"
  using stored_at [OF assms(1), of i] assms(2,3) by (simp add: bench_decisions_nth mk_dec_own)

lemma bench_replays:
  assumes "consistent I" "im_dec I = bench_decisions now n"
  obtains rs where "collect_all (\<lambda>k. obs_replay k I) (map (\<lambda>i. Id (1000 + of_nat i)) [0..<unat n]) = Inr rs"
    "length rs = unat n" "list_all rep_reproduced rs"
proof -
  have "\<exists>y. obs_replay k I = Inr y \<and> rep_reproduced y" if k: "k \<in> set (map (\<lambda>i. Id (1000 + of_nat i)) [0..<unat n])" for k
  proof -
    obtain i where i: "k = Id (1000 + of_nat i)" "i < unat n" using k by auto
    obtain out where "replay_decision (mk_dec (now (of_nat i)) (Id (1000 + of_nat i)) (Id (1000 + of_nat i))) = Inr out"
      "rep_reproduced out"
      by (rule mk_dec_replay)
    then show ?thesis using bench_stored [OF assms i(2)] by (simp add: obs_replay_def i(1))
  qed
  then obtain rs where rs: "collect_all (\<lambda>k. obs_replay k I) (map (\<lambda>i. Id (1000 + of_nat i)) [0..<unat n]) = Inr rs"
    "list_all2 (\<lambda>_. rep_reproduced) (map (\<lambda>i. Id (1000 + of_nat i) :: PlacementDecisionId) [0..<unat n]) rs"
    by (rule collect_all_some)
  have "length rs = unat n" using list_all2_lengthD [OF rs(2)] by simp
  moreover have "list_all rep_reproduced rs" using rs(2) by (auto simp: list_all2_conv_all_nth list_all_length)
  ultimately show thesis using that rs(1) by blast
qed

lemma bench_explanations:
  assumes "consistent I" "im_dec I = bench_decisions now n"
  obtains es where "collect_all (\<lambda>k. obs_explain k I) (map (\<lambda>i. Id (1000 + of_nat i)) [0..<unat n]) = Inr es"
proof -
  have "\<exists>y. obs_explain k I = Inr y \<and> True" if k: "k \<in> set (map (\<lambda>i. Id (1000 + of_nat i)) [0..<unat n])" for k
  proof -
    obtain i where i: "k = Id (1000 + of_nat i)" "i < unat n" using k by auto
    obtain r where "rank_candidates (mk_dec (now (of_nat i)) (Id (1000 + of_nat i)) (Id (1000 + of_nat i))) = Inr r"
      by (rule mk_dec_explain)
    then show ?thesis using bench_stored [OF assms i(2)] by (simp add: obs_explain_def i(1))
  qed
  then obtain es where "collect_all (\<lambda>k. obs_explain k I) (map (\<lambda>i. Id (1000 + of_nat i)) [0..<unat n]) = Inr es"
    by (rule collect_all_some)
  then show thesis by (rule that)
qed


text \<open>C25. The benchmark fails nowhere and loses nothing: every decision it makes is accepted, the bytes of each decode to it,
  each replays to its own selection, and what is recovered from the trace is the log of the observatory that wrote it. The
  trace is gone afterwards. This needs identities that do not wrap to the invalid one.\<close>

theorem benchmark_is_lossless:
  assumes "unat n \<le> 2 ^ 64 - 1000" "\<And>I. orders_of os I" "trace \<noteq> ''''"
  shows "\<exists>run. benchmark os now trace n = Inr run \<and>
    im_dec (run_obs run) = bench_decisions (now 0) n \<and> im_rejected (run_obs run) = 0 \<and>
    run_decoded run = bench_decisions (now 3) n \<and>
    length (run_replays run) = unat n \<and> list_all rep_reproduced (run_replays run) \<and>
    same_log (run_obs run) (run_recovered run) \<and> run_files run trace = None"
proof -
  let ?I = "ingest_all (bench_decisions (now 0) n) fresh"
  let ?J = "hundred_snapshots os ?I"
  note I = ingest_all_fresh [OF bench_decisions_ingestible [OF assms(1), of "now 0"]]
  have J: "consistent ?J" by (rule hundred_snapshots_consistent [OF I(1)])
  have st: "storable ?J"
    by (auto simp: storable_def hundred_snapshots_fields I mk_dec_storable elim!: bench_decision_cases)
  obtain bins where bins: "collect_all (\<lambda>d. thrown (write_decision d [])) (bench_decisions (now 1) n) = Inr bins"
    using bench_blobs [of "now 1" n] by blast
  obtain blobs where blobs: "collect_all (\<lambda>d. thrown (write_decision d [])) (bench_decisions (now 3) n) = Inr blobs"
    "collect_all (\<lambda>b. thrown (map_sum id fst (run_reader read_decision b))) blobs = Inr (bench_decisions (now 3) n)"
    using bench_blobs [of "now 3" n] by blast
  obtain rs where rs: "collect_all (\<lambda>k. obs_replay k ?I) (map (\<lambda>i. Id (1000 + of_nat i)) [0..<unat n]) = Inr rs"
    "length rs = unat n" "list_all rep_reproduced rs"
    using bench_replays [OF I(1,2)] by blast
  obtain es where es: "collect_all (\<lambda>k. obs_explain k ?I) (map (\<lambda>i. Id (1000 + of_nat i)) [0..<unat n]) = Inr es"
    using bench_explanations [OF I(1,2)] by blast
  obtain fs K where K: "persist os trace ?J = Inr fs"
    "recover (file_bytes (os\<lparr>os_files := fs\<rparr>) trace) fresh = (1 + length (im_sources ?J) + length (im_obs ?J) +
       length (im_dec ?J) + length (im_outcomes ?J), K)" "same_log ?J K"
    using recover_count [OF J st assms(2,3)] by metis
  show ?thesis
    by (simp only: benchmark_def Let_def bins blobs rs(1) es K(1,2) fbind_simps)
       (simp add: K(3) rs(2,3) hundred_snapshots_fields I)
qed

lemma benchmark_is_lossless_witness:
  "\<exists>run. benchmark sample_os (\<lambda>_ _. Timestamp_default) ''t'' 3 = Inr run \<and>
    length (im_dec (run_obs run)) = 3 \<and> length (run_replays run) = 3 \<and> run_files run ''t'' = None"
proof -
  have "\<exists>run. benchmark sample_os (\<lambda>_ _. Timestamp_default) ''t'' 3 = Inr run \<and>
    im_dec (run_obs run) = bench_decisions (\<lambda>_. Timestamp_default) 3 \<and> im_rejected (run_obs run) = 0 \<and>
    run_decoded run = bench_decisions (\<lambda>_. Timestamp_default) 3 \<and>
    length (run_replays run) = unat (3 :: u64) \<and> list_all rep_reproduced (run_replays run) \<and>
    same_log (run_obs run) (run_recovered run) \<and> run_files run ''t'' = None"
    by (rule benchmark_is_lossless) (simp_all add: orders_of_def)
  then show ?thesis by force
qed


end
