(* ===== verification/Cuda.thy ===== *)
theory Cuda
  imports Providers
begin

text \<open>
  src/providers/cuda/cuda_provider.cu: the provider over what the CUDA runtime answers (device properties, memory
  readings, \<open>cudaMalloc\<close>, elapsed times), the device memory that it owns, and the threads of its kernel. Single precision
  arithmetic is an argument.
\<close>

section \<open>\<open>CudaDeviceProvider\<close>\<close>

text \<open>
  \<open>Impl\<close>: the device index, whether the constructor found the device, and the fields of \<open>cudaDeviceProp\<close>
  that are used. One answer of \<open>cudaMemGetInfo\<close> is free and total bytes.
\<close>

record CudaProp =
  cp_name :: string
  cp_major :: i32
  cp_minor :: i32
  cp_totalGlobalMem :: u64
  cp_multiProcessorCount :: i32

record CudaImpl =
  cu_device :: i32
  cu_ok :: bool
  cu_prop :: CudaProp

definition CudaProp_zero :: CudaProp where
  "CudaProp_zero = \<lparr>cp_name = '''', cp_major = 0, cp_minor = 0, cp_totalGlobalMem = 0, cp_multiProcessorCount = 0\<rparr>"

text \<open>The constructor: the answers of \<open>cudaGetDeviceCount\<close> and \<open>cudaGetDeviceProperties\<close>, \<open>None\<close> for a failure.\<close>

definition cuda_open :: "i32 \<Rightarrow> i32 option \<Rightarrow> CudaProp option \<Rightarrow> CudaImpl" where
  "cuda_open device device_count prop =
     (let I = \<lparr>cu_device = device, cu_ok = False, cu_prop = CudaProp_zero\<rparr> in
      case device_count of
        Some n \<Rightarrow>
          if 0 < sint n \<and> sint device < sint n
          then (case prop of Some p \<Rightarrow> I\<lparr>cu_ok := True, cu_prop := p\<rparr> | None \<Rightarrow> I)
          else I
      | None \<Rightarrow> I)"

definition cuda_memory :: "CudaImpl \<Rightarrow> u64 \<times> u64 \<Rightarrow> u64 \<times> u64" where
  "cuda_memory I info = (if \<not> cu_ok I then (0, 0) else info)"

definition device_descriptor :: "CudaImpl \<Rightarrow> u64 \<times> u64 \<Rightarrow> i32 option \<Rightarrow> DeviceDescriptor" where
  "device_descriptor I info clock_khz =
     (if \<not> cu_ok I then DeviceDescriptor_default
      else let p = cu_prop I; free = fst (cuda_memory I info) in
        DeviceDescriptor_default
          \<lparr>dev_device_id := Id (scast (cu_device I + 1)), dev_kind := DeviceKind.Gpu, dev_vendor := ''NVIDIA'',
           dev_model := cp_name p,
           dev_architecture := ''sm_'' @ dec_int (sint (cp_major p)) @ dec_int (sint (cp_minor p)),
           dev_compute_capability_major := cp_major p, dev_compute_capability_minor := cp_minor p,
           dev_memory_bytes := cp_totalGlobalMem p, dev_free_memory_bytes := free,
           dev_used_memory_bytes := (if cp_totalGlobalMem p > free then cp_totalGlobalMem p - free else 0),
           dev_sm_count := cp_multiProcessorCount p,
           dev_clock_mhz := (case clock_khz of
               Some k \<Rightarrow> f64_div (f64_of_i64 (scast k)) (f64_of_u64 1000) | None \<Rightarrow> f64_zero),
           dev_health := HealthState.Healthy\<rparr>)"

definition cuda_collect ::
    "CudaImpl \<Rightarrow> u64 \<times> u64 \<Rightarrow> i32 option \<Rightarrow> u64 \<times> u64 \<Rightarrow> Timestamp \<Rightarrow> ProviderContext \<Rightarrow> PlacementObservationId \<Rightarrow>
     PlacementObservation" where
  "cuda_collect I info1 clock_khz info2 now ctx k =
     (let dev = device_descriptor I info1 clock_khz; mm = cuda_memory I info2;
          p = Provenance_default
            \<lparr>prov_source_id := ctx_source_id ctx, prov_source_generation := ctx_source_generation ctx,
             prov_source_type := SourceType.Cuda, prov_method := CollectionMethod.Query,
             prov_reliability := ReliabilityClass.Current, prov_classification := Classification.Measured,
             prov_timestamp := now, prov_worker_boot := ctx_worker_boot ctx,
             prov_coordinator_epoch := ctx_coordinator_epoch ctx\<rparr>
      in PlacementObservation_default
        \<lparr>obs_observation_id := k, obs_observation_generation := 1, obs_source_id := ctx_source_id ctx,
         obs_source_generation := ctx_source_generation ctx, obs_source_type := SourceType.Cuda, obs_timestamp := now,
         obs_worker_boot := ctx_worker_boot ctx, obs_coordinator_epoch := ctx_coordinator_epoch ctx,
         obs_workload_id := ctx_workload_id ctx, obs_request_id := ctx_request_id ctx, obs_node_id := ctx_node_id ctx,
         obs_device_id := dev_device_id dev, obs_epoch := ctx_epoch ctx, obs_lifecycle := LifecycleState.Normalized,
         obs_synthetic := False, obs_reliability := ReliabilityClass.Current,
         obs_fields := map (\<lambda>(f, v). meas f v Classification.Measured p)
           [(''device.identity'', VString (dev_model dev)),
            (''device.compute_capability'', VString (dev_architecture dev)),
            (''device.compute_capability_major'', VInt (scast (dev_compute_capability_major dev))),
            (''device.compute_capability_minor'', VInt (scast (dev_compute_capability_minor dev))),
            (''device.memory.total_bytes'', VUInt (dev_memory_bytes dev)),
            (''device.memory.free_bytes'', VUInt (fst mm)),
            (''device.memory.used_bytes'', VUInt (snd mm)),
            (''device.sm_count'', VInt (scast (dev_sm_count dev))),
            (''device.clock_mhz'', VDouble (dev_clock_mhz dev)),
            (''device.health'', VString ''healthy'')]\<rparr>)"

section \<open>Device memory\<close>

text \<open>
  The buffers in use with their sizes, and the number of calls of \<open>cudaMalloc\<close> so far. The runtime is a function from
  them to the pointer that it returns; an answer that is null or a pointer in use, which \<open>cudaMalloc\<close> does not give,
  counts as a failure.
\<close>

type_synonym runtime = "(u64 \<rightharpoonup> u64) \<Rightarrow> nat \<Rightarrow> u64 \<Rightarrow> u64 option"

record DeviceMem =
  dm_live :: "u64 \<rightharpoonup> u64"
  dm_calls :: nat

definition cuda_malloc :: "runtime \<Rightarrow> u64 \<Rightarrow> DeviceMem \<Rightarrow> u64 option \<times> DeviceMem" where
  "cuda_malloc R bytes D =
     (let D1 = D\<lparr>dm_calls := dm_calls D + 1\<rparr> in
      case R (dm_live D) (dm_calls D) bytes of
        None \<Rightarrow> (None, D1)
      | Some p \<Rightarrow> if p = 0 \<or> dm_live D p \<noteq> None then (None, D1)
                  else (Some p, D1\<lparr>dm_live := (dm_live D)(p \<mapsto> bytes)\<rparr>))"

definition cuda_free :: "u64 \<Rightarrow> DeviceMem \<Rightarrow> DeviceMem" where
  "cuda_free p D = D\<lparr>dm_live := (dm_live D)(p := None)\<rparr>"

text \<open>The member functions on buffers; 0 is the null pointer.\<close>

definition cuda_allocate :: "runtime \<Rightarrow> CudaImpl \<Rightarrow> u64 \<Rightarrow> DeviceMem \<Rightarrow> u64 \<times> DeviceMem" where
  "cuda_allocate R I bytes D =
     (if \<not> cu_ok I then (0, D)
      else case cuda_malloc R bytes D of (Some p, D') \<Rightarrow> (p, D') | (None, D') \<Rightarrow> (0, D'))"

definition cuda_release :: "CudaImpl \<Rightarrow> u64 \<Rightarrow> DeviceMem \<Rightarrow> DeviceMem" where
  "cuda_release I h D = (if cu_ok I \<and> h \<noteq> 0 then cuda_free h D else D)"

definition cuda_valid :: "CudaImpl \<Rightarrow> u64 \<Rightarrow> bool" where
  "cuda_valid I h \<longleftrightarrow> cu_ok I \<and> h \<noteq> 0"

section \<open>The kernel\<close>

text \<open>One thread of \<open>saxpy\<close> on the contents of the output buffer; \<open>axpy a x\<close> is \<open>a * x + 1\<close> as the device computes it.\<close>

definition thread_index :: "u32 \<Rightarrow> u32 \<Rightarrow> u32 \<Rightarrow> u64" where
  "thread_index block block_dim thread = ucast block * ucast block_dim + ucast thread"

definition saxpy :: "(u32 \<Rightarrow> u32 \<Rightarrow> u32) \<Rightarrow> (u64 \<Rightarrow> u32) \<Rightarrow> u64 \<Rightarrow> u32 \<Rightarrow> u64 \<Rightarrow> (u64 \<Rightarrow> u32) \<Rightarrow> (u64 \<Rightarrow> u32)" where
  "saxpy axpy d n a i out = (if i < n then out(i := axpy a (d i)) else out)"

text \<open>The grid of the launch, its number of blocks cut to 32 bits.\<close>

definition grid_blocks :: "u64 \<Rightarrow> u32" where
  "grid_blocks elements = ucast ((elements + 256 - 1) div 256)"

definition grid_threads :: "u32 \<Rightarrow> u64 list" where
  "grid_threads blocks =
     concat (map (\<lambda>b. map (\<lambda>t. thread_index (of_nat b) 256 (of_nat t)) [0..<256]) [0..<unat blocks])"

text \<open>The launch runs the threads in any order.\<close>

definition saxpy_launch ::
    "(u32 \<Rightarrow> u32 \<Rightarrow> u32) \<Rightarrow> (u64 \<Rightarrow> u32) \<Rightarrow> u64 \<Rightarrow> u32 \<Rightarrow> u64 list \<Rightarrow> (u64 \<Rightarrow> u32) \<Rightarrow> (u64 \<Rightarrow> u32)" where
  "saxpy_launch axpy d n a order out = fold (saxpy axpy d n a) order out"

text \<open>The indices that the launch accesses, in both buffers.\<close>

definition accessed :: "u64 \<Rightarrow> u64 set" where
  "accessed elements = {i \<in> set (grid_threads (grid_blocks elements)). i < elements}"

text \<open>No access leaves its buffer: the input of the given size, the output of \<open>elements * sizeof(float)\<close> bytes.\<close>

definition launch_inside :: "u64 \<Rightarrow> u64 \<Rightarrow> bool" where
  "launch_inside input_bytes elements \<longleftrightarrow>
     (\<forall>i \<in> accessed elements. (unat i + 1) * 4 \<le> unat input_bytes \<and> (unat i + 1) * 4 \<le> unat (elements * 4))"

section \<open>Running the kernel\<close>

text \<open>
  \<open>run_kernel\<close> returns -1 without a device, a buffer or a second allocation, else the nanoseconds that its two events
  measured. The contents of the output buffer are lost with it.
\<close>

definition run_kernel :: "runtime \<Rightarrow> CudaImpl \<Rightarrow> u64 \<Rightarrow> u64 \<Rightarrow> i64 \<Rightarrow> DeviceMem \<Rightarrow> i64 \<times> DeviceMem" where
  "run_kernel R I h elements elapsed D =
     (if \<not> cu_ok I \<or> h = 0 then (- 1, D)
      else case cuda_malloc R (elements * 4) D of
        (None, D1) \<Rightarrow> (- 1, D1)
      | (Some out, D1) \<Rightarrow> (elapsed, cuda_free out D1))"

definition run_and_measure ::
    "runtime \<Rightarrow> CudaImpl \<Rightarrow> i64 \<Rightarrow> i64 \<Rightarrow> Timestamp \<Rightarrow> ProviderContext \<Rightarrow> PlacementDecisionId \<Rightarrow> PlacementAttemptId \<Rightarrow> u64 \<Rightarrow>
     DeviceMem \<Rightarrow> PlacementOutcome \<times> DeviceMem" where
  "run_and_measure R I elapsed steady now ctx dec attempt elements D =
     (let x0 = PlacementOutcome_default
            \<lparr>out_decision_id := dec, out_attempt_id := attempt, out_disposition := OutcomeDisposition.Unknown,
             out_classification := Classification.Measured, out_memory_used_bytes := GiB\<rparr>;
          (x1, D1) = (if cu_ok I
            then case cuda_allocate R I GiB D of (d, D1) \<Rightarrow>
              if d \<noteq> 0
              then case run_kernel R I d elements elapsed D1 of (dur, D2) \<Rightarrow>
                (x0\<lparr>out_duration_ns := dur, out_start_delay_ns := steady,
                    out_disposition := OutcomeDisposition.Succeeded\<rparr>, cuda_release I d D2)
              else (x0\<lparr>out_disposition := OutcomeDisposition.Failed, out_error := ''cudaMalloc failed''\<rparr>, D1)
            else (x0\<lparr>out_disposition := OutcomeDisposition.Failed, out_error := ''cuda unavailable''\<rparr>, D))
      in (x1\<lparr>out_provenance := (out_provenance x1)
            \<lparr>prov_source_id := ctx_source_id ctx, prov_source_generation := ctx_source_generation ctx,
             prov_source_type := SourceType.Cuda, prov_method := CollectionMethod.Query,
             prov_classification := Classification.Measured, prov_timestamp := now,
             prov_worker_boot := ctx_worker_boot ctx, prov_coordinator_epoch := ctx_coordinator_epoch ctx\<rparr>\<rparr>, D1))"

section \<open>Buffers are given back\<close>

text \<open>The contract of an allocator that what it gives is new and what is released is gone.\<close>

locale allocator =
  fixes live :: "'s \<Rightarrow> 'p \<rightharpoonup> 'n" and alloc :: "'n \<Rightarrow> 's \<Rightarrow> 'p option \<times> 's" and release :: "'p \<Rightarrow> 's \<Rightarrow> 's"
  assumes alloc_none: "alloc n s = (None, s') \<Longrightarrow> live s' = live s"
    and alloc_new: "alloc n s = (Some p, s') \<Longrightarrow> live s p = None"
    and alloc_some: "alloc n s = (Some p, s') \<Longrightarrow> live s' = (live s)(p \<mapsto> n)"
    and released: "live (release p s) = (live s)(p := None)"
begin

lemma bracket:
  assumes "alloc n s = (Some p, s1)" "live s2 = live s1"
  shows "live (release p s2) = live s"
  using alloc_new [OF assms(1)] alloc_some [OF assms(1)] assms(2) by (simp add: released fun_upd_idem)

lemma bracket_other:
  assumes "alloc n s = (Some p, s1)" "live s2 = live s1" "live s2 q = Some m"
  shows "q = p \<or> live (release p s2) q = Some m"
  using alloc_some [OF assms(1)] assms(2,3) by (auto simp: released split: if_splits)

end

interpretation gpu: allocator dm_live "cuda_malloc R" cuda_free
  by unfold_locales (auto simp: cuda_malloc_def cuda_free_def Let_def split: option.splits if_splits)

lemma run_kernel_keeps: "dm_live (snd (run_kernel R I h elements elapsed D)) = dm_live D"
  by (auto simp: run_kernel_def gpu.bracket gpu.alloc_none split: prod.splits option.splits)

text \<open>Neither the input buffer nor the output buffer of a measured run outlives it, whichever allocation fails.\<close>

theorem run_and_measure_gives_back:
  "dm_live (snd (run_and_measure R I elapsed steady now ctx dec attempt elements D)) = dm_live D"
proof (cases "cu_ok I")
  case True
  obtain a D1 where a: "cuda_malloc R GiB D = (a, D1)" by (cases "cuda_malloc R GiB D")
  show ?thesis
  proof (cases a)
    case None
    with a True show ?thesis by (simp add: run_and_measure_def cuda_allocate_def gpu.alloc_none Let_def)
  next
    case (Some d)
    have "dm_live (cuda_free d (snd (run_kernel R I d elements elapsed D1))) = dm_live D"
      using gpu.bracket [OF a [unfolded Some] run_kernel_keeps] .
    moreover have "d \<noteq> 0" using a Some by (auto simp: cuda_malloc_def Let_def split: option.splits if_splits)
    ultimately show ?thesis
      using a True Some by (simp add: run_and_measure_def cuda_allocate_def cuda_release_def Let_def case_prod_unfold)
  qed
qed (simp add: run_and_measure_def Let_def)

section \<open>The launch covers its elements\<close>

lemma thread_index_nat: "b < 2 ^ 32 \<Longrightarrow> t < 256 \<Longrightarrow> thread_index (of_nat b) 256 (of_nat t) = of_nat (b * 256 + t)"
proof -
  have u: "(ucast (of_nat k :: u32) :: u64) = of_nat k" if "k < 2 ^ 32" for k
  proof -
    have "(ucast (of_nat k :: u32) :: u64) = of_nat (unat (of_nat k :: u32))" by simp
    also have "unat (of_nat k :: u32) = k" using that by (simp add: unat_of_nat)
    finally show ?thesis .
  qed
  show "b < 2 ^ 32 \<Longrightarrow> t < 256 \<Longrightarrow> thread_index (of_nat b) 256 (of_nat t) = of_nat (b * 256 + t)"
    by (simp only: thread_index_def u of_nat_add of_nat_mult) (simp add: u)
qed

lemma grid_threads_upt: "grid_threads blocks = map of_nat [0..<unat blocks * 256]"
proof -
  have "k \<le> 2 ^ 32 \<Longrightarrow> concat (map (\<lambda>b. map (\<lambda>t. thread_index (of_nat b) 256 (of_nat t)) [0..<256]) [0..<k]) =
      map of_nat [0..<k * 256]" for k
  proof (induction k)
    case (Suc k)
    have "map (\<lambda>t. thread_index (of_nat k) 256 (of_nat t)) [0..<256] = map (\<lambda>t. of_nat (k * 256 + t)) [0..<256]"
      using Suc.prems by (intro map_cong refl) (auto simp only: atLeastLessThan_upt [symmetric] atLeastLessThan_iff intro!: thread_index_nat)
    also have "\<dots> = map of_nat [k * 256..<k * 256 + 256]"
      by (rule nth_equalityI) simp_all
    finally have "map (\<lambda>t. thread_index (of_nat k) 256 (of_nat t)) [0..<256] = map of_nat [k * 256..<k * 256 + 256]" .
    moreover have "[0..<Suc k * 256] = [0..<k * 256] @ [k * 256..<k * 256 + 256]"
      by (metis add.commute le_add1 mult_Suc upt_add_eq_append zero_le)
    ultimately show ?case using Suc.IH Suc.prems by simp
  qed simp
  moreover have "unat blocks < 2 ^ 32" by (rule order.strict_trans2 [OF unsigned_less]) simp
  ultimately show ?thesis by (simp add: grid_threads_def)
qed

lemma grid_blocks_nat:
  assumes "unat n \<le> (2 ^ 32 - 1) * 256"
  shows "unat (grid_blocks n) = (unat n + 255) div 256"
proof -
  have "unat (n + 255) = unat n + 255"
    using assms by (simp add: unat_word_ariths)
  then have d: "unat ((n + 255) div 256) = (unat n + 255) div 256" by (simp add: unat_div)
  moreover have "(unat n + 255) div 256 < 2 ^ 32" using assms by simp
  ultimately have "unat (ucast ((n + 255) div 256) :: u32) = (unat n + 255) div 256"
    by (simp add: unsigned_ucast_eq take_bit_nat_eq_self)
  then show ?thesis by (simp add: grid_blocks_def add.commute)
qed

lemma accessed_all:
  assumes "unat n \<le> (2 ^ 32 - 1) * 256"
  shows "accessed n = {i. i < n}"
proof -
  have "i \<in> set (grid_threads (grid_blocks n))" if "i < n" for i
  proof -
    have "unat i < (unat n + 255) div 256 * 256" using that by (simp add: word_less_nat_alt)
    moreover have "i = of_nat (unat i)" by simp
    ultimately show ?thesis
      unfolding grid_threads_upt grid_blocks_nat [OF assms] by (metis atLeast0LessThan atLeastLessThan_upt image_eqI lessThan_iff set_map)
  qed
  then show ?thesis by (auto simp: accessed_def)
qed

lemma saxpy_launch_at:
  "saxpy_launch axpy d n a order out i = (if i \<in> set order \<and> i < n then axpy a (d i) else out i)"
  unfolding saxpy_launch_def by (induction order arbitrary: out) (auto simp: saxpy_def)


text \<open>In whatever order the threads run, the launch computes every element once and nothing else, up to 2^40 - 256 elements.\<close>

theorem saxpy_launch_is_map:
  assumes "unat n \<le> (2 ^ 32 - 1) * 256" "mset order = mset (grid_threads (grid_blocks n))"
  shows "saxpy_launch axpy d n a order out = (\<lambda>i. if i < n then axpy a (d i) else out i)"
proof
  fix i
  have "set order = set (grid_threads (grid_blocks n))" using assms(2) by (metis set_mset_mset)
  moreover have "i \<in> set (grid_threads (grid_blocks n))" if "i < n"
    using accessed_all [OF assms(1)] that by (auto simp: accessed_def)
  ultimately show "saxpy_launch axpy d n a order out i = (if i < n then axpy a (d i) else out i)"
    by (auto simp: saxpy_launch_at)
qed

text \<open>The output buffer holds what the launch writes.\<close>

lemma output_in_bounds:
  assumes "unat n \<le> (2 ^ 32 - 1) * 256" "i \<in> accessed n"
  shows "(unat i + 1) * 4 \<le> unat (n * 4)"
proof -
  have "unat (n * 4) = unat n * 4" using assms(1) by (simp add: unat_word_ariths)
  moreover have "unat i < unat n" using assms by (simp add: accessed_all word_less_nat_alt)
  ultimately show ?thesis by simp
qed



section \<open>What the provider reports\<close>

text \<open>The used memory a CUDA observation reports is the total: \<open>memory()\<close> returns free and total bytes, and the
  field \<open>device.memory.used_bytes\<close> takes the second of the pair, while the descriptor of the same device computes
  total minus free. With any free memory the two disagree.
\<close>

theorem cuda_used_is_total:
  assumes "cu_ok I" "info = (free, cap)" "cap = cp_totalGlobalMem (cu_prop I)" "0 < free" "free \<le> cap"
  shows "map_option meas_value (obs_find (cuda_collect I info clk info now ctx k) ''device.memory.used_bytes'') =
      Some (VUInt cap) \<and>
    dev_used_memory_bytes (device_descriptor I info clk) = cap - free \<and> cap - free \<noteq> cap"
proof -
  have "cap - free \<noteq> cap" using assms(4) by (metis diff_eq_eq add.right_neutral add_left_cancel less_irrefl)
  moreover have "dev_used_memory_bytes (device_descriptor I info clk) = cap - free"
    using assms by (auto simp: device_descriptor_def cuda_memory_def Let_def)
  ultimately show ?thesis
    using assms(1,2) by (simp add: obs_find_def cuda_collect_def cuda_memory_def meas_def Let_def)
qed

definition sample_gpu :: CudaImpl where
  "sample_gpu = cuda_open 0 (Some 1) (Some \<lparr>cp_name = ''gpu'', cp_major = 12, cp_minor = 0,
     cp_totalGlobalMem = 32 * GiB, cp_multiProcessorCount = 170\<rparr>)"

lemma sample_gpu_fields [simp]: "cu_ok sample_gpu" "cp_totalGlobalMem (cu_prop sample_gpu) = 32 * GiB"
  by (simp_all add: sample_gpu_def cuda_open_def Let_def)

theorem cuda_used_is_total_witness:
  "dev_used_memory_bytes (device_descriptor sample_gpu (24 * GiB, 32 * GiB) None) = 8 * GiB \<and>
   map_option meas_value (obs_find (cuda_collect sample_gpu (24 * GiB, 32 * GiB) None (24 * GiB, 32 * GiB)
     Timestamp_default ProviderContext_default (Id 3)) ''device.memory.used_bytes'') = Some (VUInt (32 * GiB))"
  using cuda_used_is_total [of sample_gpu "(24 * GiB, 32 * GiB)" "24 * GiB" "32 * GiB" None Timestamp_default
      ProviderContext_default "Id 3"]
  by (simp add: GiB_def)

text \<open>
  A kernel that never ran is recorded as a success: when the buffer is allocated but the second allocation fails,
  \<open>run_kernel\<close> returns -1 and the outcome says Succeeded with a duration of -1 nanoseconds.
\<close>

lemma measured_outcome:
  assumes "cu_ok I" "cuda_malloc R GiB D = (Some d, D1)"
  shows "fst (run_and_measure R I elapsed steady now ctx dec attempt elements D) =
    (let x = PlacementOutcome_default in x
       \<lparr>out_decision_id := dec, out_attempt_id := attempt, out_disposition := OutcomeDisposition.Succeeded,
        out_classification := Classification.Measured, out_memory_used_bytes := GiB,
        out_duration_ns := fst (run_kernel R I d elements elapsed D1), out_start_delay_ns := steady,
        out_provenance := (out_provenance x)
          \<lparr>prov_source_id := ctx_source_id ctx, prov_source_generation := ctx_source_generation ctx,
           prov_source_type := SourceType.Cuda, prov_method := CollectionMethod.Query,
           prov_classification := Classification.Measured, prov_timestamp := now,
           prov_worker_boot := ctx_worker_boot ctx, prov_coordinator_epoch := ctx_coordinator_epoch ctx\<rparr>\<rparr>)"
proof -
  have "d \<noteq> 0" using assms(2) by (auto simp: cuda_malloc_def Let_def split: option.splits if_splits)
  then show ?thesis using assms by (simp add: run_and_measure_def cuda_allocate_def Let_def case_prod_unfold)
qed

theorem failed_kernel_succeeds:
  assumes "cu_ok I" "cuda_malloc R GiB D = (Some d, D1)" "cuda_malloc R (elements * 4) D1 = (None, D2)"
  shows "let x = fst (run_and_measure R I elapsed steady now ctx dec attempt elements D) in
    out_disposition x = OutcomeDisposition.Succeeded \<and> sint (out_duration_ns x) = -1 \<and> out_error x = ''''"
proof -
  have "d \<noteq> 0" using assms(2) by (auto simp: cuda_malloc_def Let_def split: option.splits if_splits)
  then show ?thesis
    using assms(1,3)
    by (simp add: measured_outcome [OF assms(1,2)] run_kernel_def Let_def PlacementOutcome_default_def)
qed

end
