(* ===== verification/Device_Proof.thy ===== *)
theory Device_Proof
  imports Workload Cuda Sockets
begin

text \<open>
  src/examples/ex_cuda_5090.cpp: the run on a real device that exits with 0 when its evidence is complete. The readings of
  the CUDA runtime, the clock and the elapsed times are arguments; the theorem says on what the exit code depends.
\<close>

section \<open>The program\<close>

definition device_ctx :: ProviderContext where
  "device_ctx = ProviderContext_default
     \<lparr>ctx_source_id := Id 7, ctx_source_generation := 1, ctx_source_type := SourceType.Cuda, ctx_worker_boot := 42,
      ctx_coordinator_epoch := 1000, ctx_epoch := 1, ctx_workload_id := Id 100, ctx_request_id := Id 100,
      ctx_node_id := Id 1, ctx_device_id := Id 1\<rparr>"

definition device_candidate :: "DeviceDescriptor \<Rightarrow> u64 \<Rightarrow> PlacementCandidate" where
  "device_candidate dev free1 = PlacementCandidate_default
     \<lparr>cand_candidate_id := Id 1, cand_node_id := Id 1, cand_device_id := Id 1,
      cand_architecture := dev_architecture dev, cand_health := HealthState.Healthy, cand_capabilities := [''cuda''],
      cand_memory := MemoryDescriptor_default
        \<lparr>mem_total_bytes := dev_memory_bytes dev, mem_free_bytes := free1, mem_used_bytes := GiB\<rparr>,
      cand_queue := QueueDescriptor_default\<lparr>queue_depth := 0\<rparr>, cand_total_cost := 0x3FE0000000000000,
      cand_costs := [\<lparr>cost_kind = CostComponentKind.MemoryHeadroom, cost_label = ''headroom'', cost_cost = 0x3FE0000000000000,
        cost_policy_weight = f64_of_u64 1, cost_classification = Classification.Measured,
        cost_provenance = Provenance_default, cost_detail = ''''\<rparr>]\<rparr>"

definition device_decision :: "DeviceDescriptor \<Rightarrow> u64 \<Rightarrow> Timestamp \<Rightarrow> PlacementDecision" where
  "device_decision dev free1 now = PlacementDecision_default
     \<lparr>dec_decision_id := Id 1000, dec_attempt_id := Id 1000, dec_placement_generation := 1,
      dec_observation_generation := 1, dec_epoch := 1, dec_policy_generation := 1, dec_workload_id := Id 100,
      dec_request_id := Id 100, dec_tenant_id := Id 1, dec_namespace_id := Id 1, dec_node_id := Id 1, dec_device_id := Id 1,
      dec_candidate_set := CandidateSet_default
        \<lparr>cset_candidates := [device_candidate dev free1], cset_complete := True, cset_reconstructed := False\<rparr>,
      dec_selected_candidate := Id 1, dec_tie_break := TieBreakReason.LowestCost,
      dec_tie_break_reason := ''only candidate'', dec_determinism := DeterminismClass.Deterministic,
      dec_selected_reason := ''only available CUDA-compatible device'',
      dec_provenance := Provenance_default
        \<lparr>prov_source_id := Id 7, prov_source_generation := 1, prov_source_type := SourceType.Cuda,
         prov_classification := Classification.Measured, prov_timestamp := now, prov_worker_boot := 42,
         prov_coordinator_epoch := 1000\<rparr>\<rparr>"

text \<open>The last checks, on the two differences of free memory, the replay and the stored outcome.\<close>

definition hard_checks :: "int \<Rightarrow> int \<Rightarrow> ReplayResult \<Rightarrow> PlacementOutcome option \<Rightarrow> int \<times> string" where
  "hard_checks fall rise rep out =
     (if fall \<ge> 0 then (1, ''HARD: allocation did not reduce free memory'' @ newline)
      else if fall > - (2 ^ 30)
      then (1, ''HARD: allocation insufficient (delta '' @ dec_int fall @ '')'' @ newline)
      else if rise > 2 ^ 31
      then (1, ''HARD: recovered far from baseline (delta '' @ dec_int rise @ '')'' @ newline)
      else if \<not> rep_reproduced rep then (1, ''HARD: replay not reproduced'' @ newline)
      else case out of
        None \<Rightarrow> (1, ''HARD: outcome not linked'' @ newline)
      | Some x \<Rightarrow>
          if out_disposition x \<noteq> OutcomeDisposition.Succeeded then (1, ''HARD: outcome not succeeded'' @ newline)
          else (0, ''RTX5090_PROOF_OK'' @ newline))"

definition device_line :: "DeviceDescriptor \<Rightarrow> string" where
  "device_line dev =
     ''DEVICE name='' @ c_str (dev_model dev) @ '' arch='' @ dev_architecture dev @
     '' cc='' @ dec_int (sint (dev_compute_capability_major dev)) @ ''.'' @ dec_int (sint (dev_compute_capability_minor dev)) @
     '' sm='' @ dec_int (sint (dev_sm_count dev)) @ '' total_bytes='' @ dec_nat (unat (dev_memory_bytes dev)) @ newline"

record DeviceRun =
  dr_exit :: int
  dr_out :: string
  dr_obs :: Impl
  dr_mem :: DeviceMem

text \<open>
  \<open>info\<close> are the answers of \<open>cudaMemGetInfo\<close> and \<open>now\<close> the readings of the clock, by the order of the calls; \<open>dur1\<close> and
  \<open>dur2\<close> are the times of the kernel, \<open>steady\<close> the time around its second run; the clock rate \<open>clk\<close> is the same at every
  call. The differences of free memory are signed.
\<close>

definition after_decision ::
    "runtime \<Rightarrow> CudaImpl \<Rightarrow> (nat \<Rightarrow> u64 \<times> u64) \<Rightarrow> i32 option \<Rightarrow> (nat \<Rightarrow> Timestamp) \<Rightarrow> i64 \<Rightarrow> i64 \<Rightarrow> i64 \<Rightarrow> u64 \<Rightarrow> u64 \<Rightarrow> int \<Rightarrow>
     string \<Rightarrow> Impl \<Rightarrow> DeviceMem \<Rightarrow> fault + DeviceRun" where
  "after_decision R I info clk now dur1 dur2 steady buf free0 fall text1 obs3 D1 =
     (let elements = 2 ^ 22 in
      case run_kernel R I buf elements dur1 D1 of (dur, D2) \<Rightarrow>
      case run_and_measure R I dur2 steady (now 3) device_ctx (Id 1000) (Id 1000) elements D2 of (outcome, D3) \<Rightarrow>
      case ingest_outcome outcome obs3 of (r, obs4) \<Rightarrow>
        if \<not> ing_accepted r
        then Inr \<lparr>dr_exit = 1, dr_out = text1 @ ''outcome ingest failed'' @ newline, dr_obs = obs4, dr_mem = D3\<rparr>
        else let D4 = cuda_release I buf D3;
                 free2 = fst (cuda_memory I (info 8));
                 obs5 = snd (ingest (cuda_collect I (info 9) clk (info 10) (now 4) device_ctx (Id 3)) obs4);
                 rise = sint (free2 - free0)
          in fbind (obs_explain (Id 1000) obs5) (\<lambda>ex. fbind (obs_replay (Id 1000) obs5) (\<lambda>rep.
            let out = get_outcome (Id 1000) obs5;
                st = stats (ts_wall (now 5)) obs5;
                (code, last_line) = hard_checks fall rise rep out
            in Inr \<lparr>dr_exit = code,
              dr_out = text1 @
                ''KERNEL elements='' @ dec_nat (unat elements) @ '' duration_ns='' @ dec_int (sint dur) @
                '' disposition='' @ dec_nat (unat (OutcomeDisposition_code (out_disposition outcome))) @ newline @
                ''RECOVERED free='' @ dec_nat (unat free2) @ '' (delta from baseline '' @ dec_int rise @ '')'' @ newline @
                ''REPLAY reproduced='' @ (if rep_reproduced rep then ''1'' else ''0'') @ '' selected='' @ id_str (rep_selected rep) @
                '' digest='' @ rep_replay_digest rep @ newline @
                ''OUTCOME linked duration_ns='' @
                (case out of Some x \<Rightarrow> dec_int (sint (out_duration_ns x)) | None \<Rightarrow> ''-1'') @ newline @
                ''STATS obs='' @ dec_nat (unat (st_observation_count st)) @ '' decisions='' @ dec_nat (unat (st_decision_count st)) @
                '' outcomes='' @ dec_nat (unat (st_outcome_count st)) @ newline @ last_line,
              dr_obs = obs5, dr_mem = D4\<rparr>)))"

definition ex_cuda_5090 ::
    "runtime \<Rightarrow> CudaImpl \<Rightarrow> (nat \<Rightarrow> u64 \<times> u64) \<Rightarrow> i32 option \<Rightarrow> (nat \<Rightarrow> Timestamp) \<Rightarrow> i64 \<Rightarrow> i64 \<Rightarrow> i64 \<Rightarrow> DeviceMem \<Rightarrow>
     fault + DeviceRun" where
  "ex_cuda_5090 R I info clk now dur1 dur2 steady D =
     (if \<not> cu_ok I
      then Inr \<lparr>dr_exit = 2, dr_out = ''CUDA device unavailable'' @ newline, dr_obs = fresh_obs, dr_mem = D\<rparr>
      else let obs0 = set_coordinator_epoch 1000 fresh_obs;
               dev = device_descriptor I (info 0) clk;
               major = dev_compute_capability_major dev;
               minor = dev_compute_capability_minor dev
        in if major \<noteq> 12 \<or> minor \<noteq> 0
        then Inr \<lparr>dr_exit = 1, dr_out = device_line dev @ ''EXPECTED sm_120 but got '' @ dec_int (sint major) @ ''.'' @
                    dec_int (sint minor) @ newline, dr_obs = obs0, dr_mem = D\<rparr>
        else let (free0, total0) = cuda_memory I (info 1);
                 obs1 = snd (ingest (cuda_collect I (info 2) clk (info 3) (now 0) device_ctx (Id 1)) obs0);
                 text0 = device_line dev @ ''BASELINE free='' @ dec_nat (unat free0) @ '' total='' @ dec_nat (unat total0) @ newline;
                 (buf, D1) = cuda_allocate R I GiB D
          in if \<not> cuda_valid I buf
          then Inr \<lparr>dr_exit = 1, dr_out = text0 @ ''allocation failed'' @ newline, dr_obs = obs1, dr_mem = D1\<rparr>
          else let free1 = fst (cuda_memory I (info 4));
                   obs2 = snd (ingest (cuda_collect I (info 5) clk (info 6) (now 1) device_ctx (Id 2)) obs1);
                   fall = sint (free1 - free0);
                   text1 = text0 @ ''AFTER-ALLOC free='' @ dec_nat (unat free1) @ '' (delta '' @ dec_int fall @ '')'' @ newline;
                   (r, obs3) = ingest_decision (device_decision dev free1 (now 2)) obs2
            in if \<not> ing_accepted r
            then Inr \<lparr>dr_exit = 1, dr_out = text1 @ ''decision ingest failed'' @ newline, dr_obs = obs3, dr_mem = D1\<rparr>
            else after_decision R I info clk now dur1 dur2 steady buf free0 fall text1 obs3 D1)"

section \<open>What the exit code depends on\<close>

lemma hard_checks_zero:
  "fst (hard_checks fall rise rep out) = 0 \<longleftrightarrow>
     fall \<le> - (2 ^ 30) \<and> rise \<le> 2 ^ 31 \<and> rep_reproduced rep \<and>
     (\<exists>x. out = Some x \<and> out_disposition x = OutcomeDisposition.Succeeded)"
  by (auto simp: hard_checks_def split: option.split)

text \<open>The observatory before the decision: observations of the device, at epoch 1000.\<close>

definition evidence_only :: "Impl \<Rightarrow> bool" where
  "evidence_only I \<longleftrightarrow> consistent I \<and> im_dec I = [] \<and> im_outcomes I = [] \<and> im_coordinator I = 1000"

lemma evidence_start: "evidence_only (set_coordinator_epoch 1000 fresh)"
  using consistent_init
  by (simp add: evidence_only_def set_coordinator_epoch_def consistent_def inv_defs current_source_generation_def Impl_init_def)

lemma evidence_ingest: "evidence_only I \<Longrightarrow> evidence_only (snd (ingest ob I))"
proof -
  have "im_coordinator (snd (ingest ob I)) = im_coordinator I"
    by (cases rule: ingest_cases [of ob I]) (simp_all add: reject_def accept_def Let_def)
  then show "evidence_only I \<Longrightarrow> evidence_only (snd (ingest ob I))"
    by (simp add: evidence_only_def ingest_logs consistent_ingest)
qed

definition fits :: "DeviceDescriptor \<Rightarrow> u64 \<Rightarrow> bool" where
  "fits dev free1 \<longleftrightarrow> dev_memory_bytes dev = 0 \<or> GiB \<le> dev_memory_bytes dev \<and> free1 \<le> dev_memory_bytes dev"

lemma device_decision_fields:
  "dec_decision_id (device_decision dev f now) = Id 1000" "dec_attempt_id (device_decision dev f now) = Id 1000"
  "dec_hard_constraints (device_decision dev f now) = []" "dec_selected_candidate (device_decision dev f now) = Id 1"
  "cset_candidates (dec_candidate_set (device_decision dev f now)) = [device_candidate dev f]"
  "cand_candidate_id (device_candidate dev f) = Id 1"
  by (simp_all add: device_decision_def device_candidate_def PlacementDecision_default_def)

lemma half_finite: "f64_finite 0x3FE0000000000000" "f64_finite 0x3FF0000000000000" "f64_finite f64_zero"
  by (simp_all add: f64_finite_def f64_exp_def f64_mag_def f64_zero_def)

lemma device_valid: "decision_valid (device_decision dev f now) \<longleftrightarrow> fits dev f"
proof -
  have m: "impossible_memory (device_candidate dev f) \<longleftrightarrow> \<not> fits dev f"
    by (auto simp: impossible_memory_def device_candidate_def fits_def Let_def word_gt_0 not_less)
  have one: "f64_of_u64 1 = 0x3FF0000000000000" by (simp add: f64_eval)
  have c: "finite_cost (device_decision dev f now)"
    by (simp add: finite_cost_def device_decision_fields)
       (simp add: device_decision_def device_candidate_def PlacementDecision_default_def one half_finite)
  show ?thesis
    by (simp add: decision_valid_def device_decision_fields m c id_valid_def)
       (simp add: device_decision_def CandidateSet_default_def)
qed

lemma device_admissible:
  assumes "evidence_only I"
  shows "decision_admissible (device_decision dev f now) I \<longleftrightarrow> fits dev f"
proof -
  have i: "dec_indexed I" using assms by (simp add: evidence_only_def consistent_def)
  have "map_of (im_dec_by_id I) k = None" for k
    using i assms unique_exact_None [of dec_decision_id "im_dec I"] by (auto simp: evidence_only_def dec_indexed_def)
  moreover have "map_of (idx_dec_attempt I) k = None" for k
    using attempt_lookup [OF i] assms by (simp add: evidence_only_def)
  moreover have "prov_coordinator_epoch (dec_provenance (device_decision dev f now)) = 1000"
    by (simp add: device_decision_def)
  ultimately show ?thesis
    using assms by (simp add: decision_admissible_def device_valid evidence_only_def stale_epoch_def)
qed

lemma device_accepted:
  assumes "evidence_only I"
  shows "ing_accepted (fst (ingest_decision (device_decision dev f now) I)) \<longleftrightarrow> fits dev f"
  using device_admissible [OF assms, of dev f now]
  by (cases rule: ingest_decision_cases [of "device_decision dev f now" I]) (simp_all add: reject_def accept_def Let_def)


text \<open>The measured outcome is always admitted; it says Succeeded when the input buffer was allocated.\<close>

lemma measured_fields:
  "out_decision_id (fst (run_and_measure R I dur steady now ctx dec attempt n D)) = dec"
  "out_attempt_id (fst (run_and_measure R I dur steady now ctx dec attempt n D)) = attempt"
  "cu_ok I \<Longrightarrow> out_disposition (fst (run_and_measure R I dur steady now ctx dec attempt n D)) =
     (if fst (cuda_malloc R GiB D) = None then OutcomeDisposition.Failed else OutcomeDisposition.Succeeded)"
proof -
  have nz: "cuda_malloc R GiB D = (Some p, D') \<Longrightarrow> p \<noteq> 0" for p D'
    by (auto simp: cuda_malloc_def Let_def split: option.splits if_splits)
  show "out_decision_id (fst (run_and_measure R I dur steady now ctx dec attempt n D)) = dec"
    "out_attempt_id (fst (run_and_measure R I dur steady now ctx dec attempt n D)) = attempt"
    by (auto simp: run_and_measure_def Let_def split: prod.split)
  show "cu_ok I \<Longrightarrow> out_disposition (fst (run_and_measure R I dur steady now ctx dec attempt n D)) =
     (if fst (cuda_malloc R GiB D) = None then OutcomeDisposition.Failed else OutcomeDisposition.Succeeded)"
    using nz by (auto simp: run_and_measure_def cuda_allocate_def Let_def split: prod.split option.split)
qed

lemma device_outcome_stored:
  fixes now :: Timestamp
  assumes "evidence_only J" "fits dev f" "out_decision_id x = Id 1000" "out_attempt_id x = Id 1000"
    "out_disposition x \<noteq> OutcomeDisposition.Unknown"
  defines "d \<equiv> device_decision dev f now"
  defines "K \<equiv> snd (ingest_outcome x (snd (ingest_decision d J)))"
  shows "ing_accepted (fst (ingest_outcome x (snd (ingest_decision d J))))"
    and "consistent K" "im_dec K = [d]" "im_outcomes K = [(Id 1000, x)]"
proof -
  let ?I = "snd (ingest_decision d J)"
  have adm: "decision_admissible d J" using device_admissible [OF assms(1)] assms(2) by (simp add: d_def)
  have I: "consistent ?I" "im_dec ?I = [d]" "im_outcomes ?I = []"
    using assms(1) adm by (simp_all add: evidence_only_def consistent_ingest_decision ingest_decision_logs)
  have at: "map_of (im_dec_by_id ?I) (Id 1000) = Some 0"
    using I(1,2) by (auto simp: consistent_def dec_indexed_def unique_exact_def d_def device_decision_fields)
  have ok: "outcome_admissible x ?I"
    unfolding outcome_admissible_def
    by (intro conjI exI [of _ 0])
       (simp_all add: at I assms(3-5), simp_all add: id_valid_def d_def device_decision_fields)
  show "ing_accepted (fst (ingest_outcome x ?I))"
    using ok by (cases rule: ingest_outcome_cases [of x ?I]) (simp_all add: accept_def Let_def)
  show "consistent K" "im_dec K = [d]" "im_outcomes K = [(Id 1000, x)]"
    using consistent_ingest_outcome [OF I(1)] ok I ingest_outcome_logs [of x ?I] by (simp_all add: K_def assms(3))
qed

text \<open>The decision replays to itself and explains, whatever evidence follows.\<close>

lemma device_replays:
  assumes "consistent K" "im_dec K = [device_decision dev f now]"
  obtains ex rep where "obs_explain (Id 1000) K = Inr ex" "obs_replay (Id 1000) K = Inr rep" "rep_reproduced rep"
proof -
  let ?d = "device_decision dev f now"
  have s: "stored_decision (Id 1000) K = Some ?d"
    using stored_at [OF assms(1), of 0] by (simp add: assms(2) device_decision_fields)
  obtain r where r: "rank_candidates ?d = Inr r" by (rule rank_free [OF device_decision_fields(3)])
  have c: "stable_sort cand_before (cset_candidates (dec_candidate_set ?d)) = device_candidate dev f # []"
    by (simp add: device_decision_fields)
  obtain rep where "replay_decision ?d = Inr rep" "rep_reproduced rep"
    using replay_free [OF device_decision_fields(3) c] by (metis device_decision_fields(4,6))
  then show thesis using that s r by (simp add: obs_explain_def obs_replay_def)
qed

lemma after_decision_run:
  assumes "cu_ok I" "evidence_only J" "fits dev f"
  obtains run where "after_decision R I info clk now dur1 dur2 steady buf free0 fall text1
      (snd (ingest_decision (device_decision dev f t) J)) D1 = Inr run"
    "dr_exit run = 0 \<longleftrightarrow> fall \<le> - (2 ^ 30) \<and> sint (fst (info 8) - free0) \<le> 2 ^ 31 \<and>
       fst (cuda_malloc R GiB (snd (run_kernel R I buf (2 ^ 22) dur1 D1))) \<noteq> None"
    "dm_live (dr_mem run) = dm_live (cuda_release I buf D1)"
proof -
  let ?D2 = "snd (run_kernel R I buf (2 ^ 22) dur1 D1)"
  let ?m = "run_and_measure R I dur2 steady (now 3) device_ctx (Id 1000) (Id 1000) (2 ^ 22) ?D2"
  let ?x = "fst ?m" and ?I3 = "snd (ingest_decision (device_decision dev f t) J)"
  have u: "out_disposition ?x \<noteq> OutcomeDisposition.Unknown" by (simp add: measured_fields(3) [OF assms(1)])
  note K = device_outcome_stored [OF assms(2,3) measured_fields(1,2) u, of t]
  let ?K = "snd (ingest (cuda_collect I (info 9) clk (info 10) (now 4) device_ctx (Id 3)) (snd (ingest_outcome ?x ?I3)))"
  have k: "consistent ?K" "im_dec ?K = [device_decision dev f t]" "im_outcomes ?K = [(Id 1000, ?x)]"
    using K(2-4) by (simp_all add: consistent_ingest ingest_logs)
  obtain ex rep where rep: "obs_explain (Id 1000) ?K = Inr ex" "obs_replay (Id 1000) ?K = Inr rep" "rep_reproduced rep"
    by (rule device_replays [OF k(1,2)])
  have out: "get_outcome (Id 1000) ?K = Some ?x" unfolding get_outcome_def k(3) by simp
  have mem: "fst (cuda_memory I i) = fst i" for i using assms(1) by (simp add: cuda_memory_def)
  have live: "dm_live (cuda_release I buf (snd ?m)) = dm_live (cuda_release I buf D1)"
    by (simp add: cuda_release_def cuda_free_def run_and_measure_gives_back run_kernel_keeps)
  have "\<exists>t ob. after_decision R I info clk now dur1 dur2 steady buf free0 fall text1 ?I3 D1 =
      Inr \<lparr>dr_exit = fst (hard_checks fall (sint (fst (info 8) - free0)) rep (Some ?x)), dr_out = t, dr_obs = ob,
        dr_mem = cuda_release I buf (snd ?m)\<rparr>"
    by (simp only: after_decision_def Let_def case_prod_unfold K(1) rep(1,2) fbind_simps out mem if_False not_True_eq_False)
       (intro exI, rule refl)
  then obtain t' ob where run: "after_decision R I info clk now dur1 dur2 steady buf free0 fall text1 ?I3 D1 =
      Inr \<lparr>dr_exit = fst (hard_checks fall (sint (fst (info 8) - free0)) rep (Some ?x)), dr_out = t', dr_obs = ob,
        dr_mem = cuda_release I buf (snd ?m)\<rparr>" by blast
  have d: "out_disposition ?x = OutcomeDisposition.Succeeded \<longleftrightarrow> fst (cuda_malloc R GiB ?D2) \<noteq> None"
    using measured_fields(3) [OF assms(1)] by (metis OutcomeDisposition.distinct(1) OutcomeDisposition.simps)
  show thesis
  proof (rule that [OF run])
    show "dr_exit \<lparr>dr_exit = fst (hard_checks fall (sint (fst (info 8) - free0)) rep (Some ?x)), dr_out = t', dr_obs = ob,
        dr_mem = cuda_release I buf (snd ?m)\<rparr> = 0 \<longleftrightarrow> fall \<le> - (2 ^ 30) \<and> sint (fst (info 8) - free0) \<le> 2 ^ 31 \<and>
       fst (cuda_malloc R GiB ?D2) \<noteq> None"
      unfolding DeviceRun.simps hard_checks_zero using rep(3) d by blast
    show "dm_live (dr_mem \<lparr>dr_exit = fst (hard_checks fall (sint (fst (info 8) - free0)) rep (Some ?x)), dr_out = t',
        dr_obs = ob, dr_mem = cuda_release I buf (snd ?m)\<rparr>) = dm_live (cuda_release I buf D1)"
      unfolding DeviceRun.simps by (rule live)
  qed
qed

lemma descriptor_fields:
  assumes "cu_ok I"
  shows "dev_compute_capability_major (device_descriptor I info clk) = cp_major (cu_prop I)"
    "dev_compute_capability_minor (device_descriptor I info clk) = cp_minor (cu_prop I)"
    "dev_memory_bytes (device_descriptor I info clk) = cp_totalGlobalMem (cu_prop I)"
  using assms by (simp_all add: device_descriptor_def Let_def)

text \<open>The observatory that gets the decision, and the three ways the program goes on.\<close>

definition device_evidence ::
    "CudaImpl \<Rightarrow> (nat \<Rightarrow> u64 \<times> u64) \<Rightarrow> i32 option \<Rightarrow> (nat \<Rightarrow> Timestamp) \<Rightarrow> Impl" where
  "device_evidence I info clk now =
     snd (ingest (cuda_collect I (info 5) clk (info 6) (now 1) device_ctx (Id 2))
       (snd (ingest (cuda_collect I (info 2) clk (info 3) (now 0) device_ctx (Id 1)) (set_coordinator_epoch 1000 fresh))))"

lemma device_evidence_only: "evidence_only (device_evidence I info clk now)"
  unfolding device_evidence_def by (intro evidence_ingest evidence_start)

lemma malloc_nonzero: "cuda_malloc R n D = (Some p, D') \<Longrightarrow> p \<noteq> 0"
  by (auto simp: cuda_malloc_def Let_def split: option.splits if_splits)

lemma ex_cuda_cases:
  fixes info :: "nat \<Rightarrow> u64 \<times> u64" and now :: "nat \<Rightarrow> Timestamp" and clk :: "i32 option"
  assumes "cu_ok I" "cp_major (cu_prop I) = 12" "cp_minor (cu_prop I) = 0"
  defines "dev \<equiv> device_descriptor I (info 0) clk"
  defines "d \<equiv> device_decision dev (fst (info 4)) (now 2)"
  shows "cuda_malloc R GiB D = (None, D1) \<Longrightarrow>
      \<exists>run. ex_cuda_5090 R I info clk now dur1 dur2 steady D = Inr run \<and> dr_exit run = 1"
    and "cuda_malloc R GiB D = (Some buf, D1) \<Longrightarrow> \<not> fits dev (fst (info 4)) \<Longrightarrow>
      \<exists>run. ex_cuda_5090 R I info clk now dur1 dur2 steady D = Inr run \<and> dr_exit run = 1"
    and "cuda_malloc R GiB D = (Some buf, D1) \<Longrightarrow> fits dev (fst (info 4)) \<Longrightarrow>
      \<exists>shown. ex_cuda_5090 R I info clk now dur1 dur2 steady D =
        after_decision R I info clk now dur1 dur2 steady buf (fst (info 1)) (sint (fst (info 4) - fst (info 1))) shown
          (snd (ingest_decision d (device_evidence I info clk now))) D1"
proof -
  have mem: "cuda_memory I x = x" for x using assms(1) by (simp add: cuda_memory_def)
  note start = ex_cuda_5090_def Let_def case_prod_unfold descriptor_fields [OF assms(1)] assms(1-3) mem dev_def d_def
    device_accepted [OF device_evidence_only, unfolded device_evidence_def] device_evidence_def
    simp_thms if_True if_False fst_conv snd_conv
  { assume "cuda_malloc R GiB D = (None, D1)"
    then have n: "cuda_allocate R I GiB D = (0, D1)" "\<not> cuda_valid I 0"
      using assms(1) by (simp_all add: cuda_allocate_def cuda_valid_def)
    show "\<exists>run. ex_cuda_5090 R I info clk now dur1 dur2 steady D = Inr run \<and> dr_exit run = 1"
      by (simp only: start n) simp }
  { assume a: "cuda_malloc R GiB D = (Some buf, D1)"
    then have n: "cuda_allocate R I GiB D = (buf, D1)" "cuda_valid I buf"
      using assms(1) malloc_nonzero [OF a] by (simp_all add: cuda_allocate_def cuda_valid_def)
    { assume "\<not> fits dev (fst (info 4))"
      then show "\<exists>run. ex_cuda_5090 R I info clk now dur1 dur2 steady D = Inr run \<and> dr_exit run = 1"
        by (simp only: start n) simp }
    { assume "fits dev (fst (info 4))"
      then show "\<exists>shown. ex_cuda_5090 R I info clk now dur1 dur2 steady D =
        after_decision R I info clk now dur1 dur2 steady buf (fst (info 1)) (sint (fst (info 4) - fst (info 1))) shown
          (snd (ingest_decision d (device_evidence I info clk now))) D1"
        by (simp only: start n) blast } }
qed

text \<open>C26. On a device of compute capability 12.0 the program never throws, and exits with 0 exactly when both buffers of
  1 GiB were allocated, the readings fit into the device, free memory fell by at least 1 GiB after the allocation and did
  not end more than 2 GiB above the baseline; then every buffer has been freed. Whether the kernel ran, and whether the
  memory came back, does not matter.\<close>

theorem device_proof_exit:
  assumes "cu_ok I" "cp_major (cu_prop I) = 12" "cp_minor (cu_prop I) = 0"
  shows "\<exists>run. ex_cuda_5090 R I info clk now dur1 dur2 steady D = Inr run \<and>
    (dr_exit run = 0 \<longleftrightarrow>
       (\<exists>buf D1. cuda_malloc R GiB D = (Some buf, D1) \<and>
          fst (cuda_malloc R GiB (snd (run_kernel R I buf (2 ^ 22) dur1 D1))) \<noteq> None) \<and>
       (cp_totalGlobalMem (cu_prop I) = 0 \<or>
          GiB \<le> cp_totalGlobalMem (cu_prop I) \<and> fst (info 4) \<le> cp_totalGlobalMem (cu_prop I)) \<and>
       sint (fst (info 4) - fst (info 1)) \<le> - (2 ^ 30) \<and> sint (fst (info 8) - fst (info 1)) \<le> 2 ^ 31) \<and>
    (dr_exit run = 0 \<longrightarrow> dm_live (dr_mem run) = dm_live D)"
proof -
  let ?dev = "device_descriptor I (info 0) clk"
  have fit: "fits ?dev (fst (info 4)) \<longleftrightarrow> cp_totalGlobalMem (cu_prop I) = 0 \<or>
      GiB \<le> cp_totalGlobalMem (cu_prop I) \<and> fst (info 4) \<le> cp_totalGlobalMem (cu_prop I)"
    by (simp add: fits_def descriptor_fields [OF assms(1)])
  obtain a D1 where a: "cuda_malloc R GiB D = (a, D1)" by (cases "cuda_malloc R GiB D")
  consider "a = None" | (misfit) buf where "a = Some buf" "\<not> fits ?dev (fst (info 4))"
    | (on) buf where "a = Some buf" "fits ?dev (fst (info 4))" by blast
  then show ?thesis
  proof cases
    case 1
    obtain run where "ex_cuda_5090 R I info clk now dur1 dur2 steady D = Inr run" "dr_exit run = 1"
      using ex_cuda_cases(1) [OF assms a [unfolded 1]] by blast
    then show ?thesis using a 1 by simp
  next
    case misfit
    obtain run where "ex_cuda_5090 R I info clk now dur1 dur2 steady D = Inr run" "dr_exit run = 1"
      using ex_cuda_cases(2) [OF assms a [unfolded misfit(1)] misfit(2)] by blast
    then show ?thesis using fit misfit(2) by auto
  next
    case on
    then have a': "cuda_malloc R GiB D = (Some buf, D1)" using a by simp
    from ex_cuda_cases(3) [OF assms this on(2)] obtain shown where run: "ex_cuda_5090 R I info clk now dur1 dur2 steady D =
        after_decision R I info clk now dur1 dur2 steady buf (fst (info 1)) (sint (fst (info 4) - fst (info 1))) shown
          (snd (ingest_decision (device_decision ?dev (fst (info 4)) (now 2)) (device_evidence I info clk now))) D1"
      by blast
    have "dm_live (cuda_release I buf D1) = dm_live D"
      using gpu.bracket [OF a' refl] malloc_nonzero [OF a'] assms(1) by (simp add: cuda_release_def)
    moreover obtain run where "ex_cuda_5090 R I info clk now dur1 dur2 steady D = Inr run"
      "dr_exit run = 0 \<longleftrightarrow> sint (fst (info 4) - fst (info 1)) \<le> - (2 ^ 30) \<and> sint (fst (info 8) - fst (info 1)) \<le> 2 ^ 31 \<and>
         fst (cuda_malloc R GiB (snd (run_kernel R I buf (2 ^ 22) dur1 D1))) \<noteq> None"
      "dm_live (dr_mem run) = dm_live (cuda_release I buf D1)"
      unfolding run by (rule after_decision_run [OF assms(1) device_evidence_only on(2)])
    ultimately show ?thesis using a' fit on(2) by auto
  qed
qed

definition sample_runtime :: runtime where
  "sample_runtime L k n = Some (of_nat k + 1)"

definition sample_info :: "nat \<Rightarrow> u64 \<times> u64" where
  "sample_info k = (if 4 \<le> k \<and> k < 8 then (22 * GiB, 32 * GiB) else (24 * GiB, 32 * GiB))"

lemma device_proof_exit_witness:
  "\<exists>run. ex_cuda_5090 sample_runtime sample_gpu sample_info None (\<lambda>_. Timestamp_default) 7 (- 1) 9
      \<lparr>dm_live = (\<lambda>_. None), dm_calls = 0\<rparr> = Inr run \<and>
    dr_exit run = 0 \<and> dm_live (dr_mem run) = (\<lambda>_. None)"
proof -
  let ?D = "\<lparr>dm_live = (\<lambda>_. None), dm_calls = 0\<rparr>"
  have g: "cp_major (cu_prop sample_gpu) = 12" "cp_minor (cu_prop sample_gpu) = 0"
    by (simp_all add: sample_gpu_def cuda_open_def Let_def)
  have m: "cuda_malloc sample_runtime GiB ?D = (Some 1, \<lparr>dm_live = [1 \<mapsto> GiB], dm_calls = 1\<rparr>)"
    by (simp add: cuda_malloc_def sample_runtime_def)
  have s: "fst (cuda_malloc sample_runtime GiB (snd (run_kernel sample_runtime sample_gpu 1 (2 ^ 22) 7
      \<lparr>dm_live = [1 \<mapsto> GiB], dm_calls = 1\<rparr>))) \<noteq> None"
    by (simp add: cuda_malloc_def sample_runtime_def run_kernel_def cuda_free_def)
  have i: "fst (sample_info 1) = 24 * GiB" "fst (sample_info 4) = 22 * GiB" "fst (sample_info 8) = 24 * GiB"
    by (simp_all add: sample_info_def)
  obtain run where r: "ex_cuda_5090 sample_runtime sample_gpu sample_info None (\<lambda>_. Timestamp_default) 7 (- 1) 9 ?D = Inr run"
    "dr_exit run = 0 \<longleftrightarrow>
       (\<exists>buf D1. cuda_malloc sample_runtime GiB ?D = (Some buf, D1) \<and>
          fst (cuda_malloc sample_runtime GiB (snd (run_kernel sample_runtime sample_gpu buf (2 ^ 22) 7 D1))) \<noteq> None) \<and>
       (cp_totalGlobalMem (cu_prop sample_gpu) = 0 \<or>
          GiB \<le> cp_totalGlobalMem (cu_prop sample_gpu) \<and> fst (sample_info 4) \<le> cp_totalGlobalMem (cu_prop sample_gpu)) \<and>
       sint (fst (sample_info 4) - fst (sample_info 1)) \<le> - (2 ^ 30) \<and> sint (fst (sample_info 8) - fst (sample_info 1)) \<le> 2 ^ 31"
    "dr_exit run = 0 \<longrightarrow> dm_live (dr_mem run) = dm_live ?D"
    using device_proof_exit [OF sample_gpu_fields(1) g, of sample_runtime sample_info None "\<lambda>_. Timestamp_default" 7 "- 1" 9 ?D]
    by blast
  have "dr_exit run = 0"
    unfolding r(2) i using m s by (auto simp: GiB_def)
  with r(1,3) show ?thesis by auto
qed


end
