(* ===== verification/Loopback.thy ===== *)
theory Loopback
  imports Coordinator
begin

text \<open>
  src/examples/ex_distributed.cpp: one frame to a server in the same process and one frame back, over the models of the
  sockets and of the frames. The network is an argument: how it cuts the bytes of each direction.
\<close>

section \<open>The program\<close>

definition Frame_default :: Frame where
  "Frame_default = \<lparr>frame_type = Hello, frame_payload = []\<rparr>"

text \<open>The server's thread: its socket at the end, or the exception of \<open>encode_frame\<close>.\<close>

definition loop_thread :: "Arrival \<Rightarrow> TcpServer \<Rightarrow> string + TcpSocket" where
  "loop_thread x srv =
     (case tcp_accept x srv TcpSocket_init {#} of (ok, conn, H) \<Rightarrow>
        if \<not> ok then Inr conn
        else case recv_frame conn of
          (Inl err, conn1) \<Rightarrow> Inr conn1
        | (Inr f, conn1) \<Rightarrow> map_sum id snd (send_frame conn1 (Frame_default\<lparr>frame_type := Ack, frame_payload := [1, 2, 3]\<rparr>)))"

text \<open>
  \<open>main\<close>: the server reads what the client has sent, cut by \<open>cut1\<close>, and the client what the server has answered, cut by
  \<open>cut2\<close>. The thread is joined on every path after the connection attempt; without a connection it never returns.
\<close>

definition ex_distributed ::
    "Binding \<Rightarrow> Arrival \<Rightarrow> Dial \<Rightarrow> (bytes \<Rightarrow> net_in list) \<Rightarrow> (bytes \<Rightarrow> net_in list) \<Rightarrow> string + int \<times> string" where
  "ex_distributed b x d cut1 cut2 =
     (case tcp_listen b 0 TcpServer_init {#} of (ok, srv, H) \<Rightarrow>
        if \<not> ok then Inr (1, ''listen failed'' @ newline)
        else case tcp_connect d ''127.0.0.1'' (listen_port srv) TcpClient_init H of (ok, cli, H1) \<Rightarrow>
          if \<not> ok then Inr (1, ''connect failed'' @ newline)
          else case send_frame (cli_sock cli) (Frame_default\<lparr>frame_type := Probe, frame_payload := [9, 8, 7]\<rparr>) of
            Inl e \<Rightarrow> Inl e
          | Inr (sent, s1) \<Rightarrow>
              if \<not> sent then Inr (1, ''send failed'' @ newline)
              else case loop_thread (x\<lparr>ar_in := cut1 (wire s1)\<rparr>) srv of
                Inl e \<Rightarrow> Inl e
              | Inr conn \<Rightarrow>
                  case recv_frame (s1\<lparr>inbound := cut2 (wire conn)\<rparr>) of (r, s2) \<Rightarrow>
                    let ok = (case r of Inl err \<Rightarrow> False | Inr f \<Rightarrow> True);
                        resp = (case r of Inl err \<Rightarrow> Frame_default | Inr f \<Rightarrow> f)
                    in Inr (if ok then 0 else 1,
                      ''distributed loopback ok='' @ (if ok then ''1'' else ''0'') @
                      '' ack_type='' @ dec_nat (unat (MsgType_code (frame_type resp))) @
                      '' payload='' @ dec_nat (length (frame_payload resp)) @ newline))"

section \<open>The loop closes\<close>

text \<open>A socket that takes all the bytes of a frame, in pieces of any size.\<close>

definition takes :: "net_out list \<Rightarrow> MsgType \<Rightarrow> bytes \<Rightarrow> bool" where
  "takes es t p \<longleftrightarrow> fst (send_loop (frame_bytes t p) es)"

lemma frame_sent:
  assumes "sock_ok s" "takes (outbound s) t p" "length p \<le> 1000" "t \<in> set MsgType_all"
  obtains s' where "send_frame s \<lparr>frame_type = t, frame_payload = p\<rparr> = Inr (True, s')" "sock_ok s'"
    "wire s' = wire s @ frame_bytes t p"
proof -
  obtain out es where o: "send_loop (frame_bytes t p) (outbound s) = (True, out, es)"
    using assms(2) by (auto simp: takes_def fst_def split: prod.splits)
  with send_loop_prefix [OF o] have "out = frame_bytes t p" by simp
  with that o assms(1) encode_frame_bytes [OF assms(3,4)] show thesis by (simp add: send_frame_def send_all_def)
qed

lemma recv_exact_keeps: "recv_exact s n = (r, s') \<Longrightarrow> outbound s' = outbound s \<and> wire s' = wire s"
  by (auto simp: recv_exact_def split: if_splits prod.splits)

lemma recv_frame_keeps: "recv_frame s = (r, s') \<Longrightarrow> outbound s' = outbound s \<and> wire s' = wire s"
  by (auto simp: recv_frame_def Let_def split: prod.splits option.splits if_splits dest!: recv_exact_keeps)

lemma frame_arrives:
  assumes "sock_ok s" "stream s = frame_bytes t p" "length p \<le> 1000" "t \<in> set MsgType_all"
  obtains s' where "recv_frame s = (Inr \<lparr>frame_type = t, frame_payload = p\<rparr>, s')" "sock_ok s'"
    "outbound s' = outbound s" "wire s' = wire s"
proof -
  have "decode_frame (stream s) = Inr (\<lparr>frame_type = t, frame_payload = p\<rparr>, length (frame_bytes t p))"
    using decode_encode_frame [OF encode_frame_bytes [OF assms(3,4)], of "[]"] assms(2,4) by simp
  then obtain s' where "recv_frame s = (Inr \<lparr>frame_type = t, frame_payload = p\<rparr>, s')" "sock_ok s'"
    using recv_frame_of_decode [OF assms(1)] by blast
  with recv_frame_keeps show thesis using that by blast
qed

lemma connected_socket:
  assumes "tcp_connect d host port TcpClient_init H = (True, cli, H')"
  shows "sock_ok (cli_sock cli)" "outbound (cli_sock cli) = dl_out d" "wire (cli_sock cli) = []"
  using assms by (auto simp: tcp_connect_def Let_def assign_socket_def split: if_splits)

lemma accepted_socket:
  assumes "listen_ok S" "ar_sock x \<noteq> INVALID_SOCKET" "ar_sock x \<noteq> 0"
  obtains conn H' where "tcp_accept x S TcpSocket_init H = (True, conn, H')" "sock_ok conn" "inbound conn = ar_in x"
    "outbound conn = ar_out x" "wire conn = []"
  using assms by (auto simp: tcp_accept_def Let_def assign_socket_def)




end
