(* ===== verification/Files.thy ===== *)
theory Files
  imports Cli
begin

text \<open>
  \<open>read_file\<close> of src/src/observatory.cpp, which fills a buffer of 64 KiB until the stream ends, and that it gives what the
  rest of the library takes as the contents of a file.
\<close>

text \<open>A read that does not fill the buffer ends the stream; what it got is kept.\<close>

function read_loop :: "bytes \<Rightarrow> bytes" where
  "read_loop rest =
     (let buf = take 65536 rest in
      if length rest < 65536 then buf else buf @ read_loop (drop 65536 rest))"
  by auto
termination
  by (relation "measure length") auto

declare read_loop.simps [simp del]

text \<open>A stream that could not be opened gives nothing.\<close>

definition read_file :: "file_system \<Rightarrow> string \<Rightarrow> bytes" where
  "read_file fs path = (case fs path of None \<Rightarrow> [] | Some b \<Rightarrow> read_loop b)"

lemma read_loop_all: "read_loop bs = bs"
proof (induction bs rule: read_loop.induct)
  case (1 rest)
  show ?case
  proof (cases "length rest < 65536")
    case False
    with 1 have "read_loop (drop 65536 rest) = drop 65536 rest" by simp
    with False show ?thesis by (subst read_loop.simps) (simp add: Let_def del: take_Cons drop_Cons)
  qed (simp add: read_loop.simps)
qed

lemma read_file_contents: "read_file (os_files os) path = file_bytes os path"
  by (simp add: read_file_def file_bytes_def read_loop_all split: option.split)

end
