(* ===== verification/Concurrency.thy ===== *)
theory Concurrency
  imports Workload
begin

text \<open>
  The observatory under several threads. Every member function of \<open>Observatory\<close> is a call (datatype \<open>Call\<close>) with
  the mode in which it takes \<open>impl_->mtx\<close>. A thread performs its calls in three steps each: take the lock, read
  the state, write back and unlock. The histories of finished calls are compared with sequential runs, for which
  the locale \<open>lock_discipline\<close> names what the code has to keep: whatever changes the state is exclusive. The one
  exception in the code is the counter of \<open>snapshot\<close>, which is written under the shared lock. The last section
  interleaves the file operations of two calls of \<open>persist\<close>, which are made without the lock.
\<close>

section \<open>Calls and their locks\<close>

text \<open>The clock, \<open>std::sort\<close> and the iteration order of the unordered maps are arguments of a call.\<close>

datatype Call =
    CallRegister SourceDescriptor Timestamp
  | CallHealth SourceId ReliabilityClass Timestamp
  | CallSetEpoch u64
  | CallIngest PlacementObservation
  | CallDecision PlacementDecision
  | CallOutcome PlacementOutcome
  | CallRecover bytes
  | CallSources "(SourceId, SourceDescriptor) umap \<Rightarrow> (SourceId \<times> SourceDescriptor) list"
  | CallSourceHealth SourceId
  | CallGeneration SourceId
  | CallEpoch
  | CallObservations QueryFilter
  | CallGetDecision PlacementDecisionId
  | CallDecisions QueryFilter
  | CallCandidates PlacementDecisionId
  | CallHasObservation PlacementObservationId
  | CallGetOutcome PlacementDecisionId
  | CallExplain PlacementDecisionId
  | CallCounterfactual PlacementDecisionId "CounterfactualChange list"
  | CallCompare PlacementDecisionId PlacementDecisionId
  | CallReplay PlacementDecisionId
  | CallReplayDecision PlacementDecision
  | CallSnapshot "(SourceId, ReliabilityClass) umap \<Rightarrow> (SourceId \<times> ReliabilityClass) list" Timestamp
  | CallTimeline "(TimelineEntry \<Rightarrow> TimelineEntry \<Rightarrow> bool) \<Rightarrow> TimelineEntry list \<Rightarrow> TimelineEntry list" WorkloadId
  | CallStats i64
  | CallPersist "(SourceId, SourceDescriptor) umap \<Rightarrow> (SourceId \<times> SourceDescriptor) list"
      "(PlacementDecisionId, PlacementOutcome) umap \<Rightarrow> (PlacementDecisionId \<times> PlacementOutcome) list"

datatype Answer =
    AnsVoid
  | AnsIngest IngestResult
  | AnsCount nat
  | AnsSources "SourceDescriptor list"
  | AnsHealth ReliabilityClass
  | AnsWord u64
  | AnsObservations "PlacementObservation list"
  | AnsDecision "PlacementDecision option"
  | AnsDecisions "PlacementDecision list"
  | AnsCandidates CandidateSet
  | AnsBool bool
  | AnsOutcome "PlacementOutcome option"
  | AnsExplanation "fault + PlacementExplanation"
  | AnsCounterfactual "fault + CounterfactualResult list"
  | AnsComparison ComparisonResult
  | AnsReplay "fault + ReplayResult"
  | AnsSnapshot PlacementSnapshot
  | AnsTimeline PlacementTimeline
  | AnsStats Stats
  | AnsImage "SerializationError + bytes"

text \<open>What a call does to the state that it sees. The answer of \<open>persist\<close> is the image it goes on to write.\<close>

fun run_call :: "Call \<Rightarrow> Impl \<Rightarrow> Answer \<times> Impl" where
  "run_call (CallRegister d now) I = (AnsVoid, register_source d now I)"
| "run_call (CallHealth k rc now) I = (AnsVoid, update_source_health k rc now I)"
| "run_call (CallSetEpoch e) I = (AnsVoid, set_coordinator_epoch e I)"
| "run_call (CallIngest ob) I = apfst AnsIngest (ingest ob I)"
| "run_call (CallDecision d) I = apfst AnsIngest (ingest_decision d I)"
| "run_call (CallOutcome x) I = apfst AnsIngest (ingest_outcome x I)"
| "run_call (CallRecover data) I = apfst AnsCount (recover data I)"
| "run_call (CallSources order) I = (AnsSources (sources (\<lambda>I. order (im_sources I)) I), I)"
| "run_call (CallSourceHealth k) I = (AnsHealth (source_health k I), I)"
| "run_call (CallGeneration k) I = (AnsWord (current_source_generation k I), I)"
| "run_call CallEpoch I = (AnsWord (coordinator_epoch I), I)"
| "run_call (CallObservations f) I = (AnsObservations (observations f I), I)"
| "run_call (CallGetDecision k) I = (AnsDecision (get_decision k I), I)"
| "run_call (CallDecisions f) I = (AnsDecisions (decisions f I), I)"
| "run_call (CallCandidates k) I = (AnsCandidates (candidates k I), I)"
| "run_call (CallHasObservation k) I = (AnsBool (has_observation k I), I)"
| "run_call (CallGetOutcome k) I = (AnsOutcome (get_outcome k I), I)"
| "run_call (CallExplain k) I = (AnsExplanation (obs_explain k I), I)"
| "run_call (CallCounterfactual k cs) I = (AnsCounterfactual (obs_counterfactual k cs I), I)"
| "run_call (CallCompare a b) I = (AnsComparison (obs_compare a b I), I)"
| "run_call (CallReplay k) I = (AnsReplay (obs_replay k I), I)"
| "run_call (CallReplayDecision d) I = (AnsReplay (replay_decision d), I)"
| "run_call (CallSnapshot order now) I = apfst AnsSnapshot (snapshot (order (im_src_health I)) now I)"
| "run_call (CallTimeline std_sort k) I = (AnsTimeline (timeline std_sort k I), I)"
| "run_call (CallStats now) I = (AnsStats (stats now I), I)"
| "run_call (CallPersist so oo) I = (AnsImage (persist_image (so (im_sources I)) (oo (im_outcomes I)) I), I)"

text \<open>\<open>std::unique_lock\<close>, \<open>std::shared_lock\<close>, or none (\<open>replay_decision\<close> does not touch the state).\<close>

datatype LockMode = Unlocked | Shared | Exclusive

fun lock_mode :: "Call \<Rightarrow> LockMode" where
  "lock_mode (CallRegister d now) = Exclusive"
| "lock_mode (CallHealth k rc now) = Exclusive"
| "lock_mode (CallSetEpoch e) = Exclusive"
| "lock_mode (CallIngest ob) = Exclusive"
| "lock_mode (CallDecision d) = Exclusive"
| "lock_mode (CallOutcome x) = Exclusive"
| "lock_mode (CallRecover data) = Exclusive"
| "lock_mode (CallReplayDecision d) = Unlocked"
| "lock_mode c = Shared"

fun_cases exclusive_cases: "lock_mode c = Exclusive"
fun_cases unlocked_cases: "lock_mode c = Unlocked"

text \<open>What reaches the shared state when a call that has read \<open>l\<close> ends while the state is \<open>I\<close>: a call that changed
  nothing writes nothing, \<open>snapshot\<close> writes its counter alone, any other call what it has computed from \<open>l\<close>.\<close>

fun commit :: "Call \<Rightarrow> Impl \<Rightarrow> Impl \<Rightarrow> Impl" where
  "commit (CallSnapshot order now) l I = I\<lparr>im_snapshot_count := im_snapshot_count l + 1\<rparr>"
| "commit c l I = (if snd (run_call c l) = l then I else snd (run_call c l))"

text \<open>\<open>std::shared_mutex\<close>: a writer, or any number of readers.\<close>

record SharedMutex =
  mx_writer :: bool
  mx_readers :: nat

definition can_lock :: "LockMode \<Rightarrow> SharedMutex \<Rightarrow> bool" where
  "can_lock m x = (case m of Unlocked \<Rightarrow> True | Shared \<Rightarrow> \<not> mx_writer x | Exclusive \<Rightarrow> \<not> mx_writer x \<and> mx_readers x = 0)"

definition take_lock :: "LockMode \<Rightarrow> SharedMutex \<Rightarrow> SharedMutex" where
  "take_lock m x =
     (case m of Unlocked \<Rightarrow> x | Shared \<Rightarrow> x\<lparr>mx_readers := mx_readers x + 1\<rparr> | Exclusive \<Rightarrow> x\<lparr>mx_writer := True\<rparr>)"

definition drop_lock :: "LockMode \<Rightarrow> SharedMutex \<Rightarrow> SharedMutex" where
  "drop_lock m x =
     (case m of Unlocked \<Rightarrow> x | Shared \<Rightarrow> x\<lparr>mx_readers := mx_readers x - 1\<rparr> | Exclusive \<Rightarrow> x\<lparr>mx_writer := False\<rparr>)"

section \<open>Threads\<close>

text \<open>A thread with the calls it has still to make; a call that has been started is the first of them.\<close>

datatype Phase = Outside | Inside | Seen Impl

record Thread =
  th_calls :: "Call list"
  th_phase :: Phase

record Conc =
  co_state :: Impl
  co_mutex :: SharedMutex
  co_threads :: "Thread list"
  co_history :: "(nat \<times> Call \<times> Answer) list"

definition conc_init :: "Call list list \<Rightarrow> Impl \<Rightarrow> Conc" where
  "conc_init css I =
     \<lparr>co_state = I, co_mutex = \<lparr>mx_writer = False, mx_readers = 0\<rparr>,
      co_threads = map (\<lambda>cs. \<lparr>th_calls = cs, th_phase = Outside\<rparr>) css, co_history = []\<rparr>"

inductive conc_step :: "Conc \<Rightarrow> Conc \<Rightarrow> bool" where
  enter: "\<lbrakk>i < length (co_threads C); co_threads C ! i = \<lparr>th_calls = c # cs, th_phase = Outside\<rparr>;
      can_lock (lock_mode c) (co_mutex C)\<rbrakk> \<Longrightarrow>
    conc_step C (C\<lparr>co_mutex := take_lock (lock_mode c) (co_mutex C),
      co_threads := (co_threads C)[i := \<lparr>th_calls = c # cs, th_phase = Inside\<rparr>]\<rparr>)"
| look: "\<lbrakk>i < length (co_threads C); co_threads C ! i = \<lparr>th_calls = c # cs, th_phase = Inside\<rparr>\<rbrakk> \<Longrightarrow>
    conc_step C (C\<lparr>co_threads := (co_threads C)[i := \<lparr>th_calls = c # cs, th_phase = Seen (co_state C)\<rparr>]\<rparr>)"
| leave: "\<lbrakk>i < length (co_threads C); co_threads C ! i = \<lparr>th_calls = c # cs, th_phase = Seen l\<rparr>\<rbrakk> \<Longrightarrow>
    conc_step C (C\<lparr>co_state := commit c l (co_state C), co_mutex := drop_lock (lock_mode c) (co_mutex C),
      co_threads := (co_threads C)[i := \<lparr>th_calls = cs, th_phase = Outside\<rparr>],
      co_history := co_history C @ [(i, c, fst (run_call c l))]\<rparr>)"

inductive_cases conc_stepE: "conc_step C C'"

abbreviation conc_steps :: "Conc \<Rightarrow> Conc \<Rightarrow> bool" where
  "conc_steps \<equiv> conc_step\<^sup>*\<^sup>*"

definition all_done :: "Conc \<Rightarrow> bool" where
  "all_done C \<longleftrightarrow> list_all (\<lambda>t. th_calls t = []) (co_threads C)"

text \<open>The same calls one after another.\<close>

fun run_calls :: "Call list \<Rightarrow> Impl \<Rightarrow> Answer list \<times> Impl" where
  "run_calls [] I = ([], I)"
| "run_calls (c # cs) I = (case run_call c I of (a, J) \<Rightarrow> apfst (Cons a) (run_calls cs J))"

section \<open>The snapshot counter\<close>

text \<open>States and answers up to the counter. No call but \<open>snapshot\<close> and \<open>stats\<close> looks at it.\<close>

definition uncounted :: "Impl \<Rightarrow> Impl" where
  "uncounted I = I\<lparr>im_snapshot_count := 0\<rparr>"

definition shown :: "Answer \<Rightarrow> Answer" where
  "shown a = (case a of AnsStats s \<Rightarrow> AnsStats (s\<lparr>st_snapshot_count := 0\<rparr>) | _ \<Rightarrow> a)"

named_theorems counter_free

lemma reject_counter [counter_free]: "reject msg (uncounted I) = apsnd uncounted (reject msg I)"
  by (simp add: reject_def uncounted_def)

lemma accept_counter [counter_free]: "accept (uncounted I) = apsnd uncounted (accept I)"
  by (simp add: accept_def uncounted_def Let_def)

lemma adopt_counter [counter_free]: "adopt_authority ob (uncounted I) = uncounted (adopt_authority ob I)"
  by (simp add: adopt_authority_def uncounted_def Let_def current_source_generation_def trusted_boot_def)

lemma store_obs_counter [counter_free]: "store_obs ob (uncounted I) = uncounted (store_obs ob I)"
  by (simp add: store_obs_def index_obs_def uncounted_def Let_def)

lemma store_dec_counter [counter_free]: "store_dec d (uncounted I) = uncounted (store_dec d I)"
  by (simp add: store_dec_def index_dec_def uncounted_def Let_def)

lemma stale_epoch_counter [counter_free]: "stale_epoch e (uncounted I) = stale_epoch e I"
  by (simp add: stale_epoch_def uncounted_def)

lemma fields_counter [counter_free]:
  "im_obs_by_id (uncounted I) = im_obs_by_id I" "im_dec_by_id (uncounted I) = im_dec_by_id I"
  "im_dec (uncounted I) = im_dec I" "im_obs (uncounted I) = im_obs I" "im_outcomes (uncounted I) = im_outcomes I"
  "im_sources (uncounted I) = im_sources I" "im_src_health (uncounted I) = im_src_health I"
  "im_src_gen (uncounted I) = im_src_gen I" "im_src_boot (uncounted I) = im_src_boot I"
  "im_cfg (uncounted I) = im_cfg I" "idx_dec_attempt (uncounted I) = idx_dec_attempt I"
  "im_coordinator (uncounted I) = im_coordinator I" "im_rejected (uncounted I) = im_rejected I"
  by (simp_all add: uncounted_def)

lemma generation_counter [counter_free]: "current_source_generation k (uncounted I) = current_source_generation k I"
  by (simp add: current_source_generation_def counter_free)

lemma trusted_boot_counter [counter_free]: "trusted_boot k (uncounted I) = trusted_boot k I"
  by (simp add: trusted_boot_def counter_free)

lemma update_counter [counter_free]:
  "uncounted I\<lparr>im_outcomes := outs\<rparr> = uncounted (I\<lparr>im_outcomes := outs\<rparr>)"
  "uncounted I\<lparr>im_sources := srcs\<rparr> = uncounted (I\<lparr>im_sources := srcs\<rparr>)"
  "uncounted I\<lparr>im_src_gen := gens\<rparr> = uncounted (I\<lparr>im_src_gen := gens\<rparr>)"
  "uncounted I\<lparr>im_src_boot := boots\<rparr> = uncounted (I\<lparr>im_src_boot := boots\<rparr>)"
  "uncounted I\<lparr>im_coordinator := e\<rparr> = uncounted (I\<lparr>im_coordinator := e\<rparr>)"
  by (simp_all add: uncounted_def)

lemma ingest_counter [counter_free]: "ingest ob (uncounted I) = apsnd uncounted (ingest ob I)"
  by (cases "field_error (obs_fields ob)") (simp_all add: ingest_def Let_def counter_free if_distrib [of "apsnd uncounted"])

lemma ingest_decision_counter [counter_free]: "ingest_decision d (uncounted I) = apsnd uncounted (ingest_decision d I)"
  unfolding ingest_decision_def Let_def counter_free if_distrib [of "apsnd uncounted"] ..

lemma ingest_outcome_counter [counter_free]: "ingest_outcome x (uncounted I) = apsnd uncounted (ingest_outcome x I)"
  by (cases "map_of (im_dec_by_id I) (out_decision_id x)")
    (simp_all add: ingest_outcome_def Let_def counter_free if_distrib [of "apsnd uncounted"])

lemma recover_source_counter [counter_free]: "recover_source d (uncounted I) = uncounted (recover_source d I)"
  by (cases "map_of (im_src_gen I) (src_source_id d)")
    (simp_all add: recover_source_def Let_def counter_free if_distrib [of uncounted])

lemma recover_obs_counter [counter_free]: "recover_obs ob (uncounted I) = uncounted (recover_obs ob I)"
  unfolding recover_obs_def Let_def store_obs_counter fields_counter
  by (simp only: update_counter generation_counter fields_counter if_distrib [of uncounted, symmetric])

lemma apply_record_counter [counter_free]:
  "apply_record kind body (uncounted I) = map_option (apsnd uncounted) (apply_record kind body I)"
  by (cases kind) (simp_all add: apply_record_def counter_free split: sum.split prod.split)

lemma recover_loop_counter [counter_free]: "recover_loop data (uncounted I) n = apsnd uncounted (recover_loop data I n)"
proof (induction data I n rule: recover_loop.induct)
  case (1 data I loaded)
  show ?case
    by (subst (1 2) recover_loop.simps) (auto simp: counter_free 1 split: sum.splits option.splits)
qed

lemma recover_counter [counter_free]: "recover data (uncounted I) = apsnd uncounted (recover data I)"
  by (simp add: recover_def counter_free)

lemma get_decision_counter [counter_free]: "get_decision k (uncounted I) = get_decision k I"
  unfolding get_decision_def counter_free ..

lemma candidates_counter [counter_free]: "candidates k (uncounted I) = candidates k I"
  unfolding candidates_def counter_free ..

text \<open>\<open>uncounted\<close> forgets nothing but the counter.\<close>

lemma uncounted_idem [simp]: "uncounted (uncounted I) = uncounted I"
  by (simp add: uncounted_def)

lemma uncounted_count [simp]: "uncounted (I\<lparr>im_snapshot_count := n\<rparr>) = uncounted I"
  by (simp add: uncounted_def)

lemma consistent_count: "consistent (I\<lparr>im_snapshot_count := n\<rparr>) = consistent I"
  by (simp add: consistent_def inv_defs current_source_generation_def)

section \<open>The discipline of the lock\<close>

text \<open>
  Calls run on a state, and what is not guarded (what \<open>erase\<close> takes from states and \<open>view\<close> from answers) does not
  influence the rest. They take a lock in some mode and commit what they computed: only exclusive calls change the
  state, what they commit is what they computed, and a call without a lock does not depend on the state.
\<close>

locale observed_calls =
  fixes run :: "'c \<Rightarrow> 's \<Rightarrow> 'a \<times> 's"
    and erase :: "'s \<Rightarrow> 's"
    and view :: "'a \<Rightarrow> 'a"
  assumes run_erased: "erase s = erase t \<Longrightarrow>
      erase (snd (run c s)) = erase (snd (run c t)) \<and> view (fst (run c s)) = view (fst (run c t))"
begin

lemma states_agree: "erase s = erase t \<Longrightarrow> erase (fold (\<lambda>c s. snd (run c s)) cs s) = erase (fold (\<lambda>c s. snd (run c s)) cs t)"
proof (induction cs arbitrary: s t)
  case (Cons c cs)
  have "erase (snd (run c s)) = erase (snd (run c t))" using run_erased [OF Cons.prems] ..
  from Cons.IH [OF this] show ?case by simp
qed simp

end

locale lock_discipline = observed_calls run erase view
  for run :: "'c \<Rightarrow> 's \<Rightarrow> 'a \<times> 's" and erase :: "'s \<Rightarrow> 's" and view :: "'a \<Rightarrow> 'a" +
  fixes mode :: "'c \<Rightarrow> LockMode"
    and put :: "'c \<Rightarrow> 's \<Rightarrow> 's \<Rightarrow> 's"
  assumes put_exclusive: "mode c = Exclusive \<Longrightarrow> erase s = erase l \<Longrightarrow> erase (put c l s) = erase (snd (run c l))"
    and put_shared: "mode c \<noteq> Exclusive \<Longrightarrow> erase (put c l s) = erase s"
    and run_shared: "mode c \<noteq> Exclusive \<Longrightarrow> erase (snd (run c s)) = erase s"
    and run_unlocked: "mode c = Unlocked \<Longrightarrow> fst (run c s) = fst (run c t)"
begin

text \<open>A call that ends counts as made in that moment, on the state \<open>j\<close> of the sequential run.\<close>

lemma leaving_call:
  assumes "erase j = erase s" "mode c \<noteq> Unlocked \<Longrightarrow> erase l = erase s"
  shows "erase (snd (run c j)) = erase (put c l s)" "view (fst (run c j)) = view (fst (run c l))"
proof -
  show "erase (snd (run c j)) = erase (put c l s)"
  proof (cases "mode c = Exclusive")
    case True
    then have "erase j = erase l" "erase s = erase l" using assms by simp_all
    then show ?thesis using run_erased [of j l c] put_exclusive [OF True] by simp
  next
    case False
    then show ?thesis using run_shared put_shared assms(1) by simp
  qed
  show "view (fst (run c j)) = view (fst (run c l))"
    using run_erased [of j l c] run_unlocked [of c j l] assms by (cases "mode c = Unlocked") simp_all
qed

end

text \<open>Away from \<open>snapshot\<close> and \<open>stats\<close>, a call does the same without the counter.\<close>

lemma run_call_uncounted:
  "uncounted (snd (run_call c (uncounted I))) = uncounted (snd (run_call c I)) \<and>
    shown (fst (run_call c (uncounted I))) = shown (fst (run_call c I))"
proof (cases c)
  case (CallRegister d now)
  then show ?thesis
    by (cases "map_of (im_src_gen I) (src_source_id d)") (simp_all add: register_source_def uncounted_def Let_def)
qed (simp_all add: counter_free, simp_all add: uncounted_def shown_def update_source_health_def set_coordinator_epoch_def
    sources_def source_health_def coordinator_epoch_def observations_def decisions_def
    has_observation_def get_outcome_def obs_explain_def obs_counterfactual_def obs_compare_def obs_replay_def
    stored_decision_def snapshot_def timeline_def timeline_entries_def stats_def persist_image_def persist_writers_def)

lemma run_call_shared:
  assumes "lock_mode c \<noteq> Exclusive"
  shows "uncounted (snd (run_call c I)) = uncounted I" "uncounted (commit c l I) = uncounted I"
proof -
  show "uncounted (snd (run_call c I)) = uncounted I" using assms by (cases c) (simp_all add: snapshot_def)
  show "uncounted (commit c l I) = uncounted I" using assms by (cases c) simp_all
qed

lemma commit_exclusive:
  assumes "lock_mode c = Exclusive"
  shows "commit c l I = (if snd (run_call c l) = l then I else snd (run_call c l))"
  using assms by (rule exclusive_cases) simp_all

interpretation calls: lock_discipline run_call uncounted shown lock_mode commit
proof unfold_locales
  fix s t c
  assume "uncounted s = uncounted t"
  then show "uncounted (snd (run_call c s)) = uncounted (snd (run_call c t)) \<and>
      shown (fst (run_call c s)) = shown (fst (run_call c t))"
    using run_call_uncounted [of c s] run_call_uncounted [of c t] by simp
next
  fix c s l
  assume "lock_mode c = Exclusive" "uncounted s = uncounted l"
  then show "uncounted (commit c l s) = uncounted (snd (run_call c l))" by (simp add: commit_exclusive)
next
  fix c s t
  assume "lock_mode c = Unlocked"
  then show "fst (run_call c s) = fst (run_call c t)" by (rule unlocked_cases) simp
qed (simp_all add: run_call_shared)

section \<open>Sequential runs\<close>

lemma run_calls_snoc:
  "run_calls (cs @ [c]) I =
     (fst (run_calls cs I) @ [fst (run_call c (snd (run_calls cs I)))], snd (run_call c (snd (run_calls cs I))))"
  by (induction cs arbitrary: I) (simp_all add: split_beta apfst_def)

text \<open>The value of the counter has no influence on anything else.\<close>

lemma run_calls_state: "snd (run_calls cs I) = fold (\<lambda>c s. snd (run_call c s)) cs I"
  by (induction cs arbitrary: I) (simp_all add: split_beta)

lemma counter_is_private:
  "uncounted (snd (run_calls cs (I\<lparr>im_snapshot_count := n\<rparr>))) = uncounted (snd (run_calls cs I))"
  unfolding run_calls_state by (rule calls.states_agree) simp

definition calls_made :: "Conc \<Rightarrow> Call list" where
  "calls_made C = map (\<lambda>(i, c, a). c) (co_history C)"

definition answers_given :: "Conc \<Rightarrow> Answer list" where
  "answers_given C = map (\<lambda>(i, c, a). a) (co_history C)"

text \<open>The calls of one thread in the history.\<close>

definition made_by :: "nat \<Rightarrow> Conc \<Rightarrow> Call list" where
  "made_by i C = map (\<lambda>(i, c, a). c) (filter (\<lambda>(j, c, a). j = i) (co_history C))"

section \<open>Who holds the lock\<close>

definition holding :: "LockMode \<Rightarrow> Thread \<Rightarrow> bool" where
  "holding m t \<longleftrightarrow> th_phase t \<noteq> Outside \<and> (case th_calls t of [] \<Rightarrow> False | c # cs \<Rightarrow> lock_mode c = m)"

definition holders :: "LockMode \<Rightarrow> Conc \<Rightarrow> nat" where
  "holders m C = sum_list (map (\<lambda>t. of_bool (holding m t)) (co_threads C))"

definition mutex_ok :: "Conc \<Rightarrow> bool" where
  "mutex_ok C \<longleftrightarrow> holders Exclusive C = of_bool (mx_writer (co_mutex C)) \<and>
     holders Shared C = mx_readers (co_mutex C) \<and> (mx_writer (co_mutex C) \<longrightarrow> mx_readers (co_mutex C) = 0)"

text \<open>Replacing an element of a list in a sum.\<close>

lemma sum_list_replace:
  fixes f :: "'a \<Rightarrow> 'b::comm_monoid_add"
  shows "i < length xs \<Longrightarrow> sum_list (map f (xs[i := y])) + f (xs ! i) = sum_list (map f xs) + f y"
proof (induction xs arbitrary: i)
  case (Cons x xs)
  then show ?case by (cases i) (simp_all add: ac_simps)
qed simp

lemma sum_list_member_le: "x \<in> set xs \<Longrightarrow> (f x :: nat) \<le> sum_list (map f xs)"
  by (induction xs) auto

lemma no_holder:
  assumes "holders m C = 0" "t \<in> set (co_threads C)"
  shows "\<not> holding m t"
  using assms sum_list_member_le [OF assms(2), of "\<lambda>t. of_bool (holding m t)"] by (simp add: holders_def split: if_splits)

lemma mutex_init: "mutex_ok (conc_init css I)"
  by (simp add: mutex_ok_def conc_init_def holders_def holding_def o_def)

lemma holders_replace:
  assumes "i < length (co_threads C)" "co_threads C' = (co_threads C)[i := t]"
  shows "holders m C' + of_bool (holding m (co_threads C ! i)) = holders m C + of_bool (holding m t)"
  using sum_list_replace [OF assms(1), of "\<lambda>t. of_bool (holding m t) :: nat"] assms(2) by (simp add: holders_def)

lemma holding_simps [simp]:
  "holding m \<lparr>th_calls = c # cs, th_phase = p\<rparr> \<longleftrightarrow> p \<noteq> Outside \<and> lock_mode c = m"
  "\<not> holding m \<lparr>th_calls = cs, th_phase = Outside\<rparr>"
  by (simp_all add: holding_def)

lemma mutex_step:
  assumes "conc_step C C'" "mutex_ok C"
  shows "mutex_ok C'"
  using assms(1)
proof cases
  case (enter i c cs)
  have h: "holders m C' + of_bool (holding m (co_threads C ! i)) =
      holders m C + of_bool (holding m \<lparr>th_calls = c # cs, th_phase = Inside\<rparr>)" for m
    by (rule holders_replace [OF enter(2)]) (simp add: enter(1))
  show ?thesis
    using assms(2) enter(3,4) h [of Exclusive] h [of Shared]
    by (cases "lock_mode c") (auto simp: enter(1) mutex_ok_def can_lock_def take_lock_def)
next
  case (look i c cs)
  have h: "holders m C' + of_bool (holding m (co_threads C ! i)) =
      holders m C + of_bool (holding m \<lparr>th_calls = c # cs, th_phase = Seen (co_state C)\<rparr>)" for m
    by (rule holders_replace [OF look(2)]) (simp add: look(1))
  show ?thesis
    using assms(2) look(3) h [of Exclusive] h [of Shared]
    by (auto simp: look(1) mutex_ok_def)
next
  case (leave i c cs l)
  have h: "holders m C' + of_bool (holding m (co_threads C ! i)) =
      holders m C + of_bool (holding m \<lparr>th_calls = cs, th_phase = Outside\<rparr>)" for m
    by (rule holders_replace [OF leave(2)]) (simp add: leave(1))
  show ?thesis
    using assms(2) leave(3) h [of Exclusive] h [of Shared]
    by (cases "lock_mode c"; cases "mx_writer (co_mutex C)") (auto simp: leave(1) mutex_ok_def drop_lock_def)
qed

section \<open>What the threads have seen\<close>

text \<open>A thread under the lock has seen the state as it is, up to the counter.\<close>

definition seen_ok :: "Conc \<Rightarrow> Thread \<Rightarrow> bool" where
  "seen_ok C t \<longleftrightarrow>
     (case th_phase t of
        Seen l \<Rightarrow> th_calls t \<noteq> [] \<and> (lock_mode (hd (th_calls t)) \<noteq> Unlocked \<longrightarrow> uncounted l = uncounted (co_state C))
      | Inside \<Rightarrow> th_calls t \<noteq> []
      | Outside \<Rightarrow> True)"

definition current :: "Conc \<Rightarrow> bool" where
  "current C \<longleftrightarrow> list_all (seen_ok C) (co_threads C)"

lemma current_init: "current (conc_init css I)"
  by (simp add: current_def conc_init_def list_all_iff seen_ok_def)

lemma currentI:
  assumes "current C" "co_threads C' = (co_threads C)[i := t]" "seen_ok C' t"
    and "\<And>t'. t' \<in> set (co_threads C') \<Longrightarrow> seen_ok C t' \<Longrightarrow> seen_ok C' t'"
  shows "current C'"
proof -
  have "t' = t \<or> t' \<in> set (co_threads C)" if "t' \<in> set (co_threads C')" for t'
    using that set_update_subset_insert [of "co_threads C" i t] assms(2) by auto
  then show ?thesis using assms by (auto simp: current_def list_all_iff)
qed

lemma seen_ok_state: "uncounted (co_state C') = uncounted (co_state C) \<Longrightarrow> seen_ok C t \<Longrightarrow> seen_ok C' t"
  by (auto simp: seen_ok_def split: Phase.splits)

text \<open>When the lock was exclusive, nobody else is under it.\<close>

lemma seen_ok_alone:
  assumes "seen_ok C t" "\<not> holding Exclusive t" "\<not> holding Shared t"
  shows "seen_ok C' t"
  using assms by (cases "th_calls t"; cases "lock_mode (hd (th_calls t))")
    (auto simp: seen_ok_def holding_def split: Phase.splits)

lemma current_step:
  assumes "conc_step C C'" "mutex_ok C" "current C"
  shows "current C'"
  using assms(1)
proof cases
  case (enter i c cs)
  show ?thesis
    by (rule currentI [OF assms(3), where i = i]) (auto simp: enter(1) intro: seen_ok_state, simp add: seen_ok_def)
next
  case (look i c cs)
  show ?thesis
    by (rule currentI [OF assms(3), where i = i]) (auto simp: look(1) intro: seen_ok_state, simp add: seen_ok_def)
next
  case (leave i c cs l)
  show ?thesis
  proof (rule currentI [OF assms(3), where i = i])
    show "co_threads C' = (co_threads C)[i := \<lparr>th_calls = cs, th_phase = Outside\<rparr>]" by (simp add: leave(1))
    show "seen_ok C' \<lparr>th_calls = cs, th_phase = Outside\<rparr>" by (simp add: seen_ok_def)
    fix t' assume t': "t' \<in> set (co_threads C')" "seen_ok C t'"
    show "seen_ok C' t'"
    proof (cases "lock_mode c = Exclusive")
      case True
      have h: "holders m C' + of_bool (holding m (co_threads C ! i)) = holders m C" for m
        using holders_replace [OF leave(2), of C' "\<lparr>th_calls = cs, th_phase = Outside\<rparr>" m] by (simp add: leave(1))
      have "holders Exclusive C' = 0 \<and> holders Shared C' = 0"
        using assms(2) h [of Exclusive] h [of Shared] True leave(3) by (cases "mx_writer (co_mutex C)") (auto simp: mutex_ok_def)
      then show ?thesis using seen_ok_alone [OF t'(2)] no_holder [OF _ t'(1)] by simp
    next
      case False
      then have "uncounted (co_state C') = uncounted (co_state C)" by (simp add: leave(1) run_call_shared)
      then show ?thesis using t'(2) by (rule seen_ok_state)
    qed
  qed
qed

section \<open>Histories are sequential runs\<close>

definition linear :: "Impl \<Rightarrow> Conc \<Rightarrow> bool" where
  "linear I C \<longleftrightarrow> uncounted (snd (run_calls (calls_made C) I)) = uncounted (co_state C) \<and>
     map shown (fst (run_calls (calls_made C) I)) = map shown (answers_given C)"

lemma linear_step:
  assumes "conc_step C C'" "current C" "linear I C"
  shows "linear I C'"
  using assms(1)
proof cases
  case (leave i c cs l)
  let ?J = "snd (run_calls (calls_made C) I)"
  have "seen_ok C (co_threads C ! i)" using assms(2) leave(2) by (simp add: current_def list_all_iff)
  then have "lock_mode c \<noteq> Unlocked \<Longrightarrow> uncounted l = uncounted (co_state C)"
    unfolding leave(3) by (simp add: seen_ok_def)
  moreover have "uncounted ?J = uncounted (co_state C)" using assms(3) by (simp add: linear_def)
  ultimately have "uncounted (snd (run_call c ?J)) = uncounted (commit c l (co_state C))"
    "shown (fst (run_call c ?J)) = shown (fst (run_call c l))"
    using calls.leaving_call by blast+
  then show ?thesis
    using assms(3) by (simp add: leave(1) linear_def calls_made_def answers_given_def run_calls_snoc)
qed (use assms(3) in \<open>simp_all add: linear_def calls_made_def answers_given_def\<close>)

text \<open>Every thread makes its calls in its order, and every call is made by a thread.\<close>

definition in_order :: "Call list list \<Rightarrow> Conc \<Rightarrow> bool" where
  "in_order css C \<longleftrightarrow> map (\<lambda>i. made_by i C @ th_calls (co_threads C ! i)) [0..<length (co_threads C)] = css"

definition balanced :: "Call list list \<Rightarrow> Conc \<Rightarrow> bool" where
  "balanced css C \<longleftrightarrow>
     mset (calls_made C) + sum_list (map (\<lambda>t. mset (th_calls t)) (co_threads C)) = sum_list (map mset css)"

lemma in_order_step:
  assumes "conc_step C C'" "in_order css C"
  shows "in_order css C'"
proof -
  have "length (co_threads C') = length (co_threads C)" using assms(1) by cases simp_all
  moreover have "made_by j C' @ th_calls (co_threads C' ! j) = made_by j C @ th_calls (co_threads C ! j)"
    if "j < length (co_threads C)" for j
    using assms(1) by cases (use that in \<open>auto simp: made_by_def nth_list_update\<close>)
  ultimately show ?thesis using assms(2) by (auto simp: in_order_def cong: map_cong)
qed

lemma balanced_step:
  assumes "conc_step C C'" "balanced css C"
  shows "balanced css C'"
  using assms(1)
proof cases
  case (enter i c cs)
  then show ?thesis using assms(2) sum_list_replace [OF enter(2), of "\<lambda>t. mset (th_calls t)" "\<lparr>th_calls = c # cs, th_phase = Inside\<rparr>"]
    by (simp add: balanced_def calls_made_def)
next
  case (look i c cs)
  then show ?thesis using assms(2) sum_list_replace [OF look(2), of "\<lambda>t. mset (th_calls t)" "\<lparr>th_calls = c # cs, th_phase = Seen (co_state C)\<rparr>"]
    by (simp add: balanced_def calls_made_def)
next
  case (leave i c cs l)
  have m: "calls_made C' = calls_made C @ [c]" by (simp add: leave(1) calls_made_def)
  have t: "sum_list (map (\<lambda>t. mset (th_calls t)) (co_threads C)) =
      sum_list (map (\<lambda>t. mset (th_calls t)) (co_threads C')) + {#c#}"
    using sum_list_replace [OF leave(2), of "\<lambda>t. mset (th_calls t)" "\<lparr>th_calls = cs, th_phase = Outside\<rparr>"]
    by (simp add: leave(1,3))
  show ?thesis using assms(2) unfolding balanced_def m t by (simp add: ac_simps)
qed

text \<open>The invariant of the runs.\<close>

definition conc_ok :: "Call list list \<Rightarrow> Impl \<Rightarrow> Conc \<Rightarrow> bool" where
  "conc_ok css I C \<longleftrightarrow> mutex_ok C \<and> current C \<and> linear I C \<and> in_order css C \<and> balanced css C"

lemma conc_ok_reachable:
  assumes "conc_steps (conc_init css I) C"
  shows "conc_ok css I C"
  using assms
proof (induction rule: rtranclp_induct)
  case base
  have "in_order css (conc_init css I)"
    by (auto simp: in_order_def made_by_def conc_init_def intro!: nth_equalityI)
  then show ?case
    by (simp add: conc_ok_def mutex_init current_init) (simp add: linear_def balanced_def conc_init_def calls_made_def answers_given_def o_def)
next
  case (step C C')
  then show ?case
    by (auto simp: conc_ok_def intro: mutex_step current_step linear_step in_order_step balanced_step)
qed

section \<open>No call waits for ever\<close>

text \<open>The steps that are left: three for a call.\<close>

definition steps_left :: "Thread \<Rightarrow> nat" where
  "steps_left t = 3 * length (th_calls t) - (case th_phase t of Outside \<Rightarrow> 0 | Inside \<Rightarrow> 1 | Seen l \<Rightarrow> 2)"

definition pending :: "Conc \<Rightarrow> nat" where
  "pending C = sum_list (map steps_left (co_threads C))"

lemma pending_step:
  assumes "conc_step C C'"
  shows "pending C = Suc (pending C')"
  using assms
proof cases
  case (enter i c cs)
  then show ?thesis using sum_list_replace [OF enter(2), of steps_left "\<lparr>th_calls = c # cs, th_phase = Inside\<rparr>"]
    by (simp add: pending_def steps_left_def)
next
  case (look i c cs)
  then show ?thesis using sum_list_replace [OF look(2), of steps_left "\<lparr>th_calls = c # cs, th_phase = Seen (co_state C)\<rparr>"]
    by (simp add: pending_def steps_left_def)
next
  case (leave i c cs l)
  then show ?thesis using sum_list_replace [OF leave(2), of steps_left "\<lparr>th_calls = cs, th_phase = Outside\<rparr>"]
    by (simp add: pending_def steps_left_def)
qed

lemma not_stuck:
  assumes "mutex_ok C" "current C" "\<not> all_done C"
  obtains C' where "conc_step C C'"
proof (cases "\<exists>i < length (co_threads C). th_phase (co_threads C ! i) \<noteq> Outside")
  case True
  then obtain i where i: "i < length (co_threads C)" "th_phase (co_threads C ! i) \<noteq> Outside" by blast
  have "seen_ok C (co_threads C ! i)" using assms(2) i(1) by (simp add: current_def list_all_iff)
  then obtain c cs where "th_calls (co_threads C ! i) = c # cs"
    using i(2) by (cases "th_calls (co_threads C ! i)") (auto simp: seen_ok_def split: Phase.splits)
  then have t: "co_threads C ! i = \<lparr>th_calls = c # cs, th_phase = th_phase (co_threads C ! i)\<rparr>" by simp
  show thesis
  proof (cases "th_phase (co_threads C ! i)")
    case Outside
    then show thesis using i(2) by simp
  next
    case Inside
    then show thesis using that look [OF i(1)] t by metis
  next
    case (Seen l)
    then show thesis using that leave [OF i(1)] t by metis
  qed
next
  case False
  from assms(3) obtain i where i: "i < length (co_threads C)" "th_calls (co_threads C ! i) \<noteq> []"
    by (auto simp: all_done_def list_all_length)
  then obtain c cs where "th_calls (co_threads C ! i) = c # cs" by (cases "th_calls (co_threads C ! i)") auto
  with False i(1) have t: "co_threads C ! i = \<lparr>th_calls = c # cs, th_phase = Outside\<rparr>" by simp
  have "map (\<lambda>t. of_bool (holding m t)) (co_threads C) = map (\<lambda>t. 0) (co_threads C)" for m
    using False by (auto simp: holding_def in_set_conv_nth)
  then have "holders m C = 0" for m by (simp add: holders_def)
  then have "\<not> mx_writer (co_mutex C) \<and> mx_readers (co_mutex C) = 0"
    using assms(1) by (simp add: mutex_ok_def)
  then have "can_lock (lock_mode c) (co_mutex C)" by (simp add: can_lock_def split: LockMode.split)
  then show thesis using that enter [OF i(1) t] by blast
qed

lemma can_finish:
  assumes "mutex_ok C" "current C"
  obtains D where "conc_steps C D" "all_done D"
  using assms
proof (induction "pending C" arbitrary: C thesis rule: less_induct)
  case less
  show ?case
  proof (cases "all_done C")
    case False
    then obtain C' where s: "conc_step C C'" using not_stuck less.prems(2,3) by blast
    then obtain D where "conc_steps C' D" "all_done D"
      using less.hyps [of C'] pending_step [OF s] mutex_step [OF s] current_step [OF s] less.prems(2,3) by auto
    then show ?thesis using less.prems(1) s converse_rtranclp_into_rtranclp by metis
  qed (use less.prems(1) in blast)
qed

section \<open>The properties\<close>

text \<open>C10. However the threads interleave, the state and the answers are those of the finished calls made one after
  another, in the order in which they left the lock, and every thread has made its calls in its order: the
  observatory is linearizable. Only the snapshot counter, in the state and in the answers of \<open>stats\<close>, is exempt.\<close>

theorem concurrent_calls_are_sequential:
  assumes "conc_steps (conc_init css I) C"
  shows "uncounted (co_state C) = uncounted (snd (run_calls (calls_made C) I)) \<and>
    map shown (answers_given C) = map shown (fst (run_calls (calls_made C) I)) \<and>
    map (\<lambda>i. made_by i C @ th_calls (co_threads C ! i)) [0..<length (co_threads C)] = css"
  using conc_ok_reachable [OF assms] by (simp add: conc_ok_def linear_def in_order_def)

theorem concurrent_calls_are_sequential_witness:
  "\<exists>C. conc_steps (conc_init [[CallDecision (sample_dec 4)], [CallDecisions QueryFilter_default]] fresh) C \<and> all_done C \<and>
    uncounted (co_state C) = uncounted (snd (run_calls (calls_made C) fresh))"
proof -
  let ?C = "conc_init [[CallDecision (sample_dec 4)], [CallDecisions QueryFilter_default]] fresh"
  obtain D where "conc_steps ?C D" "all_done D" using can_finish [OF mutex_init current_init] by blast
  then show ?thesis using concurrent_calls_are_sequential by blast
qed

text \<open>C12. No call waits for ever: from every state that the threads can reach they can finish all their calls, they
  are stuck in none before, and every step brings the end nearer, so that no schedule runs for ever.\<close>

theorem concurrent_calls_return:
  assumes "conc_steps (conc_init css I) C"
  shows "(\<exists>D. conc_steps C D \<and> all_done D) \<and> (all_done C \<longleftrightarrow> \<not> (\<exists>C'. conc_step C C')) \<and>
    (\<forall>C'. conc_step C C' \<longrightarrow> pending C = Suc (pending C'))"
proof -
  have ok: "mutex_ok C" "current C" using conc_ok_reachable [OF assms] by (simp_all add: conc_ok_def)
  have "\<not> all_done C" if "conc_step C C'" for C'
    using that by (auto simp: all_done_def list_all_length elim!: conc_stepE)
  then show ?thesis using ok by (meson can_finish not_stuck pending_step)
qed

theorem concurrent_calls_return_witness:
  "\<exists>D. conc_steps (conc_init [[CallSetEpoch 3, CallEpoch], [CallStats 0]] fresh) D \<and> all_done D"
  using concurrent_calls_return [OF rtranclp.rtrancl_refl, of "[[CallSetEpoch 3, CallEpoch], [CallStats 0]]" fresh] by blast

text \<open>Two snapshots at a time can count as one: both read the counter before either writes it.\<close>

lemma snapshots_lose_a_count:
  "\<exists>C. conc_steps (conc_init [[CallSnapshot o1 n1], [CallSnapshot o2 n2]] I) C \<and> all_done C \<and>
     im_snapshot_count (co_state C) = im_snapshot_count I + 1 \<and>
     im_snapshot_count (snd (run_calls [CallSnapshot o1 n1, CallSnapshot o2 n2] I)) = im_snapshot_count I + 2"
proof -
  let ?a = "CallSnapshot o1 n1" and ?b = "CallSnapshot o2 n2"
  define st where "st s n ta tb h = \<lparr>co_state = s, co_mutex = \<lparr>mx_writer = False, mx_readers = n\<rparr>, co_threads = [ta, tb],
    co_history = h\<rparr>" for s n ta tb h
  define th where "th cs p = \<lparr>th_calls = cs, th_phase = p\<rparr>" for cs p
  let ?J = "I\<lparr>im_snapshot_count := im_snapshot_count I + 1\<rparr>"
  let ?h = "[(0, ?a, fst (run_call ?a I))]"
  have init: "conc_init [[?a], [?b]] I = st I 0 (th [?a] Outside) (th [?b] Outside) []"
    by (simp add: conc_init_def st_def th_def)
  note defs = st_def th_def can_lock_def take_lock_def drop_lock_def
  have 1: "conc_step (st I 0 (th [?a] Outside) (th [?b] Outside) []) (st I 1 (th [?a] Inside) (th [?b] Outside) [])"
    using enter [of 0 "st I 0 (th [?a] Outside) (th [?b] Outside) []" ?a "[]"] by (simp add: defs)
  have 2: "conc_step (st I 1 (th [?a] Inside) (th [?b] Outside) []) (st I 2 (th [?a] Inside) (th [?b] Inside) [])"
    using enter [of 1 "st I 1 (th [?a] Inside) (th [?b] Outside) []" ?b "[]"] by (simp add: defs numeral_2_eq_2)
  have 3: "conc_step (st I 2 (th [?a] Inside) (th [?b] Inside) []) (st I 2 (th [?a] (Seen I)) (th [?b] Inside) [])"
    using look [of 0 "st I 2 (th [?a] Inside) (th [?b] Inside) []" ?a "[]"] by (simp add: defs)
  have 4: "conc_step (st I 2 (th [?a] (Seen I)) (th [?b] Inside) []) (st I 2 (th [?a] (Seen I)) (th [?b] (Seen I)) [])"
    using look [of 1 "st I 2 (th [?a] (Seen I)) (th [?b] Inside) []" ?b "[]"] by (simp add: defs)
  have 5: "conc_step (st I 2 (th [?a] (Seen I)) (th [?b] (Seen I)) []) (st ?J 1 (th [] Outside) (th [?b] (Seen I)) ?h)"
    using leave [of 0 "st I 2 (th [?a] (Seen I)) (th [?b] (Seen I)) []" ?a "[]" I] by (simp add: defs)
  have 6: "conc_step (st ?J 1 (th [] Outside) (th [?b] (Seen I)) ?h)
      (st ?J 0 (th [] Outside) (th [] Outside) (?h @ [(1, ?b, fst (run_call ?b I))]))"
    using leave [of 1 "st ?J 1 (th [] Outside) (th [?b] (Seen I)) ?h" ?b "[]" I] by (simp add: defs)
  have "conc_steps (conc_init [[?a], [?b]] I) (st ?J 0 (th [] Outside) (th [] Outside) (?h @ [(1, ?b, fst (run_call ?b I))]))"
    unfolding init using 1 2 3 4 5 6 by (meson converse_rtranclp_into_rtranclp r_into_rtranclp)
  then show ?thesis
    by (intro exI conjI) (assumption, simp_all add: all_done_def st_def th_def snapshot_def)
qed

section \<open>Saving at the same time\<close>

text \<open>The file operations of \<open>persist\<close>, each taken to be atomic; a rename without its source fails and changes nothing.\<close>

datatype FileOp = WriteTmp bytes | RemoveOld | RenameTmp

fun file_op :: "string \<Rightarrow> FileOp \<Rightarrow> file_system \<Rightarrow> file_system" where
  "file_op path (WriteTmp img) fs = fs(path @ ''.tmp'' \<mapsto> img)"
| "file_op path RemoveOld fs = fs(path := None)"
| "file_op path RenameTmp fs =
     (case fs (path @ ''.tmp'') of None \<Rightarrow> fs | Some b \<Rightarrow> fs(path \<mapsto> b, path @ ''.tmp'' := None))"

definition persist_ops :: "bytes \<Rightarrow> FileOp list" where
  "persist_ops img = [WriteTmp img, RemoveOld, RenameTmp]"

text \<open>Alone, these operations are the ones of theory Persistence.\<close>

lemma persist_ops_alone: "fold (file_op path) (persist_ops img) fs = last (persist_states path img fs)"
  by (auto simp: persist_ops_def persist_states_def Let_def fun_eq_iff)

text \<open>Two at a time: what is left is never a mixture, but it can be nothing, when one removes what the other has just
  renamed and finds its own temporary file renamed away.\<close>

lemma interleaved_persists_keep_whole_images:
  assumes "ops \<in> shuffles (persist_ops a) (persist_ops b)"
  shows "fold (file_op path) ops fs path \<in> {None, Some a, Some b}" "fold (file_op path) ops fs (path @ ''.tmp'') = None"
  using assms by (auto simp: persist_ops_def)

lemma interleaved_persists_lose_file:
  "\<exists>ops \<in> shuffles (persist_ops a) (persist_ops b). fold (file_op path) ops fs path = None"
proof
  show "[WriteTmp a, WriteTmp b, RemoveOld, RenameTmp, RemoveOld, RenameTmp] \<in> shuffles (persist_ops a) (persist_ops b)"
    by (simp add: persist_ops_def)
qed simp

end
