(* ===== verification/Concurrent_Evidence.thy ===== *)
theory Concurrent_Evidence
  imports Concurrency
begin

text \<open>
  The scenario of src/tests/concurrency.test.cpp for any number of threads, records and interleavings: threads
  that ingest their own decisions, observations and outcomes, each outcome after its decision, with reads in
  between. Nothing is refused and nothing is lost. The proof runs over the calls in the order of the history,
  which is a sequential run by theory Concurrency.
\<close>

section \<open>What the threads send\<close>

definition decisions_in :: "Call list \<Rightarrow> PlacementDecision list" where
  "decisions_in cs = concat (map (\<lambda>c. case c of CallDecision d \<Rightarrow> [d] | _ \<Rightarrow> []) cs)"

definition observations_in :: "Call list \<Rightarrow> PlacementObservation list" where
  "observations_in cs = concat (map (\<lambda>c. case c of CallIngest ob \<Rightarrow> [ob] | _ \<Rightarrow> []) cs)"

definition outcomes_in :: "Call list \<Rightarrow> PlacementOutcome list" where
  "outcomes_in cs = concat (map (\<lambda>c. case c of CallOutcome x \<Rightarrow> [x] | _ \<Rightarrow> []) cs)"

text \<open>Records as the test builds them: decisions whose attempt is numbered like them, observations of sources that
  keep one generation and one boot, outcomes of that attempt. Every other call is a read.\<close>

definition sound_obs :: "(SourceId \<Rightarrow> u64) \<Rightarrow> (SourceId \<Rightarrow> u64) \<Rightarrow> PlacementObservation \<Rightarrow> bool" where
  "sound_obs gen boot ob \<longleftrightarrow> id_valid (obs_observation_id ob) \<and> id_valid (obs_source_id ob) \<and>
     obs_observation_generation ob \<noteq> 0 \<and> obs_source_generation ob \<noteq> 0 \<and>
     obs_source_generation ob = gen (obs_source_id ob) \<and> obs_worker_boot ob = boot (obs_source_id ob) \<and>
     field_error (obs_fields ob) = None"

definition sound_out :: "PlacementOutcome \<Rightarrow> bool" where
  "sound_out x \<longleftrightarrow> id_valid (out_decision_id x) \<and> out_disposition x \<noteq> OutcomeDisposition.Unknown \<and>
     out_attempt_id x = Id (id_value (out_decision_id x))"

definition sound_call :: "(SourceId \<Rightarrow> u64) \<Rightarrow> (SourceId \<Rightarrow> u64) \<Rightarrow> Call \<Rightarrow> bool" where
  "sound_call gen boot c \<longleftrightarrow>
     (case c of
        CallDecision d \<Rightarrow> decision_valid d \<and> own_attempt d
      | CallIngest ob \<Rightarrow> sound_obs gen boot ob
      | CallOutcome x \<Rightarrow> sound_out x
      | _ \<Rightarrow> lock_mode c \<noteq> Exclusive)"

definition sound_calls :: "(SourceId \<Rightarrow> u64) \<Rightarrow> (SourceId \<Rightarrow> u64) \<Rightarrow> Call list \<Rightarrow> bool" where
  "sound_calls gen boot cs \<longleftrightarrow> list_all (sound_call gen boot) cs \<and>
     distinct (map dec_decision_id (decisions_in cs)) \<and> distinct (map obs_observation_id (observations_in cs)) \<and>
     distinct (map out_decision_id (outcomes_in cs))"

text \<open>Outcomes follow their decisions.\<close>

definition ready :: "Call list \<Rightarrow> Call \<Rightarrow> bool" where
  "ready made c =
     (case c of CallOutcome x \<Rightarrow> out_decision_id x \<in> dec_decision_id ` set (decisions_in made) | _ \<Rightarrow> True)"

fun well_ordered :: "Call list \<Rightarrow> Call list \<Rightarrow> bool" where
  "well_ordered made [] = True"
| "well_ordered made (c # cs) = (ready made c \<and> well_ordered (made @ [c]) cs)"

definition accepted :: "Answer \<Rightarrow> bool" where
  "accepted a = (case a of AnsIngest r \<Rightarrow> ing_accepted r | _ \<Rightarrow> True)"

lemma in_snoc [simp]:
  "decisions_in (cs @ [c]) = decisions_in cs @ (case c of CallDecision d \<Rightarrow> [d] | _ \<Rightarrow> [])"
  "observations_in (cs @ [c]) = observations_in cs @ (case c of CallIngest ob \<Rightarrow> [ob] | _ \<Rightarrow> [])"
  "outcomes_in (cs @ [c]) = outcomes_in cs @ (case c of CallOutcome x \<Rightarrow> [x] | _ \<Rightarrow> [])"
  "decisions_in [] = []" "observations_in [] = []" "outcomes_in [] = []"
  by (simp_all add: decisions_in_def observations_in_def outcomes_in_def)

lemma mset_concat_map: "mset xs = mset ys \<Longrightarrow> mset (concat (map f xs)) = mset (concat (map f ys))"
proof -
  have "mset (concat (map f zs)) = \<Sum>\<^sub># (image_mset (\<lambda>x. mset (f x)) (mset zs))" for zs by (induction zs) simp_all
  then show "mset xs = mset ys \<Longrightarrow> mset (concat (map f xs)) = mset (concat (map f ys))" by simp
qed

lemma in_mset:
  assumes "mset xs = mset ys"
  shows "mset (decisions_in xs) = mset (decisions_in ys)" "mset (observations_in xs) = mset (observations_in ys)"
    "mset (outcomes_in xs) = mset (outcomes_in ys)"
  unfolding decisions_in_def observations_in_def outcomes_in_def by (rule mset_concat_map [OF assms])+

lemma distinct_map_mset: "mset xs = mset ys \<Longrightarrow> distinct (map f xs) = distinct (map f ys)"
  by (rule mset_eq_imp_distinct_iff) simp

lemma sound_calls_mset:
  assumes "mset xs = mset ys"
  shows "sound_calls gen boot xs = sound_calls gen boot ys"
  unfolding sound_calls_def list_all_iff mset_eq_setD [OF assms] in_mset [OF assms, THEN distinct_map_mset] ..

lemma well_ordered_snoc: "well_ordered made (cs @ [c]) \<longleftrightarrow> well_ordered made cs \<and> ready (made @ cs) c"
  by (induction cs arbitrary: made) simp_all

lemma well_ordered_split: "well_ordered made (cs @ c # ds) \<Longrightarrow> ready (made @ cs) c"
  by (induction cs arbitrary: made) fastforce+

lemma ready_mono: "ready xs c \<Longrightarrow> set xs \<subseteq> set ys \<Longrightarrow> ready ys c"
  by (auto simp: ready_def decisions_in_def split: Call.splits)

section \<open>A sequential run of such calls\<close>

text \<open>The trusted generation and boot of every source are its own, once it has been heard of.\<close>

definition trusts :: "(SourceId \<Rightarrow> u64) \<Rightarrow> (SourceId \<Rightarrow> u64) \<Rightarrow> Impl \<Rightarrow> bool" where
  "trusts gen boot I \<longleftrightarrow>
     (\<forall>k. current_source_generation k I \<in> {0, gen k} \<and> trusted_boot k I \<in> {None, Some (boot k)})"

lemma trusts_cong:
  "im_src_gen I = im_src_gen J \<Longrightarrow> im_src_boot I = im_src_boot J \<Longrightarrow> trusts gen boot I = trusts gen boot J"
  by (simp add: trusts_def current_source_generation_def trusted_boot_def)

lemma trusts_adopt:
  assumes "trusts gen boot I" "sound_obs gen boot ob" "authority_ok I"
  shows "trusts gen boot (adopt_authority ob I)"
  using assms
  by (auto simp: trusts_def adopt_authority_def Let_def sound_obs_def authority_ok_def current_source_generation_def
      trusted_boot_def smap_lookup_put)

definition evidence :: "(SourceId \<Rightarrow> u64) \<Rightarrow> (SourceId \<Rightarrow> u64) \<Rightarrow> Call list \<Rightarrow> Impl \<Rightarrow> bool" where
  "evidence gen boot cs I \<longleftrightarrow> consistent I \<and> trusts gen boot I \<and> im_coordinator I = 0 \<and> im_rejected I = 0 \<and>
     im_dec I = decisions_in cs \<and> im_obs I = map correlated (observations_in cs) \<and>
     fst ` set (im_outcomes I) = out_decision_id ` set (outcomes_in cs) \<and>
     length (im_outcomes I) = length (outcomes_in cs)"

lemma evidence_decision:
  assumes "evidence gen boot cs I" "sound_calls gen boot (cs @ [CallDecision d])"
  shows "ingest_decision d I = accept (store_dec d I)" "evidence gen boot (cs @ [CallDecision d]) (snd (accept (store_dec d I)))"
proof -
  have "own_attempt e" if "e \<in> set (decisions_in cs)" for e
    using assms(2) that by (auto simp: sound_calls_def sound_call_def decisions_in_def list_all_iff split: Call.splits)
  then have "decision_admissible d I"
    using assms by (intro own_attempt_admissible) (auto simp: evidence_def sound_calls_def sound_call_def list_all_iff)
  then show eq: "ingest_decision d I = accept (store_dec d I)"
    by (cases rule: ingest_decision_cases [of d I]) simp_all
  have "consistent (snd (accept (store_dec d I)))"
    using consistent_ingest_decision [of I d] assms(1) by (simp add: eq evidence_def del: consistent_accept)
  then show "evidence gen boot (cs @ [CallDecision d]) (snd (accept (store_dec d I)))"
    using assms(1) trusts_cong [of "snd (accept (store_dec d I))" I gen boot] by (simp add: evidence_def accept_def Let_def)
qed

lemma evidence_observation:
  assumes "evidence gen boot cs I" "sound_calls gen boot (cs @ [CallIngest ob])"
  defines "J \<equiv> store_obs (correlated ob) (adopt_authority ob I)"
  shows "ingest ob I = accept J" "evidence gen boot (cs @ [CallIngest ob]) (snd (accept J))"
proof -
  have s: "sound_obs gen boot ob" and new: "obs_observation_id ob \<notin> obs_observation_id ` set (im_obs I)"
    using assms(1,2) by (auto simp: sound_calls_def sound_call_def evidence_def)
  have t: "trusts gen boot I" and ok: "authority_ok I" and ix: "obs_indexed I"
    using assms(1) by (simp_all add: evidence_def consistent_def)
  have "unique_exact obs_observation_id (im_obs I) (im_obs_by_id I)" using ix by (simp add: obs_indexed_def)
  then have "map_of (im_obs_by_id I) (obs_observation_id ob) = None" using new by (simp add: unique_exact_None)
  moreover have "current_source_generation (obs_source_id ob) I \<in> {0, obs_source_generation ob}"
    "trusted_boot (obs_source_id ob) I \<in> {None, Some (obs_worker_boot ob)}"
    using t s by (auto simp: trusts_def sound_obs_def)
  ultimately have "obs_authorised ob I" using s by (auto simp: obs_authorised_def sound_obs_def)
  moreover have "obs_content_ok ob I"
    using assms(1) s by (simp add: obs_content_ok_def stale_epoch_def evidence_def sound_obs_def)
  ultimately show eq: "ingest ob I = accept J" unfolding J_def by (rule ingest_accepts)
  have "consistent (snd (accept J))"
    using consistent_ingest [of I ob] assms(1) by (simp add: eq evidence_def del: consistent_accept)
  moreover have "trusts gen boot (snd (accept J))"
    using trusts_adopt [OF t s ok] trusts_cong [of "snd (accept J)" "adopt_authority ob I" gen boot]
    by (simp add: accept_def Let_def J_def)
  ultimately show "evidence gen boot (cs @ [CallIngest ob]) (snd (accept J))"
    using assms(1) by (simp add: evidence_def accept_def Let_def J_def)
qed

lemma evidence_outcome:
  assumes "evidence gen boot cs I" "sound_calls gen boot (cs @ [CallOutcome x])" "ready cs (CallOutcome x)"
  defines "J \<equiv> I\<lparr>im_outcomes := smap_put (out_decision_id x) x (im_outcomes I)\<rparr>"
  shows "ingest_outcome x I = accept J" "evidence gen boot (cs @ [CallOutcome x]) (snd (accept J))"
proof -
  have own: "own_attempt e" if "e \<in> set (decisions_in cs)" for e
    using assms(2) that by (auto simp: sound_calls_def sound_call_def decisions_in_def list_all_iff split: Call.splits)
  have s: "sound_out x" and new: "out_decision_id x \<notin> fst ` set (im_outcomes I)"
    using assms(1,2) by (auto simp: sound_calls_def sound_call_def evidence_def)
  then have none: "map_of (im_outcomes I) (out_decision_id x) = None" by (simp add: map_of_eq_None_iff)
  obtain i where i: "i < length (im_dec I)" "dec_decision_id (im_dec I ! i) = out_decision_id x"
    using assms(1,3) by (auto simp: ready_def evidence_def in_set_conv_nth)
  then have "map_of (im_dec_by_id I) (out_decision_id x) = Some i"
    using assms(1) by (auto simp: evidence_def consistent_def dec_indexed_def unique_exact_def)
  moreover have "dec_attempt_id (im_dec I ! i) = out_attempt_id x"
    using own [of "im_dec I ! i"] s i assms(1) by (simp add: own_attempt_def sound_out_def evidence_def)
  ultimately have adm: "outcome_admissible x I"
    using s none by (simp add: outcome_admissible_def sound_out_def)
  then show eq: "ingest_outcome x I = accept J"
    unfolding J_def by (cases rule: ingest_outcome_cases [of x I]) simp_all
  have "consistent (snd (accept J))"
    using consistent_ingest_outcome [of I x] assms(1) by (simp add: eq evidence_def del: consistent_accept)
  then show "evidence gen boot (cs @ [CallOutcome x]) (snd (accept J))"
    using assms(1) none trusts_cong [of "snd (accept J)" I gen boot]
    by (simp add: evidence_def accept_def Let_def J_def smap_put_keys length_smap_put)
qed

lemma evidence_read:
  assumes "evidence gen boot cs I" "lock_mode c \<noteq> Exclusive"
  shows "evidence gen boot (cs @ [c]) (snd (run_call c I))" "accepted (fst (run_call c I))"
proof -
  have "trusts gen boot (I\<lparr>im_snapshot_count := n\<rparr>)" for n
    using assms(1) trusts_cong [of "I\<lparr>im_snapshot_count := n\<rparr>" I gen boot] by (simp add: evidence_def)
  then show "evidence gen boot (cs @ [c]) (snd (run_call c I))"
    using assms by (cases c) (simp_all add: evidence_def snapshot_def consistent_count)
  show "accepted (fst (run_call c I))" using assms(2) by (cases c) (simp_all add: accepted_def)
qed

lemma evidence_call:
  assumes "evidence gen boot cs I" "sound_calls gen boot (cs @ [c])" "ready cs c"
  shows "evidence gen boot (cs @ [c]) (snd (run_call c I)) \<and> accepted (fst (run_call c I))"
proof (cases "lock_mode c = Exclusive")
  case True
  have "sound_call gen boot c" using assms(2) by (simp add: sound_calls_def)
  with True consider (d) d where "c = CallDecision d" | (ob) ob where "c = CallIngest ob" | (x) x where "c = CallOutcome x"
    by (auto simp: sound_call_def elim!: exclusive_cases)
  then show ?thesis
  proof cases
    case d
    then show ?thesis using evidence_decision [of gen boot cs I d] assms by (simp add: accepted_def) (simp add: accept_def Let_def)
  next
    case ob
    then show ?thesis using evidence_observation [of gen boot cs I ob] assms by (simp add: accepted_def) (simp add: accept_def Let_def)
  next
    case x
    then show ?thesis using evidence_outcome [of gen boot cs I x] assms by (simp add: accepted_def) (simp add: accept_def Let_def)
  qed
qed (use evidence_read [OF assms(1)] in blast)

lemma evidence_run:
  assumes "sound_calls gen boot cs" "well_ordered [] cs"
  shows "evidence gen boot cs (snd (run_calls cs fresh)) \<and> list_all accepted (fst (run_calls cs fresh))"
  using assms
proof (induction cs rule: rev_induct)
  case Nil
  show ?case
    by (simp add: evidence_def consistent_init) (simp add: trusts_def Impl_init_def current_source_generation_def trusted_boot_def)
next
  case (snoc c cs)
  then have "sound_calls gen boot cs" "well_ordered [] cs" "ready cs c"
    by (simp_all add: sound_calls_def well_ordered_snoc)
  then show ?case using snoc evidence_call [of gen boot cs _ c] by (simp add: run_calls_snoc)
qed

section \<open>Any interleaving\<close>

lemma ordered_step:
  assumes "conc_step C C'" "in_order css C" "list_all (well_ordered []) css" "well_ordered [] (calls_made C)"
  shows "well_ordered [] (calls_made C')"
  using assms(1)
proof cases
  case (leave i c cs l)
  have "css ! i = made_by i C @ c # cs" using assms(2) leave(2,3) by (auto simp: in_order_def)
  moreover have "i < length css" using assms(2) leave(2) by (auto simp: in_order_def)
  ultimately have "well_ordered [] (made_by i C @ c # cs)" using assms(3) by (metis list_all_length)
  then have "ready (made_by i C) c" using well_ordered_split by fastforce
  then have "ready (calls_made C) c" by (rule ready_mono) (force simp: made_by_def calls_made_def)
  then show ?thesis
    using assms(4) by (simp add: leave(1) calls_made_def well_ordered_snoc)
qed (use assms(4) in \<open>simp_all add: calls_made_def\<close>)

lemma ordered_reachable:
  assumes "conc_steps (conc_init css I) C" "list_all (well_ordered []) css"
  shows "well_ordered [] (calls_made C)"
  using assms(1)
proof (induction rule: rtranclp_induct)
  case (step C C')
  then show ?case
    using conc_ok_reachable [OF step(1)] ordered_step [OF step(2) _ assms(2)] by (simp add: conc_ok_def)
qed (simp add: calls_made_def conc_init_def)

lemma all_calls_made:
  assumes "balanced css C" "all_done C"
  shows "mset (calls_made C) = mset (concat css)"
proof -
  have "sum_list (map mset css) = mset (concat css)" by (induction css) simp_all
  moreover have "sum_list (map (\<lambda>t. mset (th_calls t)) (co_threads C)) = {#}"
  proof -
    have "sum_list (map (\<lambda>t. mset (th_calls t)) ts) = {#}" if "list_all (\<lambda>t. th_calls t = []) ts" for ts
      using that by (induction ts) simp_all
    then show ?thesis using assms(2) by (simp only: all_done_def)
  qed
  ultimately show ?thesis using assms(1) by (simp add: balanced_def)
qed

lemma accepted_shown: "accepted (shown a) = accepted a"
  by (simp add: accepted_def shown_def split: Answer.split)


definition sample_threads :: "Call list list" where
  "sample_threads =
     [[CallDecision ((sample_dec 4)\<lparr>dec_attempt_id := Id 4\<rparr>), CallOutcome ((sample_out 4)\<lparr>out_attempt_id := Id 4\<rparr>), CallStats 0],
      [CallIngest (sample_obs 1 1 7), CallReplay (Id 4),
       CallDecision ((sample_dec 5)\<lparr>dec_attempt_id := Id 5\<rparr>), CallOutcome ((sample_out 5)\<lparr>out_attempt_id := Id 5\<rparr>)]]"


end
